(* ===== verification/Prelude.thy ===== *)
theory Prelude
  imports Main "HOL-Library.AList" "HOL-Library.Sublist" "HOL-Library.Multiset"
begin

text \<open>
  What every theory of the development shares: the result of a Go call (a value, an error, or
  a panic), sequencing of state-passing calls, Go maps, loops with early return, and the few
  functions of Go's \<^verbatim>\<open>strings\<close>, \<^verbatim>\<open>strconv\<close> and \<^verbatim>\<open>fmt\<close> packages the sources use.
\<close>

named_theorems plan_simps \<open>functional characterisations of the engine's planning functions\<close>
named_theorems map_simps \<open>lookups in updated Go maps\<close>
named_theorems go_path \<open>laws of filepath.Clean and filepath.Join\<close>

section \<open>Results: values, errors and panics\<close>

text \<open>
  A Go function that returns \<^verbatim>\<open>(T, error)\<close> returns \<open>Ok\<close> or \<open>Err\<close> (the error's text; the
  wrapper \<^verbatim>\<open>errors.Trace\<close> adds a stack trace only, so it is the identity here); a run-time
  panic (nil dereference, write to a nil map, failed type assertion, index out of range) is
  \<open>Panic\<close>.
\<close>

datatype 'a result = Ok 'a | Err string | Panic string

fun is_ok :: "'a result \<Rightarrow> bool" where
  "is_ok (Ok _) = True"
| "is_ok _ = False"

fun rbind :: "'a result \<Rightarrow> ('a \<Rightarrow> 'b result) \<Rightarrow> 'b result" where
  "rbind (Ok x) k = k x"
| "rbind (Err e) k = Err e"
| "rbind (Panic p) k = Panic p"

lemma rbind_Ok_iff: "rbind m k = Ok y \<longleftrightarrow> (\<exists>x. m = Ok x \<and> k x = Ok y)"
  by (cases m) auto

lemma rbind_cong [fundef_cong]:
  "m = m' \<Longrightarrow> (\<And>x. m' = Ok x \<Longrightarrow> k x = k' x) \<Longrightarrow> rbind m k = rbind m' k'"
  by (cases m') auto

fun rmap :: "('a \<Rightarrow> 'b) \<Rightarrow> 'a result \<Rightarrow> 'b result" where
  "rmap f (Ok x) = Ok (f x)"
| "rmap f (Err e) = Err e"
| "rmap f (Panic p) = Panic p"

text \<open>
  A call that changes state returns the result and the new state, also when it fails: what was
  changed before the failure stays changed. \<open>sbind\<close> is \<^verbatim>\<open>if err != nil { return err }\<close>.
\<close>

fun sbind :: "'a result \<times> 's \<Rightarrow> ('a \<Rightarrow> 's \<Rightarrow> 'b result \<times> 's) \<Rightarrow> 'b result \<times> 's" where
  "sbind (Ok x, s) k = k x s"
| "sbind (Err e, s) k = (Err e, s)"
| "sbind (Panic p, s) k = (Panic p, s)"

lemma sbind_Ok_iff: "sbind m k = (Ok y, t) \<longleftrightarrow> (\<exists>x s. m = (Ok x, s) \<and> k x s = (Ok y, t))"
  by (cases m; cases "fst m") auto

lemma sbind_split:
  "P (sbind m k) \<longleftrightarrow>
     (\<forall>x s. m = (Ok x, s) \<longrightarrow> P (k x s)) \<and>
     (\<forall>e s. m = (Err e, s) \<longrightarrow> P (Err e, s)) \<and>
     (\<forall>p s. m = (Panic p, s) \<longrightarrow> P (Panic p, s))"
  by (cases m; cases "fst m") auto

lemma sbind_cong [fundef_cong]:
  "m = m' \<Longrightarrow> (\<And>x s. m' = (Ok x, s) \<Longrightarrow> k x s = k' x s) \<Longrightarrow> sbind m k = sbind m' k'"
  by (cases m'; cases "fst m'") auto

text \<open>
  \<^verbatim>\<open>if err := f(); err != nil { log }\<close>: the error is only logged. A panic still propagates.
\<close>

fun slog :: "'a result \<times> 's \<Rightarrow> ('s \<Rightarrow> 'b result \<times> 's) \<Rightarrow> 'b result \<times> 's" where
  "slog (Ok x, s) k = k s"
| "slog (Err e, s) k = k s"
| "slog (Panic p, s) k = (Panic p, s)"

text \<open>A \<^verbatim>\<open>for range\<close> loop whose body may return early with an error.\<close>

fun sfor :: "('a \<Rightarrow> 's \<Rightarrow> unit result \<times> 's) \<Rightarrow> 'a list \<Rightarrow> 's \<Rightarrow> unit result \<times> 's" where
  "sfor f [] s = (Ok (), s)"
| "sfor f (x # xs) s = sbind (f x s) (\<lambda>_ s'. sfor f xs s')"

lemma sfor_Cons_Ok: "sfor f (x # xs) s = (Ok (), t) \<longleftrightarrow>
    (\<exists>s1. f x s = (Ok (), s1) \<and> sfor f xs s1 = (Ok (), t))"
  by (simp add: sbind_Ok_iff)

lemma sfor_cong [fundef_cong]:
  assumes "xs = ys" and "s = t" and "\<And>x s. x \<in> set ys \<Longrightarrow> f x s = g x s"
  shows "sfor f xs s = sfor g ys t"
proof -
  have "(\<And>x s. x \<in> set ys \<Longrightarrow> f x s = g x s) \<Longrightarrow> sfor f ys t = sfor g ys t"
  proof (induction ys arbitrary: t)
    case Nil
    then show ?case by simp
  next
    case (Cons y ys)
    then have hd: "f y t = g y t" and tl: "sfor f ys = sfor g ys"
      by auto
    show ?case by (simp add: hd tl)
  qed
  with assms show ?thesis by simp
qed

text \<open>An invariant of the body is an invariant of the loop, whatever the result.\<close>

lemma sfor_inv:
  assumes "I s" and "\<And>x s. x \<in> set xs \<Longrightarrow> I s \<Longrightarrow> I (snd (f x s))"
  shows "I (snd (sfor f xs s))"
  using assms
proof (induction xs arbitrary: s)
  case Nil
  then show ?case by simp
next
  case (Cons x xs)
  from Cons.prems have hd: "I (snd (f x s))" by simp
  show ?case
  proof (cases "f x s")
    case (Pair r s')
    with hd Cons show ?thesis by (cases r) auto
  qed
qed

lemma sbind_inv:
  assumes "I (snd m)" and "\<And>x s. m = (Ok x, s) \<Longrightarrow> I s \<Longrightarrow> I (snd (k x s))"
  shows "I (snd (sbind m k))"
proof (cases m)
  case (Pair r s)
  with assms show ?thesis by (cases r) auto
qed

fun rfor :: "('a \<Rightarrow> 's \<Rightarrow> 's result) \<Rightarrow> 'a list \<Rightarrow> 's \<Rightarrow> 's result" where
  "rfor f [] s = Ok s"
| "rfor f (x # xs) s = rbind (f x s) (\<lambda>s'. rfor f xs s')"

lemma rfor_inv:
  assumes "rfor f xs s = Ok t" and "I s"
    and "\<And>x s s'. x \<in> set xs \<Longrightarrow> I s \<Longrightarrow> f x s = Ok s' \<Longrightarrow> I s'"
  shows "I t"
  using assms
proof (induction xs arbitrary: s)
  case Nil
  then show ?case by simp
next
  case (Cons x xs)
  from Cons.prems(1) obtain s' where s': "f x s = Ok s'" "rfor f xs s' = Ok t"
    by (auto simp: rbind_Ok_iff)
  with Cons.prems have "I s'" by auto
  with s'(2) Cons.prems(3) show ?case by (intro Cons.IH) auto
qed

text \<open>A loop that appends one converted element per round and returns at the first error.\<close>

fun rmapM :: "('a \<Rightarrow> 'b result) \<Rightarrow> 'a list \<Rightarrow> 'b list result" where
  "rmapM f [] = Ok []"
| "rmapM f (x # xs) = rbind (f x) (\<lambda>y. rbind (rmapM f xs) (\<lambda>ys. Ok (y # ys)))"

lemma rmapM_Ok: "rmapM f xs = Ok ys \<longleftrightarrow> list_all2 (\<lambda>x y. f x = Ok y) xs ys"
  by (induction xs arbitrary: ys) (auto simp: rbind_Ok_iff list_all2_Cons1)

lemma rfor_append: "rfor f (xs @ ys) s = rbind (rfor f xs s) (rfor f ys)"
proof (induction xs arbitrary: s)
  case Nil
  then show ?case by simp
next
  case (Cons x xs)
  then show ?case by (cases "f x s") auto
qed

section \<open>Go maps\<close>

text \<open>
  A Go map is an association list with distinct keys; the position of an entry is the moment
  at which a \<^verbatim>\<open>range\<close> visits it. Go leaves that order open: theorems quantify over the lists a
  function receives, which covers every order, and a \<^verbatim>\<open>range\<close> over a map the function built
  itself goes through an explicit permutation argument, of which only \<open>range_ok\<close> is known.
\<close>

type_synonym ('k, 'v) gomap = "('k \<times> 'v) list"

abbreviation mget :: "('k, 'v) gomap \<Rightarrow> 'k \<Rightarrow> 'v option" where
  "mget \<equiv> map_of"

abbreviation mput :: "'k \<Rightarrow> 'v \<Rightarrow> ('k, 'v) gomap \<Rightarrow> ('k, 'v) gomap" where
  "mput \<equiv> AList.update"

abbreviation mdel :: "'k \<Rightarrow> ('k, 'v) gomap \<Rightarrow> ('k, 'v) gomap" where
  "mdel \<equiv> AList.delete"

abbreviation keys :: "('k, 'v) gomap \<Rightarrow> 'k set" where
  "keys m \<equiv> fst ` set m"

definition gomap :: "('k, 'v) gomap \<Rightarrow> bool" where
  "gomap m \<longleftrightarrow> distinct (map fst m)"

definition range_ok :: "(('k, 'v) gomap \<Rightarrow> ('k, 'v) gomap) \<Rightarrow> bool" where
  "range_ok rng \<longleftrightarrow> (\<forall>m. mset (rng m) = mset m)"

text \<open>\<^verbatim>\<open>delete(m, k)\<close> for every key of a list.\<close>

definition mdels :: "'k list \<Rightarrow> ('k, 'v) gomap \<Rightarrow> ('k, 'v) gomap" where
  "mdels ks m = fold mdel ks m"

lemma mget_mput [map_simps]: "mget (mput k v m) = (mget m)(k \<mapsto> v)"
  by (simp add: update_conv')

lemma mget_mdel [map_simps]: "mget (mdel k m) = (mget m)(k := None)"
  by (simp add: delete_conv')

lemma mget_mdels [map_simps]: "mget (mdels ks m) k = (if k \<in> set ks then None else mget m k)"
  unfolding mdels_def
  by (induction ks arbitrary: m) (auto simp: map_simps)

lemma mput_fresh: "k \<notin> keys m \<Longrightarrow> mput k v m = m @ [(k, v)]"
  by (induction m) auto

lemma gomap_Nil [simp]: "gomap []"
  by (simp add: gomap_def)

lemma gomap_mput [simp]: "gomap m \<Longrightarrow> gomap (mput k v m)"
  by (simp add: gomap_def distinct_update)

lemma gomap_mdel [simp]: "gomap m \<Longrightarrow> gomap (mdel k m)"
  by (simp add: gomap_def distinct_delete)

lemma gomap_mdels [simp]: "gomap m \<Longrightarrow> gomap (mdels ks m)"
  unfolding mdels_def by (induction ks arbitrary: m) auto

lemma gomap_mget_iff: "gomap m \<Longrightarrow> mget m k = Some v \<longleftrightarrow> (k, v) \<in> set m"
  by (auto simp: gomap_def)

lemma keys_dom: "keys m = dom (mget m)"
  by (simp add: dom_map_of_conv_image_fst)

lemma mget_None_iff: "mget m k = None \<longleftrightarrow> k \<notin> keys m"
  by (simp add: map_of_eq_None_iff)

lemma range_ok_set: "range_ok rng \<Longrightarrow> set (rng m) = set m"
  unfolding range_ok_def by (metis set_mset_mset)

lemma range_ok_gomap:
  assumes "range_ok rng" and "gomap m"
  shows "gomap (rng m)"
proof -
  from assms(1) have "mset (map fst (rng m)) = mset (map fst m)"
    by (simp add: range_ok_def)
  with assms(2) show ?thesis
    unfolding gomap_def by (metis distinct_count_atmost_1 set_mset_mset)
qed

lemma range_ok_mget:
  assumes "range_ok rng" and "gomap m"
  shows "mget (rng m) = mget m"
proof
  fix k
  show "mget (rng m) k = mget m k"
    using gomap_mget_iff[OF assms(2), of k] gomap_mget_iff[OF range_ok_gomap[OF assms], of k]
    by (metis assms(1) not_None_eq range_ok_set)
qed

lemma range_ok_id: "range_ok (\<lambda>m. m)"
  by (simp add: range_ok_def)

lemma range_ok_rev: "range_ok rev"
  by (simp add: range_ok_def)

section \<open>Strings\<close>

text \<open>\<^verbatim>\<open>strings.Contains(s, sub)\<close>.\<close>

fun contains :: "string \<Rightarrow> string \<Rightarrow> bool" where
  "contains [] sub = (sub = [])"
| "contains (c # s) sub = (prefix sub (c # s) \<or> contains s sub)"

lemma contains_sublist: "contains s sub \<longleftrightarrow> sublist sub s"
  by (induction s) (auto simp: sublist_Cons_right)

text \<open>\<^verbatim>\<open>strings.HasPrefix(s, p)\<close> and \<^verbatim>\<open>strings.TrimPrefix\<close>.\<close>

definition hasPrefix :: "string \<Rightarrow> string \<Rightarrow> bool" where
  "hasPrefix s p \<longleftrightarrow> take (length p) s = p"

definition trimPrefix :: "string \<Rightarrow> string \<Rightarrow> string" where
  "trimPrefix s p = (if hasPrefix s p then drop (length p) s else s)"

lemma hasPrefix_iff: "hasPrefix s p \<longleftrightarrow> prefix p s"
  unfolding hasPrefix_def by (metis append_eq_conv_conj append_take_drop_id prefix_def)

text \<open>\<^verbatim>\<open>strings.ToLower\<close> on ASCII.\<close>

definition toLower :: "string \<Rightarrow> string" where
  "toLower s = map (\<lambda>c. let n = of_char c :: nat in if 65 \<le> n \<and> n \<le> 90 then char_of (n + 32) else c) s"

text \<open>\<^verbatim>\<open>strings.Split(s, sep)\<close> for a one-character separator; never the empty list.\<close>

fun split :: "char \<Rightarrow> string \<Rightarrow> string list" where
  "split c [] = [[]]"
| "split c (x # s) =
     (if x = c then [] # split c s
      else (case split c s of [] \<Rightarrow> [[x]] | w # ws \<Rightarrow> (x # w) # ws))"

lemma split_nonempty [simp]: "split c s \<noteq> []"
  by (cases s) (auto split: list.splits)

lemma append_sep_inject:
  "c \<notin> set a \<Longrightarrow> c \<notin> set b \<Longrightarrow> a @ c # x = b @ c # y \<longleftrightarrow> a = b \<and> x = y"
proof (induction a arbitrary: b)
  case Nil
  then show ?case by (cases b) auto
next
  case (Cons z a)
  then show ?case by (cases b) auto
qed

text \<open>\<^verbatim>\<open>strings.Join(xs, sep)\<close>.\<close>

fun join :: "string \<Rightarrow> string list \<Rightarrow> string" where
  "join sep [] = []"
| "join sep [x] = x"
| "join sep (x # xs) = x @ sep @ join sep xs"

lemma join_Cons: "xs \<noteq> [] \<Longrightarrow> join sep (x # xs) = x @ sep @ join sep xs"
  by (cases xs) auto

lemma join_split: "join [c] (split c s) = s"
proof (induction s)
  case Nil
  then show ?case by simp
next
  case (Cons x s)
  obtain w ws where ws: "split c s = w # ws" by (meson neq_Nil_conv split_nonempty)
  from Cons show ?case by (cases ws) (auto simp: ws)
qed

lemma split_no_sep: "w \<in> set (split c s) \<Longrightarrow> c \<notin> set w"
proof (induction s arbitrary: w)
  case Nil
  then show ?case by simp
next
  case (Cons x s)
  then show ?case by (auto split: if_splits list.splits)
qed

lemma split_free: "c \<notin> set s \<Longrightarrow> split c s = [s]"
  by (induction s) auto

lemma split_append_sep: "c \<notin> set w \<Longrightarrow> split c (w @ c # s) = w # split c s"
  by (induction w) auto

lemma split_join:
  assumes "ws \<noteq> []" and "\<And>w. w \<in> set ws \<Longrightarrow> c \<notin> set w"
  shows "split c (join [c] ws) = ws"
  using assms
proof (induction ws rule: induct_list012)
  case 1
  then show ?case by simp
next
  case (2 x)
  then show ?case by (simp add: split_free)
next
  case (3 x y zs)
  then show ?case by (simp add: split_append_sep)
qed

text \<open>Decimal notation: \<^verbatim>\<open>%d\<close>, \<^verbatim>\<open>strconv.Itoa\<close> and \<^verbatim>\<open>strconv.FormatInt(_, 10)\<close>.\<close>

definition digit :: "nat \<Rightarrow> char" where
  "digit d = char_of (48 + d)"

fun dec_nat :: "nat \<Rightarrow> string" where
  "dec_nat n = (if n < 10 then [digit n] else dec_nat (n div 10) @ [digit (n mod 10)])"

declare dec_nat.simps [simp del]

definition dec :: "int \<Rightarrow> string" where
  "dec i = (if i < 0 then CHR ''-'' # dec_nat (nat (- i)) else dec_nat (nat i))"

text \<open>\<^verbatim>\<open>strconv.ParseInt(s, 10, 64)\<close>: an optional sign, decimal digits, in the range of an int64.\<close>

definition digitOf :: "char \<Rightarrow> nat option" where
  "digitOf c = (let n = of_char c :: nat in if 48 \<le> n \<and> n \<le> 57 then Some (n - 48) else None)"

fun parseNat :: "string \<Rightarrow> int \<Rightarrow> int option" where
  "parseNat [] acc = Some acc"
| "parseNat (c # cs) acc =
     (case digitOf c of None \<Rightarrow> None | Some d \<Rightarrow> parseNat cs (10 * acc + int d))"

definition ParseInt64 :: "string \<Rightarrow> int result" where
  "ParseInt64 s =
     (let (neg, ds) = (case s of
            c # cs \<Rightarrow> if c = CHR ''-'' then (True, cs) else if c = CHR ''+'' then (False, cs) else (False, s)
          | [] \<Rightarrow> (False, []))
      in if ds = [] then Err ''invalid syntax''
         else case parseNat ds 0 of
                None \<Rightarrow> Err ''invalid syntax''
              | Some n \<Rightarrow>
                  let n = (if neg then - n else n)
                  in if - (2 ^ 63) \<le> n \<and> n < 2 ^ 63 then Ok n else Err ''value out of range'')"

lemma digitOf_digit: "d < 10 \<Longrightarrow> digitOf (digit d) = Some d"
  by (simp add: digitOf_def digit_def Let_def)

lemma parseNat_append: "parseNat (xs @ ys) acc = (case parseNat xs acc of None \<Rightarrow> None | Some n \<Rightarrow> parseNat ys n)"
  by (induction xs arbitrary: acc) (simp_all split: option.split)

lemma parseNat_dec: "parseNat (dec_nat n) 0 = Some (int n)"
proof (induction n rule: less_induct)
  case (less n)
  show ?case
  proof (cases "n < 10")
    case True
    then show ?thesis by (simp add: dec_nat.simps[of n] digitOf_digit)
  next
    case False
    then have "parseNat (dec_nat n) 0 = Some (10 * int (n div 10) + int (n mod 10))"
      using less[of "n div 10"] by (simp add: dec_nat.simps[of n] parseNat_append digitOf_digit)
    moreover have "10 * int (n div 10) + int (n mod 10) = int n"
      by (metis mult_div_mod_eq of_nat_add of_nat_mult of_nat_numeral)
    ultimately show ?thesis by simp
  qed
qed

lemma dec_nat_digit: "c \<in> set (dec_nat n) \<Longrightarrow> \<exists>d < 10. c = digit d"
proof (induction n rule: less_induct)
  case (less n)
  show ?case
  proof (cases "n < 10")
    case True
    with less.prems show ?thesis by (auto simp: dec_nat.simps[of n])
  next
    case False
    with less.prems have "c \<in> set (dec_nat (n div 10)) \<or> c = digit (n mod 10)"
      by (auto simp: dec_nat.simps[of n])
    then show ?thesis
    proof
      assume "c \<in> set (dec_nat (n div 10))"
      with less.IH[of "n div 10"] False show ?thesis by simp
    next
      assume "c = digit (n mod 10)"
      then show ?thesis by (intro exI[of _ "n mod 10"]) simp
    qed
  qed
qed

lemma dec_nat_nonempty: "dec_nat n \<noteq> []"
  by (simp add: dec_nat.simps[of n])

lemma digit_no_sign: "d < 10 \<Longrightarrow> digit d \<noteq> CHR ''-'' \<and> digit d \<noteq> CHR ''+''"
proof -
  assume "d < 10"
  then have "of_char (digit d) = 48 + d" by (simp add: digit_def)
  then have "of_char (digit d) \<noteq> (of_char CHR ''-'' :: nat)" "of_char (digit d) \<noteq> (of_char CHR ''+'' :: nat)"
    by simp_all
  then show ?thesis by auto
qed

lemma ParseInt64_dec:
  assumes "0 \<le> n" and "n < 2 ^ 63"
  shows "ParseInt64 (dec n) = Ok n"
proof -
  obtain c cs where d: "dec_nat (nat n) = c # cs" using dec_nat_nonempty by (meson neq_Nil_conv)
  obtain k where "k < 10" "c = digit k" using dec_nat_digit[of c "nat n"] d by auto
  with digit_no_sign[of k] have "c \<noteq> CHR ''-''" "c \<noteq> CHR ''+''" by auto
  moreover have "parseNat (c # cs) 0 = Some n" using parseNat_dec[of "nat n"] d assms(1) by simp
  ultimately show ?thesis using assms d by (simp add: ParseInt64_def dec_def)
qed

end
