(* ===== verification/Spec_Types.thy ===== *)
theory Spec_Types
  imports Prelude
begin

text \<open>
  The data the components exchange: the structs of \<^verbatim>\<open>github.com/baetyl/baetyl-go/v2/spec/v1\<close>
  with the fields that the sources under src/ read or write, and nothing else. A pointer field
  that may be nil is an \<open>option\<close>; a map field whose nil value matters (a write to a nil map
  panics) is an \<open>option\<close> of a map, every other map field is the map with nil as \<open>[]\<close>.
\<close>

section \<open>Identifiers\<close>

datatype kind = KindApplication | KindConfiguration | KindSecret

text \<open>\<^verbatim>\<open>v1.Status\<close> is a string type: the constants the sources name, \<^verbatim>\<open>""\<close>, and any other text.\<close>

datatype status = Running | Pending | Unknown | Failed | Succeeded | NoStatus | OtherStatus string

record app_info =
  ai_name :: string
  ai_version :: string

section \<open>Statistics\<close>

datatype container_state = ContainerWaiting | ContainerRunning | ContainerTerminated

record container_info =
  ci_name :: string
  ci_state :: container_state
  ci_reason :: string
  ci_image :: string
  ci_usage :: "(string, string) gomap"

record instance_stats =
  is_name :: string
  is_service :: string
  is_app :: string
  is_status :: status
  is_cause :: string
  is_pid :: int
  is_ppid :: int
  is_ip :: string
  is_node :: string
  is_usage :: "(string, string) gomap"
  is_initContainers :: "container_info list"
  is_containers :: "container_info list"

definition zero_instance_stats :: instance_stats where
  "zero_instance_stats = \<lparr>is_name = [], is_service = [], is_app = [], is_status = NoStatus,
     is_cause = [], is_pid = 0, is_ppid = 0, is_ip = [], is_node = [], is_usage = [],
     is_initContainers = [], is_containers = []\<rparr>"

record app_stats =
  as_name :: string
  as_version :: string
  as_status :: status
  as_cause :: string
  as_deployType :: string
  as_instances :: "(string, instance_stats) gomap option"

definition zero_app_stats :: app_stats where
  "zero_app_stats = \<lparr>as_name = [], as_version = [], as_status = NoStatus, as_cause = [],
     as_deployType = [], as_instances = None\<rparr>"

text \<open>Reading a nil map finds nothing.\<close>

definition as_instance :: "app_stats \<Rightarrow> string \<Rightarrow> instance_stats option" where
  "as_instance st k = (case as_instances st of None \<Rightarrow> None | Some m \<Rightarrow> mget m k)"

text \<open>\<^verbatim>\<open>stat.InstanceStats[k] = v\<close>: writing to a nil map panics.\<close>

definition nil_map_write :: string where
  "nil_map_write = ''assignment to entry in nil map''"

definition put_instance :: "string \<Rightarrow> instance_stats \<Rightarrow> app_stats \<Rightarrow> app_stats result" where
  "put_instance k v st =
     (case as_instances st of
        None \<Rightarrow> Panic nil_map_write
      | Some m \<Rightarrow> Ok (st\<lparr>as_instances := Some (mput k v m)\<rparr>))"

section \<open>Applications\<close>

record obj_ref =
  ref_name :: string
  ref_version :: string

record host_path =
  hp_path :: string
  hp_type :: string

record empty_dir =
  ed_medium :: string
  ed_sizeLimit :: string

record volume =
  vol_name :: string
  vol_config :: "obj_ref option"
  vol_secret :: "obj_ref option"
  vol_hostPath :: "host_path option"
  vol_emptyDir :: "empty_dir option"

definition zero_volume :: volume where
  "zero_volume = \<lparr>vol_name = [], vol_config = None, vol_secret = None, vol_hostPath = None,
     vol_emptyDir = None\<rparr>"

record container_port =
  cp_hostPort :: int
  cp_containerPort :: int
  cp_protocol :: string
  cp_serviceType :: string
  cp_nodePort :: int

record volume_mount =
  vm_name :: string
  vm_mountPath :: string
  vm_readOnly :: bool
  vm_autoClean :: bool

record environment =
  env_name :: string
  env_value :: string

record http_get =
  hg_scheme :: string
  hg_host :: string
  hg_port :: string
  hg_path :: string
  hg_headers :: "(string \<times> string) list"

record tcp_socket =
  ts_host :: string
  ts_port :: string

record probe =
  pb_httpGet :: "http_get option"
  pb_tcpSocket :: "tcp_socket option"
  pb_timeoutSeconds :: int
  pb_periodSeconds :: int
  pb_initialDelaySeconds :: int
  pb_failureThreshold :: int
  pb_successThreshold :: int

record job_config =
  jc_completions :: int
  jc_parallelism :: int
  jc_backoffLimit :: int
  jc_restartPolicy :: string

datatype workload = WorkloadDeployment | WorkloadDaemonSet | WorkloadStatefulSet | WorkloadJob
  | WorkloadCustom | NoWorkload | OtherWorkload string

record service =
  svc_name :: string
  svc_image :: string
  svc_type :: workload
  svc_replica :: int
  svc_runtime :: string
  svc_hostNetwork :: bool
  svc_jobConfig :: "job_config option"
  svc_args :: "string list"
  svc_env :: "environment list"
  svc_ports :: "container_port list"
  svc_volumeMounts :: "volume_mount list"
  svc_limits :: "(string, string) gomap option"
  svc_privileged :: "bool option"
  svc_liveness :: "probe option"
  svc_startup :: "probe option"

definition zero_service :: service where
  "zero_service = \<lparr>svc_name = [], svc_image = [], svc_type = NoWorkload, svc_replica = 0,
     svc_runtime = [], svc_hostNetwork = False, svc_jobConfig = None, svc_args = [],
     svc_env = [], svc_ports = [], svc_volumeMounts = [], svc_limits = None,
     svc_privileged = None, svc_liveness = None, svc_startup = None\<rparr>"

record metric_spec =
  ms_type :: string
  ms_resource :: string
  ms_targetType :: string
  ms_averageUtilization :: int
  ms_averageValue :: string
  ms_value :: string

record auto_scale =
  asc_minReplicas :: int
  asc_maxReplicas :: int
  asc_metrics :: "metric_spec list"

datatype app_type = AppTypeContainer | AppTypeFunction | AppTypeHelm | AppTypeYaml
  | OtherAppType string

record application =
  app_name :: string
  app_namespace :: string
  app_version :: string
  app_description :: string
  app_type :: app_type
  app_workload :: workload
  app_replica :: int
  app_system :: bool
  app_hostNetwork :: bool
  app_dnsPolicy :: string
  app_preserveUpdates :: bool
  app_updateTime :: int
  app_labels :: "(string, string) gomap"
  app_jobConfig :: "job_config option"
  app_autoScale :: "auto_scale option"
  app_services :: "service list"
  app_initServices :: "service list"
  app_volumes :: "volume list"

definition zero_application :: application where
  "zero_application = \<lparr>app_name = [], app_namespace = [], app_version = [],
     app_description = [], app_type = OtherAppType [], app_workload = NoWorkload,
     app_replica = 0, app_system = False, app_hostNetwork = False, app_dnsPolicy = [],
     app_preserveUpdates = False, app_updateTime = 0, app_labels = [], app_jobConfig = None,
     app_autoScale = None, app_services = [], app_initServices = [], app_volumes = []\<rparr>"

record configuration =
  cfg_name :: string
  cfg_namespace :: string
  cfg_version :: string
  cfg_labels :: "(string, string) gomap"
  cfg_data :: "(string, string) gomap"

definition zero_configuration :: configuration where
  "zero_configuration = \<lparr>cfg_name = [], cfg_namespace = [], cfg_version = [],
     cfg_labels = [], cfg_data = []\<rparr>"

record secret =
  sec_name :: string
  sec_namespace :: string
  sec_version :: string
  sec_system :: bool
  sec_labels :: "(string, string) gomap"
  sec_data :: "(string, string) gomap"

definition zero_secret :: secret where
  "zero_secret = \<lparr>sec_name = [], sec_namespace = [], sec_version = [], sec_system = False,
     sec_labels = [], sec_data = []\<rparr>"

section \<open>The persistent resource store\<close>

text \<open>
  The bolthold store (\<^verbatim>\<open>github.com/timshannon/bolthold\<close>) is not under src/: its operations
  are a parameter of the model, over an opaque store state. \<^verbatim>\<open>Get(key, &x)\<close> picks the typed
  bucket by the type of \<open>x\<close>, so there is one group of operations per stored type. Every write
  may fail.
\<close>

record ('s, 'v) bucket_ops =
  b_get :: "'s \<Rightarrow> string \<Rightarrow> 'v result"
  b_upsert :: "string \<Rightarrow> 'v \<Rightarrow> 's \<Rightarrow> unit result \<times> 's"
  b_delete :: "string \<Rightarrow> 's \<Rightarrow> unit result \<times> 's"
  b_all :: "'s \<Rightarrow> (string \<times> 'v) list result"

record 's store_ops =
  st_app :: "('s, application) bucket_ops"
  st_cfg :: "('s, configuration) bucket_ops"
  st_sec :: "('s, secret) bucket_ops"

text \<open>
  What the code relies on, as bolthold documents it: a written value is what the next read of
  that key returns; a write or delete of one key leaves the other keys alone; a failed
  operation changes nothing; \<^verbatim>\<open>ForEach\<close> visits exactly the stored records; a read never panics.
\<close>

definition bucket_ok :: "('s, 'v) bucket_ops \<Rightarrow> bool" where
  "bucket_ok b \<longleftrightarrow>
     (\<forall>k v s t. b_upsert b k v s = (Ok (), t) \<longrightarrow>
        b_get b t k = Ok v \<and> (\<forall>k'. k' \<noteq> k \<longrightarrow> b_get b t k' = b_get b s k')) \<and>
     (\<forall>k s t. b_delete b k s = (Ok (), t) \<longrightarrow>
        \<not> is_ok (b_get b t k) \<and> (\<forall>k'. k' \<noteq> k \<longrightarrow> b_get b t k' = b_get b s k')) \<and>
     (\<forall>k v s r t. b_upsert b k v s = (r, t) \<longrightarrow> r \<noteq> Ok () \<longrightarrow> t = s) \<and>
     (\<forall>k s r t. b_delete b k s = (r, t) \<longrightarrow> r \<noteq> Ok () \<longrightarrow> t = s) \<and>
     (\<forall>s kvs k v. b_all b s = Ok kvs \<longrightarrow> ((k, v) \<in> set kvs \<longleftrightarrow> b_get b s k = Ok v))"

text \<open>An operation of one typed bucket does not touch another one.\<close>

definition bucket_frame :: "('s, 'v) bucket_ops \<Rightarrow> ('s, 'w) bucket_ops \<Rightarrow> bool" where
  "bucket_frame b c \<longleftrightarrow>
     (\<forall>k v s k'. b_get c (snd (b_upsert b k v s)) k' = b_get c s k') \<and>
     (\<forall>k s k'. b_get c (snd (b_delete b k s)) k' = b_get c s k')"

definition store_ok :: "'s store_ops \<Rightarrow> bool" where
  "store_ok S \<longleftrightarrow>
     bucket_ok (st_app S) \<and> bucket_ok (st_cfg S) \<and> bucket_ok (st_sec S) \<and>
     bucket_frame (st_app S) (st_cfg S) \<and> bucket_frame (st_app S) (st_sec S) \<and>
     bucket_frame (st_cfg S) (st_app S) \<and> bucket_frame (st_cfg S) (st_sec S) \<and>
     bucket_frame (st_sec S) (st_app S) \<and> bucket_frame (st_sec S) (st_cfg S)"

lemma bucket_upsert_get: "bucket_ok b \<Longrightarrow> b_upsert b k v s = (Ok (), t) \<Longrightarrow> b_get b t k = Ok v"
  by (auto simp: bucket_ok_def)

lemma bucket_upsert_other:
  "bucket_ok b \<Longrightarrow> k' \<noteq> k \<Longrightarrow> b_get b (snd (b_upsert b k v s)) k' = b_get b s k'"
  unfolding bucket_ok_def by (metis (full_types) old.unit.exhaust prod.exhaust_sel)

lemma bucket_delete_other:
  "bucket_ok b \<Longrightarrow> k' \<noteq> k \<Longrightarrow> b_get b (snd (b_delete b k s)) k' = b_get b s k'"
  unfolding bucket_ok_def by (metis (full_types) old.unit.exhaust prod.exhaust_sel)

lemma bucket_delete_gone:
  "bucket_ok b \<Longrightarrow> b_delete b k s = (Ok (), t) \<Longrightarrow> \<not> is_ok (b_get b t k)"
  by (auto simp: bucket_ok_def)

lemma bucket_all:
  "bucket_ok b \<Longrightarrow> b_all b s = Ok kvs \<Longrightarrow> (k, v) \<in> set kvs \<longleftrightarrow> b_get b s k = Ok v"
  unfolding bucket_ok_def by blast

subsection \<open>A store for the witnesses\<close>

text \<open>
  An in-memory store with the documented behaviour: it shows that the hypotheses can hold and
  lets the witnesses evaluate. No theorem is about it.
\<close>

record mem_store =
  mem_app :: "(string, application) gomap"
  mem_cfg :: "(string, configuration) gomap"
  mem_sec :: "(string, secret) gomap"

definition mem_bucket :: "('s \<Rightarrow> (string, 'v) gomap) \<Rightarrow>
    ((string, 'v) gomap \<Rightarrow> 's \<Rightarrow> 's) \<Rightarrow> ('s, 'v) bucket_ops" where
  "mem_bucket sel upd = \<lparr>
     b_get = (\<lambda>s k. case mget (sel s) k of None \<Rightarrow> Err ''not found'' | Some v \<Rightarrow> Ok v),
     b_upsert = (\<lambda>k v s. (Ok (), upd (mput k v (sel s)) s)),
     b_delete = (\<lambda>k s. (Ok (), upd (mdel k (sel s)) s)),
     b_all = (\<lambda>s. if distinct (map fst (sel s)) then Ok (sel s) else Err ''corrupt'')\<rparr>"

lemma mem_bucket_ok:
  assumes "\<And>m s. sel (upd m s) = m"
  shows "bucket_ok (mem_bucket sel upd)"
  unfolding bucket_ok_def mem_bucket_def
  by (auto simp: assms map_simps split: option.splits if_splits dest: eq_key_imp_eq_value)

lemma mem_bucket_frame:
  assumes "\<And>m s. sel' (upd m s) = sel' s"
  shows "bucket_frame (mem_bucket sel upd) (mem_bucket sel' upd')"
  unfolding bucket_frame_def mem_bucket_def by (simp add: assms)

definition mem_ops :: "mem_store store_ops" where
  "mem_ops = \<lparr>
     st_app = mem_bucket mem_app (\<lambda>m s. s\<lparr>mem_app := m\<rparr>),
     st_cfg = mem_bucket mem_cfg (\<lambda>m s. s\<lparr>mem_cfg := m\<rparr>),
     st_sec = mem_bucket mem_sec (\<lambda>m s. s\<lparr>mem_sec := m\<rparr>)\<rparr>"

lemma mem_ops_ok: "store_ok mem_ops"
  unfolding store_ok_def mem_ops_def
  by (auto intro!: mem_bucket_ok mem_bucket_frame)

lemma mem_simps:
  "b_get (st_app mem_ops) s k = (case mget (mem_app s) k of None \<Rightarrow> Err ''not found'' | Some v \<Rightarrow> Ok v)"
  "b_get (st_cfg mem_ops) s k = (case mget (mem_cfg s) k of None \<Rightarrow> Err ''not found'' | Some v \<Rightarrow> Ok v)"
  "b_get (st_sec mem_ops) s k = (case mget (mem_sec s) k of None \<Rightarrow> Err ''not found'' | Some v \<Rightarrow> Ok v)"
  "b_upsert (st_app mem_ops) k a s = (Ok (), s\<lparr>mem_app := mput k a (mem_app s)\<rparr>)"
  "b_upsert (st_cfg mem_ops) k c s = (Ok (), s\<lparr>mem_cfg := mput k c (mem_cfg s)\<rparr>)"
  "b_upsert (st_sec mem_ops) k e s = (Ok (), s\<lparr>mem_sec := mput k e (mem_sec s)\<rparr>)"
  "b_delete (st_cfg mem_ops) k s = (Ok (), s\<lparr>mem_cfg := mdel k (mem_cfg s)\<rparr>)"
  "b_all (st_app mem_ops) s = (if distinct (map fst (mem_app s)) then Ok (mem_app s) else Err ''corrupt'')"
  "b_all (st_cfg mem_ops) s = (if distinct (map fst (mem_cfg s)) then Ok (mem_cfg s) else Err ''corrupt'')"
  by (simp_all add: mem_ops_def mem_bucket_def)

end
