(* ===== verification/Keys.thy ===== *)
theory Keys
  imports Spec_Types
begin

text \<open>
  The names a process runs under and the keys of the resource store. The text of the constants
  of \<^verbatim>\<open>baetyl-go\<close> and of the environment of the process is not under src/: \<open>env\<close> collects
  what the sources read of it, and is an argument of every definition that does.
  \<open>MakeKey\<close> exists twice, in \<^verbatim>\<open>utils/parse.go\<close> and in \<^verbatim>\<open>sync/desire.go\<close>; the engine reads
  with one what the sync component wrote with the other. The locale \<open>key_scheme\<close> is the
  contract both keep.
\<close>

record env =
  e_kind :: "kind \<Rightarrow> string"                \<comment> \<open>text of the specv1.Kind constants\<close>
  e_core :: string                           \<comment> \<open>specv1.BaetylCore\<close>
  e_init :: string                           \<comment> \<open>specv1.BaetylInit\<close>
  e_isObject :: "string \<Rightarrow> bool"            \<comment> \<open>specv1.IsConfigObject\<close>
  e_objPrefix :: string                      \<comment> \<open>specv1.PrefixConfigObject\<close>
  e_customNs :: string                       \<comment> \<open>specv1.CustomAppNsLabel\<close>
  e_edgeNs :: string                         \<comment> \<open>context.EdgeNamespace()\<close>
  e_systemNs :: string                       \<comment> \<open>context.EdgeSystemNamespace()\<close>
  e_native :: bool                           \<comment> \<open>context.RunMode() == context.RunModeNative\<close>
  e_runMode :: string                        \<comment> \<open>context.RunMode()\<close>
  e_platform :: string                       \<comment> \<open>context.PlatformString()\<close>
  e_svcName :: string                        \<comment> \<open>os.Getenv(context.KeySvcName)\<close>
  e_appName :: string                        \<comment> \<open>os.Getenv(context.KeyAppName)\<close>
  e_nodeName :: string                       \<comment> \<open>os.Getenv(context.KeyNodeName)\<close>
  e_configType :: string                     \<comment> \<open>specv1.ConfigType\<close>
  e_helmTar :: string                        \<comment> \<open>specv1.ConfigHelmTar\<close>
  e_keyAppName :: string                     \<comment> \<open>context.KeyAppName, and so on\<close>
  e_keySvcName :: string
  e_keyAppVersion :: string
  e_keyNodeName :: string
  e_keyRunMode :: string
  e_keyNodeProps :: string                   \<comment> \<open>v1.KeyNodeProps\<close>
  e_keyDevices :: string                     \<comment> \<open>v1.KeyDevices\<close>

definition sample_env :: env where
  "sample_env = \<lparr>
     e_kind = (\<lambda>k. case k of KindApplication \<Rightarrow> ''application''
                 | KindConfiguration \<Rightarrow> ''configuration'' | KindSecret \<Rightarrow> ''secret''),
     e_core = ''baetyl-core'', e_init = ''baetyl-init'',
     e_isObject = (\<lambda>k. hasPrefix k ''_object_''), e_objPrefix = ''_object_'',
     e_customNs = ''ns-label'', e_edgeNs = ''baetyl-edge'',
     e_systemNs = ''baetyl-edge-system'', e_native = False, e_runMode = ''kube'',
     e_platform = ''linux-amd64'', e_svcName = ''baetyl-core'', e_appName = ''core-app'',
     e_nodeName = ''node'', e_configType = ''config-type'', e_helmTar = ''helm'',
     e_keyAppName = ''APP'', e_keySvcName = ''SVC'', e_keyAppVersion = ''VER'',
     e_keyNodeName = ''NODE'', e_keyRunMode = ''MODE'', e_keyNodeProps = ''nodeprops'',
     e_keyDevices = ''devices''\<rparr>"

text \<open>\<^verbatim>\<open>utils.MakeKey\<close> and \<^verbatim>\<open>sync.makeKey\<close>; the kind is its text.\<close>

definition MakeKey :: "string \<Rightarrow> string \<Rightarrow> string \<Rightarrow> string" where
  "MakeKey kind name ver =
     (if name = [] \<or> ver = [] then [] else kind @ ''-'' @ name @ ''-'' @ ver)"

definition sync_makeKey :: "string \<Rightarrow> string \<Rightarrow> string \<Rightarrow> string" where
  "sync_makeKey kind name ver =
     (if name = [] \<or> ver = [] then [] else kind @ ''-'' @ name @ ''-'' @ ver)"

locale key_scheme =
  fixes mk :: "string \<Rightarrow> string \<Rightarrow> string \<Rightarrow> string"
  assumes mk_partial: "name = [] \<or> ver = [] \<Longrightarrow> mk kind name ver = []"
    and mk_total: "name \<noteq> [] \<Longrightarrow> ver \<noteq> [] \<Longrightarrow> mk kind name ver = kind @ ''-'' @ name @ ''-'' @ ver"
begin

lemma mk_empty_iff: "mk kind name ver = [] \<longleftrightarrow> name = [] \<or> ver = []"
  by (metis append_is_Nil_conv mk_partial mk_total not_Cons_self2)

lemma mk_same_kind:
  assumes "mk kind n v = mk kind n' v'" and "mk kind n v \<noteq> []"
  shows "n @ ''-'' @ v = n' @ ''-'' @ v'"
  using assms by (cases "n = [] \<or> v = []"; cases "n' = [] \<or> v' = []")
    (simp_all add: mk_partial mk_total)

text \<open>A version without a dash is recovered from the key: then the key names one resource.\<close>

lemma mk_inj:
  assumes "mk kind n v = mk kind n' v'" and "mk kind n v \<noteq> []"
    and "CHR ''-'' \<notin> set v" and "CHR ''-'' \<notin> set v'"
  shows "n = n' \<and> v = v'"
proof -
  from mk_same_kind[OF assms(1,2)] have "rev (n @ ''-'' @ v) = rev (n' @ ''-'' @ v')" by simp
  then have "rev v @ CHR ''-'' # rev n = rev v' @ CHR ''-'' # rev n'" by simp
  with assms(3,4) have "rev v = rev v' \<and> rev n = rev n'"
    by (subst (asm) append_sep_inject) auto
  then show ?thesis by simp
qed

lemma mk_other_kind:
  assumes "mk k n v = mk k' n' v'" and "mk k n v \<noteq> []"
    and "CHR ''-'' \<notin> set k" and "CHR ''-'' \<notin> set k'"
  shows "k = k'"
proof -
  from assms(1,2) have "n \<noteq> [] \<and> v \<noteq> [] \<and> n' \<noteq> [] \<and> v' \<noteq> []"
    by (metis mk_partial)
  with assms(1) have "k @ CHR ''-'' # (n @ ''-'' @ v) = k' @ CHR ''-'' # (n' @ ''-'' @ v')"
    by (simp add: mk_total)
  with assms(3,4) show ?thesis by (subst (asm) append_sep_inject) auto
qed

end

interpretation utils_key: key_scheme MakeKey
  by unfold_locales (auto simp: MakeKey_def)

interpretation sync_key: key_scheme sync_makeKey
  by unfold_locales (auto simp: sync_makeKey_def)

text \<open>
  The key under which the sync component stores a resource is the key under which the
  engine looks it up: the two copies of \<open>MakeKey\<close> agree on every kind, name and version.
\<close>

theorem make_key_agree: "sync_makeKey kind name ver = MakeKey kind name ver"
  by (cases "name = [] \<or> ver = []")
    (simp_all add: utils_key.mk_partial utils_key.mk_total sync_key.mk_partial sync_key.mk_total)

text \<open>The store keys of the three kinds, as the engine builds them.\<close>

abbreviation app_key :: "env \<Rightarrow> string \<Rightarrow> string \<Rightarrow> string" where
  "app_key E \<equiv> MakeKey (e_kind E KindApplication)"

abbreviation cfg_key :: "env \<Rightarrow> string \<Rightarrow> string \<Rightarrow> string" where
  "cfg_key E \<equiv> MakeKey (e_kind E KindConfiguration)"

abbreviation sec_key :: "env \<Rightarrow> string \<Rightarrow> string \<Rightarrow> string" where
  "sec_key E \<equiv> MakeKey (e_kind E KindSecret)"

end
