(* ===== verification/Engine_Plan.thy ===== *)
theory Engine_Plan
  imports Keys
begin

text \<open>
  The planning part of the engine (\<^verbatim>\<open>engine/utils.go\<close> and the list functions of
  \<^verbatim>\<open>engine/engine.go\<close>): which applications to delete and to apply, which of them collide on
  a service name or a host port, and in which order they are reported. All of it is pure but
  for the maps the caller passes in, which are returned updated.
\<close>

section \<open>Delete and update lists\<close>

text \<open>The bodies of the three loops of \<open>getDeleteAndUpdate\<close>.\<close>

definition planDesire :: "app_info \<Rightarrow> (string, app_info) gomap \<Rightarrow> (string, app_info) gomap" where
  "planDesire d update = mput (ai_name d) d update"

fun scanReport :: "app_info \<Rightarrow> (string, app_info) gomap \<times> (string, app_info) gomap \<Rightarrow>
    (string, app_info) gomap \<times> (string, app_info) gomap" where
  "scanReport r (del, update) =
     (mput (ai_name r) r del,
      case mget update (ai_name r) of
        Some app \<Rightarrow> if ai_version app = ai_version r then mdel (ai_name app) update else update
      | None \<Rightarrow> update)"

definition keepDesired :: "app_info \<Rightarrow> (string, app_info) gomap \<Rightarrow> (string, app_info) gomap" where
  "keepDesired app del =
     (case mget del (ai_name app) of Some _ \<Rightarrow> mdel (ai_name app) del | None \<Rightarrow> del)"

definition getDeleteAndUpdate :: "app_info list \<Rightarrow> app_info list \<Rightarrow>
    (string, app_info) gomap \<times> (string, app_info) gomap" where
  "getDeleteAndUpdate desires reports =
     (let update = fold planDesire desires [];
          (del, update) = fold scanReport reports ([], update);
          del = fold keepDesired desires del
      in (del, update))"

text \<open>The application a list of infos last mentions under a name: what a Go map filled from the
  list holds.\<close>

fun last_info :: "app_info list \<Rightarrow> string \<Rightarrow> app_info option" where
  "last_info [] n = None"
| "last_info (i # is) n =
     (case last_info is n of Some j \<Rightarrow> Some j | None \<Rightarrow> if ai_name i = n then Some i else None)"

lemma last_info_name: "last_info is n = Some i \<Longrightarrow> ai_name i = n \<and> i \<in> set is"
  by (induction "is") (auto split: option.splits if_splits)

lemma last_info_None: "last_info is n = None \<longleftrightarrow> n \<notin> ai_name ` set is"
  by (induction "is") (auto split: option.splits)

lemma last_info_distinct:
  "distinct (map ai_name is) \<Longrightarrow> i \<in> set is \<Longrightarrow> last_info is (ai_name i) = Some i"
proof (induction "is")
  case Nil
  then show ?case by simp
next
  case (Cons a "is")
  show ?case
  proof (cases "i = a")
    case True
    with Cons.prems have "last_info is (ai_name a) = None" by (simp add: last_info_None)
    with True show ?thesis by simp
  next
    case False
    with Cons show ?thesis by simp
  qed
qed

lemma planDesire_mget [plan_simps]:
  "mget (fold planDesire ds u) n =
     (case last_info ds n of Some d \<Rightarrow> Some d | None \<Rightarrow> mget u n)"
proof (induction ds arbitrary: u)
  case Nil
  then show ?case by simp
next
  case (Cons d ds)
  then show ?case by (auto simp: map_simps planDesire_def split: option.splits)
qed

text \<open>Every entry of the update map sits under its own name.\<close>

definition keyed :: "(string, app_info) gomap \<Rightarrow> bool" where
  "keyed u \<longleftrightarrow> (\<forall>n d. mget u n = Some d \<longrightarrow> ai_name d = n)"

lemma keyed_planDesire: "keyed (fold planDesire ds [])"
  by (auto simp: keyed_def plan_simps split: option.splits dest: last_info_name)

lemma scanReport_del [plan_simps]:
  "mget (fst (fold scanReport rs (dl, u))) n =
     (case last_info rs n of Some r \<Rightarrow> Some r | None \<Rightarrow> mget dl n)"
proof (induction rs arbitrary: dl u)
  case Nil
  then show ?case by simp
next
  case (Cons r rs)
  then show ?case by (auto simp: map_simps split: option.splits)
qed

lemma scanReport_one:
  assumes "keyed u"
  shows "mget (snd (scanReport r (dl, u))) k =
     (case mget u k of None \<Rightarrow> None
      | Some d \<Rightarrow> if ai_name r = k \<and> ai_version r = ai_version d then None else Some d)"
    and "keyed (snd (scanReport r (dl, u)))"
  using assms by (auto simp: keyed_def map_simps split: option.splits)

lemma scanReport_update [plan_simps]:
  assumes "keyed u"
  shows "mget (snd (fold scanReport rs (dl, u))) n =
     (case mget u n of None \<Rightarrow> None
      | Some d \<Rightarrow> if \<exists>r \<in> set rs. ai_name r = n \<and> ai_version r = ai_version d then None else Some d)"
  using assms
proof (induction rs arbitrary: dl u)
  case Nil
  then show ?case by (simp split: option.splits)
next
  case (Cons r rs)
  obtain dl' u' where s: "scanReport r (dl, u) = (dl', u')" by fastforce
  from scanReport_one[OF Cons.prems, of r dl] s
  have u': "mget u' n = (case mget u n of None \<Rightarrow> None
      | Some d \<Rightarrow> if ai_name r = n \<and> ai_version r = ai_version d then None else Some d)"
    and k: "keyed u'" by auto
  show ?case by (auto simp add: s Cons.IH[OF k] u' simp del: scanReport.simps split: option.splits)
qed

lemma keepDesired_mget [plan_simps]:
  "mget (fold keepDesired ds dl) n = (if n \<in> ai_name ` set ds then None else mget dl n)"
proof (induction ds arbitrary: dl)
  case Nil
  then show ?case by simp
next
  case (Cons d ds)
  then show ?case by (auto simp: map_simps keepDesired_def split: option.splits)
qed

text \<open>The two maps, looked up at a name.\<close>

lemma delete_list_mget [plan_simps]:
  "mget (fst (getDeleteAndUpdate ds rs)) n =
     (if n \<in> ai_name ` set ds then None else last_info rs n)"
proof (cases "fold scanReport rs ([], fold planDesire ds [])")
  case (Pair dl u)
  with scanReport_del[of rs "[]" "fold planDesire ds []" n] show ?thesis
    by (simp add: getDeleteAndUpdate_def keepDesired_mget split: option.splits)
qed

lemma update_list_mget [plan_simps]:
  "mget (snd (getDeleteAndUpdate ds rs)) n =
     (case last_info ds n of None \<Rightarrow> None
      | Some d \<Rightarrow> if \<exists>r \<in> set rs. ai_name r = n \<and> ai_version r = ai_version d then None else Some d)"
proof (cases "fold scanReport rs ([], fold planDesire ds [])")
  case (Pair dl u)
  with scanReport_update[OF keyed_planDesire, of rs "[]" ds n] show ?thesis
    by (simp add: getDeleteAndUpdate_def planDesire_mget split: option.splits)
qed

text \<open>
  The contract of the plan, on abstract states: a node is a map from application names to the
  version that runs. Deleting every entry of the delete list and applying every entry of the
  update list turns the reported state into the desired one.
\<close>

definition node_state :: "app_info list \<Rightarrow> string \<Rightarrow> string option" where
  "node_state is n = map_option ai_version (last_info is n)"

definition carry_out :: "(string, app_info) gomap \<times> (string, app_info) gomap \<Rightarrow>
    (string \<Rightarrow> string option) \<Rightarrow> (string \<Rightarrow> string option)" where
  "carry_out plan s n =
     (case mget (snd plan) n of
        Some d \<Rightarrow> Some (ai_version d)
      | None \<Rightarrow> if mget (fst plan) n = None then s n else None)"

text \<open>
  C4. Reconciliation reaches the desired state: if the report names each application once,
  deleting the delete list and applying the update list computed by \<open>getDeleteAndUpdate\<close>
  turns the reported map of running versions into exactly the desired one.
\<close>

theorem plan_reaches_desired:
  assumes "distinct (map ai_name reports)"
  shows "carry_out (getDeleteAndUpdate desires reports) (node_state reports) = node_state desires"
proof
  fix n
  show "carry_out (getDeleteAndUpdate desires reports) (node_state reports) n = node_state desires n"
  proof (cases "last_info desires n")
    case None
    then have "n \<notin> ai_name ` set desires" by (simp add: last_info_None)
    with None show ?thesis
      by (simp add: carry_out_def node_state_def plan_simps)
  next
    case (Some d)
    then have n: "n \<in> ai_name ` set desires" by (metis last_info_None not_None_eq)
    have "last_info reports n = Some r" if "r \<in> set reports" "ai_name r = n" for r
      using that assms last_info_distinct by blast
    with Some n show ?thesis
      by (auto simp: carry_out_def node_state_def plan_simps)
  qed
qed

theorem plan_reaches_desired_witness:
  "carry_out (getDeleteAndUpdate [\<lparr>ai_name = ''a'', ai_version = ''2''\<rparr>]
       [\<lparr>ai_name = ''a'', ai_version = ''1''\<rparr>, \<lparr>ai_name = ''b'', ai_version = ''1''\<rparr>])
     (node_state [\<lparr>ai_name = ''a'', ai_version = ''1''\<rparr>, \<lparr>ai_name = ''b'', ai_version = ''1''\<rparr>])
   = node_state [\<lparr>ai_name = ''a'', ai_version = ''2''\<rparr>]"
  by (rule plan_reaches_desired) simp

text \<open>
  Nothing is done twice and nothing needless: no application is both deleted and applied,
  an application is deleted only if the cloud no longer desires its name, and it is applied only
  if the desired version is not among the reported ones.
\<close>

theorem plan_minimal:
  "keys (fst (getDeleteAndUpdate desires reports)) \<inter> keys (snd (getDeleteAndUpdate desires reports)) = {}
   \<and> keys (fst (getDeleteAndUpdate desires reports)) = ai_name ` set reports - ai_name ` set desires
   \<and> (mget (snd (getDeleteAndUpdate desires reports)) n = Some d \<longleftrightarrow>
        last_info desires n = Some d \<and>
        (\<nexists>r. r \<in> set reports \<and> ai_name r = n \<and> ai_version r = ai_version d))"
proof (intro conjI)
  have mem: "k \<in> ai_name ` set is \<longleftrightarrow> last_info is k \<noteq> None" for "is" k
    by (simp add: last_info_None)
  show del: "keys (fst (getDeleteAndUpdate desires reports)) = ai_name ` set reports - ai_name ` set desires"
    unfolding keys_dom by (rule set_eqI) (simp add: plan_simps mem dom_def)
  have "keys (snd (getDeleteAndUpdate desires reports)) \<subseteq> ai_name ` set desires"
    unfolding keys_dom by (rule subsetI) (auto simp: plan_simps mem dom_def split: option.splits)
  with del show "keys (fst (getDeleteAndUpdate desires reports)) \<inter>
      keys (snd (getDeleteAndUpdate desires reports)) = {}" by auto
  show "mget (snd (getDeleteAndUpdate desires reports)) n = Some d \<longleftrightarrow>
        last_info desires n = Some d \<and>
        (\<nexists>r. r \<in> set reports \<and> ai_name r = n \<and> ai_version r = ai_version d)"
    by (auto simp: plan_simps split: option.splits if_splits)
qed

section \<open>Which process handles which application\<close>

text \<open>
  A nil filter list keeps everything, an empty one is a list of no modules. The inner loop of
  \<open>filterAppLike\<close> stops at the first application whose name contains the module.
\<close>

fun likeApp :: "app_info list \<Rightarrow> string \<Rightarrow> app_info list" where
  "likeApp [] module = []"
| "likeApp (app # apps) module =
     (if contains (ai_name app) module then [app] else likeApp apps module)"

definition filterAppLike :: "app_info list \<Rightarrow> string list option \<Rightarrow> app_info list" where
  "filterAppLike apps like =
     (case like of None \<Rightarrow> apps
      | Some modules \<Rightarrow> fold (\<lambda>module res. res @ likeApp apps module) modules [])"

fun notLikeFlag :: "string \<Rightarrow> string list \<Rightarrow> bool" where
  "notLikeFlag name [] = True"
| "notLikeFlag name (module # modules) =
     (if contains name module then False else notLikeFlag name modules)"

definition filterAppNotLike :: "app_info list \<Rightarrow> string list option \<Rightarrow> app_info list" where
  "filterAppNotLike apps notLike =
     (case notLike of None \<Rightarrow> apps
      | Some modules \<Rightarrow>
          fold (\<lambda>app res. if notLikeFlag (ai_name app) modules then res @ [app] else res) apps [])"

lemma notLikeFlag_iff: "notLikeFlag n ms \<longleftrightarrow> (\<forall>m \<in> set ms. \<not> contains n m)"
  by (induction ms) auto

lemma filterAppNotLike_filter [plan_simps]:
  "filterAppNotLike apps (Some ms) = filter (\<lambda>a. \<forall>m \<in> set ms. \<not> contains (ai_name a) m) apps"
proof -
  have "fold (\<lambda>app res. if notLikeFlag (ai_name app) ms then res @ [app] else res) apps res =
        res @ filter (\<lambda>a. \<forall>m \<in> set ms. \<not> contains (ai_name a) m) apps" for res
    by (induction apps arbitrary: res) (auto simp: notLikeFlag_iff)
  then show ?thesis by (simp add: filterAppNotLike_def)
qed

lemma likeApp_find: "likeApp apps m = (case find (\<lambda>a. contains (ai_name a) m) apps of
    None \<Rightarrow> [] | Some a \<Rightarrow> [a])"
  by (induction apps) auto

lemma filterAppLike_one [plan_simps]:
  "filterAppLike apps (Some [m]) = likeApp apps m"
  by (simp add: filterAppLike_def)

lemma likeApp_member: "a \<in> set (likeApp apps m) \<Longrightarrow> a \<in> set apps \<and> contains (ai_name a) m"
  by (induction apps) (auto split: if_splits)

text \<open>A desire is the list of its system applications and that of the others.\<close>

definition filterDesire :: "app_info list \<times> app_info list \<Rightarrow> string list option \<Rightarrow> string list option \<Rightarrow>
    app_info list \<times> app_info list" where
  "filterDesire desire like notLike =
     (filterAppNotLike (filterAppLike (fst desire) like) notLike,
      filterAppNotLike (filterAppLike (snd desire) like) notLike)"

text \<open>The filter that \<^verbatim>\<open>reportAndApply\<close> applies to both lists, by the service it runs in.\<close>

definition serviceFilter :: "env \<Rightarrow> app_info list \<Rightarrow> app_info list" where
  "serviceFilter E apps =
     (if e_svcName E = e_core E then filterAppNotLike apps (Some [e_core E])
      else if e_svcName E = e_init E then filterAppLike apps (Some [e_core E])
      else apps)"

text \<open>
  The core process and the init process never plan the same application: from the same
  desired list, what \<^verbatim>\<open>baetyl-core\<close> keeps and what \<^verbatim>\<open>baetyl-init\<close> keeps share no name, the init
  process keeps at most one application (the core), and the core process keeps every other one.
\<close>

theorem core_init_partition:
  assumes "e_svcName C = e_core C" and "e_svcName I = e_init I" and "e_core I = e_core C"
    and "e_init I \<noteq> e_core I"
  shows "ai_name ` set (serviceFilter C apps) \<inter> ai_name ` set (serviceFilter I apps) = {}
    \<and> length (serviceFilter I apps) \<le> 1
    \<and> (\<forall>a \<in> set apps. contains (ai_name a) (e_core C) \<or> a \<in> set (serviceFilter C apps))"
proof -
  have C: "serviceFilter C apps = filter (\<lambda>a. \<not> contains (ai_name a) (e_core C)) apps"
    using assms by (simp add: serviceFilter_def plan_simps)
  have I: "serviceFilter I apps = likeApp apps (e_core C)"
    using assms by (simp add: serviceFilter_def plan_simps)
  have "length (serviceFilter I apps) \<le> 1"
    by (simp add: I likeApp_find split: option.split)
  then show ?thesis
    by (auto simp: C I dest: likeApp_member)
qed

theorem core_init_partition_witness:
  "ai_name ` set (serviceFilter sample_env [\<lparr>ai_name = ''baetyl-core-x'', ai_version = ''1''\<rparr>]) \<inter>
   ai_name ` set (serviceFilter (sample_env\<lparr>e_svcName := ''baetyl-init''\<rparr>)
      [\<lparr>ai_name = ''baetyl-core-x'', ai_version = ''1''\<rparr>]) = {}"
  using core_init_partition[of sample_env "sample_env\<lparr>e_svcName := ''baetyl-init''\<rparr>"
      "[\<lparr>ai_name = ''baetyl-core-x'', ai_version = ''1''\<rparr>]"]
  by (simp add: sample_env_def)

section \<open>Aligning the report with the desired list\<close>

text \<open>
  \<open>rng\<close> is the order in which the last loop ranges over the map of the reported applications
  that are not desired.
\<close>

fun takeAligned :: "app_info list \<Rightarrow> (string, app_info) gomap \<Rightarrow> app_info list \<Rightarrow>
    app_info list \<times> (string, app_info) gomap" where
  "takeAligned [] as res = (res, as)"
| "takeAligned (a # deApps) as res =
     (case mget as (ai_name a) of
        Some r \<Rightarrow> takeAligned deApps (mdel (ai_name a) as) (res @ [r])
      | None \<Rightarrow> takeAligned deApps as res)"

definition alignApps :: "((string, app_info) gomap \<Rightarrow> (string, app_info) gomap) \<Rightarrow>
    app_info list \<Rightarrow> app_info list \<Rightarrow> app_info list" where
  "alignApps rng reApps deApps =
     (if reApps = [] \<or> deApps = [] then reApps
      else let as = fold planDesire reApps [];
               (res, as) = takeAligned deApps as []
           in res @ map snd (rng as))"

lemma gomap_planDesire: "gomap u \<Longrightarrow> gomap (fold planDesire ds u)"
  by (induction ds arbitrary: u) (auto simp: planDesire_def)

lemma mset_gomap_del:
  assumes "gomap m" and "mget m k = Some v"
  shows "mset (map snd m) = add_mset v (mset (map snd (mdel k m)))"
  using assms unfolding gomap_def
proof (induction m)
  case Nil
  then show ?case by simp
next
  case (Cons kv m)
  obtain k' v' where kv: "kv = (k', v')" by fastforce
  show ?case
  proof (cases "k' = k")
    case True
    with Cons.prems kv have "k \<notin> keys m" by auto
    then have "mdel k m = m" by (simp add: delete_id)
    with Cons.prems kv True show ?thesis by simp
  next
    case False
    with Cons kv show ?thesis by auto
  qed
qed

lemma takeAligned_mset:
  assumes "gomap as"
  shows "mset (fst (takeAligned de as res)) + mset (map snd (snd (takeAligned de as res))) =
     mset res + mset (map snd as)"
  using assms
proof (induction de arbitrary: as res)
  case Nil
  then show ?case by simp
next
  case (Cons a de)
  then show ?case
    by (auto split: option.splits simp: mset_gomap_del[where k = "ai_name a", simplified])
qed

lemma takeAligned_gomap: "gomap as \<Longrightarrow> gomap (snd (takeAligned de as res))"
  by (induction de arbitrary: as res) (auto split: option.splits)

lemma planDesire_mset:
  assumes "distinct (map ai_name ds)" and "ai_name ` set ds \<inter> keys u = {}"
  shows "mset (map snd (fold planDesire ds u)) = mset ds + mset (map snd u)"
  using assms
proof (induction ds arbitrary: u)
  case Nil
  then show ?case by simp
next
  case (Cons d ds)
  then have "ai_name d \<notin> keys u" by auto
  then have "planDesire d u = u @ [(ai_name d, d)]"
    by (simp add: planDesire_def mput_fresh)
  with Cons show ?case by auto
qed

lemma takeAligned_names:
  assumes "\<And>n d. mget as n = Some d \<Longrightarrow> ai_name d = n" and "distinct (map ai_name de)"
  shows "map ai_name (fst (takeAligned de as res)) =
      map ai_name res @ filter (\<lambda>n. mget as n \<noteq> None) (map ai_name de)
    \<and> (\<forall>n. mget (snd (takeAligned de as res)) n =
            (if n \<in> ai_name ` set de then None else mget as n))"
  using assms
proof (induction de arbitrary: as res)
  case Nil
  then show ?case by simp
next
  case (Cons a de)
  have keep: "filter (\<lambda>n. mget (mdel (ai_name a) as) n \<noteq> None) (map ai_name de) =
      filter (\<lambda>n. mget as n \<noteq> None) (map ai_name de)"
    using Cons.prems(2) by (intro filter_cong) (auto simp: map_simps image_iff)
  show ?case
  proof (cases "mget as (ai_name a)")
    case None
    with Cons show ?thesis by auto
  next
    case (Some r)
    have "\<And>n d. mget (mdel (ai_name a) as) n = Some d \<Longrightarrow> ai_name d = n"
      using Cons.prems(1) by (auto simp: map_simps split: if_splits)
    note IH = Cons.IH[of "mdel (ai_name a) as" "res @ [r]", OF this]
    from Cons.prems(1) Some have r: "ai_name r = ai_name a" by blast
    from IH keep Cons.prems(2) show ?thesis
      unfolding takeAligned.simps Some option.simps by (auto simp: map_simps r Some)
  qed
qed

lemma alignApps_mset:
  assumes "range_ok rng" and "distinct (map ai_name reApps)"
  shows "mset (alignApps rng reApps deApps) = mset reApps"
proof (cases "reApps = [] \<or> deApps = []")
  case False
  let ?as = "fold planDesire reApps []"
  obtain res rest where t: "takeAligned deApps ?as [] = (res, rest)" by fastforce
  have "mset (map snd (rng rest)) = mset (map snd rest)"
    using assms(1) by (simp add: range_ok_def)
  moreover have "mset res + mset (map snd rest) = mset reApps"
    using takeAligned_mset[of ?as deApps "[]"] planDesire_mset[OF assms(2), of "[]"]
    by (simp add: t gomap_planDesire)
  ultimately show ?thesis using False t by (simp add: alignApps_def)
qed (auto simp: alignApps_def)

text \<open>
  Aligning reorders and loses nothing: for a report that names each application once,
  \<open>alignApps\<close> returns a permutation of the report, whatever order Go ranges over the map, and if
  the desired list names each application once, the reported applications that are desired come
  first, in the order of the desired list.
\<close>

theorem alignApps_permutes:
  assumes "range_ok rng" and "distinct (map ai_name reApps)"
  shows "mset (alignApps rng reApps deApps) = mset reApps
    \<and> (distinct (map ai_name deApps) \<longrightarrow> reApps \<noteq> [] \<longrightarrow> deApps \<noteq> [] \<longrightarrow>
        (\<exists>rest. map ai_name (alignApps rng reApps deApps) =
           filter (\<lambda>n. n \<in> ai_name ` set reApps) (map ai_name deApps) @ rest
           \<and> set rest = ai_name ` set reApps - ai_name ` set deApps))"
proof (cases "reApps = [] \<or> deApps = []")
  case True
  then show ?thesis by (auto simp: alignApps_def)
next
  case False
  let ?as = "fold planDesire reApps []"
  obtain res rest where t: "takeAligned deApps ?as [] = (res, rest)" by fastforce
  have al: "alignApps rng reApps deApps = res @ map snd (rng rest)"
    using False t by (simp add: alignApps_def)
  have key: "mget ?as n = Some d \<Longrightarrow> ai_name d = n" for n d
    using keyed_planDesire by (auto simp: keyed_def)
  have dom: "mget ?as n \<noteq> None \<longleftrightarrow> n \<in> ai_name ` set reApps" for n
    using last_info_None[of reApps n] by (auto simp: plan_simps split: option.splits)
  show ?thesis
  proof (intro conjI impI alignApps_mset[OF assms] exI[of _ "map ai_name (map snd (rng rest))"])
    assume d: "distinct (map ai_name deApps)"
    from takeAligned_names[of ?as deApps "[]", OF key d] t dom
    show "map ai_name (alignApps rng reApps deApps) =
        filter (\<lambda>n. n \<in> ai_name ` set reApps) (map ai_name deApps) @ map ai_name (map snd (rng rest))"
      by (simp add: al)
    have get: "mget rest n = (if n \<in> ai_name ` set deApps then None else mget ?as n)" for n
      using takeAligned_names[of ?as deApps "[]", OF key d] t by simp
    have "gomap rest"
      using takeAligned_gomap[of ?as deApps "[]"] t by (simp add: gomap_planDesire)
    then have names: "ai_name (snd kv) = fst kv" if "kv \<in> set rest" for kv
    proof -
      have "mget rest (fst kv) = Some (snd kv)"
        using \<open>gomap rest\<close> that by (simp add: gomap_mget_iff)
      with get[of "fst kv"] have "mget ?as (fst kv) = Some (snd kv)" by (simp split: if_splits)
      then show ?thesis by (rule key)
    qed
    have "ai_name ` snd ` set rest = keys rest"
      using names by (force simp: image_image)
    moreover have "keys rest = ai_name ` set reApps - ai_name ` set deApps"
      unfolding keys_dom dom_def by (auto simp: get dom[simplified] split: if_splits)
    ultimately show "set (map ai_name (map snd (rng rest))) =
        ai_name ` set reApps - ai_name ` set deApps"
      by (simp add: range_ok_set[OF assms(1)] image_image)
  qed
qed

theorem alignApps_permutes_witness:
  "mset (alignApps rev [\<lparr>ai_name = ''b'', ai_version = ''1''\<rparr>, \<lparr>ai_name = ''a'', ai_version = ''1''\<rparr>]
     [\<lparr>ai_name = ''a'', ai_version = ''2''\<rparr>]) =
   mset [\<lparr>ai_name = ''b'', ai_version = ''1''\<rparr>, \<lparr>ai_name = ''a'', ai_version = ''1''\<rparr>]"
  using alignApps_permutes[of rev "[\<lparr>ai_name = ''b'', ai_version = ''1''\<rparr>,
      \<lparr>ai_name = ''a'', ai_version = ''1''\<rparr>]" "[\<lparr>ai_name = ''a'', ai_version = ''2''\<rparr>]"]
  by (simp add: range_ok_rev)

end
