(* ===== verification/Engine_Collide.thy ===== *)
theory Engine_Collide
  imports Engine_Plan
begin

text \<open>
  Collision checks of the engine (\<^verbatim>\<open>engine/utils.go\<close>): applications that share a service name
  or a host port, or that scale out on a host port, are taken off the update list and the
  reason is written into their statistics. \<open>checkMultiAppPort\<close> is the check the engine runs;
  \<open>checkService\<close> and \<open>checkPort\<close> are its older relatives. The three share the shape \<open>group the
  names by what they want, let one of each group win, blame the others\<close>; the locale
  \<open>blaming\<close> is the contract of the part in which they differ.
\<close>

type_synonym stats_map = "(string, app_stats) gomap"
type_synonym apps_map = "(string, application) gomap"
type_synonym update_map = "(string, app_info) gomap"

section \<open>The shared loops\<close>

text \<open>\<^verbatim>\<open>m[k] = append(m[k], x)\<close>.\<close>

definition mappend :: "'k \<Rightarrow> 'v \<Rightarrow> ('k, 'v list) gomap \<Rightarrow> ('k, 'v list) gomap" where
  "mappend k x m = mput k ((case mget m k of None \<Rightarrow> [] | Some xs \<Rightarrow> xs) @ [x]) m"

text \<open>
  The winner of a group: the first name, unless a later one satisfies the test, which ends the
  loop. \<open>first\<close> is assigned only while it is empty.
\<close>

fun chooseFirst :: "(string \<Rightarrow> bool) \<Rightarrow> string \<Rightarrow> string list \<Rightarrow> string" where
  "chooseFirst taken first [] = first"
| "chooseFirst taken first (n # ns) =
     (let first = (if first = [] then n else first)
      in if taken n then n else chooseFirst taken first ns)"

text \<open>
  One group: every name but the winner is blamed and its application is marked for removal.
  The state is the statistics and the removal set.
\<close>

definition blameOthers :: "(string \<Rightarrow> string \<Rightarrow> stats_map \<Rightarrow> stats_map result) \<Rightarrow>
    (string \<Rightarrow> string) \<Rightarrow> string \<Rightarrow> string list \<Rightarrow> stats_map \<times> string list \<Rightarrow>
    (stats_map \<times> string list) result" where
  "blameOthers blame owner first ns st =
     rfor (\<lambda>n (stats, del).
         if n = first then Ok (stats, del)
         else rbind (blame first n stats) (\<lambda>stats. Ok (stats, owner n # del))) ns st"

definition resolveGroup :: "(stats_map \<Rightarrow> string \<Rightarrow> bool) \<Rightarrow>
    ('k \<Rightarrow> string \<Rightarrow> string \<Rightarrow> stats_map \<Rightarrow> stats_map result) \<Rightarrow> (string \<Rightarrow> string) \<Rightarrow>
    'k \<times> string list \<Rightarrow> stats_map \<times> string list \<Rightarrow> (stats_map \<times> string list) result" where
  "resolveGroup taken blame owner g st =
     (case g of (k, ns) \<Rightarrow>
        if length ns \<le> 1 then Ok st
        else blameOthers (blame k) owner (chooseFirst (taken (fst st)) [] ns) ns st)"

definition resolveGroups :: "(stats_map \<Rightarrow> string \<Rightarrow> bool) \<Rightarrow>
    ('k \<Rightarrow> string \<Rightarrow> string \<Rightarrow> stats_map \<Rightarrow> stats_map result) \<Rightarrow> (string \<Rightarrow> string) \<Rightarrow>
    ('k, string list) gomap \<Rightarrow> stats_map \<times> string list \<Rightarrow> (stats_map \<times> string list) result" where
  "resolveGroups taken blame owner groups st =
     rfor (resolveGroup taken blame owner) groups st"

lemma mappend_mget [map_simps]:
  "mget (mappend k x m) k' =
     (if k' = k then Some ((case mget m k of None \<Rightarrow> [] | Some xs \<Rightarrow> xs) @ [x]) else mget m k')"
  by (simp add: mappend_def map_simps)

lemma gomap_mappend [simp]: "gomap m \<Longrightarrow> gomap (mappend k x m)"
  by (simp add: mappend_def)

lemma chooseFirst_member: "first \<in> S \<Longrightarrow> set ns \<subseteq> S \<Longrightarrow> chooseFirst taken first ns \<in> S"
  by (induction ns arbitrary: first) (auto simp: Let_def)

lemma chooseFirst_taken:
  assumes "n \<in> set ns" and "taken n"
  shows "taken (chooseFirst taken first ns)"
  using assms by (induction ns arbitrary: first) (auto simp: Let_def)

text \<open>The removal set only grows, and the losers of a group are in it.\<close>

lemma blameOthers_grows:
  assumes "blameOthers blame owner first ns (stats, del) = Ok (stats', del')"
  shows "set del' = set del \<union> owner ` (set ns - {first})"
  using assms unfolding blameOthers_def
proof (induction ns arbitrary: stats del)
  case Nil
  then show ?case by simp
next
  case (Cons n ns)
  then show ?case by (cases "n = first") (auto simp: rbind_Ok_iff)
qed

lemma resolveGroup_grows:
  assumes "resolveGroup taken blame owner (k, ns) (stats, del) = Ok (stats', del')"
  shows "set del \<subseteq> set del'"
  using assms blameOthers_grows[of "blame k" owner "chooseFirst (taken stats) [] ns" ns stats del stats' del']
  by (auto simp: resolveGroup_def split: if_splits)

lemma resolveGroups_grows:
  assumes "resolveGroups taken blame owner groups (stats, del) = Ok (stats', del')"
  shows "set del \<subseteq> set del'"
proof -
  have "set del \<subseteq> set (snd (stats', del'))"
    using assms[unfolded resolveGroups_def]
  proof (rule rfor_inv[where I = "\<lambda>st. set del \<subseteq> set (snd st)"])
    show "set del \<subseteq> set (snd st')"
      if "set del \<subseteq> set (snd st)" "resolveGroup taken blame owner g st = Ok st'" for g st st'
      using that resolveGroup_grows[of taken blame owner "fst g" "snd g" "fst st" "snd st" "fst st'" "snd st'"]
      by auto
  qed simp
  then show ?thesis by simp
qed

text \<open>After the loop, every group has at most one name whose application is not removed.\<close>

lemma resolveGroups_one_winner:
  assumes "resolveGroups taken blame owner groups (stats, del) = Ok (stats', del')"
    and "(k, ns) \<in> set groups" and "n \<in> set ns" and "m \<in> set ns" and "n \<noteq> m"
  shows "owner n \<in> set del' \<or> owner m \<in> set del'"
  using assms(1,2)
proof (induction groups arbitrary: stats del)
  case Nil
  then show ?case by simp
next
  case (Cons g groups)
  then obtain s1 d1 where one: "resolveGroup taken blame owner g (stats, del) = Ok (s1, d1)"
    and rest: "resolveGroups taken blame owner groups (s1, d1) = Ok (stats', del')"
    by (auto simp: resolveGroups_def rbind_Ok_iff)
  show ?case
  proof (cases "g = (k, ns)")
    case True
    from assms(3-5) have "\<not> length ns \<le> 1"
      by (cases ns) (auto simp: length_Suc_conv le_Suc_eq)
    with one True have "set d1 = set del \<union> owner ` (set ns - {chooseFirst (taken stats) [] ns})"
      by (intro blameOthers_grows[of "blame k"]) (simp add: resolveGroup_def)
    with assms(3-5) have "owner n \<in> set d1 \<or> owner m \<in> set d1" by auto
    with resolveGroups_grows[OF rest] show ?thesis by auto
  next
    case False
    with Cons.prems rest show ?thesis by (intro Cons.IH) auto
  qed
qed

section \<open>No silent removal: the contract of the blaming functions\<close>

text \<open>
  \<open>explained stats a\<close>: the statistics of application \<open>a\<close> hold an instance with a cause, which
  the report carries to the cloud.
\<close>

definition explained :: "stats_map \<Rightarrow> string \<Rightarrow> bool" where
  "explained stats a \<longleftrightarrow>
     (\<exists>st m i ins. mget stats a = Some st \<and> as_instances st = Some m \<and> mget m i = Some ins \<and>
        is_cause ins \<noteq> [])"

locale blaming =
  fixes blame :: "'k \<Rightarrow> string \<Rightarrow> string \<Rightarrow> stats_map \<Rightarrow> stats_map result"
    and owner :: "string \<Rightarrow> string"
  assumes blame_explains: "blame k first n stats = Ok stats' \<Longrightarrow> explained stats' (owner n)"
    and blame_keeps: "blame k first n stats = Ok stats' \<Longrightarrow> explained stats a \<Longrightarrow> explained stats' a"
    and blame_no_error: "blame k first n stats \<noteq> Err e"
begin

lemma blameOthers_explained:
  assumes "blameOthers (blame k) owner first ns (stats, del) = Ok (stats', del')"
    and "\<forall>a \<in> set del. explained stats a"
  shows "\<forall>a \<in> set del'. explained stats' a"
proof -
  have "\<forall>a \<in> set (snd (stats', del')). explained (fst (stats', del')) a"
    using assms(1)[unfolded blameOthers_def]
  proof (rule rfor_inv[where I = "\<lambda>st. \<forall>a \<in> set (snd st). explained (fst st) a"])
    show "\<forall>a \<in> set (snd (stats, del)). explained (fst (stats, del)) a"
      using assms(2) by simp
    show "\<forall>a \<in> set (snd st'). explained (fst st') a"
      if "\<forall>a \<in> set (snd st). explained (fst st) a"
        and "(case st of (stats, del) \<Rightarrow> if n = first then Ok (stats, del)
              else rbind (blame k first n stats) (\<lambda>stats. Ok (stats, owner n # del))) = Ok st'" for n st st'
      using that blame_explains[of k first n "fst st" "fst st'"] blame_keeps[of k first n "fst st" "fst st'"]
      by (auto simp: rbind_Ok_iff split: if_splits prod.splits)
  qed
  then show ?thesis by simp
qed

lemma resolveGroups_explained:
  assumes "resolveGroups taken blame owner groups (stats, del) = Ok (stats', del')"
    and "\<forall>a \<in> set del. explained stats a"
  shows "\<forall>a \<in> set del'. explained stats' a"
proof -
  have "\<forall>a \<in> set (snd (stats', del')). explained (fst (stats', del')) a"
    using assms(1)[unfolded resolveGroups_def]
  proof (rule rfor_inv[where I = "\<lambda>st. \<forall>a \<in> set (snd st). explained (fst st) a"])
    show "\<forall>a \<in> set (snd (stats, del)). explained (fst (stats, del)) a"
      using assms(2) by simp
    show "\<forall>a \<in> set (snd st'). explained (fst st') a"
      if "\<forall>a \<in> set (snd st). explained (fst st) a" "resolveGroup taken blame owner g st = Ok st'"
      for g st st'
      using that blameOthers_explained[of "fst g" "chooseFirst (taken (fst st)) [] (snd g)" "snd g"
          "fst st" "snd st" "fst st'" "snd st'"]
      by (auto simp: resolveGroup_def split: if_splits prod.splits)
  qed
  then show ?thesis by simp
qed

lemma resolveGroups_no_error: "resolveGroups taken blame owner groups st \<noteq> Err e"
proof -
  have others: "blameOthers (blame k) owner first ns st \<noteq> Err e" for k first ns st
    unfolding blameOthers_def
  proof (induction ns arbitrary: st)
    case Nil
    then show ?case by simp
  next
    case (Cons n ns)
    obtain s d where st: "st = (s, d)" by fastforce
    with Cons blame_no_error[of k first n s] show ?case
      by (cases "blame k first n s") auto
  qed
  show ?thesis
    unfolding resolveGroups_def
  proof (induction groups arbitrary: st)
    case Nil
    then show ?case by simp
  next
    case (Cons g gs)
    then show ?case
      using others[of "fst g" "chooseFirst (taken (fst st)) [] (snd g)" "snd g" st]
      by (cases "resolveGroup taken blame owner g st")
        (auto simp: resolveGroup_def split: if_splits prod.splits)
  qed
qed

end

section \<open>What is common to the blaming functions\<close>

text \<open>
  \<^verbatim>\<open>stat, ok := stats[aName]; if !ok { stat = AppStats{...} }\<close>: the fresh entry is not nil, an
  entry that was there may be, and then the write below panics.
\<close>

definition statsOf :: "string \<Rightarrow> string \<Rightarrow> stats_map \<Rightarrow> app_stats" where
  "statsOf aName ver stats =
     (case mget stats aName of
        Some stat \<Rightarrow> stat
      | None \<Rightarrow> zero_app_stats\<lparr>as_name := aName, as_version := ver, as_status := Unknown,
                  as_instances := Some []\<rparr>)"

definition addCause :: "string \<Rightarrow> string \<Rightarrow> instance_stats \<Rightarrow> string \<Rightarrow> app_stats \<Rightarrow>
    stats_map \<Rightarrow> stats_map result" where
  "addCause aName iName fresh msg stat stats =
     (let iStat = (case as_instance stat iName of Some i \<Rightarrow> i | None \<Rightarrow> fresh);
          iStat = iStat\<lparr>is_cause := is_cause iStat @ msg\<rparr>
      in rmap (\<lambda>stat. mput aName stat stats) (put_instance iName iStat stat))"

lemma addCause_explains:
  assumes "addCause a i fresh msg stat stats = Ok stats'" and "msg \<noteq> []"
  shows "explained stats' a"
proof -
  from assms(1) obtain m where m: "as_instances stat = Some m"
    by (auto simp: addCause_def put_instance_def Let_def split: option.splits)
  with assms show ?thesis
    by (auto simp: addCause_def put_instance_def Let_def explained_def map_simps
        intro!: exI[of _ i])
qed

lemma addCause_keeps:
  assumes "addCause a i fresh msg (statsOf a v stats) stats = Ok stats'" and "msg \<noteq> []"
    and "explained stats b"
  shows "explained stats' b"
proof (cases "b = a")
  case True
  with addCause_explains[OF assms(1,2)] show ?thesis by simp
next
  case False
  from assms(1) obtain st where "stats' = mput a st stats"
    by (auto simp: addCause_def put_instance_def Let_def split: option.splits)
  with False assms(3) show ?thesis by (auto simp: explained_def map_simps)
qed

lemma addCause_panics:
  "addCause a i fresh msg stat stats = (case as_instances stat of None \<Rightarrow> Panic nil_map_write
     | Some m \<Rightarrow> Ok (mput a (stat\<lparr>as_instances := Some (mput i
         (let x = (case mget m i of Some i \<Rightarrow> i | None \<Rightarrow> fresh)
          in x\<lparr>is_cause := is_cause x @ msg\<rparr>) m)\<rparr>) stats))"
  by (simp add: addCause_def put_instance_def Let_def as_instance_def split: option.splits)

definition appVersion :: "apps_map \<Rightarrow> string \<Rightarrow> string" where
  "appVersion apps n = (case mget apps n of Some app \<Rightarrow> app_version app | None \<Rightarrow> [])"

end
