(* ===== verification/Engine_Checks.thy ===== *)
theory Engine_Checks
  imports Engine_Collide
begin

text \<open>
  The three checks of \<^verbatim>\<open>engine/utils.go\<close>, each with its grouping pass, its blaming function (an
  interpretation of \<open>blaming\<close>) and its final removal from \<^verbatim>\<open>update\<close> and \<^verbatim>\<open>apps\<close>. The result is
  the three maps the function mutates; the range over the groups follows \<open>rng\<close>.
\<close>

section \<open>checkService\<close>

definition collideService :: "string \<Rightarrow> string \<Rightarrow> string \<Rightarrow> string" where
  "collideService sName aName first =
     ''service ['' @ sName @ ''] in application ['' @ aName @ ''] collide with application ['' @ first @ '']''"

lemma collideService_nonempty [simp]: "collideService x y z \<noteq> []"
  by (simp add: collideService_def)

definition groupServices :: "app_info list \<Rightarrow> apps_map \<Rightarrow> (string, string list) gomap" where
  "groupServices infos apps =
     fold (\<lambda>info svcs. case mget apps (ai_name info) of
         None \<Rightarrow> svcs
       | Some app \<Rightarrow> fold (\<lambda>svc svcs. mappend (svc_name svc) (app_name app) svcs) (app_services app) svcs)
       infos []"

definition blameService :: "apps_map \<Rightarrow> string \<Rightarrow> string \<Rightarrow> string \<Rightarrow> stats_map \<Rightarrow> stats_map result" where
  "blameService apps sName first aName stats =
     addCause aName sName
       (zero_instance_stats\<lparr>is_service := sName, is_app := aName, is_status := Unknown\<rparr>)
       (collideService sName aName first) (statsOf aName (appVersion apps aName) stats) stats"

definition checkService ::
  "((string, string list) gomap \<Rightarrow> (string, string list) gomap) \<Rightarrow> app_info list \<Rightarrow> apps_map \<Rightarrow>
   stats_map \<Rightarrow> update_map \<Rightarrow> (apps_map \<times> stats_map \<times> update_map) result" where
  "checkService rng infos apps stats update =
     rbind (resolveGroups (\<lambda>stats n. mget stats n \<noteq> None) (blameService apps) (\<lambda>n. n)
              (rng (groupServices infos apps)) (stats, []))
       (\<lambda>(stats, del). Ok (mdels del apps, stats, mdels del update))"

interpretation service_blame: blaming "blameService apps" "\<lambda>n. n" for apps
proof
  fix k first n stats stats' a e
  show "blameService apps k first n stats \<noteq> Err e"
    by (simp add: blameService_def addCause_panics split: option.splits)
  assume ok: "blameService apps k first n stats = Ok stats'"
  then show "explained stats' n"
    unfolding blameService_def by (rule addCause_explains) simp
  assume "explained stats a"
  then show "explained stats' a"
    by (rule addCause_keeps[OF ok[unfolded blameService_def] collideService_nonempty])
qed

section \<open>checkPort\<close>

definition replicaPort :: "string \<Rightarrow> string" where
  "replicaPort sName = ''service ['' @ sName @ ''] with relica > 1 can not configure host port''"

definition collidePort :: "int \<Rightarrow> string \<Rightarrow> string \<Rightarrow> string" where
  "collidePort p sName first =
     ''port ['' @ dec p @ ''] in service ['' @ sName @ ''] collide with service ['' @ first @ '']''"

lemma collidePort_nonempty [simp]: "collidePort x y z \<noteq> []"
  by (simp add: collidePort_def)

record port_scan =
  ps_ports :: "(int, string list) gomap"
  ps_svcs :: "(string, string) gomap"
  ps_stats :: stats_map
  ps_del :: "string list"

text \<open>One port of one service in the first pass of \<open>checkPort\<close>.\<close>

definition scanPort :: "application \<Rightarrow> service \<Rightarrow> container_port \<Rightarrow> port_scan \<Rightarrow> port_scan result" where
  "scanPort app svc p s =
     (if cp_hostPort p = 0 then Ok s
      else if svc_replica svc > 1 then
        rmap (\<lambda>stats. s\<lparr>ps_stats := stats, ps_del := app_name app # ps_del s\<rparr>)
          (addCause (app_name app) (svc_name svc)
             (zero_instance_stats\<lparr>is_service := svc_name svc, is_status := Unknown\<rparr>)
             (replicaPort (svc_name svc))
             (statsOf (app_name app) (app_version app) (ps_stats s)) (ps_stats s))
      else Ok (s\<lparr>ps_ports := mappend (cp_hostPort p) (svc_name svc) (ps_ports s)\<rparr>))"

definition scanPorts :: "app_info list \<Rightarrow> apps_map \<Rightarrow> stats_map \<Rightarrow> port_scan result" where
  "scanPorts infos apps stats =
     rfor (\<lambda>info s. case mget apps (ai_name info) of
         None \<Rightarrow> Ok s
       | Some app \<Rightarrow>
           rfor (\<lambda>svc s. rfor (scanPort app svc) (svc_ports svc)
                   (s\<lparr>ps_svcs := mput (svc_name svc) (app_name app) (ps_svcs s)\<rparr>))
             (app_services app) s)
       infos \<lparr>ps_ports = [], ps_svcs = [], ps_stats = stats, ps_del = []\<rparr>"

text \<open>\<^verbatim>\<open>svcs[sName]\<close>: the empty name where there is no entry.\<close>

definition svcOwner :: "(string, string) gomap \<Rightarrow> string \<Rightarrow> string" where
  "svcOwner svcs sName = (case mget svcs sName of Some a \<Rightarrow> a | None \<Rightarrow> [])"

definition blamePort :: "apps_map \<Rightarrow> (string, string) gomap \<Rightarrow> int \<Rightarrow> string \<Rightarrow> string \<Rightarrow>
    stats_map \<Rightarrow> stats_map result" where
  "blamePort apps svcs p first sName stats =
     (let aName = svcOwner svcs sName
      in addCause aName sName (zero_instance_stats\<lparr>is_service := sName, is_status := Unknown\<rparr>)
           (collidePort p sName first) (statsOf aName (appVersion apps aName) stats) stats)"

definition portTaken :: "(string, string) gomap \<Rightarrow> stats_map \<Rightarrow> string \<Rightarrow> bool" where
  "portTaken svcs stats sName =
     (case mget stats (svcOwner svcs sName) of
        None \<Rightarrow> False | Some stat \<Rightarrow> as_instance stat sName \<noteq> None)"

definition checkPort ::
  "((int, string list) gomap \<Rightarrow> (int, string list) gomap) \<Rightarrow> app_info list \<Rightarrow> apps_map \<Rightarrow>
   stats_map \<Rightarrow> update_map \<Rightarrow> (apps_map \<times> stats_map \<times> update_map) result" where
  "checkPort rng infos apps stats update =
     rbind (scanPorts infos apps stats)
       (\<lambda>s. rbind (resolveGroups (portTaken (ps_svcs s)) (blamePort apps (ps_svcs s))
                     (svcOwner (ps_svcs s)) (rng (ps_ports s)) (ps_stats s, ps_del s))
         (\<lambda>(stats, del). Ok (mdels del apps, stats, mdels del update)))"

interpretation port_blame: blaming "blamePort apps svcs" "svcOwner svcs" for apps svcs
proof
  fix k first n stats stats' a e
  show "blamePort apps svcs k first n stats \<noteq> Err e"
    by (simp add: blamePort_def addCause_panics Let_def split: option.splits)
  assume ok: "blamePort apps svcs k first n stats = Ok stats'"
  then show "explained stats' (svcOwner svcs n)"
    unfolding blamePort_def Let_def by (rule addCause_explains) simp
  assume "explained stats a"
  then show "explained stats' a"
    by (rule addCause_keeps[OF ok[unfolded blamePort_def Let_def] collidePort_nonempty])
qed

section \<open>checkMultiAppPort\<close>

definition replicaAppPort :: "string \<Rightarrow> string" where
  "replicaAppPort aName = ''application ['' @ aName @ ''] with relica > 1 can not configure host port''"

definition collideAppPort :: "int \<Rightarrow> string \<Rightarrow> string \<Rightarrow> string" where
  "collideAppPort p aName first =
     ''port ['' @ dec p @ ''] in application ['' @ aName @ ''] collide with service ['' @ first @ '']''"

lemma collideAppPort_nonempty [simp]: "collideAppPort x y z \<noteq> []"
  by (simp add: collideAppPort_def)

text \<open>The nested loops with breaks that look for one non-zero host port (\<^verbatim>\<open>flag = false\<close>).\<close>

definition usesHostPort :: "application \<Rightarrow> bool" where
  "usesHostPort app \<longleftrightarrow>
     list_ex (\<lambda>svc. list_ex (\<lambda>p. cp_hostPort p \<noteq> 0) (svc_ports svc)) (app_services app)"

definition addHostPorts :: "application \<Rightarrow> (int, string list) gomap \<Rightarrow> (int, string list) gomap" where
  "addHostPorts app ports =
     fold (\<lambda>svc ports. fold (\<lambda>p ports.
         if cp_hostPort p = 0 then ports else mappend (cp_hostPort p) (app_name app) ports)
       (svc_ports svc) ports) (app_services app) ports"

record app_port_scan =
  aps_ports :: "(int, string list) gomap"
  aps_stats :: stats_map
  aps_del :: "string list"

definition scanApp :: "application \<Rightarrow> app_port_scan \<Rightarrow> app_port_scan result" where
  "scanApp app s =
     (if \<not> usesHostPort app then Ok s
      else if app_replica app > 1 then
        rmap (\<lambda>stats. s\<lparr>aps_stats := stats, aps_del := app_name app # aps_del s\<rparr>)
          (addCause (app_name app) (app_name app)
             (zero_instance_stats\<lparr>is_app := app_name app, is_status := Unknown\<rparr>)
             (replicaAppPort (app_name app))
             (statsOf (app_name app) (app_version app) (aps_stats s)) (aps_stats s))
      else Ok (s\<lparr>aps_ports := addHostPorts app (aps_ports s)\<rparr>))"

definition scanApps :: "app_info list \<Rightarrow> apps_map \<Rightarrow> stats_map \<Rightarrow> app_port_scan result" where
  "scanApps infos apps stats =
     rfor (\<lambda>info s. case mget apps (ai_name info) of None \<Rightarrow> Ok s | Some app \<Rightarrow> scanApp app s)
       infos \<lparr>aps_ports = [], aps_stats = stats, aps_del = []\<rparr>"

definition blameAppPort :: "apps_map \<Rightarrow> int \<Rightarrow> string \<Rightarrow> string \<Rightarrow> stats_map \<Rightarrow> stats_map result" where
  "blameAppPort apps p first aName stats =
     addCause aName aName (zero_instance_stats\<lparr>is_app := aName, is_status := Unknown\<rparr>)
       (collideAppPort p aName first) (statsOf aName (appVersion apps aName) stats) stats"

definition appTaken :: "stats_map \<Rightarrow> string \<Rightarrow> bool" where
  "appTaken stats aName =
     (case mget stats aName of None \<Rightarrow> False | Some stat \<Rightarrow> as_instance stat aName \<noteq> None)"

definition checkMultiAppPort ::
  "((int, string list) gomap \<Rightarrow> (int, string list) gomap) \<Rightarrow> app_info list \<Rightarrow> apps_map \<Rightarrow>
   stats_map \<Rightarrow> update_map \<Rightarrow> (apps_map \<times> stats_map \<times> update_map) result" where
  "checkMultiAppPort rng infos apps stats update =
     rbind (scanApps infos apps stats)
       (\<lambda>s. rbind (resolveGroups appTaken (blameAppPort apps) (\<lambda>n. n)
                     (rng (aps_ports s)) (aps_stats s, aps_del s))
         (\<lambda>(stats, del). Ok (mdels del apps, stats, mdels del update)))"

interpretation app_port_blame: blaming "blameAppPort apps" "\<lambda>n. n" for apps
proof
  fix k first n stats stats' a e
  show "blameAppPort apps k first n stats \<noteq> Err e"
    by (simp add: blameAppPort_def addCause_panics split: option.splits)
  assume ok: "blameAppPort apps k first n stats = Ok stats'"
  then show "explained stats' n"
    unfolding blameAppPort_def by (rule addCause_explains) simp
  assume "explained stats a"
  then show "explained stats' a"
    by (rule addCause_keeps[OF ok[unfolded blameAppPort_def] collideAppPort_nonempty])
qed

section \<open>What the first passes collect\<close>

definition group_of :: "('k, string list) gomap \<Rightarrow> 'k \<Rightarrow> string list" where
  "group_of m k = (case mget m k of None \<Rightarrow> [] | Some xs \<Rightarrow> xs)"

lemma group_of_Some: "n \<in> set (group_of m k) \<Longrightarrow> mget m k = Some (group_of m k)"
  by (cases "mget m k") (auto simp: group_of_def)

lemma group_of_mappend [map_simps]:
  "group_of (mappend k x m) k' = (if k' = k then group_of m k @ [x] else group_of m k')"
  by (auto simp: group_of_def map_simps split: option.splits)

definition hostPortList :: "application \<Rightarrow> int list" where
  "hostPortList app = filter (\<lambda>p. p \<noteq> 0)
     (map cp_hostPort (concat (map svc_ports (app_services app))))"

definition serviceNames :: "application \<Rightarrow> string list" where
  "serviceNames app = map svc_name (app_services app)"

lemma usesHostPort_iff: "usesHostPort app \<longleftrightarrow> hostPortList app \<noteq> []"
  by (auto simp: usesHostPort_def hostPortList_def filter_empty_conv list_ex_iff)

lemma addHostPorts_fold:
  "addHostPorts app m = fold (\<lambda>p. mappend p (app_name app)) (hostPortList app) m"
proof -
  have one: "fold (\<lambda>p ports. if cp_hostPort p = 0 then ports
        else mappend (cp_hostPort p) (app_name app) ports) ps m =
      fold (\<lambda>p. mappend p (app_name app)) (filter (\<lambda>p. p \<noteq> 0) (map cp_hostPort ps)) m"
    for ps :: "container_port list" and m
    by (induction ps arbitrary: m) auto
  have "fold (\<lambda>svc ports. fold (\<lambda>p ports. if cp_hostPort p = 0 then ports
        else mappend (cp_hostPort p) (app_name app) ports) (svc_ports svc) ports) svcs m =
      fold (\<lambda>p. mappend p (app_name app))
        (filter (\<lambda>p. p \<noteq> 0) (map cp_hostPort (concat (map svc_ports svcs)))) m" for svcs
    by (induction svcs arbitrary: m) (auto simp: one)
  then show ?thesis by (simp add: addHostPorts_def hostPortList_def)
qed

lemma fold_mappend_mono: "set (group_of m k) \<subseteq> set (group_of (fold (\<lambda>p. mappend p x) ps m) k)"
proof (induction ps arbitrary: m)
  case Nil
  then show ?case by simp
next
  case (Cons p ps)
  have "set (group_of m k) \<subseteq> set (group_of (mappend p x m) k)" by (auto simp: map_simps)
  with Cons[of "mappend p x m"] show ?case by auto
qed

lemma fold_mappend_adds: "p \<in> set ps \<Longrightarrow> x \<in> set (group_of (fold (\<lambda>p. mappend p x) ps m) p)"
proof (induction ps arbitrary: m)
  case Nil
  then show ?case by simp
next
  case (Cons q ps)
  show ?case
  proof (cases "p = q")
    case True
    then have "x \<in> set (group_of (mappend q x m) p)" by (simp add: map_simps)
    with fold_mappend_mono[of "mappend q x m" p x ps] show ?thesis by auto
  next
    case False
    with Cons show ?thesis by simp
  qed
qed

lemma gomap_fold_mappend: "gomap m \<Longrightarrow> gomap (fold (\<lambda>p. mappend p x) ps m)"
  by (induction ps arbitrary: m) auto

text \<open>
  After the first pass of \<open>checkMultiAppPort\<close> an application either is in the removal set or
  sits in the group of each of its host ports.
\<close>

definition scan_covers :: "application \<Rightarrow> app_port_scan \<Rightarrow> bool" where
  "scan_covers app s \<longleftrightarrow> app_name app \<in> set (aps_del s) \<or>
     (app_replica app \<le> 1 \<or> \<not> usesHostPort app) \<and>
     (\<forall>p \<in> set (hostPortList app). app_name app \<in> set (group_of (aps_ports s) p))"

lemma scanApp_covers: "scanApp app s = Ok s' \<Longrightarrow> scan_covers app s'"
  unfolding scanApp_def scan_covers_def
  by (cases "addCause (app_name app) (app_name app)
             (zero_instance_stats\<lparr>is_app := app_name app, is_status := Unknown\<rparr>)
             (replicaAppPort (app_name app))
             (statsOf (app_name app) (app_version app) (aps_stats s)) (aps_stats s)")
    (auto simp: addHostPorts_fold usesHostPort_iff fold_mappend_adds split: if_splits)

lemma scanApp_mono:
  assumes "scanApp app' s = Ok s'" and "scan_covers app s"
  shows "scan_covers app s'"
proof -
  from assms(1) have "(aps_ports s' = aps_ports s \<or> aps_ports s' = addHostPorts app' (aps_ports s))
      \<and> set (aps_del s) \<subseteq> set (aps_del s')"
    unfolding scanApp_def
    by (cases "addCause (app_name app') (app_name app')
             (zero_instance_stats\<lparr>is_app := app_name app', is_status := Unknown\<rparr>)
             (replicaAppPort (app_name app'))
             (statsOf (app_name app') (app_version app') (aps_stats s)) (aps_stats s)")
      (auto split: if_splits)
  then have "set (aps_del s) \<subseteq> set (aps_del s')"
    and "\<And>p. set (group_of (aps_ports s) p) \<subseteq> set (group_of (aps_ports s') p)"
    by (elim conjE disjE; simp add: addHostPorts_fold fold_mappend_mono)+
  with assms(2) show ?thesis
    unfolding scan_covers_def by blast
qed

lemma scanApps_covers:
  assumes "scanApps infos apps stats = Ok s" and "i \<in> set infos" and "mget apps (ai_name i) = Some app"
  shows "scan_covers app s"
proof -
  let ?body = "\<lambda>info s. case mget apps (ai_name info) of None \<Rightarrow> Ok s | Some app \<Rightarrow> scanApp app s"
  obtain xs ys where infos: "infos = xs @ i # ys" using assms(2) by (meson split_list)
  from assms(1) obtain s1 s2 where "scanApp app s1 = Ok s2" and rest: "rfor ?body ys s2 = Ok s"
    unfolding scanApps_def infos by (auto simp: rfor_append rbind_Ok_iff assms(3))
  then have "scan_covers app s2" by (blast intro: scanApp_covers)
  with rest show ?thesis
    by (rule rfor_inv) (auto split: option.splits intro: scanApp_mono)
qed

lemma scanApps_gomap:
  assumes "scanApps infos apps stats = Ok s"
  shows "gomap (aps_ports s)"
  using assms unfolding scanApps_def
proof (rule rfor_inv)
  show "gomap (aps_ports s')" if "gomap (aps_ports t)"
    "(case mget apps (ai_name x) of None \<Rightarrow> Ok t | Some app \<Rightarrow> scanApp app t) = Ok s'" for x t s'
  proof (cases "mget apps (ai_name x)")
    case None
    with that show ?thesis by simp
  next
    case (Some app)
    with that show ?thesis
      unfolding scanApp_def
      by (cases "addCause (app_name app) (app_name app)
             (zero_instance_stats\<lparr>is_app := app_name app, is_status := Unknown\<rparr>)
             (replicaAppPort (app_name app))
             (statsOf (app_name app) (app_version app) (aps_stats t)) (aps_stats t)")
        (auto split: if_splits simp: addHostPorts_fold gomap_fold_mappend)
  qed
qed simp

lemma scanApps_explained:
  assumes "scanApps infos apps stats = Ok s"
  shows "\<forall>a \<in> set (aps_del s). explained (aps_stats s) a"
  using assms unfolding scanApps_def
proof (rule rfor_inv)
  show "\<forall>a \<in> set (aps_del s'). explained (aps_stats s') a"
    if "\<forall>a \<in> set (aps_del t). explained (aps_stats t) a"
      "(case mget apps (ai_name x) of None \<Rightarrow> Ok t | Some app \<Rightarrow> scanApp app t) = Ok s'" for x t s'
  proof (cases "mget apps (ai_name x)")
    case None
    with that show ?thesis by simp
  next
    case (Some app)
    let ?add = "addCause (app_name app) (app_name app)
             (zero_instance_stats\<lparr>is_app := app_name app, is_status := Unknown\<rparr>)
             (replicaAppPort (app_name app))
             (statsOf (app_name app) (app_version app) (aps_stats t)) (aps_stats t)"
    have msg: "replicaAppPort (app_name app) \<noteq> []" by (simp add: replicaAppPort_def)
    show ?thesis
    proof (cases "usesHostPort app \<and> app_replica app > 1")
      case True
      with Some that(2) obtain st where add: "?add = Ok st"
        and s': "s' = t\<lparr>aps_stats := st, aps_del := app_name app # aps_del t\<rparr>"
        by (cases ?add) (auto simp: scanApp_def)
      from addCause_explains[OF add msg] addCause_keeps[OF add msg] that(1) show ?thesis
        by (simp add: s')
    next
      case False
      with Some that show ?thesis by (auto simp: scanApp_def split: if_splits)
    qed
  qed
qed simp

section \<open>What the engine may rely on after checkMultiAppPort\<close>

text \<open>
  C15. No two applications left by \<open>checkMultiAppPort\<close> claim the same host port, and none that
  claims a host port has more than one replica. The hypotheses are the caller's: \<^verbatim>\<open>apps\<close> is what
  \<^verbatim>\<open>SyncApps\<close> returned, so each application sits under its own name, and both applications are
  among the desired infos.
\<close>

theorem host_ports_exclusive:
  assumes "range_ok rng"
    and keyed: "\<And>n app. mget apps n = Some app \<Longrightarrow> app_name app = n"
    and check: "checkMultiAppPort rng infos apps stats update = Ok (apps', stats', update')"
    and n: "n \<in> ai_name ` set infos" "mget apps' n = Some a"
    and m: "m \<in> ai_name ` set infos" "mget apps' m = Some b" and "n \<noteq> m"
  shows "set (hostPortList a) \<inter> set (hostPortList b) = {}
    \<and> (hostPortList a \<noteq> [] \<longrightarrow> app_replica a \<le> 1)"
proof -
  from check obtain s del where s: "scanApps infos apps stats = Ok s"
    and res: "resolveGroups appTaken (blameAppPort apps) (\<lambda>n. n) (rng (aps_ports s))
       (aps_stats s, aps_del s) = Ok (stats', del)"
    and apps': "apps' = mdels del apps"
    by (auto simp: checkMultiAppPort_def rbind_Ok_iff)
  have kept: "mget apps k = Some x \<and> k \<notin> set del" if "mget apps' k = Some x" for k x
    using that by (auto simp: apps' map_simps split: if_splits)
  have covers: "scan_covers x s" if "k \<in> ai_name ` set infos" "mget apps' k = Some x" for k x
    using scanApps_covers[OF s] kept[OF that(2)] that(1) by auto
  have alive: "x \<notin> set (aps_del s)" if "x \<notin> set del" for x
    using that resolveGroups_grows[OF res] by auto
  have an: "app_name a = n" and bm: "app_name b = m"
    using keyed kept n(2) m(2) by blast+
  have grp: "k \<in> set (group_of (aps_ports s) p) \<and> (app_replica x \<le> 1 \<or> \<not> usesHostPort x)"
    if "k \<in> ai_name ` set infos" "mget apps' k = Some x" "app_name x = k" "p \<in> set (hostPortList x)"
    for k x p
    using covers[OF that(1,2)] that(3,4) kept[OF that(2)] alive by (auto simp: scan_covers_def)
  have "False" if p: "p \<in> set (hostPortList a)" "p \<in> set (hostPortList b)" for p
  proof -
    from grp[OF n an p(1)] grp[OF m bm p(2)]
    have in_group: "n \<in> set (group_of (aps_ports s) p)" "m \<in> set (group_of (aps_ports s) p)" by auto
    from group_of_Some[OF in_group(1)] have "(p, group_of (aps_ports s) p) \<in> set (rng (aps_ports s))"
      using gomap_mget_iff[OF scanApps_gomap[OF s]] by (simp add: range_ok_set[OF assms(1)])
    from resolveGroups_one_winner[OF res this in_group \<open>n \<noteq> m\<close>] kept[OF n(2)] kept[OF m(2)]
    show False by simp
  qed
  moreover have "app_replica a \<le> 1" if "hostPortList a \<noteq> []"
    using covers[OF n] that kept[OF n(2)] alive an by (auto simp: scan_covers_def usesHostPort_iff)
  ultimately show ?thesis by blast
qed

lemma dropped_explained:
  assumes "checkMultiAppPort rng infos apps stats update = Ok (apps', stats', update')"
    and "mget update n \<noteq> None" and "mget update' n = None"
  shows "explained stats' n"
proof -
  from assms(1) obtain s del where s: "scanApps infos apps stats = Ok s"
    and res: "resolveGroups appTaken (blameAppPort apps) (\<lambda>n. n) (rng (aps_ports s))
       (aps_stats s, aps_del s) = Ok (stats', del)"
    and update': "update' = mdels del update"
    by (auto simp: checkMultiAppPort_def rbind_Ok_iff)
  from assms(2,3) have "n \<in> set del" by (auto simp: update' map_simps split: if_splits)
  with app_port_blame.resolveGroups_explained[OF res scanApps_explained[OF s]] show ?thesis
    by blast
qed

subsection \<open>Witnesses\<close>

definition sample_port_app :: "string \<Rightarrow> int \<Rightarrow> application" where
  "sample_port_app n p = zero_application\<lparr>app_name := n, app_version := ''1'', app_replica := 1,
     app_services := [zero_service\<lparr>svc_name := n @ ''-svc'',
       svc_ports := [\<lparr>cp_hostPort = p, cp_containerPort = 80, cp_protocol = ''TCP'',
                       cp_serviceType = [], cp_nodePort = 0\<rparr>]\<rparr>]\<rparr>"

definition sample_info :: "string \<Rightarrow> app_info" where
  "sample_info n = \<lparr>ai_name = n, ai_version = ''1''\<rparr>"

lemma sample_names [simp]: "app_name (sample_port_app n p) = n" "ai_name (sample_info n) = n"
  by (simp_all add: sample_port_app_def sample_info_def)

text \<open>Three applications, of which \<^verbatim>\<open>a\<close> and \<^verbatim>\<open>b\<close> want port 80: \<^verbatim>\<open>b\<close> loses.\<close>

definition sample_check :: "(apps_map \<times> stats_map \<times> update_map) result" where
  "sample_check = checkMultiAppPort (\<lambda>m. m) [sample_info ''a'', sample_info ''b'', sample_info ''c'']
     [(''a'', sample_port_app ''a'' 80), (''b'', sample_port_app ''b'' 80), (''c'', sample_port_app ''c'' 81)]
     [] [(''a'', sample_info ''a''), (''b'', sample_info ''b''), (''c'', sample_info ''c'')]"

lemma sample_check_run:
  "case sample_check of
     Ok (apps', stats, update') \<Rightarrow> map fst apps' = [''a'', ''c''] \<and> map fst update' = [''a'', ''c'']
   | _ \<Rightarrow> False"
  by code_simp

lemma sample_check_value:
  "\<exists>a c stats u v. sample_check = Ok ([(''a'', a), (''c'', c)], stats, [(''a'', u), (''c'', v)])"
proof -
  obtain apps' stats update' where run: "sample_check = Ok (apps', stats, update')"
    and "map fst apps' = [''a'', ''c'']" and "map fst update' = [''a'', ''c'']"
    using sample_check_run by (auto split: result.splits)
  then show ?thesis by (auto simp: map_eq_Cons_conv) blast
qed

theorem host_ports_exclusive_witness:
  "\<exists>a c stats u v. sample_check = Ok ([(''a'', a), (''c'', c)], stats, [(''a'', u), (''c'', v)])
     \<and> set (hostPortList a) \<inter> set (hostPortList c) = {}"
proof -
  obtain a c stats u v where
    run: "sample_check = Ok ([(''a'', a), (''c'', c)], stats, [(''a'', u), (''c'', v)])"
    using sample_check_value by blast
  have "set (hostPortList a) \<inter> set (hostPortList c) = {}"
    by (rule host_ports_exclusive[OF range_ok_id _ run[unfolded sample_check_def],
          of "''a''" a "''c''" c, THEN conjunct1])
      (auto split: if_splits)
  with run show ?thesis by blast
qed

text \<open>
  No application is dropped silently: whenever \<open>checkMultiAppPort\<close> removes an application
  from the update list, the statistics it returns hold a non-empty cause for that application,
  so the report that follows tells the cloud why it does not run.
\<close>

theorem removed_app_explained:
  assumes "checkMultiAppPort rng infos apps stats update = Ok (apps', stats', update')"
    and "mget update n \<noteq> None" and "mget update' n = None"
  shows "explained stats' n"
  by (rule dropped_explained[OF assms])

theorem removed_app_explained_witness:
  "\<exists>stats apps' update'. sample_check = Ok (apps', stats, update') \<and> explained stats ''b''"
proof -
  obtain a c stats u v where
    run: "sample_check = Ok ([(''a'', a), (''c'', c)], stats, [(''a'', u), (''c'', v)])"
    using sample_check_value by blast
  have "explained stats ''b''"
    by (rule removed_app_explained[OF run[unfolded sample_check_def]]) simp_all
  with run show ?thesis by blast
qed

section \<open>When the checks panic\<close>

text \<open>An instance map that is nil: the statistics of a Helm application without pods have one.\<close>

definition stats_total :: "stats_map \<Rightarrow> bool" where
  "stats_total stats \<longleftrightarrow> (\<forall>n st. mget stats n = Some st \<longrightarrow> as_instances st \<noteq> None)"

lemma addCause_total:
  assumes "stats_total stats"
  shows "\<exists>stats'. addCause a i fresh msg (statsOf a v stats) stats = Ok stats' \<and> stats_total stats'"
proof -
  have "as_instances (statsOf a v stats) \<noteq> None"
    using assms by (auto simp: stats_total_def statsOf_def split: option.splits)
  with assms show ?thesis
    by (auto simp: addCause_panics stats_total_def map_simps)
qed

lemma rfor_total:
  assumes "I s" and "\<And>x s. x \<in> set xs \<Longrightarrow> I s \<Longrightarrow> \<exists>s'. f x s = Ok s' \<and> I s'"
  shows "\<exists>s'. rfor f xs s = Ok s' \<and> I s'"
  using assms
proof (induction xs arbitrary: s)
  case Nil
  then show ?case by simp
next
  case (Cons x xs)
  from Cons.prems obtain s' where s': "f x s = Ok s'" "I s'" by auto
  with Cons.IH[OF s'(2)] Cons.prems(2) show ?case by auto
qed

lemma scanApp_total:
  assumes "stats_total (aps_stats s)"
  shows "\<exists>s'. scanApp app s = Ok s' \<and> stats_total (aps_stats s')"
proof -
  obtain st where "addCause (app_name app) (app_name app)
             (zero_instance_stats\<lparr>is_app := app_name app, is_status := Unknown\<rparr>)
             (replicaAppPort (app_name app))
             (statsOf (app_name app) (app_version app) (aps_stats s)) (aps_stats s) = Ok st"
    and "stats_total st" using addCause_total[OF assms] by blast
  with assms show ?thesis by (simp add: scanApp_def)
qed

text \<open>
  On statistics whose instance maps are not nil, \<open>checkMultiAppPort\<close> always returns: it never
  panics and has no error path.
\<close>

theorem check_returns:
  assumes "stats_total stats"
  shows "\<exists>r. checkMultiAppPort rng infos apps stats update = Ok r"
proof -
  have "\<exists>s. scanApps infos apps stats = Ok s \<and> stats_total (aps_stats s)"
    unfolding scanApps_def
    by (rule rfor_total[where I = "\<lambda>s. stats_total (aps_stats s)"])
      (auto simp: assms scanApp_total split: option.splits)
  then obtain s where s: "scanApps infos apps stats = Ok s" "stats_total (aps_stats s)" by blast
  have others: "\<exists>st'. blameOthers (blameAppPort apps k) (\<lambda>n. n) first ns st = Ok st' \<and> stats_total (fst st')"
    if "stats_total (fst st)" for k first ns st
    unfolding blameOthers_def
  proof (rule rfor_total[where I = "\<lambda>st. stats_total (fst st)", OF that])
    fix n and st :: "stats_map \<times> string list"
    assume "stats_total (fst st)"
    then obtain t where "blameAppPort apps k first n (fst st) = Ok t" "stats_total t"
      unfolding blameAppPort_def using addCause_total by blast
    with \<open>stats_total (fst st)\<close> show "\<exists>st'. (case st of (stats, del) \<Rightarrow>
        if n = first then Ok (stats, del)
        else rbind (blameAppPort apps k first n stats) (\<lambda>stats. Ok (stats, n # del))) = Ok st' \<and>
      stats_total (fst st')"
      by (cases st) simp
  qed
  have "\<exists>st'. resolveGroups appTaken (blameAppPort apps) (\<lambda>n. n) (rng (aps_ports s))
       (aps_stats s, aps_del s) = Ok st' \<and> stats_total (fst st')"
    unfolding resolveGroups_def
    by (rule rfor_total[where I = "\<lambda>st. stats_total (fst st)"])
      (use others in \<open>force simp: s(2) resolveGroup_def\<close>)+
  then show ?thesis by (auto simp: checkMultiAppPort_def s(1))
qed

theorem check_returns_witness:
  "\<exists>r. checkMultiAppPort (\<lambda>m. m) [sample_info ''a''] [(''a'', sample_port_app ''a'' 80)]
     [(''a'', zero_app_stats\<lparr>as_instances := Some []\<rparr>)] [] = Ok r"
  by (rule check_returns) (simp add: stats_total_def)

text \<open>
  A nil instance map makes the check panic: if a desired application asks for a host port with
  more than one replica and the collected statistics hold an entry for it whose instance map is
  nil, \<open>checkMultiAppPort\<close> does not return but panics with a write to a nil map.
\<close>

theorem nil_instances_panic:
  assumes "i \<in> set infos" and "mget apps (ai_name i) = Some app" and "hostPortList app \<noteq> []"
    and "app_replica app > 1"
    and "mget stats (app_name app) = Some st" and "as_instances st = None"
  shows "checkMultiAppPort rng infos apps stats update = Panic nil_map_write"
proof -
  let ?body = "\<lambda>info s. case mget apps (ai_name info) of None \<Rightarrow> Ok s | Some app \<Rightarrow> scanApp app s"
  let ?I = "\<lambda>s. mget (aps_stats s) (app_name app) = Some st"
  have panic: "scanApp app s = Panic nil_map_write" if "?I s" for s
    using that assms(3,4,6) by (simp add: scanApp_def usesHostPort_iff statsOf_def addCause_panics)
  have step: "?body x s = Panic nil_map_write \<or> (\<exists>s'. ?body x s = Ok s' \<and> ?I s')" if "?I s" for x s
  proof (cases "mget apps (ai_name x)")
    case None
    with that show ?thesis by simp
  next
    case (Some b)
    show ?thesis
    proof (cases "app_name b = app_name app")
      case True
      with that Some assms(6) show ?thesis
        by (auto simp: scanApp_def statsOf_def addCause_panics)
    next
      case False
      with that Some show ?thesis
        by (auto simp: scanApp_def addCause_panics map_simps split: option.splits)
    qed
  qed
  have loop: "rfor ?body xs s = Panic nil_map_write \<or> (\<exists>s'. rfor ?body xs s = Ok s' \<and> ?I s')"
    if "?I s" for xs s
    using that
  proof (induction xs arbitrary: s)
    case Nil
    then show ?case by simp
  next
    case (Cons x xs)
    from step[OF Cons.prems, of x] show ?case
    proof (elim disjE exE conjE)
      fix s' assume "?body x s = Ok s'" "?I s'"
      with Cons.IH[OF this(2)] show ?case by simp
    qed simp
  qed
  obtain xs ys where infos: "infos = xs @ i # ys" using assms(1) by (meson split_list)
  have "scanApps infos apps stats = Panic nil_map_write"
    unfolding scanApps_def infos rfor_append
    using loop[of "\<lparr>aps_ports = [], aps_stats = stats, aps_del = []\<rparr>" xs] assms(2,5) panic by auto
  then show ?thesis by (simp add: checkMultiAppPort_def)
qed

theorem nil_instances_panic_witness:
  "checkMultiAppPort (\<lambda>m. m) [sample_info ''a''] [(''a'', (sample_port_app ''a'' 80)\<lparr>app_replica := 2\<rparr>)]
     [(''a'', zero_app_stats\<lparr>as_name := ''a''\<rparr>)] [] = Panic nil_map_write"
  by (rule nil_instances_panic[of "sample_info ''a''" _ _ "(sample_port_app ''a'' 80)\<lparr>app_replica := 2\<rparr>"
        _ "zero_app_stats\<lparr>as_name := ''a''\<rparr>"])
    (simp_all add: sample_info_def sample_port_app_def hostPortList_def zero_application_def
      zero_service_def zero_app_stats_def)

end
