(* ===== verification/Go_Path.thy ===== *)
theory Go_Path
  imports Prelude
begin

text \<open>
  What the sources use of Go's \<^verbatim>\<open>path/filepath\<close> and \<^verbatim>\<open>os\<close> packages (unix): lexical cleaning and
  joining of paths, and a file system of plain files and directories. \<open>within\<close> is confinement of
  a path to a directory, and the lemmas on it are what the path properties of the development
  rest on.
\<close>

section \<open>Lexical paths\<close>

abbreviation slash :: char where
  "slash \<equiv> CHR ''/''"

text \<open>\<^verbatim>\<open>filepath.IsAbs\<close>.\<close>

definition IsAbs :: "string \<Rightarrow> bool" where
  "IsAbs p \<longleftrightarrow> hasPrefix p ''/''"

text \<open>
  The component loop of \<^verbatim>\<open>filepath.Clean\<close>: empty and \<open>.\<close> components are dropped, \<open>..\<close> removes the
  component before it, is dropped at the root and kept at the start of a relative path. \<open>st\<close> is
  the output so far, last component first.
\<close>

fun cleanLoop :: "bool \<Rightarrow> string list \<Rightarrow> string list \<Rightarrow> string list" where
  "cleanLoop r st [] = rev st"
| "cleanLoop r st (c # cs) =
     (if c = '''' \<or> c = ''.'' then cleanLoop r st cs
      else if c = ''..'' then
        (case st of
           [] \<Rightarrow> cleanLoop r (if r then [] else [c]) cs
         | s # ss \<Rightarrow> cleanLoop r (if s = ''..'' then c # st else ss) cs)
      else cleanLoop r (c # st) cs)"

definition comps :: "string \<Rightarrow> string list" where
  "comps p = cleanLoop (IsAbs p) [] (split slash p)"

definition Clean :: "string \<Rightarrow> string" where
  "Clean p =
     (if IsAbs p then slash # join ''/'' (comps p)
      else if comps p = [] then ''.'' else join ''/'' (comps p))"

text \<open>\<^verbatim>\<open>filepath.Join\<close>: leading empty elements are skipped.\<close>

fun Join :: "string list \<Rightarrow> string" where
  "Join [] = ''''"
| "Join (e # es) = (if e = '''' then Join es else Clean (join ''/'' (e # es)))"

declare Join.simps [simp del]

definition Base :: "string \<Rightarrow> string" where
  "Base p =
     (if p = '''' then ''.''
      else case filter (\<lambda>c. c \<noteq> '''') (split slash p) of [] \<Rightarrow> ''/'' | cs \<Rightarrow> last cs)"

text \<open>\<^verbatim>\<open>filepath.Dir\<close>: the path up to its last separator, cleaned.\<close>

definition pathDir :: "string \<Rightarrow> string" where
  "pathDir p = Clean (join ''/'' (butlast (split slash p) @ [[]]))"

text \<open>\<open>p\<close> stays inside the directory \<open>d\<close>: its components start with those of \<open>d\<close> and go on
  without stepping up.\<close>

definition within :: "string \<Rightarrow> string \<Rightarrow> bool" where
  "within d p \<longleftrightarrow> IsAbs p = IsAbs d \<and> prefix (comps d) (comps p)"

lemma cleanLoop_append: "cleanLoop r st (as @ bs) = cleanLoop r (rev (cleanLoop r st as)) bs"
  by (induction r st as rule: cleanLoop.induct) (auto split: list.splits)

definition plain :: "string list \<Rightarrow> bool" where
  "plain cs \<longleftrightarrow> (\<forall>c \<in> set cs. c \<noteq> '''' \<and> c \<noteq> ''.'' \<and> c \<noteq> ''..'' \<and> slash \<notin> set c)"

lemma cleanLoop_plain: "plain cs \<Longrightarrow> cleanLoop r st cs = rev st @ cs"
  by (induction cs arbitrary: st) (auto simp: plain_def)

lemma cleanLoop_rooted_plain:
  assumes "plain st" and "\<And>c. c \<in> set cs \<Longrightarrow> slash \<notin> set c"
  shows "plain (cleanLoop True st cs)"
  using assms
proof (induction cs arbitrary: st)
  case Nil
  then show ?case by (simp add: plain_def)
next
  case (Cons c cs)
  have tl: "\<And>c. c \<in> set cs \<Longrightarrow> slash \<notin> set c" using Cons.prems(2) by simp
  note IH = Cons.IH[OF _ tl]
  have up: "plain ss" "s \<noteq> ''..''" if "st = s # ss" for s ss
    using that Cons.prems(1) by (auto simp: plain_def)
  have "plain (c # st)" if "c \<noteq> ''''" "c \<noteq> ''.''" "c \<noteq> ''..''"
    using that Cons.prems by (auto simp: plain_def)
  moreover have "plain []" by (simp add: plain_def)
  ultimately show ?case
    using Cons.prems(1) by (auto intro!: IH dest: up split: list.split)
qed

lemma comps_abs_plain: "IsAbs p \<Longrightarrow> plain (comps p)"
  unfolding comps_def
  using cleanLoop_rooted_plain[of "[]" "split slash p"] by (auto simp: plain_def dest: split_no_sep)

lemma IsAbs_iff: "IsAbs p \<longleftrightarrow> (\<exists>s. p = slash # s)"
  by (cases p) (auto simp: IsAbs_def hasPrefix_def)

lemma split_join_plain: "plain cs \<Longrightarrow> cs \<noteq> [] \<Longrightarrow> split slash (join ''/'' cs) = cs"
  by (rule split_join) (auto simp: plain_def)

lemma cleanLoop_split_plain: "plain cs \<Longrightarrow> cleanLoop r st (split slash (join ''/'' cs)) = rev st @ cs"
  by (cases "cs = []") (auto simp: split_join_plain cleanLoop_plain)

lemma split_append_slash: "split slash (a @ slash # b) = split slash a @ split slash b"
proof (induction a)
  case Nil
  then show ?case by simp
next
  case (Cons x a)
  then show ?case by (auto split: list.splits)
qed

text \<open>A rooted path is the rendering of its components, and cleaning it again changes nothing.\<close>

lemma comps_render:
  assumes "plain cs"
  shows "comps (slash # join ''/'' cs) = cs"
  using assms by (simp add: comps_def IsAbs_def hasPrefix_def cleanLoop_split_plain)

lemma Clean_abs [go_path]: "IsAbs p \<Longrightarrow> Clean p = slash # join ''/'' (comps p)"
  by (simp add: Clean_def)

lemma comps_Clean_abs [go_path]: "IsAbs p \<Longrightarrow> comps (Clean p) = comps p"
  by (simp add: Clean_abs comps_render comps_abs_plain)

lemma IsAbs_Clean_abs [go_path]: "IsAbs p \<Longrightarrow> IsAbs (Clean p)"
  by (auto simp: Clean_abs IsAbs_iff)

lemma IsAbs_append: "IsAbs p \<Longrightarrow> IsAbs (p @ q)"
  by (auto simp: IsAbs_iff)

lemma comps_append_slash:
  assumes "IsAbs p"
  shows "comps (p @ slash # q) = cleanLoop True (rev (comps p)) (split slash q)"
  using assms IsAbs_append[OF assms, of "slash # q"]
  by (simp add: comps_def split_append_slash cleanLoop_append)

text \<open>Joining below the root: whatever the relative part is, it cannot climb out.\<close>

lemma Join_root: "Join [''/'', p] = Clean (slash # slash # p)"
  by (simp add: Join.simps)

lemma Join_root_abs: "IsAbs (Join [''/'', p])"
  by (simp add: Join_root IsAbs_iff Clean_abs)

lemma Join_abs_comps:
  assumes "IsAbs d"
  shows "IsAbs (Join [d, p])"
    and "comps (Join [d, p]) = cleanLoop True (rev (comps d)) (split slash p)"
proof -
  have d: "d \<noteq> ''''" using assms by (auto simp: IsAbs_iff)
  have a: "IsAbs (d @ slash # p)" using assms by (rule IsAbs_append)
  have J: "Join [d, p] = Clean (d @ slash # p)" using d by (simp add: Join.simps)
  show "IsAbs (Join [d, p])" unfolding J by (rule IsAbs_Clean_abs[OF a])
  show "comps (Join [d, p]) = cleanLoop True (rev (comps d)) (split slash p)"
    unfolding J by (simp only: comps_Clean_abs[OF a] comps_append_slash[OF assms])
qed

lemma Join_clean:
  assumes "IsAbs d"
  shows "Join [d, p] = slash # join ''/'' (comps (Join [d, p]))"
proof -
  have d: "d \<noteq> ''''" using assms by (auto simp: IsAbs_iff)
  have a: "IsAbs (d @ slash # p)" using assms by (rule IsAbs_append)
  have J: "Join [d, p] = Clean (d @ slash # p)" using d by (simp add: Join.simps)
  show ?thesis unfolding J comps_Clean_abs[OF a] by (rule Clean_abs[OF a])
qed

lemma Join_within_plain:
  assumes "IsAbs d" and "plain cs"
  shows "within d (Join [d, join ''/'' cs])" and "comps (Join [d, join ''/'' cs]) = comps d @ cs"
proof -
  show c: "comps (Join [d, join ''/'' cs]) = comps d @ cs"
    using assms(2) by (simp only: Join_abs_comps[OF assms(1)] cleanLoop_split_plain rev_rev_ident)
  show "within d (Join [d, join ''/'' cs])"
    unfolding within_def c using Join_abs_comps(1)[OF assms(1)] assms(1) by auto
qed

lemma split_slash_Cons: "split slash (slash # s) = [] # split slash s"
  by simp

lemma Join_confined:
  assumes "IsAbs d"
  shows "within d (Join [d, Join [''/'', p]])"
proof -
  let ?q = "Join [''/'', p]"
  have a: "IsAbs (slash # slash # p)" by (simp add: IsAbs_iff)
  have q: "?q = slash # join ''/'' (comps ?q)"
    unfolding Join_root comps_Clean_abs[OF a] by (rule Clean_abs[OF a])
  have pl: "plain (comps ?q)" by (rule comps_abs_plain[OF Join_root_abs])
  have "comps (Join [d, ?q]) = cleanLoop True (rev (comps d)) (split slash ?q)"
    by (rule Join_abs_comps(2)[OF assms])
  also have "\<dots> = comps d @ comps ?q"
    using pl by (subst q) (simp add: cleanLoop_split_plain)
  finally have "prefix (comps d) (comps (Join [d, ?q]))" by simp
  then show ?thesis
    unfolding within_def using Join_abs_comps(1)[OF assms] assms by blast
qed

section \<open>Files and directories\<close>

text \<open>
  The file system is the list of its entries by cleaned path, a directory or a file with its
  content. Failures of the operating system are chosen by an oracle: the entries that cannot be
  removed, and the paths that cannot be created or read.
\<close>

datatype fs_entry = Dir | File string

type_synonym fs = "(string, fs_entry) gomap"

record os_env =
  os_stuck :: "string \<Rightarrow> bool"
  os_noCreate :: "string \<Rightarrow> bool"
  os_noRead :: "string \<Rightarrow> bool"

definition good_os :: os_env where
  "good_os = \<lparr>os_stuck = (\<lambda>_. False), os_noCreate = (\<lambda>_. False), os_noRead = (\<lambda>_. False)\<rparr>"

definition below :: "string \<Rightarrow> string \<Rightarrow> bool" where
  "below d p \<longleftrightarrow> p = d \<or> hasPrefix p (d @ ''/'')"

text \<open>\<^verbatim>\<open>os.RemoveAll\<close> removes what it can and reports what it could not; a path that does not
  exist is no error.\<close>

definition RemoveAll :: "os_env \<Rightarrow> string \<Rightarrow> fs \<Rightarrow> unit result \<times> fs" where
  "RemoveAll osys d fs =
     (if \<exists>e \<in> set fs. below d (fst e) \<and> os_stuck osys (fst e) then Err ''remove'' else Ok (),
      filter (\<lambda>e. \<not> below d (fst e) \<or> os_stuck osys (fst e)) fs)"

text \<open>The directories from the root down to a path.\<close>

definition ancestors :: "string \<Rightarrow> string list" where
  "ancestors p = map (\<lambda>n. slash # join ''/'' (take n (comps p))) [1..<Suc (length (comps p))]"

definition isFile :: "fs_entry option \<Rightarrow> bool" where
  "isFile e = (case e of Some (File _) \<Rightarrow> True | _ \<Rightarrow> False)"

definition MkdirAll :: "os_env \<Rightarrow> string \<Rightarrow> fs \<Rightarrow> unit result \<times> fs" where
  "MkdirAll osys d fs =
     (if list_ex (\<lambda>a. isFile (mget fs a) \<or> os_noCreate osys a) (ancestors d) then (Err ''mkdir'', fs)
      else (Ok (), fold (\<lambda>a. mput a Dir) (ancestors d) fs))"

text \<open>\<^verbatim>\<open>os.ReadDir\<close>: the names of the entries directly below, without repetition.\<close>

definition ReadDir :: "os_env \<Rightarrow> string \<Rightarrow> fs \<Rightarrow> string list result" where
  "ReadDir osys d fs =
     (if mget fs d \<noteq> Some Dir \<or> os_noRead osys d then Err ''readdir''
      else Ok (remdups (map (\<lambda>e. hd (split slash (drop (length d + 1) (fst e))))
             (filter (\<lambda>e. fst e \<noteq> d \<and> below d (fst e)) fs))))"

definition ReadFile :: "os_env \<Rightarrow> string \<Rightarrow> fs \<Rightarrow> string result" where
  "ReadFile osys p fs =
     (case mget fs p of
        Some (File s) \<Rightarrow> if os_noRead osys p then Err ''read'' else Ok s
      | _ \<Rightarrow> Err ''read'')"

definition WriteFile :: "os_env \<Rightarrow> string \<Rightarrow> string \<Rightarrow> fs \<Rightarrow> unit result \<times> fs" where
  "WriteFile osys p s fs =
     (if mget fs p = Some Dir \<or> os_noCreate osys p then (Err ''write'', fs)
      else (Ok (), mput p (File s) fs))"

lemma RemoveAll_other:
  assumes "\<not> below d p"
  shows "mget (snd (RemoveAll osys d fs)) p = mget fs p"
proof -
  have "mget (filter (\<lambda>e. \<not> below d (fst e) \<or> os_stuck osys (fst e)) fs) p = mget fs p"
    using assms by (induction fs) auto
  then show ?thesis by (simp add: RemoveAll_def)
qed

lemma RemoveAll_keeps: "mget (snd (RemoveAll osys d fs)) p = Some e \<Longrightarrow> (p, e) \<in> set fs"
  by (auto simp: RemoveAll_def dest: map_of_SomeD)

lemma WriteFile_other: "p' \<noteq> p \<Longrightarrow> mget (snd (WriteFile osys p s fs)) p' = mget fs p'"
  by (simp add: WriteFile_def map_simps)

text \<open>
  A directory in canonical form, below the root, and its children. In a file system whose paths
  are canonical the names that \<open>ReadDir\<close> finds are plain components.
\<close>

definition canonical :: "string \<Rightarrow> string list \<Rightarrow> bool" where
  "canonical d cs \<longleftrightarrow> plain cs \<and> d = slash # join ''/'' cs"

definition canonical_fs :: "fs \<Rightarrow> bool" where
  "canonical_fs fs \<longleftrightarrow> (\<forall>e \<in> set fs. \<exists>cs. canonical (fst e) cs)"

lemma join_append_one: "cs \<noteq> [] \<Longrightarrow> join sep (cs @ [n]) = join sep cs @ sep @ n"
proof (induction cs)
  case (Cons c cs)
  then show ?case by (cases "cs = []") (simp_all add: join_Cons)
qed simp

lemma canonical_Join:
  assumes "canonical d cs" and "cs \<noteq> []" and "plain [n]"
  shows "Join [d, n] = d @ ''/'' @ n" and "canonical (Join [d, n]) (cs @ [n])"
proof -
  have abs: "IsAbs d" using assms(1) by (simp add: canonical_def IsAbs_iff)
  have c: "comps d = cs" using assms(1) by (simp add: canonical_def comps_render)
  have "comps (Join [d, join ''/'' [n]]) = cs @ [n]"
    using Join_within_plain(2)[OF abs assms(3)] c by simp
  then have J: "Join [d, n] = slash # join ''/'' (cs @ [n])"
    using Join_clean[OF abs, of n] by simp
  from J show "Join [d, n] = d @ ''/'' @ n"
    using assms(1,2) by (simp add: canonical_def join_append_one)
  from J show "canonical (Join [d, n]) (cs @ [n])"
    using assms(1,3) by (auto simp: canonical_def plain_def)
qed

lemma canonical_Join3:
  assumes "canonical d cs" and "cs \<noteq> []" and "plain [a, b]"
  shows "Join [d, a, b] = d @ ''/'' @ a @ ''/'' @ b" and "canonical (d @ ''/'' @ a @ ''/'' @ b) (cs @ [a, b])"
proof -
  have p: "plain [a]" "plain [b]" using assms(3) by (auto simp: plain_def)
  have d: "d \<noteq> []" using assms(1) by (simp add: canonical_def)
  have a: "a \<noteq> []" using p by (simp add: plain_def)
  note A = canonical_Join[OF assms(1,2) p(1)]
  note B = canonical_Join[OF A(2) _ p(2), simplified]
  have "Join [d, a, b] = Join [Join [d, a], b]"
    using d a canonical_Join[OF assms(1,2) p(1)] B by (simp add: Join.simps Clean_def)
  with A(1) B show "Join [d, a, b] = d @ ''/'' @ a @ ''/'' @ b" by simp
  from A(1) B show "canonical (d @ ''/'' @ a @ ''/'' @ b) (cs @ [a, b])" by simp
qed

lemma canonical_child:
  assumes "canonical d cs" and "cs \<noteq> []" and "canonical (d @ ''/'' @ n) ds" and "slash \<notin> set n"
  shows "plain [n]"
proof -
  from assms(3) have eq: "slash # join ''/'' ds = d @ slash # n" and ds: "plain ds"
    by (simp_all add: canonical_def)
  have d: "split slash d = [] # cs"
    using assms(1,2) by (simp add: canonical_def split_join_plain)
  have "split slash (d @ slash # n) = ([] # cs) @ [n]"
    using d split_free[OF assms(4)] by (simp only: split_append_slash)
  with eq have "[] # split slash (join ''/'' ds) = [] # cs @ [n]" by (metis append_Cons split_slash_Cons)
  then have "split slash (join ''/'' ds) = cs @ [n]" by simp
  moreover have "ds \<noteq> []" using calculation assms(2) by (cases ds) auto
  ultimately have "ds = cs @ [n]" using ds by (simp add: split_join_plain)
  with ds show ?thesis by (simp add: plain_def)
qed

lemma below_trans: "below D d \<Longrightarrow> below d p \<Longrightarrow> below D p"
  by (auto simp: below_def hasPrefix_iff prefix_def)

lemma below_child: "below D d \<Longrightarrow> below D (d @ ''/'' @ n)"
  by (auto simp: below_def hasPrefix_iff prefix_def)

lemma ReadDir_no_slash: "ReadDir osys d fs = Ok ns \<Longrightarrow> n \<in> set ns \<Longrightarrow> slash \<notin> set n"
proof -
  assume "ReadDir osys d fs = Ok ns" and "n \<in> set ns"
  then obtain e :: "string \<times> fs_entry" where "n = hd (split slash (drop (length d + 1) (fst e)))"
    by (auto simp: ReadDir_def split: if_splits)
  then have "n \<in> set (split slash (drop (length d + 1) (fst e)))" by simp
  then show ?thesis by (rule split_no_sep)
qed

lemma RemoveAll_subset: "set (snd (RemoveAll osys d fs)) \<subseteq> set fs"
  by (auto simp: RemoveAll_def)

lemma RemoveAll_gone: "fst (RemoveAll osys d fs) = Ok () \<Longrightarrow> e \<in> set (snd (RemoveAll osys d fs)) \<Longrightarrow> \<not> below d (fst e)"
  by (auto simp: RemoveAll_def split: if_splits)

end
