(* ===== verification/Engine_Clean.thy ===== *)
theory Engine_Clean
  imports Engine_Checks Go_Path
begin

text \<open>
  Garbage collection of object storage (\<^verbatim>\<open>engine/clean.go\<close>). \<open>recycle\<close> runs under disk pressure
  and drops every object configuration no reported or desired application refers to;
  \<open>cleanObjectStorage\<close> runs on a timer and drops those that only obsolete applications or
  finished jobs mount with the auto-clean flag. State: the resource store and the file system.
  The node document is read through the \<^verbatim>\<open>baetyl-go\<close> accessors \<^verbatim>\<open>AppInfos\<close> and \<^verbatim>\<open>AppStats\<close>;
  \<open>node_view\<close> holds what they return, by the \<^verbatim>\<open>isSys\<close> flag.
\<close>

record node_view =
  nv_reportApps :: "bool \<Rightarrow> app_info list"
  nv_desireApps :: "bool \<Rightarrow> app_info list"
  nv_reportStats :: "bool \<Rightarrow> app_stats list"

definition isObjectConfig :: "env \<Rightarrow> configuration \<Rightarrow> bool" where
  "isObjectConfig E cfg = list_ex (\<lambda>kv. e_isObject E (fst kv)) (cfg_data cfg)"

section \<open>recycle\<close>

text \<open>The configuration keys the volumes of one application refer to.\<close>

definition volumeCfgKeys :: "env \<Rightarrow> application \<Rightarrow> string list" where
  "volumeCfgKeys E app =
     List.map_filter (\<lambda>v. map_option (\<lambda>c. cfg_key E (ref_name c) (ref_version c)) (vol_config v))
       (app_volumes app)"

definition usedCfgs :: "env \<Rightarrow> 's store_ops \<Rightarrow> 's \<Rightarrow> app_info list \<Rightarrow> string list result" where
  "usedCfgs E S s infos =
     rfor (\<lambda>info used.
         rbind (b_get (st_app S) s (app_key E (ai_name info) (ai_version info)))
           (\<lambda>app. Ok (used @ volumeCfgKeys E app))) infos []"

definition addUnused :: "env \<Rightarrow> string list \<Rightarrow> string \<times> configuration \<Rightarrow>
    (string, configuration) gomap \<Rightarrow> (string, configuration) gomap" where
  "addUnused E used kv del =
     (let cfg = snd kv; key = cfg_key E (cfg_name cfg) (cfg_version cfg)
      in if isObjectConfig E cfg \<and> key \<notin> set used then mput key cfg del else del)"

definition unusedObjects :: "env \<Rightarrow> string list \<Rightarrow> (string \<times> configuration) list \<Rightarrow>
    (string, configuration) gomap" where
  "unusedObjects E used kvs = fold (addUnused E used) kvs []"

text \<open>The loop body: both errors are only logged.\<close>

definition recycleOne :: "os_env \<Rightarrow> 's store_ops \<Rightarrow> string \<Rightarrow> string \<times> configuration \<Rightarrow>
    's \<times> fs \<Rightarrow> unit result \<times> ('s \<times> fs)" where
  "recycleOne osys S path kv st =
     (let (r, s) = b_delete (st_cfg S) (fst kv) (fst st)
      in slog (r, (s, snd st)) (\<lambda>st.
           let (r, fs) = RemoveAll osys (Join [path, cfg_name (snd kv)]) (snd st)
           in slog (r, (fst st, fs)) (\<lambda>st. (Ok (), st))))"

definition nodeApps :: "node_view \<Rightarrow> app_info list" where
  "nodeApps nod = nv_reportApps nod False @ nv_reportApps nod True @
     nv_desireApps nod False @ nv_desireApps nod True"

definition recycle :: "env \<Rightarrow> os_env \<Rightarrow> 's store_ops \<Rightarrow> string \<Rightarrow>
    ((string, configuration) gomap \<Rightarrow> (string, configuration) gomap) \<Rightarrow> node_view result \<Rightarrow>
    's \<times> fs \<Rightarrow> unit result \<times> ('s \<times> fs)" where
  "recycle E osys S path rng nodGet st =
     sbind (nodGet, st) (\<lambda>nod st.
     sbind (usedCfgs E S (fst st) (nodeApps nod), st) (\<lambda>used st.
     sbind (b_all (st_cfg S) (fst st), st) (\<lambda>kvs st.
     sfor (recycleOne osys S path) (rng (unusedObjects E used kvs)) st)))"

lemma usedCfgs_from:
  assumes "rfor (\<lambda>info used. rbind (b_get (st_app S) s (app_key E (ai_name info) (ai_version info)))
           (\<lambda>app. Ok (used @ volumeCfgKeys E app))) infos used0 = Ok used"
  shows "set used0 \<subseteq> set used \<and> (\<forall>info \<in> set infos. \<exists>app.
     b_get (st_app S) s (app_key E (ai_name info) (ai_version info)) = Ok app \<and>
     set (volumeCfgKeys E app) \<subseteq> set used)"
  using assms
proof (induction infos arbitrary: used0)
  case Nil
  then show ?case by simp
next
  case (Cons i "is")
  then show ?case by (fastforce simp: rbind_Ok_iff)
qed

lemma volumeCfgKeys_mem:
  "v \<in> set (app_volumes app) \<Longrightarrow> vol_config v = Some c \<Longrightarrow>
     cfg_key E (ref_name c) (ref_version c) \<in> set (volumeCfgKeys E app)"
  unfolding volumeCfgKeys_def List.map_filter_def
  by (simp add: image_iff) (rule exI[of _ v], simp)

lemma unusedObjects_from:
  "gomap del \<Longrightarrow> (k, c) \<in> set (fold (addUnused E used) kvs del) \<Longrightarrow>
   (k, c) \<in> set del \<or> (c \<in> snd ` set kvs \<and> isObjectConfig E c \<and> k \<notin> set used
      \<and> k = cfg_key E (cfg_name c) (cfg_version c))"
proof (induction kvs arbitrary: del)
  case Nil
  then show ?case by simp
next
  case (Cons kv kvs)
  let ?key = "cfg_key E (cfg_name (snd kv)) (cfg_version (snd kv))"
  have put: "(k, c) \<in> set (mput ?key (snd kv) del) \<Longrightarrow>
      (k, c) \<in> set del \<or> (k = ?key \<and> c = snd kv)"
    using Cons.prems(1) gomap_mget_iff[of "mput ?key (snd kv) del" k c]
    by (auto simp: map_simps gomap_mget_iff split: if_splits)
  show ?case
  proof (cases "isObjectConfig E (snd kv) \<and> ?key \<notin> set used")
    case True
    with Cons.IH[of "mput ?key (snd kv) del"] Cons.prems put show ?thesis
      by (auto simp: addUnused_def Let_def)
  next
    case False
    with Cons.IH[of del] Cons.prems show ?thesis by (auto simp: addUnused_def Let_def)
  qed
qed

lemma unusedObjects_spec:
  "(k, c) \<in> set (unusedObjects E used kvs) \<Longrightarrow>
     c \<in> snd ` set kvs \<and> isObjectConfig E c \<and> k \<notin> set used \<and>
     k = cfg_key E (cfg_name c) (cfg_version c)"
  unfolding unusedObjects_def by (drule unusedObjects_from[OF gomap_Nil]) auto

lemma unusedObjects_complete:
  assumes "c \<in> snd ` set kvs" and "isObjectConfig E c"
    and "cfg_key E (cfg_name c) (cfg_version c) \<notin> set used"
  shows "cfg_key E (cfg_name c) (cfg_version c) \<in> keys (unusedObjects E used kvs)"
proof -
  let ?f = "addUnused E used"
  have grow: "k \<in> keys del \<Longrightarrow> k \<in> keys (fold ?f kvs del)" for k del
    by (induction kvs arbitrary: del) (auto simp: addUnused_def Let_def keys_dom map_simps)
  have "cfg_key E (cfg_name c) (cfg_version c) \<in> keys (fold ?f kvs del)" for del
    using assms(1)
  proof (induction kvs arbitrary: del)
    case Nil
    then show ?case by simp
  next
    case (Cons kv kvs)
    show ?case
    proof (cases "snd kv = c")
      case True
      have "k \<in> keys del \<Longrightarrow> k \<in> keys (fold ?f kvs del)" for k del
        by (induction kvs arbitrary: del) (auto simp: addUnused_def Let_def keys_dom map_simps)
      moreover have "cfg_key E (cfg_name c) (cfg_version c) \<in> keys (?f kv del)"
        using True assms(2,3) by (simp add: addUnused_def Let_def keys_dom map_simps)
      ultimately show ?thesis by (simp only: fold_simps)
    next
      case False
      with Cons show ?thesis by auto
    qed
  qed
  then show ?thesis by (simp add: unusedObjects_def)
qed

lemma recycleOne_store: "fst (snd (recycleOne osys S path kv st)) = snd (b_delete (st_cfg S) (fst kv) (fst st))"
  by (cases "b_delete (st_cfg S) (fst kv) (fst st)"; cases "fst (b_delete (st_cfg S) (fst kv) (fst st))")
    (auto simp: recycleOne_def RemoveAll_def Let_def)

lemma recycle_loop_frame:
  assumes "\<And>kv s. kv \<in> set kvs \<Longrightarrow> P s \<Longrightarrow> P (snd (b_delete (st_cfg S) (fst kv) s))" and "P (fst st)"
  shows "P (fst (snd (sfor (recycleOne osys S path) kvs st)))"
  using assms by (intro sfor_inv[where I = "\<lambda>st. P (fst st)"]) (auto simp: recycleOne_store)

text \<open>
  C19. Recycling keeps the database records in use: whatever the result, after \<open>recycle\<close> the store holds
  under every configuration key that a volume of a reported or desired application (as stored) refers to
  exactly the record it held before, and every record of an application or a secret. The files are
  another matter: \<open>recycle\<close> removes the directory of a configuration by its name, with the objects of
  all its versions (lemma \<open>recycle_removes_used_files\<close>).
\<close>

theorem recycle_keeps_used:
  assumes "store_ok S" and "range_ok rng" and "info \<in> set (nodeApps nod)"
    and "b_get (st_app S) (fst st) (app_key E (ai_name info) (ai_version info)) = Ok app"
    and "v \<in> set (app_volumes app)" and "vol_config v = Some c"
  shows "b_get (st_cfg S) (fst (snd (recycle E osys S path rng (Ok nod) st)))
       (cfg_key E (ref_name c) (ref_version c)) =
     b_get (st_cfg S) (fst st) (cfg_key E (ref_name c) (ref_version c))
   \<and> b_get (st_app S) (fst (snd (recycle E osys S path rng (Ok nod) st))) k = b_get (st_app S) (fst st) k
   \<and> b_get (st_sec S) (fst (snd (recycle E osys S path rng (Ok nod) st))) k = b_get (st_sec S) (fst st) k"
proof -
  let ?k = "cfg_key E (ref_name c) (ref_version c)"
  let ?P = "\<lambda>s. b_get (st_cfg S) s ?k = b_get (st_cfg S) (fst st) ?k
     \<and> b_get (st_app S) s k = b_get (st_app S) (fst st) k
     \<and> b_get (st_sec S) s k = b_get (st_sec S) (fst st) k"
  have ok: "bucket_ok (st_cfg S)" and fr: "bucket_frame (st_cfg S) (st_app S)" "bucket_frame (st_cfg S) (st_sec S)"
    using assms(1) by (simp_all add: store_ok_def)
  have "?P (fst (snd (recycle E osys S path rng (Ok nod) st)))"
  proof (cases "usedCfgs E S (fst st) (nodeApps nod)")
    case (Ok used)
    then obtain app' where
      "b_get (st_app S) (fst st) (app_key E (ai_name info) (ai_version info)) = Ok app'"
      "set (volumeCfgKeys E app') \<subseteq> set used"
      using usedCfgs_from[OF Ok[unfolded usedCfgs_def]] assms(3) by blast
    then have u: "?k \<in> set used"
      using assms(4) volumeCfgKeys_mem[OF assms(5,6), of E] by auto
    show ?thesis
    proof (cases "b_all (st_cfg S) (fst st)")
      fix kvs assume all: "b_all (st_cfg S) (fst st) = Ok kvs"
      have ne: "fst kv \<noteq> ?k" if "kv \<in> set (rng (unusedObjects E used kvs))" for kv
        using that u unusedObjects_spec[of "fst kv" "snd kv" E used kvs]
        by (auto simp: range_ok_set[OF assms(2)])
      have "?P (fst (snd (sfor (recycleOne osys S path) (rng (unusedObjects E used kvs)) st)))"
      proof (rule recycle_loop_frame)
        fix kv s assume kv: "kv \<in> set (rng (unusedObjects E used kvs))" and P: "?P s"
        have "?k \<noteq> fst kv" using ne[OF kv] by simp
        then have "b_get (st_cfg S) (snd (b_delete (st_cfg S) (fst kv) s)) ?k = b_get (st_cfg S) s ?k"
          by (rule bucket_delete_other[OF ok])
        with P fr show "?P (snd (b_delete (st_cfg S) (fst kv) s))" by (simp add: bucket_frame_def)
      qed simp
      with Ok all show ?thesis by (simp add: recycle_def)
    qed (simp_all add: recycle_def Ok)
  qed (simp_all add: recycle_def)
  then show ?thesis .
qed

text \<open>
  Recycling frees everything else: if the store accepts every deletion and holds each
  configuration under its own key, then after a successful \<open>recycle\<close> no object configuration
  remains that no volume of a reported or desired application refers to.
\<close>

theorem recycle_frees_unused:
  assumes "store_ok S" and "range_ok rng" and "\<And>k s. fst (b_delete (st_cfg S) k s) = Ok ()"
    and "usedCfgs E S (fst st) (nodeApps nod) = Ok used" and "b_all (st_cfg S) (fst st) = Ok kvs"
    and "c \<in> snd ` set kvs" and "isObjectConfig E c"
    and "cfg_key E (cfg_name c) (cfg_version c) \<notin> set used"
  shows "fst (recycle E osys S path rng (Ok nod) st) = Ok ()
     \<and> \<not> is_ok (b_get (st_cfg S) (fst (snd (recycle E osys S path rng (Ok nod) st)))
          (cfg_key E (cfg_name c) (cfg_version c)))"
proof -
  let ?k = "cfg_key E (cfg_name c) (cfg_version c)"
  have ok: "bucket_ok (st_cfg S)" using assms(1) by (simp add: store_ok_def)
  have step: "recycleOne osys S path kv st = (Ok (), snd (recycleOne osys S path kv st))" for kv st
    using assms(3)[of "fst kv" "fst st"]
    by (cases "b_delete (st_cfg S) (fst kv) (fst st)") (simp add: recycleOne_def RemoveAll_def Let_def)
  have gone: "\<not> is_ok (b_get (st_cfg S) (snd (b_delete (st_cfg S) k s)) k)" for k s
    using bucket_delete_gone[OF ok, of k s] assms(3)[of k s] by (metis prod.collapse)
  have stays: "\<not> is_ok (b_get (st_cfg S) (snd (b_delete (st_cfg S) k s)) k')"
    if "\<not> is_ok (b_get (st_cfg S) s k')" for k k' s
    using that gone bucket_delete_other[OF ok, of k' k s] by (cases "k' = k") auto
  have loop: "fst (sfor (recycleOne osys S path) xs st) = Ok () \<and>
      (?k \<in> keys xs \<or> \<not> is_ok (b_get (st_cfg S) (fst st) ?k) \<longrightarrow>
        \<not> is_ok (b_get (st_cfg S) (fst (snd (sfor (recycleOne osys S path) xs st))) ?k))" for xs st
  proof (induction xs arbitrary: st)
    case Nil
    then show ?case by simp
  next
    case (Cons kv xs)
    have "sfor (recycleOne osys S path) (kv # xs) st =
        sfor (recycleOne osys S path) xs (snd (recycleOne osys S path kv st))"
      by (subst sfor.simps(2), subst step) simp
    moreover have "\<not> is_ok (b_get (st_cfg S) (fst (snd (recycleOne osys S path kv st))) ?k)"
      if "?k = fst kv \<or> \<not> is_ok (b_get (st_cfg S) (fst st) ?k)"
      using that gone[of "fst kv"] stays by (auto simp: recycleOne_store)
    ultimately show ?case using Cons.IH[of "snd (recycleOne osys S path kv st)"] by auto
  qed
  have "?k \<in> keys (rng (unusedObjects E used kvs))"
    using unusedObjects_complete[OF assms(6-8)] by (simp add: range_ok_set[OF assms(2)])
  with loop[of "rng (unusedObjects E used kvs)" st] assms(4,5) show ?thesis
    by (simp add: recycle_def)
qed

text \<open>
  A sample node: the application \<open>a\<close> is desired and mounts the object configuration \<open>model\<close> in
  version 2; version 1 of it is still stored.
\<close>

definition sample_object :: "string \<Rightarrow> configuration" where
  "sample_object ver = zero_configuration\<lparr>cfg_name := ''model'', cfg_version := ver,
     cfg_data := [(''_object_m'', [])]\<rparr>"

definition sample_object_app :: application where
  "sample_object_app = zero_application\<lparr>app_name := ''a'', app_version := ''1'',
     app_services := [zero_service\<lparr>svc_name := ''s'', svc_volumeMounts :=
        [\<lparr>vm_name = ''v'', vm_mountPath = ''/m'', vm_readOnly = True, vm_autoClean = True\<rparr>]\<rparr>],
     app_volumes := [zero_volume\<lparr>vol_name := ''v'',
        vol_config := Some \<lparr>ref_name = ''model'', ref_version = ''2''\<rparr>\<rparr>]\<rparr>"

definition sample_mem :: mem_store where
  "sample_mem = \<lparr>mem_app = [(''application-a-1'', sample_object_app)],
     mem_cfg = [(''configuration-model-1'', sample_object ''1''),
                (''configuration-model-2'', sample_object ''2'')],
     mem_sec = []\<rparr>"

definition sample_fs :: fs where
  "sample_fs = [(''/obj'', Dir), (''/obj/model'', Dir), (''/obj/model/1'', Dir),
     (''/obj/model/1/m'', File ''old''), (''/obj/model/2'', Dir), (''/obj/model/2/m'', File ''new'')]"

definition sample_view :: node_view where
  "sample_view = \<lparr>nv_reportApps = (\<lambda>_. []),
     nv_desireApps = (\<lambda>sys. if sys then [] else [\<lparr>ai_name = ''a'', ai_version = ''1''\<rparr>]),
     nv_reportStats = (\<lambda>_. [])\<rparr>"

lemmas sample_clean = sample_object_def sample_object_app_def sample_mem_def sample_fs_def
  sample_view_def sample_env_def zero_configuration_def zero_application_def zero_service_def
  zero_volume_def mem_simps MakeKey_def nodeApps_def

lemma sample_app_stored:
  "b_get (st_app mem_ops) sample_mem (app_key sample_env ''a'' ''1'') = Ok sample_object_app"
  by (simp add: sample_clean)

lemma sample_used: "usedCfgs sample_env mem_ops sample_mem (nodeApps sample_view) =
    Ok [''configuration-model-2'']"
  by (simp add: usedCfgs_def volumeCfgKeys_def List.map_filter_def sample_clean)

lemma sample_all: "b_all (st_cfg mem_ops) sample_mem = Ok (mem_cfg sample_mem)"
  by (simp add: sample_clean)

theorem recycle_keeps_used_witness:
  "b_get (st_cfg mem_ops) (fst (snd (recycle sample_env good_os mem_ops ''/obj'' rev
       (Ok sample_view) (sample_mem, sample_fs)))) ''configuration-model-2'' = Ok (sample_object ''2'')"
  using recycle_keeps_used[of mem_ops rev "\<lparr>ai_name = ''a'', ai_version = ''1''\<rparr>" sample_view
      "(sample_mem, sample_fs)" sample_env sample_object_app
      "hd (app_volumes sample_object_app)" "\<lparr>ref_name = ''model'', ref_version = ''2''\<rparr>" good_os "''/obj''" "[]"]
    sample_app_stored
  by (simp add: mem_ops_ok range_ok_rev sample_clean)

theorem recycle_frees_unused_witness:
  "\<not> is_ok (b_get (st_cfg mem_ops) (fst (snd (recycle sample_env good_os mem_ops ''/obj'' rev
       (Ok sample_view) (sample_mem, sample_fs)))) ''configuration-model-1'')"
  using recycle_frees_unused[of mem_ops rev sample_env "(sample_mem, sample_fs)" sample_view
      "[''configuration-model-2'']" "mem_cfg sample_mem" "sample_object ''1''" good_os "''/obj''"]
    sample_used sample_all
  by (simp add: mem_ops_ok range_ok_rev sample_clean isObjectConfig_def hasPrefix_def)

text \<open>
  The directory removed with an unused version is the one of the configuration's name, with every
  version in it: in the sample, recycling version 1 also removes the file of version 2, which the
  desired application mounts.
\<close>

lemma recycle_removes_used_files:
  "mget sample_fs ''/obj/model/2/m'' = Some (File ''new'') \<and>
   mget (snd (snd (recycle sample_env good_os mem_ops ''/obj'' (\<lambda>m. m)
      (Ok sample_view) (sample_mem, sample_fs)))) ''/obj/model/2/m'' = None"
proof -
  have J: "Join [''/obj'', ''model''] = ''/obj/model''" by code_simp
  have U: "unusedObjects sample_env [''configuration-model-2''] (mem_cfg sample_mem) =
      [(''configuration-model-1'', sample_object ''1'')]"
    by (simp add: unusedObjects_def addUnused_def isObjectConfig_def hasPrefix_def sample_clean)
  show ?thesis
    by (simp add: recycle_def sample_used sample_all U recycleOne_def mem_simps(7) RemoveAll_def
        below_def hasPrefix_def good_os_def sample_fs_def J sample_object_def)
qed

section \<open>cleanObjectStorage\<close>

text \<open>\<^verbatim>\<open>refers\<close>: the configurations of an application by the name of the volume.\<close>

definition addRefer :: "volume \<Rightarrow> (string, obj_ref) gomap \<Rightarrow> (string, obj_ref) gomap" where
  "addRefer v m = (case vol_config v of Some c \<Rightarrow> mput (vol_name v) c m | None \<Rightarrow> m)"

definition refersOf :: "application \<Rightarrow> (string, obj_ref) gomap" where
  "refersOf app = fold addRefer (app_volumes app) []"

text \<open>The mounts of all services, in the order of the two nested loops.\<close>

definition mountsOf :: "application \<Rightarrow> volume_mount list" where
  "mountsOf app = concat (map svc_volumeMounts (app_services app))"

text \<open>\<open>finishedJobs\<close> is a set of names, here a list.\<close>

definition addJobStatus :: "string list \<Rightarrow> instance_stats \<Rightarrow> (string, status) gomap \<Rightarrow>
    (string, status) gomap" where
  "addJobStatus jobSvcs ins js =
     (if is_app ins \<notin> set jobSvcs then js
      else case mget js (is_app ins) of
             None \<Rightarrow> mput (is_app ins) (is_status ins) js
           | Some st \<Rightarrow> if st = Succeeded then mput (is_app ins) (is_status ins) js else js)"

definition statInstances :: "app_stats \<Rightarrow> instance_stats list" where
  "statInstances st = (case as_instances st of None \<Rightarrow> [] | Some m \<Rightarrow> map snd m)"

definition getFinishedJobs :: "(string, application) gomap \<Rightarrow> node_view \<Rightarrow> string list" where
  "getFinishedJobs apps nod =
     (let jobSvcs = map app_name (filter (\<lambda>app. app_workload app = WorkloadJob) (map snd apps));
          js = fold (\<lambda>st. fold (addJobStatus jobSvcs) (statInstances st)) (nv_reportStats nod False) []
      in map fst (filter (\<lambda>kv. snd kv = Succeeded) js))"

definition addUsed :: "(string, obj_ref) gomap \<Rightarrow> volume_mount \<Rightarrow> (string, string) gomap \<Rightarrow>
    (string, string) gomap" where
  "addUsed refers vm used =
     (case mget refers (vm_name vm) of None \<Rightarrow> used | Some c \<Rightarrow> mput (ref_name c) (ref_version c) used)"

definition usedOfApp :: "string list \<Rightarrow> application \<Rightarrow> (string, string) gomap \<Rightarrow>
    (string, string) gomap" where
  "usedOfApp finishedJobs app used =
     (if app_workload app = WorkloadJob \<and> app_name app \<in> set finishedJobs then used
      else fold (addUsed (refersOf app)) (mountsOf app) used)"

definition getUsedObjectCfgs :: "(string, application) gomap \<Rightarrow> string list \<Rightarrow>
    (string, string) gomap" where
  "getUsedObjectCfgs apps finishedJobs = fold (usedOfApp finishedJobs) (map snd apps) []"

definition addDel :: "env \<Rightarrow> (string, obj_ref) gomap \<Rightarrow> (string, configuration) gomap \<Rightarrow>
    volume_mount \<Rightarrow> (string, configuration) gomap \<Rightarrow> (string, configuration) gomap" where
  "addDel E refers objectCfgs vm dels =
     (case mget refers (vm_name vm) of
        None \<Rightarrow> dels
      | Some refer \<Rightarrow>
          if \<not> vm_autoClean vm then dels
          else let key = cfg_key E (ref_name refer) (ref_version refer)
               in case mget objectCfgs key of
                    Some cfg \<Rightarrow> if key \<noteq> [] then mput key cfg dels else dels
                  | None \<Rightarrow> dels)"

definition delsOfApp :: "env \<Rightarrow> (string, configuration) gomap \<Rightarrow> application \<Rightarrow>
    (string, configuration) gomap \<Rightarrow> (string, configuration) gomap" where
  "delsOfApp E objectCfgs app dels = fold (addDel E (refersOf app) objectCfgs) (mountsOf app) dels"

definition getDelObjectCfgs :: "env \<Rightarrow> (string, application) gomap \<Rightarrow> (string, application) gomap \<Rightarrow>
    (string, configuration) gomap \<Rightarrow> string list \<Rightarrow> (string, configuration) gomap" where
  "getDelObjectCfgs E occupied obsolete objectCfgs finishedJobs =
     (let dels = fold (delsOfApp E objectCfgs) (map snd obsolete) []
      in fold (\<lambda>app dels. if app_name app \<notin> set finishedJobs then dels
                else delsOfApp E objectCfgs app dels) (map snd occupied) dels)"

definition occupiedVersions :: "node_view \<Rightarrow> (string, string) gomap" where
  "occupiedVersions nod =
     fold (\<lambda>info. mput (ai_name info) (ai_version info))
       (nv_reportApps nod False @ nv_desireApps nod False @ nv_reportApps nod True @
        nv_desireApps nod True) []"

text \<open>The second \<^verbatim>\<open>ForEach\<close>: the maps of occupied and of obsolete applications, of which the
  most recently updated version is kept.\<close>

definition splitApp :: "(string, string) gomap \<Rightarrow> application \<Rightarrow>
    (string, application) gomap \<times> (string, application) gomap \<Rightarrow>
    (string, application) gomap \<times> (string, application) gomap" where
  "splitApp occupied app st =
     (let (occ, obs) = st
      in if mget occupied (app_name app) = Some (app_version app)
         then (mput (app_name app) app occ, obs)
         else case mget obs (app_name app) of
                None \<Rightarrow> (occ, mput (app_name app) app obs)
              | Some prev \<Rightarrow> if app_updateTime app > app_updateTime prev
                             then (occ, mput (app_name app) app obs) else (occ, obs))"

definition splitApps :: "node_view \<Rightarrow> application list \<Rightarrow>
    (string, application) gomap \<times> (string, application) gomap" where
  "splitApps nod apps = fold (splitApp (occupiedVersions nod)) apps ([], [])"

definition addObject :: "env \<Rightarrow> configuration \<Rightarrow> (string, configuration) gomap \<Rightarrow>
    (string, configuration) gomap" where
  "addObject E cfg m =
     (let key = cfg_key E (cfg_name cfg) (cfg_version cfg)
      in if isObjectConfig E cfg \<and> key \<noteq> [] then mput key cfg m else m)"

definition dropUsed :: "env \<Rightarrow> string \<times> string \<Rightarrow> (string, configuration) gomap \<Rightarrow>
    (string, configuration) gomap" where
  "dropUsed E nv m =
     (let key = cfg_key E (fst nv) (snd nv)
      in if mget m key \<noteq> None \<and> key \<noteq> [] then mdel key m else m)"

text \<open>
  The configurations to delete, from the stored configurations and applications. \<open>rng i\<close> is the
  order of the \<open>i\<close>th range over a map of applications.
\<close>

definition cleanPlan :: "env \<Rightarrow> (nat \<Rightarrow> (string, application) gomap \<Rightarrow> (string, application) gomap) \<Rightarrow>
    node_view \<Rightarrow> configuration list \<Rightarrow> application list \<Rightarrow> (string, configuration) gomap" where
  "cleanPlan E rng nod cfgs apps =
     (let objectCfgs = fold (addObject E) cfgs [];
          (occupiedApps, obsoleteApps) = splitApps nod apps;
          finishedJobs = getFinishedJobs (rng 0 occupiedApps) nod;
          used = getUsedObjectCfgs (rng 1 occupiedApps) finishedJobs;
          objectCfgs = fold (dropUsed E) used objectCfgs
      in getDelObjectCfgs E (rng 2 occupiedApps) (rng 3 obsoleteApps) objectCfgs finishedJobs)"

text \<open>The loop body of the deletion; every error is only logged.\<close>

definition cleanOne :: "os_env \<Rightarrow> 's store_ops \<Rightarrow> string \<Rightarrow> string \<times> configuration \<Rightarrow>
    's \<times> fs \<Rightarrow> unit result \<times> ('s \<times> fs)" where
  "cleanOne osys S path kv st =
     (let (r, s) = b_delete (st_cfg S) (fst kv) (fst st)
      in slog (r, (s, snd st)) (\<lambda>(s, fs).
           let dir = Join [path, cfg_name (snd kv)]
           in case ReadDir osys dir fs of
                Ok subs \<Rightarrow>
                  let verDir = Join [dir, cfg_version (snd kv)];
                      (_, fs) = RemoveAll osys verDir fs
                  in if subs = [cfg_version (snd kv)]
                     then (Ok (), (s, snd (RemoveAll osys dir fs)))
                     else (Ok (), (s, fs))
              | _ \<Rightarrow> (Ok (), (s, fs))))"

text \<open>
  An error of the second \<^verbatim>\<open>ForEach\<close> is not looked at: \<open>seen\<close> are the applications it had visited
  before it failed.
\<close>

definition cleanObjectStorage :: "env \<Rightarrow> os_env \<Rightarrow> 's store_ops \<Rightarrow> string \<Rightarrow>
    (nat \<Rightarrow> (string, application) gomap \<Rightarrow> (string, application) gomap) \<Rightarrow>
    ((string, configuration) gomap \<Rightarrow> (string, configuration) gomap) \<Rightarrow>
    ('s \<Rightarrow> application list) \<Rightarrow> node_view result \<Rightarrow> 's \<times> fs \<Rightarrow> nat result \<times> ('s \<times> fs)" where
  "cleanObjectStorage E osys S path rng rngD seen nodGet st =
     sbind (nodGet, st) (\<lambda>nod st.
     sbind (b_all (st_cfg S) (fst st), st) (\<lambda>cfgs st.
     let apps = (case b_all (st_app S) (fst st) of Ok kvs \<Rightarrow> map snd kvs | _ \<Rightarrow> seen (fst st));
         dels = cleanPlan E rng nod (map snd cfgs) apps
     in sbind (sfor (cleanOne osys S path) (rngD dels) st) (\<lambda>_ st. (Ok (length dels), st))))"

subsection \<open>Finished jobs\<close>

lemma fold_nested: "fold (\<lambda>x. fold f (g x)) xs s = fold f (concat (map g xs)) s"
  by (induction xs arbitrary: s) auto

lemma addJobStatus_fold:
  "(mget (fold (addJobStatus jobs) L []) n = None \<longleftrightarrow>
      n \<notin> set jobs \<or> (\<forall>i \<in> set L. is_app i \<noteq> n)) \<and>
   (mget (fold (addJobStatus jobs) L []) n = Some Succeeded \<longleftrightarrow>
      n \<in> set jobs \<and> (\<exists>i \<in> set L. is_app i = n) \<and>
      (\<forall>i \<in> set L. is_app i = n \<longrightarrow> is_status i = Succeeded))"
proof (induction L rule: rev_induct)
  case Nil
  then show ?case by simp
next
  case (snoc i L)
  then show ?case
    by (auto simp: addJobStatus_def map_simps split: option.splits)
qed

lemma gomap_addJobStatus: "gomap js \<Longrightarrow> gomap (fold (addJobStatus jobs) L js)"
  by (induction L arbitrary: js) (auto simp: addJobStatus_def split: option.splits)

definition reportedInstances :: "node_view \<Rightarrow> instance_stats list" where
  "reportedInstances nod = concat (map statInstances (nv_reportStats nod False))"

lemma jobs_iff:
  "n \<in> set (getFinishedJobs apps nod) \<longleftrightarrow>
     (\<exists>app \<in> snd ` set apps. app_workload app = WorkloadJob \<and> app_name app = n) \<and>
     (\<exists>i \<in> set (reportedInstances nod). is_app i = n) \<and>
     \<not> (\<exists>i \<in> set (reportedInstances nod). is_app i = n \<and> is_status i \<noteq> Succeeded)"
proof -
  let ?jobs = "map app_name (filter (\<lambda>app. app_workload app = WorkloadJob) (map snd apps))"
  let ?js = "fold (addJobStatus ?jobs) (reportedInstances nod) []"
  have "n \<in> set (getFinishedJobs apps nod) \<longleftrightarrow> mget ?js n = Some Succeeded"
    using gomap_mget_iff[OF gomap_addJobStatus[OF gomap_Nil], of ?jobs "reportedInstances nod" n]
    by (force simp: getFinishedJobs_def fold_nested reportedInstances_def image_iff Let_def)
  then show ?thesis
    using addJobStatus_fold[of ?jobs "reportedInstances nod" n] by (auto simp: image_iff)
qed

text \<open>
  Finished jobs: \<open>getFinishedJobs\<close> names exactly the job applications of the map of which the
  node reports at least one instance and every reported instance has succeeded.
\<close>

theorem finished_jobs_iff:
  "n \<in> set (getFinishedJobs apps nod) \<longleftrightarrow>
     (\<exists>app \<in> snd ` set apps. app_workload app = WorkloadJob \<and> app_name app = n) \<and>
     (\<exists>i \<in> set (reportedInstances nod). is_app i = n) \<and>
     \<not> (\<exists>i \<in> set (reportedInstances nod). is_app i = n \<and> is_status i \<noteq> Succeeded)"
  by (rule jobs_iff)

subsection \<open>What the cleaning keeps\<close>

text \<open>The references an application that is not a finished job mounts.\<close>

definition mountedRefs :: "application \<Rightarrow> obj_ref list" where
  "mountedRefs app = List.map_filter (\<lambda>vm. mget (refersOf app) (vm_name vm)) (mountsOf app)"

definition liveRefs :: "string list \<Rightarrow> application \<Rightarrow> obj_ref list" where
  "liveRefs finished app =
     (if app_workload app = WorkloadJob \<and> app_name app \<in> set finished then [] else mountedRefs app)"

definition addRef :: "obj_ref \<Rightarrow> (string, string) gomap \<Rightarrow> (string, string) gomap" where
  "addRef c m = mput (ref_name c) (ref_version c) m"

lemma addRef_mget: "mget (addRef c m) n = (if n = ref_name c then Some (ref_version c) else mget m n)"
  by (simp add: addRef_def mget_mput)

lemma usedOfApp_refs: "usedOfApp finished app used = fold addRef (liveRefs finished app) used"
proof -
  have "fold (addUsed (refersOf app)) vms used =
      fold addRef (List.map_filter (\<lambda>vm. mget (refersOf app) (vm_name vm)) vms) used" for vms
    by (induction vms arbitrary: used)
      (auto simp: addUsed_def addRef_def List.map_filter_def split: option.splits)
  then show ?thesis by (simp add: usedOfApp_def liveRefs_def mountedRefs_def)
qed

lemma getUsedObjectCfgs_refs:
  "getUsedObjectCfgs apps finished = fold addRef (concat (map (liveRefs finished) (map snd apps))) []"
  unfolding getUsedObjectCfgs_def usedOfApp_refs by (simp add: fold_nested o_def)

text \<open>The map keeps one version per name: the last one. If all agree it is that one.\<close>

lemma addRef_fold:
  assumes "c \<in> set cs" and "\<And>c'. c' \<in> set cs \<Longrightarrow> ref_name c' = ref_name c \<Longrightarrow> ref_version c' = ref_version c"
  shows "mget (fold addRef cs m) (ref_name c) = Some (ref_version c)"
  using assms
proof (induction cs rule: rev_induct)
  case Nil
  then show ?case by simp
next
  case (snoc d cs)
  show ?case
  proof (cases "ref_name d = ref_name c")
    case True
    with snoc.prems(2)[of d] show ?thesis by (simp add: addRef_mget)
  next
    case False
    with snoc.prems(1) have "c \<in> set cs" by auto
    moreover have "\<And>c'. c' \<in> set cs \<Longrightarrow> ref_name c' = ref_name c \<Longrightarrow> ref_version c' = ref_version c"
      using snoc.prems(2) by simp
    ultimately have "mget (fold addRef cs m) (ref_name c) = Some (ref_version c)" by (rule snoc.IH)
    with False show ?thesis by (simp add: addRef_mget)
  qed
qed

lemma dropUsed_one: "mget m k = None \<Longrightarrow> mget (dropUsed E a m) k = None"
  by (simp add: dropUsed_def Let_def map_simps)

lemma dropUsed_mono: "mget m k = None \<Longrightarrow> mget (fold (dropUsed E) used m) k = None"
  by (induction used arbitrary: m) (simp_all add: dropUsed_one)

lemma addObject_key: "mget m [] = None \<Longrightarrow> mget (fold (addObject E) cfgs m) [] = None"
proof (induction cfgs arbitrary: m)
  case Nil
  then show ?case by simp
next
  case (Cons c cfgs)
  then have "mget (addObject E c m) [] = None" by (simp add: addObject_def Let_def map_simps)
  with Cons.IH show ?case by simp
qed

lemma dropUsed_fold:
  assumes "nv \<in> set used" and "cfg_key E (fst nv) (snd nv) \<noteq> []"
  shows "mget (fold (dropUsed E) used m) (cfg_key E (fst nv) (snd nv)) = None"
proof -
  note mono = dropUsed_mono[where E = E]
  show ?thesis using assms(1)
  proof (induction used arbitrary: m)
    case Nil
    then show ?case by simp
  next
    case (Cons a used)
    show ?case
    proof (cases "a = nv")
      case True
      have "mget (dropUsed E nv m) (cfg_key E (fst nv) (snd nv)) = None"
        using assms(2) by (auto simp: dropUsed_def Let_def map_simps)
      with True mono show ?thesis by simp
    next
      case False
      with Cons show ?thesis by auto
    qed
  qed
qed

lemma delsOfApp_from:
  "mget (delsOfApp E objs app dels) k \<noteq> None \<Longrightarrow> mget dels k \<noteq> None \<or> mget objs k \<noteq> None"
proof -
  have "mget (fold (addDel E refers objs) vms dels) k \<noteq> None \<Longrightarrow>
      mget dels k \<noteq> None \<or> mget objs k \<noteq> None" for refers vms
  proof (induction vms arbitrary: dels)
    case Nil
    then show ?case by simp
  next
    case (Cons vm vms)
    from Cons.IH[of "addDel E refers objs vm dels"] Cons.prems
    show ?case by (auto simp: addDel_def Let_def map_simps split: option.splits if_splits)
  qed
  then show "mget (delsOfApp E objs app dels) k \<noteq> None \<Longrightarrow> mget dels k \<noteq> None \<or> mget objs k \<noteq> None"
    by (auto simp: delsOfApp_def)
qed

lemma getDelObjectCfgs_from:
  assumes "mget (getDelObjectCfgs E occ obs objs fin) k \<noteq> None"
  shows "mget objs k \<noteq> None"
proof -
  have A: "mget (fold (delsOfApp E objs) apps dels) k \<noteq> None \<Longrightarrow> mget dels k \<noteq> None \<or> mget objs k \<noteq> None"
    for apps dels
  proof (induction apps arbitrary: dels)
    case Nil
    then show ?case by simp
  next
    case (Cons a apps)
    then show ?case using delsOfApp_from[of E objs a dels k] by auto
  qed
  have B: "mget (fold (\<lambda>app dels. if app_name app \<notin> set fin then dels else delsOfApp E objs app dels) apps dels) k \<noteq> None
      \<Longrightarrow> mget dels k \<noteq> None \<or> mget objs k \<noteq> None" for apps dels
  proof (induction apps arbitrary: dels)
    case Nil
    then show ?case by simp
  next
    case (Cons a apps)
    then show ?case using delsOfApp_from[of E objs a dels k]
      by (cases "app_name a \<in> set fin") auto
  qed
  let ?d = "fold (delsOfApp E objs) (map snd obs) []"
  from B[OF assms[unfolded getDelObjectCfgs_def Let_def]] show ?thesis
    using A[of "map snd obs" "[]"] by auto
qed

lemma cleanOne_store: "fst (snd (cleanOne osys S path kv st)) = snd (b_delete (st_cfg S) (fst kv) (fst st))"
proof (cases "b_delete (st_cfg S) (fst kv) (fst st)")
  case (Pair r s)
  then show ?thesis
    by (cases r; cases "ReadDir osys (Join [path, cfg_name (snd kv)]) (snd st)")
      (simp_all add: cleanOne_def Let_def split_beta)
qed

lemma cleanPlan_keeps:
  assumes "\<And>i. range_ok (rng i)"
    and "occ = fst (splitApps nod apps)" and "app \<in> snd ` set occ"
    and "c \<in> set (mountedRefs app)"
    and "app_workload app \<noteq> WorkloadJob \<or>
      \<not> (\<exists>i \<in> set (reportedInstances nod). is_app i = app_name app) \<or>
      (\<exists>i \<in> set (reportedInstances nod). is_app i = app_name app \<and> is_status i \<noteq> Succeeded)"
    and "\<And>a c'. a \<in> snd ` set occ \<Longrightarrow> c' \<in> set (mountedRefs a) \<Longrightarrow>
      ref_name c' = ref_name c \<Longrightarrow> ref_version c' = ref_version c"
  shows "cfg_key E (ref_name c) (ref_version c) \<notin> keys (cleanPlan E rng nod cfgs apps)"
proof -
  let ?k = "cfg_key E (ref_name c) (ref_version c)"
  obtain obs where sp: "splitApps nod apps = (occ, obs)" using assms(2) by (metis prod.collapse)
  let ?fin = "getFinishedJobs (rng 0 occ) nod"
  let ?used = "getUsedObjectCfgs (rng 1 occ) ?fin"
  let ?objs = "fold (dropUsed E) ?used (fold (addObject E) cfgs [])"
  have "app_workload app \<noteq> WorkloadJob \<or> app_name app \<notin> set ?fin"
    using assms(5) jobs_iff[of "app_name app" "rng 0 occ" nod] by blast
  then have live: "c \<in> set (liveRefs ?fin app)"
    using assms(4) by (simp add: liveRefs_def)
  have "mget ?used (ref_name c) = Some (ref_version c)"
    unfolding getUsedObjectCfgs_refs
  proof (rule addRef_fold)
    show "c \<in> set (concat (map (liveRefs ?fin) (map snd (rng 1 occ))))"
      using live assms(3) by (auto simp: range_ok_set[OF assms(1)])
    fix c' assume "c' \<in> set (concat (map (liveRefs ?fin) (map snd (rng 1 occ))))"
      and n: "ref_name c' = ref_name c"
    then obtain a where "a \<in> snd ` set occ" "c' \<in> set (mountedRefs a)"
      by (auto simp: range_ok_set[OF assms(1)] liveRefs_def split: if_splits)
    with n show "ref_version c' = ref_version c" by (intro assms(6))
  qed
  then have "(ref_name c, ref_version c) \<in> set ?used" by (rule map_of_SomeD)
  then have "mget ?objs ?k = None"
    using dropUsed_fold[of "(ref_name c, ref_version c)" ?used E]
      dropUsed_mono[OF addObject_key[of "[]"]] by (cases "?k = []") auto
  then show ?thesis
    using getDelObjectCfgs_from[of E "rng 2 occ" "rng 3 obs" ?objs ?fin ?k]
    by (auto simp: cleanPlan_def sp Let_def mget_None_iff)
qed

text \<open>
  C12. Cleaning keeps the configurations that live applications mount in one version: if the
  applications of the store can be listed, a service of an application whose reported or desired version
  is stored mounts a configuration, the application is not a finished job, and no other such application
  mounts another version of that configuration, then \<open>cleanObjectStorage\<close> leaves the record of that
  configuration as it was, also when listing the configurations or one of the deletions fails. Where two
  versions are mounted or the listing fails the configuration can be lost.
\<close>

theorem clean_keeps_mounted:
  assumes "store_ok S" and "\<And>i. range_ok (rng i)" and "range_ok rngD"
    and "b_all (st_app S) (fst st) = Ok akvs"
    and "occ = fst (splitApps nod (map snd akvs))" and "app \<in> snd ` set occ"
    and "c \<in> set (mountedRefs app)"
    and "app_workload app \<noteq> WorkloadJob \<or>
      \<not> (\<exists>i \<in> set (reportedInstances nod). is_app i = app_name app) \<or>
      (\<exists>i \<in> set (reportedInstances nod). is_app i = app_name app \<and> is_status i \<noteq> Succeeded)"
    and "\<And>a c'. a \<in> snd ` set occ \<Longrightarrow> c' \<in> set (mountedRefs a) \<Longrightarrow>
      ref_name c' = ref_name c \<Longrightarrow> ref_version c' = ref_version c"
  shows "b_get (st_cfg S) (fst (snd (cleanObjectStorage E osys S path rng rngD seen (Ok nod) st)))
       (cfg_key E (ref_name c) (ref_version c)) =
     b_get (st_cfg S) (fst st) (cfg_key E (ref_name c) (ref_version c))"
proof -
  let ?k = "cfg_key E (ref_name c) (ref_version c)"
  let ?P = "\<lambda>s. b_get (st_cfg S) s ?k = b_get (st_cfg S) (fst st) ?k"
  have ok: "bucket_ok (st_cfg S)" using assms(1) by (simp add: store_ok_def)
  have plan: "?k \<notin> keys (cleanPlan E rng nod cfgs (map snd akvs))" for cfgs
    by (rule cleanPlan_keeps[OF assms(2) assms(5-9)])
  have loop: "?P (fst (snd (sfor (cleanOne osys S path) (rngD dels) st)))"
    if "?k \<notin> keys dels" for dels
  proof (rule sfor_inv[where I = "\<lambda>st. ?P (fst st)"])
    fix kv :: "string \<times> configuration" and st :: "'a \<times> fs"
    assume "kv \<in> set (rngD dels)" and P: "?P (fst st)"
    with that have "?k \<noteq> fst kv" by (auto simp: range_ok_set[OF assms(3)])
    with P bucket_delete_other[OF ok] show "?P (fst (snd (cleanOne osys S path kv st)))"
      unfolding cleanOne_store by simp
  qed simp
  show ?thesis
  proof (cases "b_all (st_cfg S) (fst st)")
    case (Ok cfgs)
    with assms(4) loop[OF plan[of "map snd cfgs"]] show ?thesis
      by (auto simp: cleanObjectStorage_def Let_def split: sbind_split)
  qed (simp_all add: cleanObjectStorage_def)
qed

theorem clean_keeps_mounted_witness:
  "b_get (st_cfg mem_ops) (fst (snd (cleanObjectStorage sample_env good_os mem_ops ''/obj''
       (\<lambda>_. rev) rev (\<lambda>_. []) (Ok sample_view) (sample_mem, sample_fs)))) ''configuration-model-2''
   = Ok (sample_object ''2'')"
proof -
  have sp: "splitApps sample_view [sample_object_app] = ([(''a'', sample_object_app)], [])"
    by (simp add: splitApps_def splitApp_def occupiedVersions_def sample_clean)
  have m: "mountedRefs sample_object_app = [\<lparr>ref_name = ''model'', ref_version = ''2''\<rparr>]"
    by (simp add: mountedRefs_def mountsOf_def refersOf_def addRefer_def List.map_filter_def sample_clean)
  have a: "b_all (st_app mem_ops) sample_mem = Ok [(''application-a-1'', sample_object_app)]"
    by (simp add: mem_simps sample_mem_def)
  have k: "cfg_key sample_env ''model'' ''2'' = ''configuration-model-2''"
    by (simp add: MakeKey_def sample_env_def)
  have g: "b_get (st_cfg mem_ops) sample_mem ''configuration-model-2'' = Ok (sample_object ''2'')"
    by (simp add: mem_simps sample_mem_def)
  have w: "app_workload sample_object_app \<noteq> WorkloadJob"
    by (simp add: sample_object_app_def zero_application_def)
  show ?thesis
    using clean_keeps_mounted[of mem_ops "\<lambda>_. rev" rev "(sample_mem, sample_fs)"
        "[(''application-a-1'', sample_object_app)]" "[(''a'', sample_object_app)]" sample_view
        sample_object_app "\<lparr>ref_name = ''model'', ref_version = ''2''\<rparr>" sample_env good_os "''/obj''" "\<lambda>_. []"]
    by (simp add: mem_ops_ok range_ok_rev sp m a k g w)
qed

text \<open>Paths of a version directory.\<close>

lemma join_snoc: "xs \<noteq> [] \<Longrightarrow> join sep (xs @ [y]) = join sep xs @ sep @ y"
  by (induction xs rule: induct_list012) auto

lemma Join_plain_append:
  assumes "IsAbs d" and "plain [a]" and "plain [b]"
  shows "Join [Join [d, a], b] = Join [d, a] @ slash # b"
proof -
  have Aa: "IsAbs (Join [d, a])" and ca: "comps (Join [d, a]) = comps d @ [a]"
    using Join_abs_comps[OF assms(1), of a] cleanLoop_split_plain[OF assms(2)] by simp_all
  have d': "Join [d, a] = slash # join ''/'' (comps d @ [a])"
    using Join_clean[OF assms(1), of a] ca by simp
  have "comps (Join [Join [d, a], b]) = (comps d @ [a]) @ [b]"
    using Join_abs_comps(2)[OF Aa, of b] cleanLoop_split_plain[OF assms(3)] ca by simp
  then have "Join [Join [d, a], b] = slash # join ''/'' ((comps d @ [a]) @ [b])"
    using Join_clean[OF Aa, of b] by simp
  also have "\<dots> = Join [d, a] @ slash # b"
    by (subst join_snoc) (simp_all add: d')
  finally show ?thesis .
qed

lemma below_version:
  assumes "slash \<notin> set v" and "slash \<notin> set w" and "v \<noteq> w" and "rest = [] \<or> hd rest = slash"
  shows "\<not> below (dir @ slash # v) (dir @ slash # w @ rest)"
proof -
  have "w @ rest \<noteq> v"
    using assms by (cases rest) auto
  moreover have "w @ rest \<noteq> v @ slash # x" for x
    using assms append_sep_inject[of slash w v] by (cases rest) auto
  ultimately show ?thesis by (auto simp: below_def hasPrefix_iff prefix_def)
qed

text \<open>
  Cleaning one version leaves the files of the others: for a download path that is absolute
  and names and versions that are plain path components, deleting version \<open>v\<close> of an object
  configuration removes no file under the directory of another version \<open>w\<close> of it, also when the
  directory of the name is removed because \<open>v\<close> was its last entry.
\<close>

theorem clean_one_other_versions:
  assumes "IsAbs path" and "plain [cfg_name c]" and "plain [cfg_version c]"
    and "plain [w]" and "w \<noteq> cfg_version c" and "rest = [] \<or> hd rest = slash"
    and "mget (snd st) (Join [path, cfg_name c] @ slash # w @ rest) = Some e"
  shows "mget (snd (snd (cleanOne osys S path (k, c) st))) (Join [path, cfg_name c] @ slash # w @ rest) = Some e"
proof -
  let ?dir = "Join [path, cfg_name c]" and ?p = "Join [path, cfg_name c] @ slash # w @ rest"
  have nb: "\<not> below (Join [?dir, cfg_version c]) ?p"
    unfolding Join_plain_append[OF assms(1-3)]
    using assms(3-6) by (intro below_version) (auto simp: plain_def)
  have split_w: "hd (split slash (w @ rest)) = w"
    using assms(4,6) by (cases rest) (auto simp: plain_def split_append_sep split_free)
  have sub: "w \<in> set subs" if "ReadDir osys ?dir (snd st) = Ok subs" for subs
  proof -
    have "(?p, e) \<in> set (snd st)" using assms(7) by (rule map_of_SomeD)
    moreover have "below ?dir ?p" "?p \<noteq> ?dir"
      by (auto simp: below_def hasPrefix_iff prefix_def)
    moreover have "hd (split slash (drop (length ?dir + 1) ?p)) = w" using split_w by simp
    ultimately have "w \<in> (\<lambda>e. hd (split slash (drop (length ?dir + 1) (fst e)))) `
        set (filter (\<lambda>e. fst e \<noteq> ?dir \<and> below ?dir (fst e)) (snd st))"
      by force
    moreover have "set subs = (\<lambda>e. hd (split slash (drop (length ?dir + 1) (fst e)))) `
        set (filter (\<lambda>e. fst e \<noteq> ?dir \<and> below ?dir (fst e)) (snd st))"
      using that unfolding ReadDir_def
      by (cases "mget (snd st) ?dir \<noteq> Some Dir \<or> os_noRead osys ?dir")
        (simp_all only: if_True if_False result.distinct result.inject simp_thms,
         metis (no_types, lifting) set_map set_remdups)
    ultimately show ?thesis by simp
  qed
  have rm: "mget (snd (RemoveAll osys (Join [?dir, cfg_version c]) (snd st))) ?p = Some e"
    using RemoveAll_other[OF nb] assms(7) by simp
  obtain r s where d: "b_delete (st_cfg S) k (fst st) = (r, s)" by fastforce
  show ?thesis
  proof (cases "ReadDir osys ?dir (snd st)")
    case (Ok subs)
    with sub[OF Ok] assms(5) have "subs \<noteq> [cfg_version c]" by auto
    with Ok d rm assms(7) show ?thesis
      by (cases r) (simp_all add: cleanOne_def Let_def split_beta)
  qed (use d assms(7) in \<open>cases r; simp add: cleanOne_def Let_def\<close>)+
qed

theorem clean_one_other_versions_witness:
  "mget (snd (snd (cleanOne good_os mem_ops ''/obj'' (''configuration-model-1'', sample_object ''1'')
      (sample_mem, sample_fs)))) (Join [''/obj'', ''model''] @ ''/2/m'') = Some (File ''new'')"
proof -
  have J: "Join [''/obj'', ''model''] = ''/obj/model''" by code_simp
  show ?thesis
    using clean_one_other_versions[of "''/obj''" "sample_object ''1''" "''2''" "''/m''"
        "(sample_mem, sample_fs)" "File ''new''" good_os mem_ops "''configuration-model-1''"]
    by (simp add: J sample_object_def zero_configuration_def plain_def IsAbs_def hasPrefix_def sample_fs_def)
qed

end
