(* ===== verification/Sync_Object.thy ===== *)
theory Sync_Object
  imports Keys Go_Path "HOL-Library.Word"
begin

text \<open>
  Object configurations and the preparation of an application for its host (\<^verbatim>\<open>sync/object.go\<close>,
  \<^verbatim>\<open>sync/app.go\<close>): which objects of a configuration belong to this platform, the download of an
  object with lock, retry, digest check and unpacking, and the rewriting of the volumes of an
  application to host paths. HTTP, the digest, file locks and archives are functions of
  \<^verbatim>\<open>baetyl-go\<close> and arguments here (\<open>dl_env\<close>), over an opaque state of the outside world. Of an
  error's text only the constant part is kept.
\<close>

section \<open>FilterConfig\<close>

definition isProgram :: "configuration \<Rightarrow> bool" where
  "isProgram cfg \<longleftrightarrow> mget (cfg_labels cfg) ''baetyl-config-type'' = Some ''baetyl-program''"

definition FilterConfig :: "env \<Rightarrow> configuration \<Rightarrow> configuration" where
  "FilterConfig E cfg =
     (if \<not> isProgram cfg then cfg
      else cfg\<lparr>cfg_data := filter (\<lambda>kv. \<not> e_isObject E (fst kv) \<or> contains (fst kv) (e_platform E))
             (cfg_data cfg)\<rparr>)"

section \<open>Downloading one object\<close>

record cfg_object =
  co_url :: string
  co_md5 :: string
  co_token :: string
  co_unpack :: string

text \<open>\<open>hr_complete\<close>: the body could be read to its end.\<close>

record http_resp =
  hr_code :: int
  hr_body :: string
  hr_complete :: bool

record 'n dl_env =
  dl_get :: "string \<Rightarrow> (string, string) gomap \<Rightarrow> 'n \<Rightarrow> http_resp option result \<times> 'n"
  dl_md5 :: "string \<Rightarrow> string"
  dl_flock :: "string \<Rightarrow> bool"
  dl_fileExists :: "string \<Rightarrow> fs \<Rightarrow> bool"
  dl_unpack :: "string \<Rightarrow> string \<Rightarrow> string \<Rightarrow> fs \<Rightarrow> unit result \<times> fs"
  dl_parseObject :: "string \<Rightarrow> cfg_object result"
  dl_urlPath :: "string \<Rightarrow> string result"
  dl_upload :: "(string \<Rightarrow> string \<Rightarrow> string \<Rightarrow> string \<Rightarrow> 'n \<Rightarrow> unit result \<times> 'n) option"

text \<open>\<^verbatim>\<open>utils.CalculateFileMD5\<close>, and the request with its one retry.\<close>

definition fileMD5 :: "os_env \<Rightarrow> 'n dl_env \<Rightarrow> string \<Rightarrow> fs \<Rightarrow> string result" where
  "fileMD5 osys dl name fs = rmap (dl_md5 dl) (ReadFile osys name fs)"

definition fetch :: "'n dl_env \<Rightarrow> string \<Rightarrow> (string, string) gomap \<Rightarrow> 'n \<Rightarrow> http_resp result \<times> 'n" where
  "fetch dl url headers n =
     (case dl_get dl url headers n of
        (Ok (Some resp), n) \<Rightarrow> (Ok resp, n)
      | (Panic p, n) \<Rightarrow> (Panic p, n)
      | (_, n) \<Rightarrow>
          (case dl_get dl url headers n of
             (Ok (Some resp), n) \<Rightarrow> (Ok resp, n)
           | (Panic p, n) \<Rightarrow> (Panic p, n)
           | (_, n) \<Rightarrow> (Err ''failed to download config object'', n)))"

text \<open>Creating the file, emptying it and copying the body: a read error leaves what had come.\<close>

definition saveBody :: "os_env \<Rightarrow> string \<Rightarrow> http_resp \<Rightarrow> fs \<Rightarrow> unit result \<times> fs" where
  "saveBody osys name resp fs =
     (if mget fs name = Some Dir \<or> os_noCreate osys name then (Err ''invalid argument'', fs)
      else (if hr_complete resp then Ok () else Err ''failed to download config object file'',
            mput name (File (hr_body resp)) fs))"

text \<open>A digest that cannot be computed is reported with \<^verbatim>\<open>err.Error()\<close>, where \<^verbatim>\<open>err\<close> is nil.\<close>

definition nil_error :: string where
  "nil_error = ''nil pointer dereference''"

definition checkMD5 :: "os_env \<Rightarrow> 'n dl_env \<Rightarrow> cfg_object \<Rightarrow> string \<Rightarrow> fs \<Rightarrow> unit result" where
  "checkMD5 osys dl obj name fs =
     (if co_md5 obj = [] then Ok ()
      else case fileMD5 osys dl name fs of
             Ok md5 \<Rightarrow> if md5 = co_md5 obj then Ok () else Err ''MD5 of config object invalid''
           | Err _ \<Rightarrow> Panic nil_error
           | Panic p \<Rightarrow> Panic p)"

definition unpackFile :: "'n dl_env \<Rightarrow> string \<Rightarrow> string \<Rightarrow> string \<Rightarrow> fs \<Rightarrow> unit result \<times> fs" where
  "unpackFile dl unpack name dir fs =
     (if unpack = [] then (Ok (), fs)
      else if unpack = ''zip'' \<or> unpack = ''tar'' \<or> unpack = ''tgz'' then dl_unpack dl unpack name dir fs
      else (Err ''failed to unpack file: not supported'', fs))"

text \<open>Whether the file is there already.\<close>

definition haveObject :: "os_env \<Rightarrow> 'n dl_env \<Rightarrow> cfg_object \<Rightarrow> string \<Rightarrow> fs \<Rightarrow> bool" where
  "haveObject osys dl obj name fs =
     (if co_md5 obj \<noteq> [] then fileMD5 osys dl name fs = Ok (co_md5 obj)
      else dl_fileExists dl name fs)"

text \<open>What happens under the lock.\<close>

definition fetchObject :: "os_env \<Rightarrow> 'n dl_env \<Rightarrow> cfg_object \<Rightarrow> string \<Rightarrow> string \<Rightarrow> string \<Rightarrow>
    fs \<times> 'n \<Rightarrow> unit result \<times> (fs \<times> 'n)" where
  "fetchObject osys dl obj dir name unpack w =
     (case w of (fs, n) \<Rightarrow>
        if haveObject osys dl obj name fs then (Ok (), w)
        else
          let headers = (if co_token obj \<noteq> [] then [(''x-bce-security-token'', co_token obj)] else []);
              (r, n) = fetch dl (co_url obj) headers n
          in sbind (r, (fs, n)) (\<lambda>resp w.
             if hr_code resp \<noteq> 200 then (Err ''failed to download config object'', w)
             else
               let (r, fs) = saveBody osys name resp (fst w)
               in sbind (r, (fs, snd w)) (\<lambda>_ w.
                  sbind (checkMD5 osys dl obj name (fst w), w) (\<lambda>_ w.
                  let (r, fs) = unpackFile dl unpack name dir (fst w) in (r, (fs, snd w))))))"

definition lockName :: "string \<Rightarrow> string" where
  "lockName name = name @ ''.baetyl-lock''"

text \<open>The lock file is removed on every exit after it was locked, a panic included.\<close>

definition downloadObject :: "os_env \<Rightarrow> 'n dl_env \<Rightarrow> cfg_object \<Rightarrow> string \<Rightarrow> string \<Rightarrow> string \<Rightarrow>
    fs \<times> 'n \<Rightarrow> unit result \<times> (fs \<times> 'n)" where
  "downloadObject osys dl obj dir name unpack w =
     (let lock = lockName name; fs = fst w
      in if mget fs lock = Some Dir \<or> os_noCreate osys lock then (Err ''open lock'', w)
         else
           let fs = (if mget fs lock = None then mput lock (File []) fs else fs)
           in if \<not> dl_flock dl lock then (Err ''flock'', (fs, snd w))
              else let (r, w) = fetchObject osys dl obj dir name unpack (fs, snd w)
                   in (r, (if os_stuck osys lock then fst w else mdel lock (fst w), snd w)))"

section \<open>DownloadConfig\<close>

text \<open>\<^verbatim>\<open>path.Base\<close> of the URL's path for a program, the key without its prefix otherwise.\<close>

definition objectFile :: "env \<Rightarrow> 'n dl_env \<Rightarrow> configuration \<Rightarrow> string \<Rightarrow> string \<Rightarrow> cfg_object \<Rightarrow> string result" where
  "objectFile E dl cfg dir k obj =
     (if isProgram cfg then rmap (\<lambda>p. Join [dir, Base p]) (dl_urlPath dl (co_url obj))
      else Ok (Join [dir, trimPrefix k (e_objPrefix E)]))"

definition objectDir :: "string \<Rightarrow> configuration \<Rightarrow> string" where
  "objectDir objectPath cfg = Join [objectPath, cfg_name cfg, cfg_version cfg]"

definition uploadObject :: "env \<Rightarrow> 'n dl_env \<Rightarrow> configuration \<Rightarrow> string \<Rightarrow> string \<Rightarrow> cfg_object \<Rightarrow>
    fs \<times> 'n \<Rightarrow> unit result \<times> (fs \<times> 'n)" where
  "uploadObject E dl cfg dir filename obj w =
     (if mget (cfg_labels cfg) (e_configType E) = Some (e_helmTar E) then (Ok (), w)
      else case dl_upload dl of
             None \<Rightarrow> (Ok (), w)
           | Some roam \<Rightarrow> let (r, n) = roam dir filename (co_md5 obj) (co_unpack obj) (snd w)
                          in (r, (fst w, n)))"

definition downloadEntry :: "env \<Rightarrow> os_env \<Rightarrow> 'n dl_env \<Rightarrow> string \<Rightarrow> configuration \<Rightarrow>
    string \<times> string \<Rightarrow> fs \<times> 'n \<Rightarrow> unit result \<times> (fs \<times> 'n)" where
  "downloadEntry E osys dl objectPath cfg kv w =
     (if \<not> e_isObject E (fst kv) then (Ok (), w)
      else
        let dir = objectDir objectPath cfg; (r, fs) = MkdirAll osys dir (fst w)
        in sbind (r, (fs, snd w)) (\<lambda>_ w.
           sbind (dl_parseObject dl (snd kv), w) (\<lambda>obj w.
           sbind (objectFile E dl cfg dir (fst kv) obj, w) (\<lambda>filename w.
           case downloadObject osys dl obj dir filename (co_unpack obj) w of
             (Ok _, w) \<Rightarrow> uploadObject E dl cfg dir filename obj w
           | (Err e, w) \<Rightarrow> (Err e, (snd (RemoveAll osys dir (fst w)), snd w))
           | (Panic p, w) \<Rightarrow> (Panic p, w)))))"

definition DownloadConfig :: "env \<Rightarrow> os_env \<Rightarrow> 'n dl_env \<Rightarrow> string \<Rightarrow> configuration \<Rightarrow>
    fs \<times> 'n \<Rightarrow> unit result \<times> (fs \<times> 'n)" where
  "DownloadConfig E osys dl objectPath cfg w =
     sfor (downloadEntry E osys dl objectPath cfg) (cfg_data cfg) w"

section \<open>Preparing an application\<close>

definition serviceEnv :: "env \<Rightarrow> application \<Rightarrow> service \<Rightarrow> environment list" where
  "serviceEnv E app svc =
     [\<lparr>env_name = e_keyAppName E, env_value = app_name app\<rparr>,
      \<lparr>env_name = e_keySvcName E, env_value = svc_name svc\<rparr>,
      \<lparr>env_name = e_keyAppVersion E, env_value = app_version app\<rparr>,
      \<lparr>env_name = e_keyNodeName E, env_value = e_nodeName E\<rparr>,
      \<lparr>env_name = e_keyRunMode E, env_value = e_runMode E\<rparr>]"

definition prepService :: "env \<Rightarrow> application \<Rightarrow> service \<Rightarrow> service" where
  "prepService E app svc = svc\<lparr>svc_env := svc_env svc @ serviceEnv E app svc\<rparr>"

definition prepVolume :: "env \<Rightarrow> os_env \<Rightarrow> string \<Rightarrow> string \<Rightarrow> (string, configuration) gomap \<Rightarrow>
    volume \<Rightarrow> fs \<Rightarrow> volume result \<times> fs" where
  "prepVolume E osys hostPath objectPath cfgs v fs =
     (case vol_hostPath v of
        Some hp \<Rightarrow>
          if IsAbs (hp_path hp) then (Ok v, fs)
          else let fullPath = Join [hostPath, Join [''/'', hp_path hp]]
               in sbind (MkdirAll osys fullPath fs) (\<lambda>_ fs.
                  (Ok (v\<lparr>vol_hostPath := Some \<lparr>hp_path = fullPath, hp_type = []\<rparr>\<rparr>), fs))
      | None \<Rightarrow>
          (case vol_config v of
             None \<Rightarrow> (Ok v, fs)
           | Some config \<Rightarrow>
               (case mget cfgs (ref_name config) of
                  None \<Rightarrow> (Ok v, fs)
                | Some cfg \<Rightarrow>
                    if list_ex (\<lambda>kv. e_isObject E (fst kv)) (cfg_data cfg)
                    then (Ok (v\<lparr>vol_config := None,
                                vol_hostPath := Some \<lparr>hp_path = objectDir objectPath cfg, hp_type = []\<rparr>\<rparr>), fs)
                    else (Ok v, fs))))"

text \<open>On an error the volumes behind it keep their old form.\<close>

fun prepVolumes :: "env \<Rightarrow> os_env \<Rightarrow> string \<Rightarrow> string \<Rightarrow> (string, configuration) gomap \<Rightarrow>
    volume list \<Rightarrow> fs \<Rightarrow> unit result \<times> (volume list \<times> fs)" where
  "prepVolumes E osys hp op cfgs [] fs = (Ok (), ([], fs))"
| "prepVolumes E osys hp op cfgs (v # vs) fs =
     (case prepVolume E osys hp op cfgs v fs of
        (Ok v', fs) \<Rightarrow>
          (case prepVolumes E osys hp op cfgs vs fs of (r, (vs', fs)) \<Rightarrow> (r, (v' # vs', fs)))
      | (Err e, fs) \<Rightarrow> (Err e, (v # vs, fs))
      | (Panic p, fs) \<Rightarrow> (Panic p, (v # vs, fs)))"

definition PrepareApp :: "env \<Rightarrow> os_env \<Rightarrow> string \<Rightarrow> string \<Rightarrow> application option \<Rightarrow>
    (string, configuration) gomap \<Rightarrow> fs \<Rightarrow> unit result \<times> (application option \<times> fs)" where
  "PrepareApp E osys hostPath objectPath app cfgs fs =
     (case app of
        None \<Rightarrow> (Ok (), (None, fs))
      | Some app \<Rightarrow>
          let services = map (prepService E app) (app_services app);
              (r, (vols, fs)) = prepVolumes E osys hostPath objectPath cfgs (app_volumes app) fs
          in (r, (Some (app\<lparr>app_services := services, app_volumes := vols\<rparr>), fs)))"

section \<open>Correctness of downloads\<close>

lemma lockName_neq [simp]: "lockName name \<noteq> name" "name \<noteq> lockName name"
  by (simp_all add: lockName_def)

lemma checkMD5_Ok:
  assumes "checkMD5 osys dl obj name fs = Ok ()" and "co_md5 obj \<noteq> []"
  shows "fileMD5 osys dl name fs = Ok (co_md5 obj)"
  using assms by (auto simp: checkMD5_def split: result.splits if_splits)

lemma fileMD5_Ok:
  assumes "fileMD5 osys dl name fs = Ok m"
  shows "\<exists>c. mget fs name = Some (File c) \<and> dl_md5 dl c = m"
  using assms unfolding fileMD5_def ReadFile_def
  by (cases "mget fs name"; cases "the (mget fs name)") (auto split: if_splits)

text \<open>Without unpacking, a download writes the file and nothing else.\<close>

lemma fetchObject_Ok:
  assumes "fetchObject osys dl obj dir name [] (fs, n) = (Ok (), (fs', n'))"
  shows "(co_md5 obj \<noteq> [] \<longrightarrow> (\<exists>c. mget fs' name = Some (File c) \<and> dl_md5 dl c = co_md5 obj)) \<and>
     (\<forall>p. p \<noteq> name \<longrightarrow> mget fs' p = mget fs p)"
proof (cases "haveObject osys dl obj name fs")
  case True
  with assms have "fs' = fs" by (simp add: fetchObject_def)
  with True show ?thesis by (auto simp: haveObject_def dest: fileMD5_Ok split: if_splits)
next
  case False
  obtain r n1 where f: "fetch dl (co_url obj) (if co_token obj \<noteq> [] then
      [(''x-bce-security-token'', co_token obj)] else []) n = (r, n1)" by fastforce
  from assms False f obtain resp fs1 where
    s: "saveBody osys name resp fs = (Ok (), fs1)" "checkMD5 osys dl obj name fs1 = Ok ()" "fs' = fs1"
    by (auto simp: fetchObject_def sbind_Ok_iff unpackFile_def Let_def split: if_splits prod.splits)
  then have "fs1 = mput name (File (hr_body resp)) fs"
    by (auto simp: saveBody_def split: if_splits)
  moreover have "co_md5 obj \<noteq> [] \<Longrightarrow> \<exists>c. mget fs' name = Some (File c) \<and> dl_md5 dl c = co_md5 obj"
    using fileMD5_Ok[OF checkMD5_Ok[OF s(2)]] s(3) by simp
  ultimately show ?thesis using s(3) by (simp add: map_simps)
qed

lemma downloadObject_Ok:
  assumes "downloadObject osys dl obj dir name [] (fs, n) = (Ok (), (fs', n'))"
  shows "(co_md5 obj \<noteq> [] \<longrightarrow> (\<exists>c. mget fs' name = Some (File c) \<and> dl_md5 dl c = co_md5 obj)) \<and>
     (\<forall>p. p \<noteq> name \<longrightarrow> p \<noteq> lockName name \<longrightarrow> mget fs' p = mget fs p)"
proof -
  let ?lock = "lockName name"
  let ?fs = "if mget fs ?lock = None then mput ?lock (File []) fs else fs"
  obtain fs1 n1 where "fetchObject osys dl obj dir name [] (?fs, n) = (Ok (), (fs1, n1))"
    "fs' = (if os_stuck osys ?lock then fs1 else mdel ?lock fs1)"
    using assms by (auto simp: downloadObject_def Let_def split: if_splits prod.splits)
  with fetchObject_Ok[OF this(1)] show ?thesis by (auto simp: map_simps)
qed

text \<open>
  A downloaded object is the one announced: when \<open>downloadObject\<close> succeeds for an object with
  a digest that is not unpacked, the file exists afterwards and its content has that digest,
  whether it was there before or was fetched, at the first attempt or the second.
\<close>

theorem download_integrity:
  assumes "downloadObject osys dl obj dir name [] (fs, n) = (Ok (), (fs', n'))" and "co_md5 obj \<noteq> []"
  shows "\<exists>c. mget fs' name = Some (File c) \<and> dl_md5 dl c = co_md5 obj"
  using downloadObject_Ok[OF assms(1)] assms(2) by blast

text \<open>What one entry of a configuration is downloaded to.\<close>

definition entryFile :: "env \<Rightarrow> 'n dl_env \<Rightarrow> string \<Rightarrow> configuration \<Rightarrow> string \<times> string \<Rightarrow>
    (cfg_object \<times> string) result" where
  "entryFile E dl objectPath cfg kv =
     rbind (dl_parseObject dl (snd kv)) (\<lambda>obj.
     rmap (\<lambda>f. (obj, f)) (objectFile E dl cfg (objectDir objectPath cfg) (fst kv) obj))"

lemma MkdirAll_file:
  assumes "MkdirAll osys d fs = (Ok (), fs')" and "mget fs p = Some (File c)"
  shows "mget fs' p = Some (File c)"
proof -
  have fold: "mget fs p = Some (File c) \<Longrightarrow> p \<notin> set as \<Longrightarrow>
      mget (fold (\<lambda>a. mput a Dir) as fs) p = Some (File c)" for as fs
    by (induction as arbitrary: fs) (auto simp: map_simps)
  have "p \<notin> set (ancestors d)"
    using assms by (auto simp: MkdirAll_def list_ex_iff isFile_def split: if_splits)
  from fold[OF assms(2) this] assms(1) show ?thesis by (auto simp: MkdirAll_def split: if_splits)
qed

lemma uploadObject_fs: "fst (snd (uploadObject E dl cfg dir f obj w)) = fst w"
  by (auto simp: uploadObject_def split: option.splits prod.splits)

lemma downloadEntry_Ok:
  assumes "downloadEntry E osys dl op cfg kv w = (Ok (), w')" and "e_isObject E (fst kv)"
  shows "\<exists>obj f fs1 w2. entryFile E dl op cfg kv = Ok (obj, f) \<and>
     MkdirAll osys (objectDir op cfg) (fst w) = (Ok (), fs1) \<and>
     downloadObject osys dl obj (objectDir op cfg) f (co_unpack obj) (fs1, snd w) = (Ok (), w2) \<and>
     fst w' = fst w2"
proof -
  let ?dir = "objectDir op cfg"
  obtain q fs0 where m: "MkdirAll osys ?dir (fst w) = (q, fs0)" by fastforce
  from assms m have "sbind (q, (fs0, snd w)) (\<lambda>_ w.
           sbind (dl_parseObject dl (snd kv), w) (\<lambda>obj w.
           sbind (objectFile E dl cfg ?dir (fst kv) obj, w) (\<lambda>filename w.
           case downloadObject osys dl obj ?dir filename (co_unpack obj) w of
             (Ok _, w) \<Rightarrow> uploadObject E dl cfg ?dir filename obj w
           | (Err e, w) \<Rightarrow> (Err e, (snd (RemoveAll osys ?dir (fst w)), snd w))
           | (Panic p, w) \<Rightarrow> (Panic p, w)))) = (Ok (), w')"
    by (simp add: downloadEntry_def Let_def)
  with m obtain fs1 obj f where s: "MkdirAll osys ?dir (fst w) = (Ok (), fs1)"
    "dl_parseObject dl (snd kv) = Ok obj" "objectFile E dl cfg ?dir (fst kv) obj = Ok f"
    "(case downloadObject osys dl obj ?dir f (co_unpack obj) (fs1, snd w) of
        (Ok _, w) \<Rightarrow> uploadObject E dl cfg ?dir f obj w
      | (Err e, w) \<Rightarrow> (Err e, (snd (RemoveAll osys ?dir (fst w)), snd w))
      | (Panic p, w) \<Rightarrow> (Panic p, w)) = (Ok (), w')"
    unfolding sbind_Ok_iff by (elim exE conjE Pair_inject) simp
  obtain r w2 where d: "downloadObject osys dl obj ?dir f (co_unpack obj) (fs1, snd w) = (r, w2)"
    by (rule prod.exhaust)
  with s(4) have r: "r = Ok ()" and u: "uploadObject E dl cfg ?dir f obj w2 = (Ok (), w')"
    by (cases r; simp)+
  from u have "fst w' = fst w2" using uploadObject_fs[of E dl cfg ?dir f obj w2] by simp
  with s(1-3) d r show ?thesis by (cases w2) (simp add: entryFile_def)
qed

definition plainEntry :: "env \<Rightarrow> 'n dl_env \<Rightarrow> string \<Rightarrow> configuration \<Rightarrow> string \<times> string \<Rightarrow> bool" where
  "plainEntry E dl op cfg kv \<longleftrightarrow>
     (\<forall>obj f. e_isObject E (fst kv) \<longrightarrow> entryFile E dl op cfg kv = Ok (obj, f) \<longrightarrow>
        co_unpack obj = [] \<and> co_md5 obj \<noteq> [])"

definition apart :: "env \<Rightarrow> 'n dl_env \<Rightarrow> string \<Rightarrow> configuration \<Rightarrow> string \<times> string \<Rightarrow>
    string \<times> string \<Rightarrow> bool" where
  "apart E dl op cfg kv kv' \<longleftrightarrow>
     (\<forall>obj f obj' f'. kv \<noteq> kv' \<longrightarrow> entryFile E dl op cfg kv = Ok (obj, f) \<longrightarrow>
        entryFile E dl op cfg kv' = Ok (obj', f') \<longrightarrow> f \<noteq> f' \<and> f \<noteq> lockName f')"

definition plainEntries :: "env \<Rightarrow> 'n dl_env \<Rightarrow> string \<Rightarrow> configuration \<Rightarrow> (string \<times> string) list \<Rightarrow> bool" where
  "plainEntries E dl op cfg kvs \<longleftrightarrow>
     (\<forall>kv \<in> set kvs. plainEntry E dl op cfg kv) \<and>
     (\<forall>kv \<in> set kvs. \<forall>kv' \<in> set kvs. apart E dl op cfg kv kv')"

lemma apartD: "apart E dl op cfg kv kv' \<Longrightarrow> kv \<noteq> kv' \<Longrightarrow> entryFile E dl op cfg kv = Ok (obj, f) \<Longrightarrow>
    entryFile E dl op cfg kv' = Ok (obj', f') \<Longrightarrow> f \<noteq> f' \<and> f \<noteq> lockName f'"
  by (simp add: apart_def)

lemma plainEntries_step:
  assumes "plainEntries E dl op cfg kvs" and "kv \<in> set kvs" and "e_isObject E (fst kv)"
    and "downloadEntry E osys dl op cfg kv w = (Ok (), w')"
  obtains obj f where "entryFile E dl op cfg kv = Ok (obj, f)"
    and "\<exists>c. mget (fst w') f = Some (File c) \<and> dl_md5 dl c = co_md5 obj"
    and "\<forall>p c. p \<noteq> f \<longrightarrow> p \<noteq> lockName f \<longrightarrow> mget (fst w) p = Some (File c) \<longrightarrow>
      mget (fst w') p = Some (File c)"
proof -
  obtain obj f fs1 w2 where s: "entryFile E dl op cfg kv = Ok (obj, f)"
    "MkdirAll osys (objectDir op cfg) (fst w) = (Ok (), fs1)"
    "downloadObject osys dl obj (objectDir op cfg) f (co_unpack obj) (fs1, snd w) = (Ok (), w2)"
    "fst w' = fst w2"
    using downloadEntry_Ok[OF assms(4,3)] by blast
  have u: "co_unpack obj = []" "co_md5 obj \<noteq> []"
    using assms(1-3) s(1) by (simp_all add: plainEntries_def plainEntry_def)
  have d: "downloadObject osys dl obj (objectDir op cfg) f [] (fs1, snd w) = (Ok (), (fst w', snd w2))"
    using s(3,4) by (simp add: u)
  show thesis
    using that[OF s(1)] downloadObject_Ok[OF d] u(2) MkdirAll_file[OF s(2)] by auto
qed

lemma download_loop_keeps:
  assumes "sfor (downloadEntry E osys dl op cfg) kvs w = (Ok (), w')" and "plainEntries E dl op cfg kvs"
    and "mget (fst w) p = Some (File c)"
    and "\<And>kv obj f. kv \<in> set kvs \<Longrightarrow> entryFile E dl op cfg kv = Ok (obj, f) \<Longrightarrow> p \<noteq> f \<and> p \<noteq> lockName f"
  shows "mget (fst w') p = Some (File c)"
  using assms
proof (induction kvs arbitrary: w)
  case (Cons kv kvs)
  obtain w1 where w1: "downloadEntry E osys dl op cfg kv w = (Ok (), w1)"
    "sfor (downloadEntry E osys dl op cfg) kvs w1 = (Ok (), w')"
    using Cons.prems(1) unfolding sfor_Cons_Ok by (elim exE conjE)
  have pl: "plainEntries E dl op cfg kvs"
    using Cons.prems(2) by (simp add: plainEntries_def)
  have "mget (fst w1) p = Some (File c)"
  proof (cases "e_isObject E (fst kv)")
    case False
    with w1(1) Cons.prems(3) show ?thesis by (simp add: downloadEntry_def)
  next
    case True
    obtain obj f where "entryFile E dl op cfg kv = Ok (obj, f)"
      "\<forall>p c. p \<noteq> f \<longrightarrow> p \<noteq> lockName f \<longrightarrow> mget (fst w) p = Some (File c) \<longrightarrow> mget (fst w1) p = Some (File c)"
      by (rule plainEntries_step[OF Cons.prems(2) list.set_intros(1) True w1(1)])
    with Cons.prems(3) Cons.prems(4)[OF list.set_intros(1)] show ?thesis by simp
  qed
  from Cons.IH[OF w1(2) pl this Cons.prems(4)[OF list.set_intros(2)]] show ?case .
qed simp

lemma download_loop_each:
  assumes "sfor (downloadEntry E osys dl op cfg) kvs w = (Ok (), w')" and "plainEntries E dl op cfg kvs"
    and "kv \<in> set kvs" and "e_isObject E (fst kv)"
  shows "\<exists>obj f c. entryFile E dl op cfg kv = Ok (obj, f) \<and> mget (fst w') f = Some (File c) \<and> dl_md5 dl c = co_md5 obj"
  using assms
proof (induction kvs arbitrary: w)
  case (Cons k kvs)
  obtain w1 where w1: "downloadEntry E osys dl op cfg k w = (Ok (), w1)"
    "sfor (downloadEntry E osys dl op cfg) kvs w1 = (Ok (), w')"
    using Cons.prems(1) unfolding sfor_Cons_Ok by (elim exE conjE)
  have pl: "plainEntries E dl op cfg kvs"
    using Cons.prems(2) by (simp add: plainEntries_def)
  show ?case
  proof (cases "kv \<in> set kvs")
    case True
    from Cons.IH[OF w1(2) pl this Cons.prems(4)] show ?thesis .
  next
    case False
    with Cons.prems(3) have k: "kv = k" by simp
    obtain obj f where s: "entryFile E dl op cfg kv = Ok (obj, f)"
      "\<exists>c. mget (fst w1) f = Some (File c) \<and> dl_md5 dl c = co_md5 obj"
      by (rule plainEntries_step[OF Cons.prems(2) list.set_intros(1) Cons.prems(4)[unfolded k] w1(1)]) (simp add: k)
    have "f \<noteq> f' \<and> f \<noteq> lockName f'" if "kv' \<in> set kvs" "entryFile E dl op cfg kv' = Ok (obj', f')" for kv' obj' f'
    proof -
      have "apart E dl op cfg kv kv'" "kv \<noteq> kv'"
        using that(1) False Cons.prems(2) k by (auto simp: plainEntries_def)
      from apartD[OF this s(1) that(2)] show ?thesis by simp
    qed
    with download_loop_keeps[OF w1(2) pl] s show ?thesis by blast
  qed
qed simp

lemma download_loop:
  assumes "sfor (downloadEntry E osys dl op cfg) kvs w = (Ok (), w')" and "plainEntries E dl op cfg kvs"
  shows "\<forall>kv \<in> set kvs. e_isObject E (fst kv) \<longrightarrow> (\<exists>obj f c. entryFile E dl op cfg kv = Ok (obj, f) \<and>
        mget (fst w') f = Some (File c) \<and> dl_md5 dl c = co_md5 obj)"
  using download_loop_each[OF assms] by blast

text \<open>
  C13. A configuration is complete when its download succeeds: if every object of it carries a
  digest, is not an archive and has a file of its own, then after \<open>DownloadConfig\<close> returns nil
  every object of the configuration is a file on disk whose content has the announced digest.
\<close>

theorem download_config_verified:
  assumes "DownloadConfig E osys dl op cfg w = (Ok (), w')" and "plainEntries E dl op cfg (cfg_data cfg)"
    and "kv \<in> set (cfg_data cfg)" and "e_isObject E (fst kv)"
  shows "\<exists>obj f c. entryFile E dl op cfg kv = Ok (obj, f) \<and>
     mget (fst w') f = Some (File c) \<and> dl_md5 dl c = co_md5 obj"
  using download_loop[OF assms(1)[unfolded DownloadConfig_def] assms(2)] assms(3,4) by blast

text \<open>
  A digest that cannot be computed kills the process: with a digest to check and a complete
  answer of the server, a file that cannot be read back makes \<open>downloadObject\<close> panic instead of
  returning an error, because the error formatted is the nil one. The lock file is still removed.
\<close>

theorem unreadable_download_panics:
  assumes "dl_get dl (co_url obj) (if co_token obj \<noteq> [] then
       [(''x-bce-security-token'', co_token obj)] else []) n = (Ok (Some resp), n')"
    and "hr_code resp = 200" and "hr_complete resp" and "co_md5 obj \<noteq> []"
    and "os_noRead osys name" and "\<And>p. \<not> os_noCreate osys p" and "\<not> os_stuck osys (lockName name)"
    and "mget fs name \<noteq> Some Dir" and "mget fs (lockName name) \<noteq> Some Dir" and "dl_flock dl (lockName name)"
  shows "fst (downloadObject osys dl obj dir name unpack (fs, n)) = Panic nil_error \<and>
     mget (fst (snd (downloadObject osys dl obj dir name unpack (fs, n)))) (lockName name) = None"
proof -
  have noread: "fileMD5 osys dl name fs = Err ''read''" for fs
    using assms(5) by (simp add: fileMD5_def ReadFile_def split: option.split fs_entry.split)
  let ?fs = "if mget fs (lockName name) = None then mput (lockName name) (File []) fs else fs"
  have "mget ?fs name \<noteq> Some Dir" using assms(8) by (simp add: map_simps)
  then have "fst (fetchObject osys dl obj dir name unpack (?fs, n)) = Panic nil_error"
    using assms(1-4,6) by (simp add: fetchObject_def haveObject_def noread fetch_def saveBody_def checkMD5_def)
  then show ?thesis
    using assms(6,7,9,10) by (auto simp: downloadObject_def Let_def map_simps split: prod.splits)
qed

section \<open>Correctness of PrepareApp\<close>

definition prepared :: "env \<Rightarrow> string \<Rightarrow> string \<Rightarrow> (string, configuration) gomap \<Rightarrow> volume \<Rightarrow> volume \<Rightarrow> bool" where
  "prepared E hostPath objectPath cfgs v v' \<longleftrightarrow>
     vol_name v' = vol_name v \<and> vol_secret v' = vol_secret v \<and>
     (\<forall>hp. vol_hostPath v = Some hp \<longrightarrow> vol_config v' = vol_config v \<and>
        (\<exists>hp'. vol_hostPath v' = Some hp' \<and>
           (if IsAbs (hp_path hp) then hp' = hp else within hostPath (hp_path hp')))) \<and>
     (\<forall>c cfg. vol_hostPath v = None \<longrightarrow> vol_config v = Some c \<longrightarrow> mget cfgs (ref_name c) = Some cfg \<longrightarrow>
        (if list_ex (\<lambda>kv. e_isObject E (fst kv)) (cfg_data cfg)
         then vol_config v' = None \<and>
           vol_hostPath v' = Some \<lparr>hp_path = objectDir objectPath cfg, hp_type = []\<rparr>
         else v' = v))"

lemma prepVolume_prepared:
  assumes "IsAbs hostPath" and "prepVolume E osys hostPath objectPath cfgs v fs = (Ok v', fs')"
  shows "prepared E hostPath objectPath cfgs v v'"
proof (cases "vol_hostPath v")
  case None
  with assms(2) show ?thesis
    by (cases "vol_config v")
      (auto simp: prepVolume_def prepared_def split: option.splits if_splits)
next
  case (Some hp)
  with assms(2) have "IsAbs (hp_path hp) \<and> v' = v \<or> \<not> IsAbs (hp_path hp) \<and>
      v' = v\<lparr>vol_hostPath := Some \<lparr>hp_path = Join [hostPath, Join [''/'', hp_path hp]], hp_type = []\<rparr>\<rparr>"
    by (auto simp: prepVolume_def Let_def sbind_Ok_iff split: if_splits)
  with Some Join_confined[OF assms(1)] show ?thesis by (auto simp: prepared_def)
qed

text \<open>
  A prepared application stays inside its directories: when \<open>PrepareApp\<close> succeeds, every
  volume keeps its name and place in the list, a relative host path becomes a path confined to
  the host directory however many \<open>..\<close> it contains, an absolute one is left alone, an object
  configuration becomes the directory its objects were downloaded to, and every service only
  gains the five variables that describe it.
\<close>

theorem prepare_confined:
  assumes "IsAbs hostPath"
    and "PrepareApp E osys hostPath objectPath (Some app) cfgs fs = (Ok (), (Some app', fs'))"
  shows "list_all2 (prepared E hostPath objectPath cfgs) (app_volumes app) (app_volumes app') \<and>
     map svc_name (app_services app') = map svc_name (app_services app) \<and>
     (\<forall>i < length (app_services app). svc_env (app_services app' ! i) =
        svc_env (app_services app ! i) @ serviceEnv E app (app_services app ! i))"
proof -
  have vols: "prepVolumes E osys hostPath objectPath cfgs vs fs = (Ok (), (vs', fs')) \<Longrightarrow>
      list_all2 (prepared E hostPath objectPath cfgs) vs vs'" for vs vs' fs
  proof (induction vs arbitrary: vs' fs)
    case Nil
    then show ?case by simp
  next
    case (Cons v vs)
    obtain r1 fs1 where p: "prepVolume E osys hostPath objectPath cfgs v fs = (r1, fs1)" by (rule prod.exhaust)
    with Cons.prems obtain v1 where r1: "r1 = Ok v1" by (cases r1) auto
    obtain r2 vs2 fs2 where q: "prepVolumes E osys hostPath objectPath cfgs vs fs1 = (r2, (vs2, fs2))"
      by (metis prod.exhaust)
    from Cons.prems p q r1 have "r2 = Ok ()" "vs' = v1 # vs2" "fs2 = fs'" by auto
    with Cons.IH[of fs1 vs2] q p r1 prepVolume_prepared[OF assms(1)] show ?case by auto
  qed
  from assms(2) obtain vs' where "prepVolumes E osys hostPath objectPath cfgs (app_volumes app) fs = (Ok (), (vs', fs'))"
    "app' = app\<lparr>app_services := map (prepService E app) (app_services app), app_volumes := vs'\<rparr>"
    by (auto simp: PrepareApp_def Let_def split: prod.splits)
  with vols show ?thesis by (auto simp: prepService_def)
qed

section \<open>Witnesses\<close>

text \<open>A server that answers every URL with its text, and a digest that is the content itself.\<close>

definition echo_dl :: "unit dl_env" where
  "echo_dl = \<lparr>dl_get = (\<lambda>url h n. (Ok (Some \<lparr>hr_code = 200, hr_body = url, hr_complete = True\<rparr>), n)),
     dl_md5 = (\<lambda>c. c), dl_flock = (\<lambda>_. True), dl_fileExists = (\<lambda>p fs. mget fs p \<noteq> None),
     dl_unpack = (\<lambda>_ _ _ fs. (Ok (), fs)),
     dl_parseObject = (\<lambda>v. Ok \<lparr>co_url = v, co_md5 = v, co_token = [], co_unpack = []\<rparr>),
     dl_urlPath = Ok, dl_upload = None\<rparr>"

definition echo_obj :: cfg_object where
  "echo_obj = \<lparr>co_url = ''u'', co_md5 = ''u'', co_token = [], co_unpack = []\<rparr>"

lemma echo_simps:
  "dl_md5 echo_dl c = c" "co_md5 echo_obj = ''u''" "co_unpack echo_obj = []"
  "dl_parseObject echo_dl ''u'' = Ok echo_obj" "dl_upload echo_dl = None"
  by (simp_all add: echo_dl_def echo_obj_def)

lemma echo_download: "downloadObject good_os echo_dl echo_obj ''/d'' ''/d/f'' [] ([], ()) =
    (Ok (), ([(''/d/f'', File ''u'')], ()))"
  by (simp add: downloadObject_def fetchObject_def haveObject_def fileMD5_def ReadFile_def fetch_def
      saveBody_def checkMD5_def unpackFile_def lockName_def echo_dl_def echo_obj_def good_os_def)

theorem download_integrity_witness:
  "\<exists>c. mget (fst (snd (downloadObject good_os echo_dl echo_obj ''/d'' ''/d/f'' [] ([], ())))) ''/d/f'' =
     Some (File c) \<and> c = ''u''"
  using download_integrity[OF echo_download] by (simp add: echo_download echo_simps)

definition echo_cfg :: configuration where
  "echo_cfg = zero_configuration\<lparr>cfg_name := ''c'', cfg_version := ''1'', cfg_data := [(''_object_f'', ''u'')]\<rparr>"

lemma echo_dir: "objectDir ''/obj'' echo_cfg = ''/obj/c/1''"
  unfolding objectDir_def echo_cfg_def zero_configuration_def by simp code_simp

lemma echo_file: "Join [''/obj/c/1'', ''f''] = ''/obj/c/1/f''"
  by code_simp

lemma echo_objectFile: "objectFile sample_env echo_dl echo_cfg ''/obj/c/1'' ''_object_f'' echo_obj = Ok ''/obj/c/1/f''"
  by (simp add: objectFile_def echo_cfg_def zero_configuration_def isProgram_def trimPrefix_def
      hasPrefix_def sample_env_def echo_file)

lemma echo_entry: "entryFile sample_env echo_dl ''/obj'' echo_cfg (''_object_f'', ''u'') = Ok (echo_obj, ''/obj/c/1/f'')"
  using echo_objectFile by (simp add: entryFile_def echo_dir echo_simps)

lemma echo_mkdir: "MkdirAll good_os ''/obj/c/1'' [] =
    (Ok (), [(''/obj'', Dir), (''/obj/c'', Dir), (''/obj/c/1'', Dir)])"
  by code_simp

lemma echo_config: "DownloadConfig sample_env good_os echo_dl ''/obj'' echo_cfg ([], ()) =
    (Ok (), ([(''/obj'', Dir), (''/obj/c'', Dir), (''/obj/c/1'', Dir), (''/obj/c/1/f'', File ''u'')], ()))"
proof -
  have d: "downloadObject good_os echo_dl echo_obj ''/obj/c/1'' ''/obj/c/1/f'' []
      ([(''/obj'', Dir), (''/obj/c'', Dir), (''/obj/c/1'', Dir)], ()) =
      (Ok (), ([(''/obj'', Dir), (''/obj/c'', Dir), (''/obj/c/1'', Dir), (''/obj/c/1/f'', File ''u'')], ()))"
    by (simp add: downloadObject_def fetchObject_def haveObject_def fileMD5_def ReadFile_def fetch_def
        saveBody_def checkMD5_def unpackFile_def lockName_def echo_dl_def echo_obj_def good_os_def)
  have data: "cfg_data echo_cfg = [(''_object_f'', ''u'')]" "e_isObject sample_env ''_object_f''"
    by (simp_all add: echo_cfg_def sample_env_def hasPrefix_def)
  show ?thesis
    by (simp add: DownloadConfig_def data downloadEntry_def echo_dir echo_mkdir echo_simps
        echo_objectFile d uploadObject_def Let_def)
qed

lemma echo_data: "cfg_data echo_cfg = [(''_object_f'', ''u'')]"
  by (simp add: echo_cfg_def)

theorem download_config_verified_witness:
  "\<exists>c. mget (fst (snd (DownloadConfig sample_env good_os echo_dl ''/obj'' echo_cfg ([], ())))) ''/obj/c/1/f'' =
     Some (File c) \<and> c = ''u''"
proof -
  have pl: "plainEntries sample_env echo_dl ''/obj'' echo_cfg (cfg_data echo_cfg)"
    using echo_entry by (simp add: plainEntries_def plainEntry_def apart_def)
      (simp add: echo_data echo_simps)
  have "\<exists>obj f c. entryFile sample_env echo_dl ''/obj'' echo_cfg (''_object_f'', ''u'') = Ok (obj, f) \<and>
     mget (fst ([(''/obj'', Dir), (''/obj/c'', Dir), (''/obj/c/1'', Dir), (''/obj/c/1/f'', File ''u'')], ())) f =
       Some (File c) \<and> dl_md5 echo_dl c = co_md5 obj"
    by (rule download_config_verified[OF echo_config pl])
      (simp_all add: echo_cfg_def sample_env_def hasPrefix_def)
  then show ?thesis
    by (simp add: echo_entry echo_config echo_simps)
qed

theorem unreadable_download_panics_witness:
  "fst (downloadObject (good_os\<lparr>os_noRead := (\<lambda>_. True)\<rparr>) echo_dl echo_obj ''/d'' ''/d/f'' [] ([], ())) =
     Panic nil_error"
  using unreadable_download_panics[of echo_dl echo_obj "()"
      "\<lparr>hr_code = 200, hr_body = ''u'', hr_complete = True\<rparr>" "()" "good_os\<lparr>os_noRead := (\<lambda>_. True)\<rparr>"
      "''/d/f''" "[]" "''/d''" "[]"]
  by (simp add: echo_dl_def echo_obj_def good_os_def)

definition climbing_app :: application where
  "climbing_app = zero_application\<lparr>app_name := ''a'', app_version := ''1'',
     app_services := [zero_service\<lparr>svc_name := ''s''\<rparr>],
     app_volumes := [zero_volume\<lparr>vol_name := ''v'',
       vol_hostPath := Some \<lparr>hp_path = ''../../etc'', hp_type = []\<rparr>\<rparr>]\<rparr>"

lemma climbing_path: "Join [''/host'', Join [''/'', ''../../etc'']] = ''/host/etc''"
  by code_simp

lemma climbing_mkdir: "MkdirAll good_os ''/host/etc'' [] = (Ok (), [(''/host'', Dir), (''/host/etc'', Dir)])"
  by code_simp

lemma climbing_prepared: "PrepareApp sample_env good_os ''/host'' ''/obj'' (Some climbing_app) [] [] =
    (Ok (), (Some (climbing_app\<lparr>app_services := map (prepService sample_env climbing_app) (app_services climbing_app),
        app_volumes := [zero_volume\<lparr>vol_name := ''v'',
          vol_hostPath := Some \<lparr>hp_path = ''/host/etc'', hp_type = []\<rparr>\<rparr>]\<rparr>),
       [(''/host'', Dir), (''/host/etc'', Dir)]))"
proof -
  have "prepVolumes sample_env good_os ''/host'' ''/obj'' [] (app_volumes climbing_app) [] =
    (Ok (), ([zero_volume\<lparr>vol_name := ''v'',
          vol_hostPath := Some \<lparr>hp_path = ''/host/etc'', hp_type = []\<rparr>\<rparr>], [(''/host'', Dir), (''/host/etc'', Dir)]))"
    by (simp add: climbing_app_def zero_volume_def prepVolume_def IsAbs_def hasPrefix_def
        climbing_path climbing_mkdir Let_def)
  then show ?thesis by (simp add: PrepareApp_def)
qed

theorem prepare_confined_witness:
  "list_all2 (prepared sample_env ''/host'' ''/obj'' []) (app_volumes climbing_app)
     [zero_volume\<lparr>vol_name := ''v'', vol_hostPath := Some \<lparr>hp_path = ''/host/etc'', hp_type = []\<rparr>\<rparr>]"
  using prepare_confined[OF _ climbing_prepared] by (simp add: IsAbs_def hasPrefix_def)

text \<open>
  Two behaviours worth knowing. The key of an object is joined to the directory as it is, so a key
  with \<open>..\<close> in it names a file outside. And a program object belongs to this platform when its
  key contains the platform's name, so \<open>linux-arm\<close> also keeps the objects of \<open>linux-arm64\<close>.
\<close>

lemma object_key_escapes:
  "objectFile sample_env echo_dl echo_cfg ''/obj/c/1'' ''_object_../../../etc/f'' echo_obj = Ok ''/etc/f''
   \<and> \<not> within ''/obj/c/1'' ''/etc/f''"
proof
  have "Join [''/obj/c/1'', ''../../../etc/f''] = ''/etc/f''" by code_simp
  then show "objectFile sample_env echo_dl echo_cfg ''/obj/c/1'' ''_object_../../../etc/f'' echo_obj = Ok ''/etc/f''"
    by (simp add: objectFile_def isProgram_def echo_cfg_def zero_configuration_def trimPrefix_def
        hasPrefix_def sample_env_def)
  show "\<not> within ''/obj/c/1'' ''/etc/f''" by code_simp
qed

lemma filter_keeps_other_platform:
  "FilterConfig (sample_env\<lparr>e_platform := ''linux-arm''\<rparr>)
     (zero_configuration\<lparr>cfg_labels := [(''baetyl-config-type'', ''baetyl-program'')],
        cfg_data := [(''_object_p-linux-arm64.zip'', [])]\<rparr>) =
   zero_configuration\<lparr>cfg_labels := [(''baetyl-config-type'', ''baetyl-program'')],
        cfg_data := [(''_object_p-linux-arm64.zip'', [])]\<rparr>"
  by (simp add: FilterConfig_def isProgram_def zero_configuration_def sample_env_def hasPrefix_def prefix_def)

section \<open>Progress of a download\<close>

text \<open>
  \<^verbatim>\<open>WriteCounter\<close>: the bytes so far as a word of 64 bits, printed when its ticker has fired. The ticker
  is started by the first write.
\<close>

record write_counter =
  wc_flag :: bool
  wc_current :: "64 word"
  wc_printed :: "64 word list"

definition WriteCounter_Write :: "bool \<Rightarrow> string \<Rightarrow> write_counter \<Rightarrow> nat \<times> write_counter" where
  "WriteCounter_Write fired p wc =
     (let wc = wc\<lparr>wc_flag := True, wc_current := wc_current wc + of_nat (length p)\<rparr>
      in (length p, if fired then wc\<lparr>wc_printed := wc_printed wc @ [wc_current wc]\<rparr> else wc))"

text \<open>Every write is taken whole, and the counter is the sum of their lengths.\<close>

lemma counter_sums:
  "wc_current (fold (\<lambda>(fired, p) wc. snd (WriteCounter_Write fired p wc)) ws wc) =
     wc_current wc + of_nat (sum_list (map (length \<circ> snd) ws))"
  by (induction ws arbitrary: wc) (auto simp: WriteCounter_Write_def Let_def)

end
