(* ===== verification/Node.thy ===== *)
theory Node
  imports Keys "HOL-Library.Countable"
begin

text \<open>
  The node component (\<^verbatim>\<open>node/node.go\<close>): one JSON document per node, with the desired and the
  reported state, in a bolt bucket. The bolt database, the JSON codec and the document algebra of
  \<^verbatim>\<open>baetyl-go\<close> (\<^verbatim>\<open>Merge\<close>, \<^verbatim>\<open>DiffWithNil\<close>, \<^verbatim>\<open>Patch\<close>, \<^verbatim>\<open>View\<close>) are not under src/ and are
  arguments of the definitions; every operation is one transaction.
\<close>

section \<open>Documents\<close>

text \<open>A value of \<^verbatim>\<open>interface{}\<close> in a document.\<close>

datatype json = JNull | JBool bool | JNum int | JStr string | JList "json list"
  | JObj "(string \<times> json) list"

text \<open>\<^verbatim>\<open>v1.Desire\<close>, \<^verbatim>\<open>v1.Report\<close>, \<^verbatim>\<open>v1.Delta\<close>: a Go map from names to values.\<close>

type_synonym doc = "(string, json) gomap"

record node_doc =
  nd_name :: string
  nd_desire :: "doc option"
  nd_report :: "doc option"

definition entries :: "doc option \<Rightarrow> doc" where
  "entries d = (case d of None \<Rightarrow> [] | Some m \<Rightarrow> m)"

section \<open>The database and the document library\<close>

record 'd bolt_ops =
  bo_bucket :: "'d \<Rightarrow> string option"                  \<comment> \<open>None: no bucket; else the data under the id\<close>
  bo_create :: "'d \<Rightarrow> unit result \<times> 'd"              \<comment> \<open>CreateBucketIfNotExists\<close>
  bo_put :: "string \<Rightarrow> 'd \<Rightarrow> unit result \<times> 'd"
  bo_commit :: "'d \<Rightarrow> unit result"

record spec_ops =
  so_marshal :: "node_doc \<Rightarrow> string result"
  so_unmarshal :: "string \<Rightarrow> node_doc result"
  so_merge :: "doc \<Rightarrow> doc \<Rightarrow> doc result"
  so_diff :: "doc option \<Rightarrow> doc option \<Rightarrow> doc result"
  so_patch :: "doc \<Rightarrow> doc \<Rightarrow> doc result"

text \<open>
  What bolt documents of a bucket: a successful put is what the next read returns; creating a
  bucket keeps its data, and a new one is empty.
\<close>

definition bolt_ok :: "'d bolt_ops \<Rightarrow> bool" where
  "bolt_ok B \<longleftrightarrow>
     (\<forall>x d d'. bo_put B x d = (Ok (), d') \<longrightarrow> bo_bucket B d' = Some x) \<and>
     (\<forall>d d'. bo_create B d = (Ok (), d') \<longrightarrow>
        bo_bucket B d' = Some (case bo_bucket B d of None \<Rightarrow> [] | Some x \<Rightarrow> x))"

text \<open>
  What the JSON codec guarantees of a node document: an encoding is not empty and decodes to a
  document with the same entries (an empty map may come back as nil).
\<close>

definition codec_ok :: "spec_ops \<Rightarrow> bool" where
  "codec_ok L \<longleftrightarrow>
     (\<forall>n b. so_marshal L n = Ok b \<longrightarrow> b \<noteq> [] \<and>
        (\<exists>n'. so_unmarshal L b = Ok n' \<and> entries (nd_desire n') = entries (nd_desire n) \<and>
              entries (nd_report n') = entries (nd_report n)))"

text \<open>
  \<^verbatim>\<open>store.Bolt().Update(f)\<close>: the changes of \<open>f\<close> are committed if it returns nil, and undone if it
  returns an error or panics, or if the commit fails.
\<close>

definition boltUpdate :: "'d bolt_ops \<Rightarrow> ('d \<Rightarrow> 'a result \<times> 'd) \<Rightarrow> 'd \<Rightarrow> 'a result \<times> 'd" where
  "boltUpdate B f d =
     (let (r, d') = f d; r = rbind r (\<lambda>x. rbind (bo_commit B d') (\<lambda>_. Ok x))
      in (r, if is_ok r then d' else d))"

lemma boltUpdate_Ok:
  "boltUpdate B f d = (Ok x, d') \<longleftrightarrow> f d = (Ok x, d') \<and> bo_commit B d' = Ok ()"
proof (cases "f d")
  case (Pair r d1)
  then show ?thesis
    by (cases r; cases "bo_commit B d1"; simp add: boltUpdate_def; metis result.distinct(1,3))
qed

lemma boltUpdate_atomic: "\<not> is_ok (fst (boltUpdate B f d)) \<Longrightarrow> snd (boltUpdate B f d) = d"
  by (simp add: boltUpdate_def Let_def split: prod.splits)

lemma boltUpdate_or: "is_ok (fst (boltUpdate B f d)) \<or> snd (boltUpdate B f d) = d"
  by (cases "is_ok (fst (boltUpdate B f d))") (simp_all add: boltUpdate_atomic)

definition ErrNotFound :: string where "ErrNotFound = ''No data found for this key''"
definition ErrKeyExists :: string where "ErrKeyExists = ''This Key already exists in this bolthold for this type''"
definition nil_bucket :: string where "nil_bucket = ''nil bucket''"

section \<open>Operations\<close>

text \<open>The read that every operation starts with: a missing bucket is a nil pointer.\<close>

definition readNode :: "'d bolt_ops \<Rightarrow> spec_ops \<Rightarrow> 'd \<Rightarrow> node_doc result" where
  "readNode B L d =
     (case bo_bucket B d of
        None \<Rightarrow> Panic nil_bucket
      | Some prev \<Rightarrow> if prev = [] then Err ErrNotFound else so_unmarshal L prev)"

definition node_Get :: "'d bolt_ops \<Rightarrow> spec_ops \<Rightarrow> 'd \<Rightarrow> node_doc result" where
  "node_Get B L d = readNode B L d"

text \<open>The end of both updates: encode, put, and compute the delta.\<close>

definition writeNode :: "'d bolt_ops \<Rightarrow> spec_ops \<Rightarrow> node_doc \<Rightarrow> 'd \<Rightarrow> doc result \<times> 'd" where
  "writeNode B L m d =
     sbind (so_marshal L m, d) (\<lambda>curr d.
     sbind (bo_put B curr d) (\<lambda>_ d.
     (so_diff L (nd_desire m) (nd_report m), d)))"

definition newDesire :: "spec_ops \<Rightarrow> doc \<Rightarrow> bool \<Rightarrow> node_doc \<Rightarrow> node_doc result" where
  "newDesire L desired override m =
     (if nd_desire m = None \<or> override then Ok (m\<lparr>nd_desire := Some desired\<rparr>)
      else rmap (\<lambda>x. m\<lparr>nd_desire := Some x\<rparr>) (so_merge L (entries (nd_desire m)) desired))"

definition node_Desire :: "'d bolt_ops \<Rightarrow> spec_ops \<Rightarrow> doc \<Rightarrow> bool \<Rightarrow> 'd \<Rightarrow> doc result \<times> 'd" where
  "node_Desire B L desired override =
     boltUpdate B (\<lambda>d.
       sbind (readNode B L d, d) (\<lambda>m d.
       sbind (newDesire L desired override m, d) (\<lambda>m d.
       writeNode B L m d)))"

text \<open>\<^verbatim>\<open>Merge\<close> keeps keys that are gone, so the node information and its statistics are replaced.\<close>

definition replaceKey :: "string \<Rightarrow> doc \<Rightarrow> doc \<Rightarrow> doc" where
  "replaceKey k reported m = (case mget reported k of Some x \<Rightarrow> mput k x m | None \<Rightarrow> m)"

definition newReport :: "spec_ops \<Rightarrow> doc \<Rightarrow> bool \<Rightarrow> node_doc \<Rightarrow> node_doc result" where
  "newReport L reported override m =
     (if nd_report m = None \<or> override then Ok (m\<lparr>nd_report := Some reported\<rparr>)
      else rmap (\<lambda>x. m\<lparr>nd_report := Some (replaceKey ''nodestats'' reported (replaceKey ''node'' reported x))\<rparr>)
             (so_merge L (entries (nd_report m)) reported))"

definition node_Report :: "'d bolt_ops \<Rightarrow> spec_ops \<Rightarrow> doc \<Rightarrow> bool \<Rightarrow> 'd \<Rightarrow> doc result \<times> 'd" where
  "node_Report B L reported override =
     boltUpdate B (\<lambda>d.
       sbind (readNode B L d, d) (\<lambda>m d.
       sbind (newReport L reported override m, d) (\<lambda>m d.
       writeNode B L m d)))"

definition node_insert :: "'d bolt_ops \<Rightarrow> spec_ops \<Rightarrow> node_doc \<Rightarrow> 'd \<Rightarrow> unit result \<times> 'd" where
  "node_insert B L m =
     boltUpdate B (\<lambda>d.
       sbind (bo_create B d) (\<lambda>_ d.
       case bo_bucket B d of
         None \<Rightarrow> (Panic nil_bucket, d)
       | Some x \<Rightarrow>
           if x \<noteq> [] then (Err ErrKeyExists, d)
           else sbind (so_marshal L m, d) (\<lambda>data d. bo_put B data d)))"

text \<open>\<open>core\<close> is the version information of the binary. An existing document is not an error.\<close>

definition NewNode :: "'d bolt_ops \<Rightarrow> spec_ops \<Rightarrow> json \<Rightarrow> 'd \<Rightarrow> unit result \<times> 'd" where
  "NewNode B L core d =
     (let m = \<lparr>nd_name = [], nd_desire = Some [], nd_report = Some [(''core'', core)]\<rparr>;
          (r, d) = node_insert B L m d
      in sbind (if r = Err ErrKeyExists then Ok () else r, d) (\<lambda>_ d.
         sbind (node_Report B L [(''core'', core)] False d) (\<lambda>_ d. (Ok (), d))))"

definition propsOf :: "string \<Rightarrow> string \<Rightarrow> doc option \<Rightarrow> doc result" where
  "propsOf key bad d =
     (case d of None \<Rightarrow> Ok []
      | Some m \<Rightarrow> (case mget m key of
                     None \<Rightarrow> Ok [] | Some JNull \<Rightarrow> Ok []
                   | Some (JObj ps) \<Rightarrow> Ok ps | Some _ \<Rightarrow> Err bad))"

definition GetNodeProperties :: "'d bolt_ops \<Rightarrow> spec_ops \<Rightarrow> string \<Rightarrow> 'd \<Rightarrow> json result" where
  "GetNodeProperties B L key d =
     rbind (node_Get B L d) (\<lambda>node.
     rbind (propsOf key ''invalid node props of desire'' (nd_desire node)) (\<lambda>desireProps.
     rbind (propsOf key ''invalid node props of report'' (nd_report node)) (\<lambda>reportProps.
     Ok (JObj [(''report'', JObj reportProps), (''desire'', JObj desireProps)]))))"

definition isStringOrNil :: "json \<Rightarrow> bool" where
  "isStringOrNil v = (case v of JNull \<Rightarrow> True | JStr _ \<Rightarrow> True | _ \<Rightarrow> False)"

text \<open>\<open>body\<close> is the request body as \<^verbatim>\<open>json.Unmarshal\<close> decodes it.\<close>

definition patchProps :: "'d bolt_ops \<Rightarrow> spec_ops \<Rightarrow> string \<Rightarrow> node_doc \<Rightarrow> doc \<Rightarrow> 'd \<Rightarrow> doc result \<times> 'd" where
  "patchProps B L key node delta d =
     (let report = entries (nd_report node)
      in sbind (propsOf key ''old node props is invalid'' (Some report), d) (\<lambda>old d.
         sbind (so_patch L old delta, d) (\<lambda>new d.
         sbind (node_Report B L (mput key (JObj new) report) True d) (\<lambda>_ d.
         (Ok new, d)))))"

definition UpdateNodeProperties :: "'d bolt_ops \<Rightarrow> spec_ops \<Rightarrow> string \<Rightarrow> doc result \<Rightarrow> 'd \<Rightarrow> doc result \<times> 'd" where
  "UpdateNodeProperties B L key body d =
     sbind (node_Get B L d, d) (\<lambda>node d.
     sbind (body, d) (\<lambda>delta d.
     if \<not> list_all (\<lambda>kv. isStringOrNil (snd kv)) delta then (Err ''value is not string'', d)
     else patchProps B L key node delta d))"

text \<open>The statistics view; \<open>view\<close> is the method of \<^verbatim>\<open>baetyl-go\<close>.\<close>

definition GetStats :: "'d bolt_ops \<Rightarrow> spec_ops \<Rightarrow> env \<Rightarrow> (node_doc \<Rightarrow> 'v result) \<Rightarrow> 'd \<Rightarrow> 'v result" where
  "GetStats B L E view d =
     rbind (node_Get B L d) (\<lambda>nodeStat. view (nodeStat\<lparr>nd_name := e_nodeName E\<rparr>))"

section \<open>Correctness\<close>

lemma sbind_keeps:
  assumes "\<And>x. r = Ok x \<Longrightarrow> is_ok (fst (k x d)) \<or> snd (k x d) = d"
  shows "is_ok (fst (sbind (r, d) k)) \<or> snd (sbind (r, d) k) = d"
  using assms by (cases r) auto

lemma writeNode_Ok:
  assumes "bolt_ok B" and "codec_ok L" and "writeNode B L m d = (Ok x, d')"
  shows "\<exists>n. node_Get B L d' = Ok n \<and> entries (nd_desire n) = entries (nd_desire m) \<and>
     entries (nd_report n) = entries (nd_report m)"
  using assms
proof -
  obtain curr d1 where c: "so_marshal L m = Ok curr" "bo_put B curr d = (Ok (), d1)" "d' = d1"
    using assms(3) by (auto simp: writeNode_def sbind_Ok_iff)
  then have "bo_bucket B d' = Some curr" using assms(1) by (auto simp: bolt_ok_def)
  moreover obtain n where "curr \<noteq> []" "so_unmarshal L curr = Ok n"
    "entries (nd_desire n) = entries (nd_desire m)" "entries (nd_report n) = entries (nd_report m)"
    using assms(2) c(1) unfolding codec_ok_def by blast
  ultimately show ?thesis by (simp add: node_Get_def readNode_def)
qed

lemma desire_step:
  assumes "node_Desire B L r ov d = (Ok x, d')"
  shows "\<exists>m m'. node_Get B L d = Ok m \<and> newDesire L r ov m = Ok m' \<and> writeNode B L m' d = (Ok x, d')"
  using assms unfolding node_Desire_def boltUpdate_Ok sbind_Ok_iff node_Get_def by simp

lemma report_step:
  assumes "node_Report B L r ov d = (Ok x, d')"
  shows "\<exists>m m'. node_Get B L d = Ok m \<and> newReport L r ov m = Ok m' \<and> writeNode B L m' d = (Ok x, d')"
  using assms unfolding node_Report_def boltUpdate_Ok sbind_Ok_iff node_Get_def by simp

lemma desire_stores:
  assumes "bolt_ok B" and "codec_ok L" and "node_Desire B L desired True d = (Ok delta, d')"
  shows "\<exists>m n. node_Get B L d = Ok m \<and> node_Get B L d' = Ok n \<and> entries (nd_desire n) = desired \<and>
     entries (nd_report n) = entries (nd_report m) \<and> so_diff L (Some desired) (nd_report m) = Ok delta"
proof -
  obtain m m' where m: "node_Get B L d = Ok m" "newDesire L desired True m = Ok m'"
    "writeNode B L m' d = (Ok delta, d')"
    using desire_step[OF assms(3)] by blast
  then have m': "m' = m\<lparr>nd_desire := Some desired\<rparr>" by (simp add: newDesire_def)
  from writeNode_Ok[OF assms(1,2) m(3)] m(1,3) show ?thesis
    by (auto simp: m' entries_def writeNode_def sbind_Ok_iff)
qed

text \<open>
  What the cloud desires is what the node stores: after a successful overriding \<open>Desire\<close>, as
  the sync component calls it, \<open>Get\<close> returns the new desired entries, the reported entries are
  what they were, and the delta returned is the difference of exactly these two.
\<close>

theorem desire_stored:
  assumes "bolt_ok B" and "codec_ok L" and "node_Desire B L desired True d = (Ok delta, d')"
  shows "\<exists>m n. node_Get B L d = Ok m \<and> node_Get B L d' = Ok n \<and> entries (nd_desire n) = desired \<and>
     entries (nd_report n) = entries (nd_report m) \<and> so_diff L (Some desired) (nd_report m) = Ok delta"
  by (rule desire_stores[OF assms])

text \<open>
  What the node reports overrides what it reported: after a successful \<open>Report\<close>, the stored
  report holds under \<open>node\<close> and \<open>nodestats\<close> exactly the values just reported (whatever the merge
  made of them), and the desired entries are what they were.
\<close>

theorem report_overrides:
  assumes "bolt_ok B" and "codec_ok L" and "node_Report B L reported ov d = (Ok delta, d')"
    and "k = ''node'' \<or> k = ''nodestats''" and "mget reported k = Some x"
  shows "\<exists>m n. node_Get B L d = Ok m \<and> node_Get B L d' = Ok n \<and>
     mget (entries (nd_report n)) k = Some x \<and> entries (nd_desire n) = entries (nd_desire m)"
proof -
  obtain m m' where m: "node_Get B L d = Ok m" "newReport L reported ov m = Ok m'"
    "writeNode B L m' d = (Ok delta, d')"
    using report_step[OF assms(3)] by blast
  have "nd_desire m' = nd_desire m \<and> mget (entries (nd_report m')) k = Some x"
  proof (cases "nd_report m = None \<or> ov")
    case True
    with m(2) assms(5) show ?thesis by (auto simp: newReport_def entries_def)
  next
    case False
    with m(2) obtain z where
      z: "m' = m\<lparr>nd_report := Some (replaceKey ''nodestats'' reported (replaceKey ''node'' reported z))\<rparr>"
      by (cases "so_merge L (entries (nd_report m)) reported") (auto simp: newReport_def)
    from assms(4,5) show ?thesis
      by (auto simp: z entries_def replaceKey_def map_simps split: option.splits)
  qed
  with writeNode_Ok[OF assms(1,2) m(3)] m(1) show ?thesis by auto
qed

lemma node_Report_atomic: "is_ok (fst (node_Report B L r ov d)) \<or> snd (node_Report B L r ov d) = d"
  unfolding node_Report_def by (rule boltUpdate_or)

lemma UpdateNodeProperties_atomic:
  "is_ok (fst (UpdateNodeProperties B L key body d)) \<or> snd (UpdateNodeProperties B L key body d) = d"
proof -
  have after: "is_ok (fst (sbind (node_Report B L r True d) (\<lambda>_ d. (Ok y, d)))) \<or>
      snd (sbind (node_Report B L r True d) (\<lambda>_ d. (Ok y, d))) = d" for r and y :: doc
  proof (cases "node_Report B L r True d")
    case (Pair q d1)
    with node_Report_atomic[of B L r True d] show ?thesis by (cases q) auto
  qed
  have patch: "is_ok (fst (patchProps B L key n delta d)) \<or> snd (patchProps B L key n delta d) = d" for n delta
    unfolding patchProps_def Let_def by (intro sbind_keeps after)
  show ?thesis unfolding UpdateNodeProperties_def by (intro sbind_keeps) (simp add: patch)
qed

text \<open>
  Updates are all or nothing: an operation on the node document that does not succeed, by an
  error or by a panic at any point, leaves the database as it was.
\<close>

theorem node_updates_atomic:
  "(is_ok (fst (node_Desire B L r ov d)) \<or> snd (node_Desire B L r ov d) = d) \<and>
   (is_ok (fst (node_Report B L r ov d)) \<or> snd (node_Report B L r ov d) = d) \<and>
   (is_ok (fst (node_insert B L m d)) \<or> snd (node_insert B L m d) = d) \<and>
   (is_ok (fst (UpdateNodeProperties B L key body d)) \<or> snd (UpdateNodeProperties B L key body d) = d)"
  by (intro conjI node_Report_atomic UpdateNodeProperties_atomic)
    (unfold node_Desire_def node_insert_def, rule boltUpdate_or, rule boltUpdate_or)

text \<open>
  Starting up never loses the document: if the database already holds one, a successful
  \<open>NewNode\<close> keeps its desired entries.
\<close>

theorem new_node_keeps_desire:
  assumes "bolt_ok B" and "codec_ok L" and "node_Get B L d = Ok m" and "NewNode B L core d = (Ok (), d')"
  shows "\<exists>n. node_Get B L d' = Ok n \<and> entries (nd_desire n) = entries (nd_desire m)"
proof -
  obtain data where data: "bo_bucket B d = Some data" "data \<noteq> []"
    using assms(3) by (auto simp: node_Get_def readNode_def split: option.splits if_splits)
  have "node_insert B L x d = (r, d1) \<Longrightarrow> d1 = d" for x r d1
  proof -
    assume i: "node_insert B L x d = (r, d1)"
    have "\<not> is_ok r"
    proof
      assume "is_ok r"
      then obtain u where "r = Ok u" by (cases r) auto
      with i obtain dc where "bo_create B d = (Ok (), dc)"
        "(case bo_bucket B dc of None \<Rightarrow> (Panic nil_bucket, dc)
          | Some x' \<Rightarrow> if x' \<noteq> [] then (Err ErrKeyExists, dc)
              else sbind (so_marshal L x, dc) (\<lambda>data d. bo_put B data d)) = (Ok u, d1)"
        by (auto simp: node_insert_def boltUpdate_Ok sbind_Ok_iff)
      moreover from this(1) have "bo_bucket B dc = Some data"
        using assms(1) data(1) by (auto simp: bolt_ok_def)
      ultimately show False using data(2) by simp
    qed
    moreover have "is_ok (fst (node_insert B L x d)) \<or> snd (node_insert B L x d) = d"
      unfolding node_insert_def by (rule boltUpdate_or)
    ultimately show "d1 = d" using i by simp
  qed
  with assms(4) obtain x where "node_Report B L [(''core'', core)] False d = (Ok x, d')"
    unfolding NewNode_def Let_def by (auto simp: sbind_Ok_iff split: prod.splits)
  then obtain m1 m' where "node_Get B L d = Ok m1" "newReport L [(''core'', core)] False m1 = Ok m'"
    "writeNode B L m' d = (Ok x, d')"
    using report_step[OF \<open>node_Report B L [(''core'', core)] False d = (Ok x, d')\<close>] by blast
  moreover from this have "nd_desire m' = nd_desire m1"
    by (cases "nd_report m1"; cases "so_merge L (entries (nd_report m1)) [(''core'', core)]")
      (auto simp: newReport_def)
  ultimately show ?thesis using writeNode_Ok[OF assms(1,2)] assms(3) by fastforce
qed

text \<open>
  Properties of the node are strings: \<open>UpdateNodeProperties\<close> accepts no other value (null
  deletes a property); when it succeeds the stored report holds the patched properties and the
  desired entries are what they were.
\<close>

theorem update_properties_strings:
  assumes "bolt_ok B" and "codec_ok L" and "UpdateNodeProperties B L key body d = (Ok new, d')"
  shows "\<exists>delta m n old. body = Ok delta \<and> (\<forall>kv \<in> set delta. snd kv = JNull \<or> (\<exists>s. snd kv = JStr s)) \<and>
     node_Get B L d = Ok m \<and> node_Get B L d' = Ok n \<and>
     propsOf key ''old node props is invalid'' (Some (entries (nd_report m))) = Ok old \<and>
     so_patch L old delta = Ok new \<and>
     mget (entries (nd_report n)) key = Some (JObj new) \<and> entries (nd_desire n) = entries (nd_desire m)"
proof -
  obtain m delta old x where u: "node_Get B L d = Ok m" "body = Ok delta"
    "list_all (\<lambda>kv. isStringOrNil (snd kv)) delta"
    "propsOf key ''old node props is invalid'' (Some (entries (nd_report m))) = Ok old"
    "so_patch L old delta = Ok new"
    "node_Report B L (mput key (JObj new) (entries (nd_report m))) True d = (Ok x, d')"
    using assms(3) unfolding UpdateNodeProperties_def patchProps_def sbind_Ok_iff Let_def
    by (auto split: if_splits simp: sbind_Ok_iff)
  obtain m1 m' where m1: "node_Get B L d = Ok m1"
    "newReport L (mput key (JObj new) (entries (nd_report m))) True m1 = Ok m'"
    "writeNode B L m' d = (Ok x, d')"
    using report_step[OF u(6)] by blast
  have m': "m' = m\<lparr>nd_report := Some (mput key (JObj new) (entries (nd_report m)))\<rparr>"
    using m1(1,2) u(1) by (simp add: newReport_def)
  obtain n where n: "node_Get B L d' = Ok n" "entries (nd_desire n) = entries (nd_desire m')"
    "entries (nd_report n) = entries (nd_report m')"
    using writeNode_Ok[OF assms(1,2) m1(3)] by blast
  have s: "\<forall>kv \<in> set delta. snd kv = JNull \<or> (\<exists>s. snd kv = JStr s)"
  proof
    fix kv assume "kv \<in> set delta"
    with u(3) have "isStringOrNil (snd kv)" by (simp add: list_all_iff)
    then show "snd kv = JNull \<or> (\<exists>s. snd kv = JStr s)"
      by (cases "snd kv") (simp_all add: isStringOrNil_def)
  qed
  have "mget (entries (nd_report n)) key = Some (JObj new)" "entries (nd_desire n) = entries (nd_desire m)"
    unfolding n(2,3) by (simp_all add: m' entries_def map_simps)
  with u n(1) s show ?thesis by blast
qed

section \<open>A database and a codec for the witnesses\<close>

instance json :: countable
  by countable_datatype

definition unary_codec :: spec_ops where
  "unary_codec = \<lparr>
     so_marshal = (\<lambda>n. Ok (replicate (Suc (to_nat (nd_name n, nd_desire n, nd_report n))) (CHR ''1''))),
     so_unmarshal = (\<lambda>b. case from_nat (length b - 1) of (n, d, r) \<Rightarrow>
        Ok \<lparr>nd_name = n, nd_desire = d, nd_report = r\<rparr>),
     so_merge = (\<lambda>m r. Ok (fold (\<lambda>kv. mput (fst kv) (snd kv)) r m)),
     so_diff = (\<lambda>d r. Ok (entries d)),
     so_patch = (\<lambda>m r. Ok (fold (\<lambda>kv. mput (fst kv) (snd kv)) r m))\<rparr>"

lemma unary_roundtrip: "so_unmarshal unary_codec
    (CHR ''1'' # replicate (to_nat (nd_name n, nd_desire n, nd_report n)) (CHR ''1'')) = Ok n"
  by (simp add: unary_codec_def)

lemma unary_codec_ok: "codec_ok unary_codec"
  unfolding codec_ok_def
proof (intro allI impI)
  fix n b assume "so_marshal unary_codec n = Ok b"
  then have b: "b = CHR ''1'' # replicate (to_nat (nd_name n, nd_desire n, nd_report n)) (CHR ''1'')"
    by (simp add: unary_codec_def)
  show "b \<noteq> [] \<and> (\<exists>n'. so_unmarshal unary_codec b = Ok n' \<and>
      entries (nd_desire n') = entries (nd_desire n) \<and> entries (nd_report n') = entries (nd_report n))"
    unfolding b by (intro conjI exI[of _ n] unary_roundtrip) simp_all
qed

definition mem_bolt :: "string option bolt_ops" where
  "mem_bolt = \<lparr>bo_bucket = (\<lambda>d. d), bo_create = (\<lambda>d. (Ok (), Some (case d of None \<Rightarrow> [] | Some x \<Rightarrow> x))),
     bo_put = (\<lambda>x d. (Ok (), Some x)), bo_commit = (\<lambda>_. Ok ())\<rparr>"

lemma mem_bolt_ok: "bolt_ok mem_bolt"
  by (simp add: bolt_ok_def mem_bolt_def)

definition stored :: "node_doc \<Rightarrow> string option" where
  "stored n = Some (CHR ''1'' # replicate (to_nat (nd_name n, nd_desire n, nd_report n)) (CHR ''1''))"

lemma mem_get: "node_Get mem_bolt unary_codec (stored n) = Ok n"
  by (simp add: node_Get_def readNode_def mem_bolt_def stored_def unary_roundtrip)

lemma mem_write: "writeNode mem_bolt unary_codec m d = (Ok (entries (nd_desire m)), stored m)"
  by (simp add: writeNode_def mem_bolt_def stored_def) (simp add: unary_codec_def)

lemma mem_desire: "node_Desire mem_bolt unary_codec r True (stored n) =
    (Ok r, stored (n\<lparr>nd_desire := Some r\<rparr>))"
  using mem_get[of n]
  by (simp add: node_Desire_def boltUpdate_def node_Get_def newDesire_def mem_write entries_def)
    (simp add: mem_bolt_def)

lemma mem_report: "node_Report mem_bolt unary_codec r True (stored n) =
    (Ok (entries (nd_desire n)), stored (n\<lparr>nd_report := Some r\<rparr>))"
  using mem_get[of n]
  by (simp add: node_Report_def boltUpdate_def node_Get_def newReport_def mem_write)
    (simp add: mem_bolt_def)

definition sample_doc :: node_doc where
  "sample_doc = \<lparr>nd_name = ''n'', nd_desire = Some [(''apps'', JStr ''a'')],
     nd_report = Some [(''node'', JStr ''old'')]\<rparr>"

lemma sample_desire: "entries (nd_desire sample_doc) = [(''apps'', JStr ''a'')]"
  by (simp add: sample_doc_def entries_def)

theorem desire_stored_witness:
  "\<exists>n. node_Get mem_bolt unary_codec
      (snd (node_Desire mem_bolt unary_codec [(''apps'', JNull)] True (stored sample_doc))) = Ok n \<and>
     entries (nd_desire n) = [(''apps'', JNull)]"
  using desire_stored[OF mem_bolt_ok unary_codec_ok mem_desire[of "[(''apps'', JNull)]" sample_doc]]
  by (auto simp: mem_desire)

theorem report_overrides_witness:
  "\<exists>n. node_Get mem_bolt unary_codec
      (snd (node_Report mem_bolt unary_codec [(''node'', JStr ''new'')] True (stored sample_doc))) = Ok n \<and>
     mget (entries (nd_report n)) ''node'' = Some (JStr ''new'')"
  using report_overrides[OF mem_bolt_ok unary_codec_ok mem_report[of "[(''node'', JStr ''new'')]" sample_doc],
      of "''node''" "JStr ''new''"]
  by (auto simp: mem_report)

lemma mem_new_node: "NewNode mem_bolt unary_codec JNull (stored sample_doc) =
    (Ok (), stored (sample_doc\<lparr>nd_report := Some [(''node'', JStr ''old''), (''core'', JNull)]\<rparr>))"
proof -
  have i: "node_insert mem_bolt unary_codec m (stored sample_doc) = (Err ErrKeyExists, stored sample_doc)" for m
    by (simp add: node_insert_def boltUpdate_def mem_bolt_def stored_def)
  have m: "so_merge unary_codec [(''node'', JStr ''old'')] [(''core'', JNull)] =
      Ok [(''node'', JStr ''old''), (''core'', JNull)]"
    by (simp add: unary_codec_def)
  have "node_Report mem_bolt unary_codec [(''core'', JNull)] False (stored sample_doc) =
      (Ok [(''apps'', JStr ''a'')], stored (sample_doc\<lparr>nd_report := Some [(''node'', JStr ''old''), (''core'', JNull)]\<rparr>))"
    using mem_get[of sample_doc] m
    by (simp add: node_Report_def boltUpdate_def node_Get_def newReport_def mem_write replaceKey_def
        sample_doc_def entries_def) (simp add: mem_bolt_def)
  then show ?thesis by (simp add: NewNode_def i)
qed

theorem new_node_keeps_desire_witness:
  "\<exists>n. node_Get mem_bolt unary_codec (snd (NewNode mem_bolt unary_codec JNull (stored sample_doc))) = Ok n \<and>
     entries (nd_desire n) = [(''apps'', JStr ''a'')]"
  using new_node_keeps_desire[OF mem_bolt_ok unary_codec_ok mem_get mem_new_node]
  by (simp add: mem_new_node sample_desire)

lemma mem_props: "UpdateNodeProperties mem_bolt unary_codec ''p'' (Ok [(''k'', JStr ''v'')]) (stored sample_doc) =
    (Ok [(''k'', JStr ''v'')], stored (sample_doc\<lparr>nd_report :=
       Some [(''node'', JStr ''old''), (''p'', JObj [(''k'', JStr ''v'')])]\<rparr>))"
proof -
  have p: "so_patch unary_codec [] [(''k'', JStr ''v'')] = Ok [(''k'', JStr ''v'')]"
    by (simp add: unary_codec_def)
  show ?thesis
    by (simp add: UpdateNodeProperties_def mem_get isStringOrNil_def patchProps_def propsOf_def p mem_report
        sample_doc_def entries_def)
qed

theorem update_properties_strings_witness:
  "\<exists>n. node_Get mem_bolt unary_codec (snd (UpdateNodeProperties mem_bolt unary_codec ''p''
       (Ok [(''k'', JStr ''v'')]) (stored sample_doc))) = Ok n \<and>
     mget (entries (nd_report n)) ''p'' = Some (JObj [(''k'', JStr ''v'')])"
  using update_properties_strings[OF mem_bolt_ok unary_codec_ok mem_props]
  by (auto simp: mem_props)

end
