(* ===== verification/Sync.thy ===== *)
theory Sync
  imports Sync_Object Node
begin

text \<open>
  The sync component (\<^verbatim>\<open>sync/sync.go\<close>, \<^verbatim>\<open>sync/desire.go\<close>, \<^verbatim>\<open>sync/msg_handler.go\<close>): it fetches
  application, configuration and secret values from the cloud and puts them into the resource
  store, and it exchanges reports and desires. The link to the cloud and the message bus are
  plugins and arguments of the model (\<open>link_ops\<close>), over an opaque state of the outside world. A
  stored version is never replaced; the locale \<open>put_once\<close> is that contract, kept by three
  operations.
\<close>

section \<open>Messages and the plugins\<close>

record resource_info =
  ri_kind :: kind
  ri_name :: string
  ri_version :: string

text \<open>A resource value with the results of its accessors \<^verbatim>\<open>App()\<close>, \<^verbatim>\<open>Config()\<close>, \<^verbatim>\<open>Secret()\<close>.\<close>

record resource_value =
  rv_name :: string
  rv_version :: string
  rv_app :: "application option"
  rv_config :: "configuration option"
  rv_secret :: "secret option"

datatype msg_kind = MessageReport | MessageDesire | MessageCMD | MessageData | MessageDeviceDelta
  | MessageDeviceEvent | MessageDevicePropertyGet | MessageNodeProps | MessageDevices
  | MessageOther string

datatype payload = DesireRequest "resource_info list" | ReportOf "doc option" | Value json
  | Wire string | NoContent

record message =
  m_kind :: msg_kind
  m_meta :: "(string, string) gomap"
  m_content :: payload

text \<open>\<open>lk_values\<close> and \<open>lk_desire\<close> are \<^verbatim>\<open>Content.Unmarshal\<close> into the two types it is used for.\<close>

record 'n link_ops =
  lk_request :: "message \<Rightarrow> 'n \<Rightarrow> message result \<times> 'n"
  lk_send :: "message \<Rightarrow> 'n \<Rightarrow> unit result \<times> 'n"
  lk_async :: bool
  lk_values :: "payload \<Rightarrow> resource_value list result"
  lk_desire :: "payload \<Rightarrow> doc result"
  lk_publish :: "string \<Rightarrow> message \<Rightarrow> 'n \<Rightarrow> unit result \<times> 'n"

section \<open>Fetching values\<close>

definition genResourceInfos :: "kind \<Rightarrow> (string, string) gomap \<Rightarrow> resource_info list" where
  "genResourceInfos knd infos =
     map (\<lambda>nv. \<lparr>ri_kind = knd, ri_name = fst nv, ri_version = snd nv\<rparr>) infos"

definition syncResourceValues :: "env \<Rightarrow> 'n link_ops \<Rightarrow> resource_info list \<Rightarrow> 'n \<Rightarrow>
    resource_value list result \<times> 'n" where
  "syncResourceValues E lk crds n =
     (if crds = [] then (Ok [], n)
      else
        let msg = \<lparr>m_kind = MessageDesire,
                    m_meta = (if e_native E then [(''x-baetyl-platform'', e_platform E)] else []),
                    m_content = DesireRequest crds\<rparr>
        in sbind (lk_request lk msg n) (\<lambda>res n. (lk_values lk (m_content res), n)))"

definition addApp :: "resource_value \<Rightarrow> (string, application) gomap \<Rightarrow> (string, application) gomap" where
  "addApp r apps = (case rv_app r of Some app \<Rightarrow> mput (app_name app) app apps | None \<Rightarrow> apps)"

definition SyncApps :: "env \<Rightarrow> 'n link_ops \<Rightarrow> ((string, string) gomap \<Rightarrow> (string, string) gomap) \<Rightarrow>
    app_info list \<Rightarrow> 'n \<Rightarrow> (string, application) gomap result \<times> 'n" where
  "SyncApps E lk rng infos n =
     (let appInfo = fold (\<lambda>i. mput (ai_name i) (ai_version i)) infos []
      in sbind (syncResourceValues E lk (genResourceInfos KindApplication (rng appInfo)) n) (\<lambda>crds n.
         (Ok (fold addApp crds []), n)))"

section \<open>Storing values\<close>

definition storeApplication :: "env \<Rightarrow> 's store_ops \<Rightarrow> application \<Rightarrow> 's \<Rightarrow> unit result \<times> 's" where
  "storeApplication E S app s =
     (let key = sync_makeKey (e_kind E KindApplication) (app_name app) (app_version app)
      in if key = [] then (Err ''app does not have name or version'', s)
         else if is_ok (b_get (st_app S) s key) then (Ok (), s)
         else b_upsert (st_app S) key app s)"

definition storeSecret :: "env \<Rightarrow> 's store_ops \<Rightarrow> secret \<Rightarrow> 's \<Rightarrow> unit result \<times> 's" where
  "storeSecret E S secret s =
     (let key = sync_makeKey (e_kind E KindSecret) (sec_name secret) (sec_version secret)
      in if key = [] then (Err ''secret does not have name or version'', s)
         else if is_ok (b_get (st_sec S) s key) then (Ok (), s)
         else b_upsert (st_sec S) key secret s)"

record ('s, 'n) sync_state =
  ss_store :: 's
  ss_fs :: fs
  ss_net :: 'n

definition storeConfiguration :: "env \<Rightarrow> 's store_ops \<Rightarrow> configuration \<Rightarrow> 's \<Rightarrow> unit result \<times> 's" where
  "storeConfiguration E S cfg s =
     (let key = sync_makeKey (e_kind E KindConfiguration) (cfg_name cfg) (cfg_version cfg)
      in if key = [] then (Err ''configuration does not have name or version'', s)
         else if is_ok (b_get (st_cfg S) s key) then (Ok (), s)
         else b_upsert (st_cfg S) key cfg s)"

text \<open>The store part of a call lifted to the whole state.\<close>

definition onStore :: "('s \<Rightarrow> 'a result \<times> 's) \<Rightarrow> ('s, 'n) sync_state \<Rightarrow> 'a result \<times> ('s, 'n) sync_state" where
  "onStore f st = (let (r, s) = f (ss_store st) in (r, st\<lparr>ss_store := s\<rparr>))"

definition onNet :: "('n \<Rightarrow> 'a result \<times> 'n) \<Rightarrow> ('s, 'n) sync_state \<Rightarrow> 'a result \<times> ('s, 'n) sync_state" where
  "onNet f st = (let (r, n) = f (ss_net st) in (r, st\<lparr>ss_net := n\<rparr>))"

definition processConfiguration :: "env \<Rightarrow> os_env \<Rightarrow> 'n dl_env \<Rightarrow> 's store_ops \<Rightarrow> string \<Rightarrow>
    configuration \<Rightarrow> ('s, 'n) sync_state \<Rightarrow> unit result \<times> ('s, 'n) sync_state" where
  "processConfiguration E osys dl S path cfg st =
     (let (r, (fs, n)) = DownloadConfig E osys dl path cfg (ss_fs st, ss_net st)
      in sbind (r, st\<lparr>ss_fs := fs, ss_net := n\<rparr>) (\<lambda>_ st. onStore (storeConfiguration E S cfg) st))"

definition processVolume :: "env \<Rightarrow> os_env \<Rightarrow> 'n dl_env \<Rightarrow> 's store_ops \<Rightarrow> string \<Rightarrow>
    (string, configuration) gomap \<Rightarrow> (string, secret) gomap \<Rightarrow> volume \<Rightarrow>
    ('s, 'n) sync_state \<Rightarrow> unit result \<times> ('s, 'n) sync_state" where
  "processVolume E osys dl S path configs secrets v st =
     (case Option.bind (vol_config v) (\<lambda>c. mget configs (ref_name c)) of
        Some cfg \<Rightarrow> processConfiguration E osys dl S path cfg st
      | None \<Rightarrow>
          (case Option.bind (vol_secret v) (\<lambda>c. mget secrets (ref_name c)) of
             Some secret \<Rightarrow> onStore (storeSecret E S secret) st
           | None \<Rightarrow> (Ok (), st)))"

definition processVolumes :: "env \<Rightarrow> os_env \<Rightarrow> 'n dl_env \<Rightarrow> 's store_ops \<Rightarrow> string \<Rightarrow>
    (string, configuration) gomap \<Rightarrow> (string, secret) gomap \<Rightarrow> volume list \<Rightarrow>
    ('s, 'n) sync_state \<Rightarrow> unit result \<times> ('s, 'n) sync_state" where
  "processVolumes E osys dl S path configs secrets volumes st =
     sfor (processVolume E osys dl S path configs secrets) volumes st"

text \<open>The three loops over the values of one answer; a value of another kind ends them.\<close>

definition addVolume :: "volume \<Rightarrow> (string, string) gomap \<times> (string, string) gomap \<Rightarrow>
    (string, string) gomap \<times> (string, string) gomap" where
  "addVolume v cs =
     (case vol_config v of
        Some c \<Rightarrow> (mput (ref_name c) (ref_version c) (fst cs), snd cs)
      | None \<Rightarrow> (case vol_secret v of
                   Some c \<Rightarrow> (fst cs, mput (ref_name c) (ref_version c) (snd cs))
                 | None \<Rightarrow> cs))"

record app_values =
  av_apps :: "(string, application) gomap"
  av_refs :: "(string, string) gomap \<times> (string, string) gomap"

definition takeApp :: "resource_value \<Rightarrow> app_values \<Rightarrow> app_values result" where
  "takeApp r a =
     (case rv_app r of
        None \<Rightarrow> Err ''failed to sync application''
      | Some app \<Rightarrow> Ok \<lparr>av_apps = mput (app_name app) app (av_apps a),
                       av_refs = fold addVolume (app_volumes app) (av_refs a)\<rparr>)"

definition takeConfig :: "env \<Rightarrow> resource_value \<Rightarrow> (string, configuration) gomap \<Rightarrow>
    (string, configuration) gomap result" where
  "takeConfig E r m =
     (case rv_config r of
        None \<Rightarrow> Err ''failed to sync configuration''
      | Some cfg \<Rightarrow> let cfg = FilterConfig E cfg in Ok (mput (cfg_name cfg) cfg m))"

definition takeSecret :: "resource_value \<Rightarrow> (string, secret) gomap \<Rightarrow> (string, secret) gomap result" where
  "takeSecret r m =
     (case rv_secret r of
        None \<Rightarrow> Err ''failed to sync secret''
      | Some secret \<Rightarrow> Ok (mput (sec_name secret) secret m))"

definition processApp :: "env \<Rightarrow> os_env \<Rightarrow> 'n dl_env \<Rightarrow> 's store_ops \<Rightarrow> string \<Rightarrow>
    (string, configuration) gomap \<Rightarrow> (string, secret) gomap \<Rightarrow> application \<Rightarrow>
    ('s, 'n) sync_state \<Rightarrow> unit result \<times> ('s, 'n) sync_state" where
  "processApp E osys dl S path configs secrets app st =
     sbind (processVolumes E osys dl S path configs secrets (app_volumes app) st) (\<lambda>_ st.
     onStore (storeApplication E S app) st)"

text \<open>\<open>rngI\<close> and \<open>rngA\<close>: the orders in which Go ranges over the maps of versions and of
  applications.\<close>

definition SyncResource :: "env \<Rightarrow> os_env \<Rightarrow> 'n dl_env \<Rightarrow> 'n link_ops \<Rightarrow> 's store_ops \<Rightarrow> string \<Rightarrow>
    ((string, string) gomap \<Rightarrow> (string, string) gomap) \<Rightarrow>
    ((string, application) gomap \<Rightarrow> (string, application) gomap) \<Rightarrow> app_info \<Rightarrow>
    ('s, 'n) sync_state \<Rightarrow> unit result \<times> ('s, 'n) sync_state" where
  "SyncResource E osys dl lk S path rngI rngA info st =
     sbind (onNet (syncResourceValues E lk (genResourceInfos KindApplication
              [(ai_name info, ai_version info)])) st) (\<lambda>crds st.
     sbind (rfor takeApp crds \<lparr>av_apps = [], av_refs = ([], [])\<rparr>, st) (\<lambda>a st.
     sbind (onNet (syncResourceValues E lk (genResourceInfos KindConfiguration
              (rngI (fst (av_refs a))))) st) (\<lambda>crds st.
     sbind (rfor (takeConfig E) crds [], st) (\<lambda>configs st.
     sbind (onNet (syncResourceValues E lk (genResourceInfos KindSecret
              (rngI (snd (av_refs a))))) st) (\<lambda>crds st.
     sbind (rfor takeSecret crds [], st) (\<lambda>secrets st.
     sfor (\<lambda>kv. processApp E osys dl S path configs secrets (snd kv)) (rngA (av_apps a)) st))))))"

section \<open>The contract of the store operations\<close>

text \<open>
  A put that keeps every version it finds: \<open>look\<close> reads, \<open>key\<close> is the key of a value, \<open>good\<close> is
  what the contract asks of the store library.
\<close>

locale put_once =
  fixes good :: bool
    and look :: "'w \<Rightarrow> string \<Rightarrow> 'v result"
    and key :: "'v \<Rightarrow> string"
    and put :: "'v \<Rightarrow> 'w \<Rightarrow> unit result \<times> 'w"
  assumes put_keeps: "good \<Longrightarrow> is_ok (look w k) \<Longrightarrow> look (snd (put v w)) k = look w k"
    and put_has: "good \<Longrightarrow> put v w = (Ok (), w') \<Longrightarrow> key v \<noteq> [] \<and> is_ok (look w' (key v))"
begin

lemma puts_keep: "good \<Longrightarrow> is_ok (look w k) \<Longrightarrow> look (snd (sfor put vs w)) k = look w k"
  using sfor_inv[of "\<lambda>w'. look w' k = look w k" w vs put] put_keeps by metis

lemma puts_have:
  assumes "good" and "sfor put vs w = (Ok (), w')" and "v \<in> set vs"
  shows "is_ok (look w' (key v))"
  using assms(2,3)
proof (induction vs arbitrary: w)
  case Nil
  then show ?case by simp
next
  case (Cons x vs)
  obtain w1 where w1: "put x w = (Ok (), w1)" "sfor put vs w1 = (Ok (), w')"
    using Cons.prems(1) unfolding sfor_Cons_Ok by (elim exE conjE)
  show ?case
  proof (cases "v = x")
    case True
    with put_has[OF assms(1) w1(1)] puts_keep[OF assms(1), of w1 "key v" vs] w1(2)
    show ?thesis by simp
  next
    case False
    with Cons.IH[OF w1(2)] Cons.prems(2) show ?thesis by simp
  qed
qed

end

lemma upsert_keeps:
  assumes "bucket_ok b" and "is_ok (b_get b s k)" and "\<not> is_ok (b_get b s k')"
  shows "b_get b (snd (b_upsert b k' v s)) k = b_get b s k"
  using assms bucket_upsert_other[OF assms(1), of k k' v s] by (cases "k = k'") auto

abbreviation app_key_of :: "env \<Rightarrow> application \<Rightarrow> string" where
  "app_key_of E app \<equiv> sync_makeKey (e_kind E KindApplication) (app_name app) (app_version app)"

abbreviation cfg_key_of :: "env \<Rightarrow> configuration \<Rightarrow> string" where
  "cfg_key_of E cfg \<equiv> sync_makeKey (e_kind E KindConfiguration) (cfg_name cfg) (cfg_version cfg)"

abbreviation sec_key_of :: "env \<Rightarrow> secret \<Rightarrow> string" where
  "sec_key_of E sec \<equiv> sync_makeKey (e_kind E KindSecret) (sec_name sec) (sec_version sec)"

interpretation app_store: put_once "bucket_ok (st_app S)" "b_get (st_app S)" "app_key_of E"
    "storeApplication E S" for E S
  by unfold_locales
    (auto simp: storeApplication_def Let_def upsert_keeps bucket_upsert_get split: if_splits)

interpretation sec_store: put_once "bucket_ok (st_sec S)" "b_get (st_sec S)" "sec_key_of E"
    "storeSecret E S" for E S
  by unfold_locales
    (auto simp: storeSecret_def Let_def upsert_keeps bucket_upsert_get split: if_splits)

interpretation cfg_store: put_once "bucket_ok (st_cfg S)" "b_get (st_cfg S)" "cfg_key_of E"
    "storeConfiguration E S" for E S
  by unfold_locales
    (auto simp: storeConfiguration_def Let_def upsert_keeps bucket_upsert_get split: if_splits)

section \<open>A stored version is never replaced\<close>

definition keeps :: "'s store_ops \<Rightarrow> ('s, 'n) sync_state \<Rightarrow> ('s, 'n) sync_state \<Rightarrow> bool" where
  "keeps S st st' \<longleftrightarrow>
     (\<forall>k. is_ok (b_get (st_app S) (ss_store st) k) \<longrightarrow>
        b_get (st_app S) (ss_store st') k = b_get (st_app S) (ss_store st) k) \<and>
     (\<forall>k. is_ok (b_get (st_cfg S) (ss_store st) k) \<longrightarrow>
        b_get (st_cfg S) (ss_store st') k = b_get (st_cfg S) (ss_store st) k) \<and>
     (\<forall>k. is_ok (b_get (st_sec S) (ss_store st) k) \<longrightarrow>
        b_get (st_sec S) (ss_store st') k = b_get (st_sec S) (ss_store st) k)"

lemma keeps_refl: "ss_store st' = ss_store st \<Longrightarrow> keeps S st st'"
  by (simp add: keeps_def)

lemma keeps_trans: "keeps S a b \<Longrightarrow> keeps S b c \<Longrightarrow> keeps S a c"
  by (simp add: keeps_def)

lemma sbind_keeps_store:
  assumes "keeps S st (snd m)" and "\<And>x s. m = (Ok x, s) \<Longrightarrow> keeps S s (snd (k x s))"
  shows "keeps S st (snd (sbind m k))"
proof (cases m)
  case (Pair r s)
  with assms show ?thesis by (cases r) (auto intro: keeps_trans)
qed

lemma sfor_keeps_store:
  assumes "\<And>x s. keeps S s (snd (f x s))"
  shows "keeps S st (snd (sfor f xs st))"
proof (induction xs arbitrary: st)
  case Nil
  then show ?case by (simp add: keeps_refl)
next
  case (Cons x xs)
  show ?case unfolding sfor.simps
    by (rule sbind_keeps_store) (use assms Cons.IH in auto)
qed

lemma onNet_store [simp]: "ss_store (snd (onNet f st)) = ss_store st"
  by (simp add: onNet_def Let_def split: prod.splits)

lemma onStore_state: "ss_store (snd (onStore f st)) = snd (f (ss_store st))"
  by (simp add: onStore_def Let_def split: prod.splits)

lemma upsert_frame:
  assumes "bucket_frame b c"
  shows "b_get c (snd (b_upsert b k v s)) k' = b_get c s k'"
  using assms by (simp add: bucket_frame_def)

text \<open>The three puts touch their own bucket only.\<close>

lemma store_frames:
  assumes "store_ok S"
  shows "b_get (st_cfg S) (snd (storeApplication E S app s)) k = b_get (st_cfg S) s k"
    and "b_get (st_sec S) (snd (storeApplication E S app s)) k = b_get (st_sec S) s k"
    and "b_get (st_app S) (snd (storeConfiguration E S cfg s)) k = b_get (st_app S) s k"
    and "b_get (st_sec S) (snd (storeConfiguration E S cfg s)) k = b_get (st_sec S) s k"
    and "b_get (st_app S) (snd (storeSecret E S sec s)) k = b_get (st_app S) s k"
    and "b_get (st_cfg S) (snd (storeSecret E S sec s)) k = b_get (st_cfg S) s k"
  using assms
  by (simp_all add: store_ok_def storeApplication_def storeConfiguration_def storeSecret_def Let_def upsert_frame)

lemma put_keeps_store:
  assumes "store_ok S"
  shows "keeps S st (snd (onStore (storeApplication E S app) st))"
    and "keeps S st (snd (onStore (storeConfiguration E S cfg) st))"
    and "keeps S st (snd (onStore (storeSecret E S sec) st))"
  using assms app_store.put_keeps[of S] cfg_store.put_keeps[of S] sec_store.put_keeps[of S] store_frames[OF assms]
  by (simp_all add: keeps_def onStore_state store_ok_def)

lemma processConfiguration_keeps:
  assumes "store_ok S"
  shows "keeps S st (snd (processConfiguration E osys dl S path cfg st))"
proof -
  obtain r fs n where d: "DownloadConfig E osys dl path cfg (ss_fs st, ss_net st) = (r, (fs, n))"
    by (metis prod.exhaust)
  show ?thesis unfolding processConfiguration_def d Let_def prod.case
    by (rule sbind_keeps_store) (simp_all add: keeps_refl put_keeps_store[OF assms])
qed

lemma processVolumes_keeps:
  assumes "store_ok S"
  shows "keeps S st (snd (processVolumes E osys dl S path configs secrets vs st))"
  unfolding processVolumes_def
  by (rule sfor_keeps_store)
    (simp add: processVolume_def processConfiguration_keeps[OF assms] put_keeps_store[OF assms] keeps_refl
      split: option.split)

lemma processApp_keeps:
  assumes "store_ok S"
  shows "keeps S st (snd (processApp E osys dl S path configs secrets app st))"
  unfolding processApp_def
  by (rule sbind_keeps_store) (simp_all add: processVolumes_keeps[OF assms] put_keeps_store[OF assms])

lemma SyncResource_keeps:
  assumes "store_ok S"
  shows "keeps S st (snd (SyncResource E osys dl lk S path rngI rngA info st))"
  unfolding SyncResource_def
  by (intro sbind_keeps_store sfor_keeps_store processApp_keeps[OF assms]) (simp_all add: keeps_refl)

text \<open>
  C9. A version in the store is final: whatever the cloud answers and whatever fails on the way,
  after \<open>SyncResource\<close> every application, configuration and secret that was in the store is still
  there, with the same value.
\<close>

theorem sync_never_overwrites:
  assumes "store_ok S"
  shows "keeps S st (snd (SyncResource E osys dl lk S path rngI rngA info st))"
  by (rule SyncResource_keeps[OF assms])

section \<open>What a synchronisation has stored\<close>

lemma takeApp_apps:
  assumes "rfor takeApp rs a0 = Ok a" and "r \<in> set rs" and "rv_app r = Some app"
    and "\<forall>r' \<in> set rs. \<forall>app'. rv_app r' = Some app' \<longrightarrow> app_name app' = app_name app \<longrightarrow> app' = app"
  shows "mget (av_apps a) (app_name app) = Some app"
  using assms
proof (induction rs arbitrary: a a0 rule: rev_induct)
  case Nil
  then show ?case by simp
next
  case (snoc x rs)
  obtain a1 where a1: "rfor takeApp rs a0 = Ok a1" "takeApp x a1 = Ok a"
    using snoc.prems(1) by (auto simp: rfor_append rbind_Ok_iff)
  obtain y where y: "rv_app x = Some y"
    "av_apps a = mput (app_name y) y (av_apps a1)"
    using a1(2) by (auto simp: takeApp_def split: option.splits)
  show ?case
  proof (cases "app_name y = app_name app")
    case True
    with snoc.prems(4) y show ?thesis by (simp add: map_simps)
  next
    case False
    with snoc.prems(2,3) y(1) have "r \<in> set rs" by auto
    then have "mget (av_apps a1) (app_name app) = Some app"
      using snoc.prems(4) by (intro snoc.IH[OF a1(1) _ snoc.prems(3)]) simp_all
    with False y(2) show ?thesis by (simp add: map_simps)
  qed
qed

text \<open>
  What the cloud delivers is stored: when \<open>SyncResource\<close> succeeds, every application of the
  cloud's answer (one value per name) is in the store under the key the engine looks it up with.
\<close>

theorem sync_resource_stores:
  assumes "store_ok S" and "range_ok rngA"
    and "SyncResource E osys dl lk S path rngI rngA info st = (Ok (), st')"
    and "syncResourceValues E lk (genResourceInfos KindApplication [(ai_name info, ai_version info)])
       (ss_net st) = (Ok values, n1)"
    and "r \<in> set values" and "rv_app r = Some app"
    and "\<forall>r' \<in> set values. \<forall>app'. rv_app r' = Some app' \<longrightarrow> app_name app' = app_name app \<longrightarrow> app' = app"
  shows "is_ok (b_get (st_app S) (ss_store st') (app_key E (app_name app) (app_version app)))"
proof -
  have net: "onNet (syncResourceValues E lk (genResourceInfos KindApplication
      [(ai_name info, ai_version info)])) st = (Ok values, st\<lparr>ss_net := n1\<rparr>)"
    using assms(4) by (simp add: onNet_def)
  obtain a configs secrets st1 where a: "rfor takeApp values \<lparr>av_apps = [], av_refs = ([], [])\<rparr> = Ok a"
    and loop: "sfor (\<lambda>kv. processApp E osys dl S path configs secrets (snd kv)) (rngA (av_apps a)) st1 = (Ok (), st')"
    using assms(3) unfolding SyncResource_def net sbind.simps sbind_Ok_iff by blast
  have "mget (av_apps a) (app_name app) = Some app"
    by (rule takeApp_apps[OF a assms(5-7)])
  then have mem: "(app_name app, app) \<in> set (rngA (av_apps a))"
    by (simp add: range_ok_set[OF assms(2)] map_of_SomeD)
  have ok: "bucket_ok (st_app S)" using assms(1) by (simp add: store_ok_def)
  have "(nm, app) \<in> set kvs \<Longrightarrow>
      sfor (\<lambda>kv. processApp E osys dl S path configs secrets (snd kv)) kvs w = (Ok (), w') \<Longrightarrow>
      is_ok (b_get (st_app S) (ss_store w') (app_key_of E app))" for nm kvs w w'
  proof (induction kvs arbitrary: w)
    case Nil
    then show ?case by simp
  next
    case (Cons kv kvs)
    obtain w1 where w1: "processApp E osys dl S path configs secrets (snd kv) w = (Ok (), w1)"
      "sfor (\<lambda>kv. processApp E osys dl S path configs secrets (snd kv)) kvs w1 = (Ok (), w')"
      using Cons.prems(2) unfolding sfor_Cons_Ok by (elim exE conjE)
    have "keeps S w1 (snd (sfor (\<lambda>kv. processApp E osys dl S path configs secrets (snd kv)) kvs w1))"
      by (rule sfor_keeps_store) (rule processApp_keeps[OF assms(1)])
    with w1(2) have rest: "keeps S w1 w'" by simp
    show ?case
    proof (cases "kv = (nm, app)")
      case True
      with w1(1) obtain w0 where "onStore (storeApplication E S app) w0 = (Ok (), w1)"
        unfolding processApp_def sbind_Ok_iff by auto
      then have "storeApplication E S app (ss_store w0) = (Ok (), ss_store w1)"
        by (auto simp: onStore_def Let_def split: prod.splits)
      then have "is_ok (b_get (st_app S) (ss_store w1) (app_key_of E app))"
        using app_store.put_has[OF ok] by blast
      with rest show ?thesis by (simp add: keeps_def)
    next
      case False
      with Cons.prems(1) Cons.IH[OF _ w1(2)] show ?thesis by auto
    qed
  qed
  from this[OF mem loop] show ?thesis
    by (cases "app_name app = [] \<or> app_version app = []")
      (simp_all add: utils_key.mk_partial utils_key.mk_total sync_key.mk_partial sync_key.mk_total)
qed

section \<open>Order of the writes\<close>

lemma processVolume_app:
  assumes "store_ok S"
  shows "b_get (st_app S) (ss_store (snd (processVolume E osys dl S path configs secrets v st))) k =
     b_get (st_app S) (ss_store st) k"
proof -
  have c: "b_get (st_app S) (ss_store (snd (processConfiguration E osys dl S path cfg st))) k =
      b_get (st_app S) (ss_store st) k" for cfg
  proof -
    obtain r fs n where d: "DownloadConfig E osys dl path cfg (ss_fs st, ss_net st) = (r, (fs, n))"
      by (metis prod.exhaust)
    show ?thesis
      by (cases r) (simp_all add: processConfiguration_def d onStore_state store_frames[OF assms])
  qed
  show ?thesis
    by (simp add: processVolume_def c onStore_state store_frames[OF assms] split: option.split)
qed

lemma processVolumes_app:
  assumes "store_ok S"
  shows "b_get (st_app S) (ss_store (snd (processVolumes E osys dl S path configs secrets vs st))) k =
     b_get (st_app S) (ss_store st) k"
  unfolding processVolumes_def
  by (rule sfor_inv[where I = "\<lambda>s. b_get (st_app S) (ss_store s) k = b_get (st_app S) (ss_store st) k"])
    (simp_all add: processVolume_app[OF assms])

definition hasDependency :: "env \<Rightarrow> 's store_ops \<Rightarrow> (string, configuration) gomap \<Rightarrow>
    (string, secret) gomap \<Rightarrow> volume \<Rightarrow> ('s, 'n) sync_state \<Rightarrow> bool" where
  "hasDependency E S configs secrets v st \<longleftrightarrow>
     (case Option.bind (vol_config v) (\<lambda>c. mget configs (ref_name c)) of
        Some cfg \<Rightarrow> is_ok (b_get (st_cfg S) (ss_store st) (cfg_key_of E cfg))
      | None \<Rightarrow> (case Option.bind (vol_secret v) (\<lambda>c. mget secrets (ref_name c)) of
                   Some sec \<Rightarrow> is_ok (b_get (st_sec S) (ss_store st) (sec_key_of E sec))
                 | None \<Rightarrow> True))"

lemma hasDependency_keeps:
  "keeps S st st' \<Longrightarrow> hasDependency E S configs secrets v st \<Longrightarrow> hasDependency E S configs secrets v st'"
  by (simp add: keeps_def hasDependency_def split: option.splits)

lemma onStore_Ok: "onStore f st = (Ok x, st') \<Longrightarrow> f (ss_store st) = (Ok x, ss_store st')"
  by (auto simp: onStore_def Let_def split: prod.splits)

lemma processVolume_has:
  assumes "store_ok S" and "processVolume E osys dl S path configs secrets v st = (Ok (), st')"
  shows "hasDependency E S configs secrets v st'"
proof -
  have ok: "bucket_ok (st_cfg S)" "bucket_ok (st_sec S)" using assms(1) by (simp_all add: store_ok_def)
  have c: "is_ok (b_get (st_cfg S) (ss_store st') (cfg_key_of E cfg))"
    if "processConfiguration E osys dl S path cfg st = (Ok (), st')" for cfg
  proof -
    obtain r fs n where d: "DownloadConfig E osys dl path cfg (ss_fs st, ss_net st) = (r, (fs, n))"
      by (metis prod.exhaust)
    with that have "onStore (storeConfiguration E S cfg) (st\<lparr>ss_fs := fs, ss_net := n\<rparr>) = (Ok (), st')"
      by (cases r) (simp_all add: processConfiguration_def)
    from cfg_store.put_has[OF ok(1) onStore_Ok[OF this]] show ?thesis by blast
  qed
  have s: "is_ok (b_get (st_sec S) (ss_store st') (sec_key_of E sec))"
    if "onStore (storeSecret E S sec) st = (Ok (), st')" for sec
    using sec_store.put_has[OF ok(2) onStore_Ok[OF that]] by blast
  from assms(2) show ?thesis
    by (auto simp: processVolume_def hasDependency_def dest: c s split: option.splits)
qed

lemma processVolumes_has:
  assumes "store_ok S" and "processVolumes E osys dl S path configs secrets vs st = (Ok (), st')"
    and "v \<in> set vs"
  shows "hasDependency E S configs secrets v st'"
  using assms(2,3) unfolding processVolumes_def
proof (induction vs arbitrary: st)
  case Nil
  then show ?case by simp
next
  case (Cons x vs)
  obtain st1 where st1: "processVolume E osys dl S path configs secrets x st = (Ok (), st1)"
    "sfor (processVolume E osys dl S path configs secrets) vs st1 = (Ok (), st')"
    using Cons.prems(1) unfolding sfor_Cons_Ok by (elim exE conjE)
  have "keeps S st1 st'"
    using processVolumes_keeps[OF assms(1), of st1 E osys dl path configs secrets vs] st1(2)
    by (simp add: processVolumes_def)
  with processVolume_has[OF assms(1) st1(1)] Cons.IH[OF st1(2)] Cons.prems(2) show ?case
    by (auto intro: hasDependency_keeps)
qed

text \<open>
  C24. An application appears in the store only after what it needs: if \<open>processApp\<close>, however it
  ends, brought an application into the store, then for every volume of it the configuration or
  secret the cloud delivered under that name is in the store. An interruption never leaves a
  stored application without its delivered dependencies.
\<close>

theorem app_after_dependencies:
  assumes "store_ok S" and "\<not> is_ok (b_get (st_app S) (ss_store st) (app_key_of E app))"
    and "is_ok (b_get (st_app S)
       (ss_store (snd (processApp E osys dl S path configs secrets app st))) (app_key_of E app))"
    and "v \<in> set (app_volumes app)"
  shows "hasDependency E S configs secrets v (snd (processApp E osys dl S path configs secrets app st))"
proof -
  obtain r st1 where p: "processVolumes E osys dl S path configs secrets (app_volumes app) st = (r, st1)"
    by (rule prod.exhaust)
  have same: "b_get (st_app S) (ss_store st1) k = b_get (st_app S) (ss_store st) k" for k
    using processVolumes_app[OF assms(1), of E osys dl path configs secrets "app_volumes app" st k] p by simp
  have "r = Ok ()"
    using assms(2,3) same by (cases r) (simp_all add: processApp_def p)
  with processVolumes_has[OF assms(1) _ assms(4)] p
  have "hasDependency E S configs secrets v st1" by blast
  then have "hasDependency E S configs secrets v (snd (onStore (storeApplication E S app) st1))"
    by (rule hasDependency_keeps[OF put_keeps_store(1)[OF assms(1)]])
  with p \<open>r = Ok ()\<close> show ?thesis by (simp add: processApp_def)
qed

section \<open>Witnesses\<close>

text \<open>A cloud that answers a request with the sample application and its configuration.\<close>

definition sync_app :: application where
  "sync_app = zero_application\<lparr>app_name := ''a'', app_version := ''1'',
     app_volumes := [zero_volume\<lparr>vol_name := ''v'', vol_config := Some \<lparr>ref_name = ''c'', ref_version = ''1''\<rparr>\<rparr>]\<rparr>"

definition sync_cfg :: configuration where
  "sync_cfg = zero_configuration\<lparr>cfg_name := ''c'', cfg_version := ''1''\<rparr>"

definition sync_link :: "unit link_ops" where
  "sync_link = \<lparr>lk_request = (\<lambda>m n. (Ok m, n)), lk_send = (\<lambda>_ n. (Ok (), n)), lk_async = False,
     lk_values = (\<lambda>p. case p of DesireRequest (i # _) \<Rightarrow>
        Ok [\<lparr>rv_name = ri_name i, rv_version = ri_version i,
             rv_app = (if ri_kind i = KindApplication then Some sync_app else None),
             rv_config = (if ri_kind i = KindConfiguration then Some sync_cfg else None),
             rv_secret = None\<rparr>]
        | _ \<Rightarrow> Ok []),
     lk_desire = (\<lambda>_. Ok [(''apps'', JNull)]), lk_publish = (\<lambda>_ _ n. (Ok (), n))\<rparr>"

definition sync_start :: "(mem_store, unit) sync_state" where
  "sync_start = \<lparr>ss_store = \<lparr>mem_app = [], mem_cfg = [], mem_sec = []\<rparr>, ss_fs = [], ss_net = ()\<rparr>"

definition sync_end :: "(mem_store, unit) sync_state" where
  "sync_end = \<lparr>ss_store = \<lparr>mem_app = [(''application-a-1'', sync_app)],
       mem_cfg = [(''configuration-c-1'', sync_cfg)], mem_sec = []\<rparr>, ss_fs = [], ss_net = ()\<rparr>"

lemma sync_cfg_plain: "cfg_data sync_cfg = []" "FilterConfig E sync_cfg = sync_cfg"
  "cfg_name sync_cfg = ''c''" "cfg_version sync_cfg = ''1''"
  by (simp_all add: sync_cfg_def zero_configuration_def FilterConfig_def isProgram_def)

lemma sync_app_parts: "app_name sync_app = ''a''" "app_version sync_app = ''1''"
  "app_volumes sync_app = [zero_volume\<lparr>vol_name := ''v'', vol_config := Some \<lparr>ref_name = ''c'', ref_version = ''1''\<rparr>\<rparr>]"
  by (simp_all add: sync_app_def)

lemma sync_processApp: "processApp sample_env good_os echo_dl mem_ops ''/obj'' [(''c'', sync_cfg)] [] sync_app sync_start =
    (Ok (), sync_end)"
  by (simp add: processApp_def processVolumes_def processVolume_def processConfiguration_def sync_app_parts
      DownloadConfig_def sync_cfg_plain onStore_def storeConfiguration_def storeApplication_def
      sync_key.mk_total mem_simps sync_start_def sync_end_def sample_env_def zero_volume_def)

definition sync_value :: resource_value where
  "sync_value = \<lparr>rv_name = ''a'', rv_version = ''1'', rv_app = Some sync_app, rv_config = None, rv_secret = None\<rparr>"

lemma sync_values_app: "syncResourceValues sample_env sync_link (genResourceInfos KindApplication [(''a'', ''1'')]) n =
    (Ok [sync_value], n)"
  by (simp add: syncResourceValues_def genResourceInfos_def sync_link_def sync_value_def)

lemma sync_values_cfg: "syncResourceValues sample_env sync_link (genResourceInfos KindConfiguration [(''c'', ''1'')]) n =
    (Ok [\<lparr>rv_name = ''c'', rv_version = ''1'', rv_app = None, rv_config = Some sync_cfg, rv_secret = None\<rparr>], n)"
  by (simp add: syncResourceValues_def genResourceInfos_def sync_link_def)

lemma sync_values_none: "syncResourceValues E lk (genResourceInfos knd []) n = (Ok [], n)"
  by (simp add: syncResourceValues_def genResourceInfos_def)

lemma onNet_same: "f (ss_net st) = (r, ss_net st) \<Longrightarrow> onNet f st = (r, st)"
  by (simp add: onNet_def)

lemma sync_done: "SyncResource sample_env good_os echo_dl sync_link mem_ops ''/obj'' rev rev
    \<lparr>ai_name = ''a'', ai_version = ''1''\<rparr> sync_start = (Ok (), sync_end)"
proof -
  have t: "takeApp sync_value \<lparr>av_apps = [], av_refs = ([], [])\<rparr> =
      Ok \<lparr>av_apps = [(''a'', sync_app)], av_refs = ([(''c'', ''1'')], [])\<rparr>"
    by (simp add: takeApp_def sync_value_def sync_app_parts addVolume_def zero_volume_def)
  show ?thesis
    by (simp add: SyncResource_def onNet_same sync_values_app sync_values_cfg sync_values_none t takeConfig_def
        sync_cfg_plain sync_processApp)
qed

theorem sync_never_overwrites_witness:
  "keeps mem_ops sync_start (snd (SyncResource sample_env good_os echo_dl sync_link mem_ops ''/obj'' rev rev
     \<lparr>ai_name = ''a'', ai_version = ''1''\<rparr> sync_start))"
  by (rule sync_never_overwrites[OF mem_ops_ok])

theorem sync_resource_stores_witness:
  "is_ok (b_get (st_app mem_ops) (ss_store sync_end) ''application-a-1'')"
  using sync_resource_stores[OF mem_ops_ok range_ok_rev sync_done, of "[sync_value]" "()" sync_value sync_app]
    sync_values_app[of "()"]
  by (simp add: sync_start_def sync_value_def sync_app_parts utils_key.mk_total sample_env_def)

lemma sync_before_after:
  "\<not> is_ok (b_get (st_app mem_ops) (ss_store sync_start) (app_key_of sample_env sync_app))"
  "is_ok (b_get (st_app mem_ops) (ss_store sync_end) (app_key_of sample_env sync_app))"
  by (simp_all add: mem_simps sync_start_def sync_end_def sync_app_parts sync_key.mk_total sample_env_def)

theorem app_after_dependencies_witness:
  "hasDependency sample_env mem_ops [(''c'', sync_cfg)] [] (hd (app_volumes sync_app))
     (snd (processApp sample_env good_os echo_dl mem_ops ''/obj'' [(''c'', sync_cfg)] [] sync_app sync_start))"
  by (rule app_after_dependencies[OF mem_ops_ok sync_before_after(1)],
      unfold sync_processApp snd_conv, rule sync_before_after(2), simp add: sync_app_parts)

end
