(* ===== verification/Sync_Report.thy ===== *)
theory Sync_Report
  imports Sync
begin

text \<open>
  The exchange of reports and desires (\<^verbatim>\<open>sync/sync.go\<close>) and the upside handler
  (\<^verbatim>\<open>sync/msg_handler.go\<close>). State: the node's database and the outside world (link and message
  bus). The goroutines \<^verbatim>\<open>receiving\<close> and \<^verbatim>\<open>reporting\<close> call \<open>dispatch\<close> and \<open>reportAndDesire\<close> one
  after the other and only log their errors.
\<close>

definition TopicUpside :: string where "TopicUpside = ''upside''"
definition TopicDownside :: string where "TopicDownside = ''downside''"
definition TopicDM :: string where "TopicDM = ''dm''"
definition TopicEvent :: string where "TopicEvent = ''event''"

type_synonym ('d, 'n) report_state = "'d \<times> 'n"

text \<open>The two notifications about a delta: \<open>None\<close> when the delta does not ask for one.\<close>

definition propsOfDelta :: "env \<Rightarrow> doc \<Rightarrow> doc option" where
  "propsOfDelta E delta =
     (case mget delta (e_keyNodeProps E) of
        Some (JObj props) \<Rightarrow> if props = [] then None else Some props
      | _ \<Rightarrow> None)"

definition devicesOfDelta :: "env \<Rightarrow> doc \<Rightarrow> json list option" where
  "devicesOfDelta E delta =
     (case mget delta (e_keyDevices E) of
        Some (JList ds) \<Rightarrow> if ds = [] then None else Some ds
      | _ \<Rightarrow> None)"

definition propsMessage :: "doc \<Rightarrow> message" where
  "propsMessage props = \<lparr>m_kind = MessageNodeProps, m_meta = [], m_content = Value (JObj props)\<rparr>"

definition devicesMessage :: "json list \<Rightarrow> message" where
  "devicesMessage ds = \<lparr>m_kind = MessageDevices, m_meta = [], m_content = Value (JList ds)\<rparr>"

definition publish :: "'n link_ops \<Rightarrow> string \<Rightarrow> message \<Rightarrow> 'd \<times> 'n \<Rightarrow> unit result \<times> ('d \<times> 'n)" where
  "publish lk topic msg st = (let (r, n) = lk_publish lk topic msg (snd st) in (r, (fst st, n)))"

definition sendEvent :: "env \<Rightarrow> 'n link_ops \<Rightarrow> bool \<Rightarrow> doc \<Rightarrow> 'd \<times> 'n \<Rightarrow> unit result \<times> ('d \<times> 'n)" where
  "sendEvent E lk notify delta st =
     (if notify then
        (case propsOfDelta E delta of
           Some props \<Rightarrow> publish lk TopicEvent (propsMessage props) st
         | None \<Rightarrow> (Ok (), st))
      else (Ok (), st))"

definition nodeDesire :: "'d bolt_ops \<Rightarrow> spec_ops \<Rightarrow> doc \<Rightarrow> 'd \<times> 'n \<Rightarrow> doc result \<times> ('d \<times> 'n)" where
  "nodeDesire B L desire st = (let (r, d) = node_Desire B L desire True (fst st) in (r, (d, snd st)))"

definition dispatch :: "env \<Rightarrow> 'd bolt_ops \<Rightarrow> spec_ops \<Rightarrow> 'n link_ops \<Rightarrow> bool \<Rightarrow> message \<Rightarrow>
    'd \<times> 'n \<Rightarrow> unit result \<times> ('d \<times> 'n)" where
  "dispatch E B L lk notify msg st =
     (case m_kind msg of
        MessageReport \<Rightarrow>
          sbind (node_Get B L (fst st), st) (\<lambda>_ st.
          sbind (lk_desire lk (m_content msg), st) (\<lambda>desire st.
          if desire = [] then (Ok (), st)
          else sbind (nodeDesire B L desire st) (\<lambda>delta st.
            if e_svcName E \<noteq> e_core E then (Ok (), st)
            else sbind (sendEvent E lk notify delta st) (\<lambda>_ st.
              (case devicesOfDelta E delta of
                 Some ds \<Rightarrow> publish lk TopicDM (devicesMessage ds) st
               | None \<Rightarrow> (Ok (), st))))))
      | MessageCMD \<Rightarrow> publish lk TopicDownside msg st
      | MessageData \<Rightarrow> publish lk TopicDownside msg st
      | MessageDeviceDelta \<Rightarrow> publish lk TopicDM msg st
      | MessageDeviceEvent \<Rightarrow> publish lk TopicDM msg st
      | MessageDevicePropertyGet \<Rightarrow> publish lk TopicDM msg st
      | MessageNodeProps \<Rightarrow>
          sbind (lk_desire lk (m_content msg), st) (\<lambda>desire st.
          if desire = [] then (Ok (), st)
          else sbind (nodeDesire B L desire st) (\<lambda>delta st.
            if e_svcName E \<noteq> e_core E then (Ok (), st)
            else sendEvent E lk notify delta st))
      | _ \<Rightarrow> (Ok (), st))"

definition reportMessage :: "env \<Rightarrow> doc option \<Rightarrow> message" where
  "reportMessage E r = \<lparr>m_kind = MessageReport, m_meta = [(''source'', e_svcName E)], m_content = ReportOf r\<rparr>"

definition reportAsync :: "env \<Rightarrow> 'n link_ops \<Rightarrow> doc option \<Rightarrow> 'n \<Rightarrow> unit result \<times> 'n" where
  "reportAsync E lk r n = lk_send lk (reportMessage E r) n"

definition sync_Report :: "env \<Rightarrow> 'n link_ops \<Rightarrow> doc option \<Rightarrow> 'n \<Rightarrow> doc result \<times> 'n" where
  "sync_Report E lk r n =
     sbind (lk_request lk (reportMessage E r) n) (\<lambda>res n. (lk_desire lk (m_content res), n))"

text \<open>After the properties have been published the function returns: the devices are not looked at.\<close>

definition reportAndDesire :: "env \<Rightarrow> 'd bolt_ops \<Rightarrow> spec_ops \<Rightarrow> 'n link_ops \<Rightarrow> bool \<Rightarrow>
    'd \<times> 'n \<Rightarrow> unit result \<times> ('d \<times> 'n)" where
  "reportAndDesire E B L lk notify st =
     sbind (node_Get B L (fst st), st) (\<lambda>shadow st.
     if lk_async lk then
       (let (r, n) = reportAsync E lk (nd_report shadow) (snd st) in (r, (fst st, n)))
     else
       let (r, n) = sync_Report E lk (nd_report shadow) (snd st)
       in sbind (r, (fst st, n)) (\<lambda>desire st.
          if desire = [] then (Ok (), st)
          else sbind (nodeDesire B L desire st) (\<lambda>delta st.
            if e_svcName E \<noteq> e_core E then (Ok (), st)
            else case (if notify then propsOfDelta E delta else None) of
                   Some props \<Rightarrow> publish lk TopicEvent (propsMessage props) st
                 | None \<Rightarrow> (case devicesOfDelta E delta of
                              Some ds \<Rightarrow> publish lk TopicDM (devicesMessage ds) st
                            | None \<Rightarrow> (Ok (), st)))))"

text \<open>The upside handler: what the message bus has for the cloud goes to the link.\<close>

definition upside_OnMessage :: "'n link_ops \<Rightarrow> message \<Rightarrow> 'n \<Rightarrow> unit result \<times> 'n" where
  "upside_OnMessage lk msg n = lk_send lk msg n"

definition upside_OnTimeout :: "'n link_ops \<Rightarrow> 'n \<Rightarrow> unit result \<times> 'n" where
  "upside_OnTimeout lk n =
     lk_send lk \<lparr>m_kind = MessageData, m_meta = [(''success'', ''false''), (''msg'', ''sync timeout'')],
       m_content = NoContent\<rparr> n"

section \<open>Correctness\<close>

lemma publish_db [simp]: "fst (snd (publish lk topic msg st)) = fst st"
  by (simp add: publish_def Let_def split: prod.splits)

lemma sendEvent_db [simp]: "fst (snd (sendEvent E lk notify delta st)) = fst st"
  by (simp add: sendEvent_def split: option.split)

text \<open>
  The two ways of receiving a desire agree: when the cloud answers a report synchronously and
  no property event is sent (none is due, or the notification is off), \<open>reportAndDesire\<close> does
  exactly what \<open>dispatch\<close> does with the same content arriving as a report message.
\<close>

theorem sync_async_agree:
  assumes "\<not> lk_async lk" and "node_Get B L d = Ok shadow"
    and "lk_request lk (reportMessage E (nd_report shadow)) n = (Ok res, n1)"
    and "\<And>desire delta. lk_desire lk (m_content res) = Ok desire \<Longrightarrow>
      fst (node_Desire B L desire True d) = Ok delta \<Longrightarrow> notify \<Longrightarrow> propsOfDelta E delta = None"
  shows "reportAndDesire E B L lk notify (d, n) =
     dispatch E B L lk notify \<lparr>m_kind = MessageReport, m_meta = [], m_content = m_content res\<rparr> (d, n1)"
proof (cases "lk_desire lk (m_content res)")
  case (Ok desire)
  obtain r d1 where nd: "node_Desire B L desire True d = (r, d1)" by (rule prod.exhaust)
  show ?thesis
  proof (cases r)
    case (Ok delta)
    with assms(4)[OF \<open>lk_desire lk (m_content res) = Ok desire\<close>, of delta] nd
    have "notify \<Longrightarrow> propsOfDelta E delta = None" by simp
    then show ?thesis
      using Ok nd assms(1-3) \<open>lk_desire lk (m_content res) = Ok desire\<close>
      by (simp add: reportAndDesire_def dispatch_def sync_Report_def nodeDesire_def sendEvent_def)
  qed (use nd assms(1-3) Ok in \<open>simp_all add: reportAndDesire_def dispatch_def sync_Report_def nodeDesire_def\<close>)
qed (use assms(1-3) in \<open>simp_all add: reportAndDesire_def dispatch_def sync_Report_def\<close>)

text \<open>
  Property events swallow device messages on the synchronous path: when a delta carries both
  node properties and devices, \<open>dispatch\<close> publishes to both topics, but \<open>reportAndDesire\<close> returns
  after the property event, and the device message is never published.
\<close>

theorem sync_drops_devices:
  assumes "\<not> lk_async lk" and "node_Get B L d = Ok shadow"
    and "lk_request lk (reportMessage E (nd_report shadow)) n = (Ok res, n1)"
    and "lk_desire lk (m_content res) = Ok desire" and "desire \<noteq> []"
    and "node_Desire B L desire True d = (Ok delta, d1)" and "e_svcName E = e_core E"
    and "propsOfDelta E delta = Some props" and "devicesOfDelta E delta = Some ds"
  shows "reportAndDesire E B L lk True (d, n) = publish lk TopicEvent (propsMessage props) (d1, n1) \<and>
     dispatch E B L lk True \<lparr>m_kind = MessageReport, m_meta = [], m_content = m_content res\<rparr> (d, n1) =
       sbind (publish lk TopicEvent (propsMessage props) (d1, n1))
         (\<lambda>_ st. publish lk TopicDM (devicesMessage ds) st)"
  using assms by (simp add: reportAndDesire_def sync_Report_def dispatch_def nodeDesire_def sendEvent_def)

lemma report_round_desire:
  assumes "bolt_ok B" and "codec_ok L" and "\<not> lk_async lk" and "node_Get B L d = Ok shadow"
    and "sync_Report E lk (nd_report shadow) n = (Ok desire, n1)" and "desire \<noteq> []"
    and "reportAndDesire E B L lk notify (d, n) = (Ok (), (d', n'))"
  shows "\<exists>node. node_Get B L d' = Ok node \<and> entries (nd_desire node) = desire \<and>
     entries (nd_report node) = entries (nd_report shadow)"
proof -
  obtain r d1 where nd: "node_Desire B L desire True d = (r, d1)" by (rule prod.exhaust)
  with assms(3-7) obtain delta where r: "r = Ok delta"
    by (cases r) (simp_all add: reportAndDesire_def nodeDesire_def)
  have "fst (snd (reportAndDesire E B L lk notify (d, n))) = d1"
    using assms(3-6) nd r publish_db[of lk _ _ "(d1, n1)"]
    by (simp add: reportAndDesire_def nodeDesire_def split: option.split)
  with assms(7) have "d1 = d'" by simp
  with nd r desire_stores[OF assms(1,2), of desire d delta d'] assms(4) show ?thesis by auto
qed

text \<open>
  C26. A report round brings the node to what the cloud desires: if a synchronous
  \<open>reportAndDesire\<close> succeeds and the cloud's answer is not empty, the node's document then holds
  exactly the answered desired entries, and the reported entries it had before.
\<close>

theorem report_round_stores_desire:
  assumes "bolt_ok B" and "codec_ok L" and "\<not> lk_async lk" and "node_Get B L d = Ok shadow"
    and "sync_Report E lk (nd_report shadow) n = (Ok desire, n1)" and "desire \<noteq> []"
    and "reportAndDesire E B L lk notify (d, n) = (Ok (), (d', n'))"
  shows "\<exists>node. node_Get B L d' = Ok node \<and> entries (nd_desire node) = desire \<and>
     entries (nd_report node) = entries (nd_report shadow)"
  using assms by (rule report_round_desire)

section \<open>Witnesses\<close>

definition answer_link :: "doc \<Rightarrow> unit link_ops" where
  "answer_link desire = sync_link\<lparr>lk_desire := (\<lambda>_. Ok desire)\<rparr>"

lemma answer_simps: "\<not> lk_async (answer_link desire)" "lk_request (answer_link desire) m () = (Ok m, ())"
  "lk_desire (answer_link desire) p = Ok desire" "lk_publish (answer_link desire) t m () = (Ok (), ())"
  by (simp_all add: answer_link_def sync_link_def)

definition props_and_devices :: doc where
  "props_and_devices = [(''nodeprops'', JObj [(''k'', JStr ''v'')]), (''devices'', JList [JNull])]"

lemma sample_core: "e_svcName sample_env = e_core sample_env"
  by (simp add: sample_env_def)

theorem sync_async_agree_witness:
  "reportAndDesire sample_env mem_bolt unary_codec (answer_link props_and_devices) False (stored sample_doc, ()) =
   dispatch sample_env mem_bolt unary_codec (answer_link props_and_devices) False
     \<lparr>m_kind = MessageReport, m_meta = [], m_content = ReportOf (nd_report sample_doc)\<rparr> (stored sample_doc, ())"
  using sync_async_agree[of "answer_link props_and_devices" mem_bolt unary_codec "stored sample_doc" sample_doc
      sample_env "()" "reportMessage sample_env (nd_report sample_doc)" "()" False]
  by (simp add: answer_simps mem_get reportMessage_def)

theorem sync_drops_devices_witness:
  "reportAndDesire sample_env mem_bolt unary_codec (answer_link props_and_devices) True (stored sample_doc, ()) =
   publish (answer_link props_and_devices) TopicEvent (propsMessage [(''k'', JStr ''v'')])
     (stored (sample_doc\<lparr>nd_desire := Some props_and_devices\<rparr>), ())"
proof -
  have "propsOfDelta sample_env props_and_devices = Some [(''k'', JStr ''v'')]"
    "devicesOfDelta sample_env props_and_devices = Some [JNull]" "props_and_devices \<noteq> []"
    by (simp_all add: propsOfDelta_def devicesOfDelta_def props_and_devices_def sample_env_def)
  then show ?thesis
    using sync_drops_devices[of "answer_link props_and_devices" mem_bolt unary_codec "stored sample_doc" sample_doc
        sample_env "()" "reportMessage sample_env (nd_report sample_doc)" "()" props_and_devices props_and_devices]
    by (simp add: answer_simps mem_get mem_desire sample_core)
qed

theorem report_round_stores_desire_witness:
  "\<exists>node. node_Get mem_bolt unary_codec (fst (snd (reportAndDesire sample_env mem_bolt unary_codec
      (answer_link [(''apps'', JNull)]) False (stored sample_doc, ())))) = Ok node \<and>
     entries (nd_desire node) = [(''apps'', JNull)]"
proof -
  have r: "reportAndDesire sample_env mem_bolt unary_codec (answer_link [(''apps'', JNull)]) False (stored sample_doc, ()) =
      (Ok (), (stored (sample_doc\<lparr>nd_desire := Some [(''apps'', JNull)]\<rparr>), ()))"
    by (simp add: reportAndDesire_def mem_get answer_simps sync_Report_def nodeDesire_def mem_desire sample_core
        devicesOfDelta_def)
  have q: "sync_Report sample_env (answer_link [(''apps'', JNull)]) (nd_report sample_doc) () = (Ok [(''apps'', JNull)], ())"
    by (simp add: sync_Report_def answer_simps)
  from report_round_stores_desire[OF mem_bolt_ok unary_codec_ok answer_simps(1) mem_get q _ r]
  show ?thesis by (auto simp: r)
qed

end
