(* ===== verification/Engine_Core.thy ===== *)
theory Engine_Core
  imports Engine_Clean Sync_Report
begin

text \<open>
  The core of the engine (\<^verbatim>\<open>engine/engine.go\<close>): one round of reporting the node, planning what to
  delete and apply, fetching and applying applications. It is the client of the planning theories,
  of the node document and of the sync component; the platform below it (\<^verbatim>\<open>ami.AMI\<close>), the
  certificate authority and the encoding of reports by \<^verbatim>\<open>baetyl-go\<close> are arguments. The engine
  applies applications in parallel goroutines and waits for all of them; here they run one after
  the other in an order \<open>rngU\<close> that the theorems leave open.
\<close>

section \<open>The platform and the state\<close>

text \<open>
  The statistics of the applications come with an error or without: Go returns both side by side.
  Observing leaves the platform as it is; the native one also refreshes its probes when it is observed,
  which the engine does not see.
\<close>

record 'a ami_ops =
  am_nodeInfo :: "'a \<Rightarrow> json result"
  am_nodeStats :: "'a \<Rightarrow> json result"
  am_modeInfo :: "'a \<Rightarrow> json result"
  am_stats :: "string \<Rightarrow> 'a \<Rightarrow> app_stats list \<times> unit result"
  am_apply :: "string \<Rightarrow> application \<Rightarrow> (string, configuration) gomap \<Rightarrow> (string, secret) gomap \<Rightarrow>
     'a \<Rightarrow> unit result \<times> 'a"
  am_delete :: "string \<Rightarrow> app_info \<Rightarrow> 'a \<Rightarrow> unit result \<times> 'a"
  am_log :: "string \<Rightarrow> string \<Rightarrow> string \<Rightarrow> int \<Rightarrow> int \<Rightarrow> 'a \<Rightarrow> string result"

text \<open>The certificate authority, the digest of a common name and the file names of a certificate.\<close>

record cert_ops =
  ce_ca :: "string result"
  ce_issue :: "string \<Rightarrow> string list \<Rightarrow> (string \<times> string) result"
  ce_md5 :: "string \<Rightarrow> string"
  ce_path :: string
  ce_crt :: string
  ce_key :: string
  ce_caFile :: string

text \<open>The custom namespaces of yaml applications, one record under a fixed key.\<close>

type_synonym custom_info = "(string, app_info \<times> string) gomap"

record 's engine_store =
  en_ops :: "'s store_ops"
  en_getCustom :: "'s \<Rightarrow> custom_info result"
  en_putCustom :: "custom_info \<Rightarrow> 's \<Rightarrow> unit result \<times> 's"

record ('s, 'd, 'n, 'a) engine_state =
  es_sync :: "('s, 'n) sync_state"
  es_db :: 'd
  es_ami :: 'a

text \<open>
  Everything the engine is configured with. \<open>ep_encode\<close> sets the application infos and statistics
  of a report, \<open>ep_deltaApps\<close> reads the desired infos of a delta; \<open>ep_rng\<close> are the orders of the
  ranges over maps.
\<close>

record ('s, 'd, 'n, 'a) engine_params =
  ep_env :: env
  ep_os :: os_env
  ep_dl :: "'n dl_env"
  ep_link :: "'n link_ops"
  ep_store :: "'s engine_store"
  ep_bolt :: "'d bolt_ops"
  ep_spec :: spec_ops
  ep_ami :: "'a ami_ops"
  ep_cert :: "cert_ops option"
  ep_download :: string
  ep_hostPath :: string
  ep_objectPath :: string
  ep_encode :: "bool \<Rightarrow> json \<Rightarrow> json \<Rightarrow> json \<Rightarrow> app_info list \<Rightarrow> app_stats list \<Rightarrow> doc"
  ep_deltaApps :: "bool \<Rightarrow> doc \<Rightarrow> app_info list option"
  ep_rngI :: "(string, string) gomap \<Rightarrow> (string, string) gomap"
  ep_rngA :: "(string, application) gomap \<Rightarrow> (string, application) gomap"
  ep_rngP :: "(int, string list) gomap \<Rightarrow> (int, string list) gomap"
  ep_rngU :: "(string, app_info) gomap \<Rightarrow> (string, app_info) gomap"
  ep_rngS :: "(string, app_stats) gomap \<Rightarrow> (string, app_stats) gomap"

text \<open>Calls of the parts lifted to the whole state.\<close>

definition onSync :: "(('s, 'n) sync_state \<Rightarrow> 'r result \<times> ('s, 'n) sync_state) \<Rightarrow>
    ('s, 'd, 'n, 'a) engine_state \<Rightarrow> 'r result \<times> ('s, 'd, 'n, 'a) engine_state" where
  "onSync f st = (let (r, y) = f (es_sync st) in (r, st\<lparr>es_sync := y\<rparr>))"

definition onDb :: "('d \<Rightarrow> 'r result \<times> 'd) \<Rightarrow> ('s, 'd, 'n, 'a) engine_state \<Rightarrow>
    'r result \<times> ('s, 'd, 'n, 'a) engine_state" where
  "onDb f st = (let (r, d) = f (es_db st) in (r, st\<lparr>es_db := d\<rparr>))"

definition onAmi :: "('a \<Rightarrow> 'r result \<times> 'a) \<Rightarrow> ('s, 'd, 'n, 'a) engine_state \<Rightarrow>
    'r result \<times> ('s, 'd, 'n, 'a) engine_state" where
  "onAmi f st = (let (r, a) = f (es_ami st) in (r, st\<lparr>es_ami := a\<rparr>))"

abbreviation storeOf :: "('s, 'd, 'n, 'a) engine_state \<Rightarrow> 's" where
  "storeOf st \<equiv> ss_store (es_sync st)"

section \<open>Certificates\<close>

definition certVolume :: "cert_ops \<Rightarrow> application \<Rightarrow> service \<Rightarrow> string" where
  "certVolume C app svc = ''baetyl-cert-volume-'' @ ce_md5 C (app_name app @ ''.'' @ svc_name svc)"

definition certSecret :: "cert_ops \<Rightarrow> application \<Rightarrow> service \<Rightarrow> string" where
  "certSecret C app svc = ''baetyl-cert-secret-'' @ ce_md5 C (app_name app @ ''.'' @ svc_name svc)"

definition dnsNames :: "string \<Rightarrow> application \<Rightarrow> service \<Rightarrow> string list" where
  "dnsNames ns app svc =
     [app_name app @ ''.'' @ ns, app_name app, svc_name svc @ ''.'' @ ns, svc_name svc,
      app_name app @ ''-nodeport.'' @ ns, app_name app @ ''-nodeport'',
      svc_name svc @ ''-nodeport.'' @ ns, svc_name svc @ ''-nodeport'', ''localhost'']"

record inject_state =
  ij_volumes :: "volume list"
  ij_services :: "service list"
  ij_secs :: "(string, secret) gomap"

definition injectService :: "env \<Rightarrow> cert_ops \<Rightarrow> string \<Rightarrow> application \<Rightarrow> service \<Rightarrow>
    inject_state \<Rightarrow> inject_state result" where
  "injectService E C ca app svc st =
     rbind (ce_issue C (app_name app @ ''.'' @ svc_name svc)
              (dnsNames (if app_system app then e_systemNs E else e_edgeNs E) app svc))
       (\<lambda>(crt, ky).
          let secretName = certSecret C app svc;
              secret = \<lparr>sec_name = secretName, sec_namespace = app_namespace app, sec_version = [],
                 sec_system = (app_namespace app = e_systemNs E),
                 sec_labels = [(''baetyl-app-name'', app_name app), (''security-type'', ''certificate'')],
                 sec_data = [(ce_crt C, crt), (ce_key C, ky), (ce_caFile C, ca)]\<rparr>;
              mount = \<lparr>vm_name = certVolume C app svc, vm_mountPath = ce_path C, vm_readOnly = True,
                 vm_autoClean = False\<rparr>;
              vol = zero_volume\<lparr>vol_name := certVolume C app svc,
                 vol_secret := Some \<lparr>ref_name = secretName, ref_version = []\<rparr>\<rparr>
          in Ok \<lparr>ij_volumes = ij_volumes st @ [vol],
                 ij_services = ij_services st @ [svc\<lparr>svc_volumeMounts := svc_volumeMounts svc @ [mount]\<rparr>],
                 ij_secs = mput secretName secret (ij_secs st)\<rparr>)"

definition injectCert :: "env \<Rightarrow> cert_ops \<Rightarrow> application \<Rightarrow> (string, secret) gomap \<Rightarrow>
    (application \<times> (string, secret) gomap) result" where
  "injectCert E C app secs =
     rbind (ce_ca C) (\<lambda>ca.
     rbind (rfor (injectService E C ca app) (app_services app)
              \<lparr>ij_volumes = app_volumes app, ij_services = [], ij_secs = secs\<rparr>)
       (\<lambda>st. Ok (app\<lparr>app_volumes := ij_volumes st, app_services := ij_services st\<rparr>, ij_secs st)))"

section \<open>Applying one application\<close>

text \<open>Entering the custom namespace of a yaml application.\<close>

definition recordCustom :: "'s engine_store \<Rightarrow> app_info \<Rightarrow> string \<Rightarrow> 's \<Rightarrow> unit result \<times> 's" where
  "recordCustom N info customNs s =
     sbind (case en_getCustom N s of
              Ok ci \<Rightarrow> (Ok ci, s)
            | Err _ \<Rightarrow> sbind (en_putCustom N [] s) (\<lambda>_ s. (Ok [], s))
            | Panic p \<Rightarrow> (Panic p, s))
       (\<lambda>ci s. en_putCustom N (mput (ai_name info) (info, customNs) ci) s)"

text \<open>The configurations and secrets the volumes refer to, read from the store.\<close>

definition loadVolume :: "env \<Rightarrow> 's store_ops \<Rightarrow> 's \<Rightarrow> volume \<Rightarrow>
    (string, configuration) gomap \<times> (string, secret) gomap \<Rightarrow>
    ((string, configuration) gomap \<times> (string, secret) gomap) result" where
  "loadVolume E S s v cs =
     (case vol_config v of
        Some c \<Rightarrow>
          let key = cfg_key E (ref_name c) (ref_version c)
          in if key = [] then Err ''failed to get config''
             else rbind (b_get (st_cfg S) s key) (\<lambda>config. Ok (mput (cfg_name config) config (fst cs), snd cs))
      | None \<Rightarrow>
          (case vol_secret v of
             None \<Rightarrow> Ok cs
           | Some sec \<Rightarrow>
               let key = sec_key E (ref_name sec) (ref_version sec)
               in if key = [] then Err ''failed to get secret''
                  else rbind (b_get (st_sec S) s key) (\<lambda>secret. Ok (fst cs, mput (sec_name secret) secret (snd cs)))))"

definition customNsOf :: "env \<Rightarrow> application \<Rightarrow> string option" where
  "customNsOf E app =
     (case mget (app_labels app) (e_customNs E) of
        Some ns \<Rightarrow> if ns \<noteq> [] \<and> app_type app = AppTypeYaml then Some ns else None
      | None \<Rightarrow> None)"

definition withCert :: "('s, 'd, 'n, 'a) engine_params \<Rightarrow> application \<Rightarrow> (string, secret) gomap \<Rightarrow>
    (application \<times> (string, secret) gomap) result" where
  "withCert P app secs =
     (case ep_cert P of
        None \<Rightarrow> Ok (app, secs)
      | Some C \<Rightarrow>
          if contains (app_name app) (e_core (ep_env P)) \<or> contains (app_name app) (e_init (ep_env P))
          then Ok (app, secs)
          else injectCert (ep_env P) C app secs)"

definition prepareFor :: "('s, 'd, 'n, 'a) engine_params \<Rightarrow> application \<Rightarrow> (string, configuration) gomap \<Rightarrow>
    ('s, 'd, 'n, 'a) engine_state \<Rightarrow> application result \<times> ('s, 'd, 'n, 'a) engine_state" where
  "prepareFor P app cfgs st =
     (let (r, (app', fs)) = PrepareApp (ep_env P) (ep_os P) (ep_hostPath P) (ep_objectPath P) (Some app)
            cfgs (ss_fs (es_sync st));
          st = st\<lparr>es_sync := es_sync st\<lparr>ss_fs := fs\<rparr>\<rparr>
      in (rbind r (\<lambda>_. case app' of Some a \<Rightarrow> Ok a | None \<Rightarrow> Ok app), st))"

definition applyApp :: "('s, 'd, 'n, 'a) engine_params \<Rightarrow> string \<Rightarrow> app_info \<Rightarrow>
    ('s, 'd, 'n, 'a) engine_state \<Rightarrow> unit result \<times> ('s, 'd, 'n, 'a) engine_state" where
  "applyApp P ns info st =
     (let E = ep_env P; S = en_ops (ep_store P) in
      sbind (onSync (SyncResource E (ep_os P) (ep_dl P) (ep_link P) S (ep_download P) (ep_rngI P) (ep_rngA P) info) st)
       (\<lambda>_ st.
      sbind (b_get (st_app S) (storeOf st) (app_key E (ai_name info) (ai_version info)), st) (\<lambda>app st.
      sbind (case customNsOf E app of
               None \<Rightarrow> (Ok (), st)
             | Some cns \<Rightarrow> onSync (onStore (recordCustom (ep_store P) info cns)) st) (\<lambda>_ st.
      sbind (rfor (loadVolume E S (storeOf st)) (app_volumes app) ([], []), st) (\<lambda>cs st.
      sbind (prepareFor P app (fst cs) st) (\<lambda>app st.
      sbind (withCert P app (snd cs), st) (\<lambda>as st.
      onAmi (am_apply (ep_ami P) ns (fst as) (fst cs) (snd as)) st)))))))"

text \<open>A failure is added to the statistics of the application and goes no further.\<close>

definition applyOne :: "('s, 'd, 'n, 'a) engine_params \<Rightarrow> string \<Rightarrow> app_info \<Rightarrow>
    stats_map \<times> ('s, 'd, 'n, 'a) engine_state \<Rightarrow> unit result \<times> (stats_map \<times> ('s, 'd, 'n, 'a) engine_state)" where
  "applyOne P ns info w =
     (let (r, st) = applyApp P ns info (snd w)
      in case r of
           Ok _ \<Rightarrow> (Ok (), (fst w, st))
         | Err e \<Rightarrow>
             let stat = (case mget (fst w) (ai_name info) of Some x \<Rightarrow> x | None \<Rightarrow> zero_app_stats)
             in (Ok (), (mput (ai_name info) (stat\<lparr>as_cause := as_cause stat @ e\<rparr>) (fst w), st))
         | Panic p \<Rightarrow> (Panic p, (fst w, st)))"

definition applyApps :: "('s, 'd, 'n, 'a) engine_params \<Rightarrow> string \<Rightarrow> (string, app_info) gomap \<Rightarrow>
    stats_map \<times> ('s, 'd, 'n, 'a) engine_state \<Rightarrow> unit result \<times> (stats_map \<times> ('s, 'd, 'n, 'a) engine_state)" where
  "applyApps P ns infos w = sfor (\<lambda>kv. applyOne P ns (snd kv)) (ep_rngU P infos) w"

section \<open>One round\<close>

text \<open>
  An error of the platform is logged and leaves the value that came with it, nil for the node and the
  mode and the list so far for the statistics; a panic is not caught.
\<close>

definition orLogged :: "'x result \<Rightarrow> 'x \<Rightarrow> 'x result" where
  "orLogged r z = (case r of Ok x \<Rightarrow> Ok x | Err _ \<Rightarrow> Ok z | Panic p \<Rightarrow> Panic p)"

record collected =
  co_node :: json
  co_stats :: json
  co_mode :: json
  co_apps :: "app_info list"
  co_appStats :: "app_stats list"

definition collect :: "('s, 'd, 'n, 'a) engine_params \<Rightarrow> string \<Rightarrow> app_info list option \<Rightarrow>
    ('s, 'd, 'n, 'a) engine_state \<Rightarrow> collected result" where
  "collect P ns desired st =
     (let A = ep_ami P; a = es_ami st; (appStats, outcome) = am_stats A ns a;
          apps = map (\<lambda>info. \<lparr>ai_name = as_name info, ai_version = as_version info\<rparr>) appStats
      in rbind (orLogged (am_nodeInfo A a) JNull) (\<lambda>nodeInfo.
         rbind (orLogged (am_nodeStats A a) JNull) (\<lambda>nodeStats.
         rbind (orLogged outcome ()) (\<lambda>_.
         rbind (orLogged (am_modeInfo A a) JNull) (\<lambda>modeInfo.
         Ok \<lparr>co_node = nodeInfo, co_stats = nodeStats, co_mode = modeInfo,
             co_apps = (case desired of None \<Rightarrow> apps | Some ds \<Rightarrow> alignApps (ep_rngU P) apps ds),
             co_appStats = appStats\<rparr>)))))"

definition reportOf :: "('s, 'd, 'n, 'a) engine_params \<Rightarrow> bool \<Rightarrow> collected \<Rightarrow> app_stats list \<Rightarrow> doc" where
  "reportOf P isSys c stats = ep_encode P isSys (co_node c) (co_stats c) (co_mode c) (co_apps c) stats"

definition reportNode :: "('s, 'd, 'n, 'a) engine_params \<Rightarrow> doc \<Rightarrow> ('s, 'd, 'n, 'a) engine_state \<Rightarrow>
    doc result \<times> ('s, 'd, 'n, 'a) engine_state" where
  "reportNode P r st = onDb (node_Report (ep_bolt P) (ep_spec P) r False) st"

text \<open>A statistic with a cause and no name takes its key as name.\<close>

definition named :: "string \<times> app_stats \<Rightarrow> app_stats" where
  "named ks = (if as_cause (snd ks) \<noteq> [] \<and> as_name (snd ks) = [] then (snd ks)\<lparr>as_name := fst ks\<rparr> else snd ks)"

definition reportAppStatsIfNeed :: "('s, 'd, 'n, 'a) engine_params \<Rightarrow> bool \<Rightarrow> collected \<Rightarrow> stats_map \<Rightarrow>
    ('s, 'd, 'n, 'a) engine_state \<Rightarrow> unit result \<times> ('s, 'd, 'n, 'a) engine_state" where
  "reportAppStatsIfNeed P isSys c stats st =
     (if stats = [] then (Ok (), st)
      else sbind (reportNode P (reportOf P isSys c (map named (ep_rngS P stats))) st) (\<lambda>_ st. (Ok (), st)))"

definition syncApps :: "('s, 'd, 'n, 'a) engine_params \<Rightarrow> app_info list \<Rightarrow>
    ('s, 'd, 'n, 'a) engine_state \<Rightarrow> apps_map result \<times> ('s, 'd, 'n, 'a) engine_state" where
  "syncApps P dapps st = onSync (onNet (SyncApps (ep_env P) (ep_link P) (ep_rngI P) dapps)) st"

definition deleteApps :: "('s, 'd, 'n, 'a) engine_params \<Rightarrow> string \<Rightarrow> (string, app_info) gomap \<Rightarrow>
    ('s, 'd, 'n, 'a) engine_state \<Rightarrow> unit result \<times> ('s, 'd, 'n, 'a) engine_state" where
  "deleteApps P ns del st = sfor (\<lambda>kv. onAmi (am_delete (ep_ami P) ns (snd kv))) (ep_rngU P del) st"

text \<open>From the plan on: what is done with the lists of one round.\<close>

definition carryOut :: "('s, 'd, 'n, 'a) engine_params \<Rightarrow> bool \<Rightarrow> bool \<Rightarrow> string \<Rightarrow> collected \<Rightarrow>
    app_info list \<Rightarrow> app_info list \<Rightarrow> ('s, 'd, 'n, 'a) engine_state \<Rightarrow>
    unit result \<times> ('s, 'd, 'n, 'a) engine_state" where
  "carryOut P isSys delete ns c dapps rapps st =
     (let (del, update) = getDeleteAndUpdate dapps rapps;
          stats = fold (\<lambda>s. mput (as_name s) s) (co_appStats c) []
      in sbind (syncApps P dapps st) (\<lambda>appData st.
         sbind (checkMultiAppPort (ep_rngP P) dapps appData stats update, st) (\<lambda>(_, stats, update) st.
         sbind (reportAppStatsIfNeed P isSys c stats st) (\<lambda>_ st.
         sbind (if delete then deleteApps P ns del st else (Ok (), st)) (\<lambda>_ st.
         case applyApps P ns update (stats, st) of
           (Ok _, (stats, st)) \<Rightarrow> reportAppStatsIfNeed P isSys c stats st
         | (Err e, (_, st)) \<Rightarrow> (Err e, st)
         | (Panic p, (_, st)) \<Rightarrow> (Panic p, st))))))"

definition reportAndApply :: "('s, 'd, 'n, 'a) engine_params \<Rightarrow> bool \<Rightarrow> bool \<Rightarrow> (bool \<Rightarrow> app_info list option) \<Rightarrow>
    ('s, 'd, 'n, 'a) engine_state \<Rightarrow> unit result \<times> ('s, 'd, 'n, 'a) engine_state" where
  "reportAndApply P isSys delete desire st =
     (let E = ep_env P; ns = (if isSys then e_systemNs E else e_edgeNs E)
      in sbind (collect P ns (desire isSys) st, st) (\<lambda>c st.
         sbind (reportNode P (reportOf P isSys c (co_appStats c)) st) (\<lambda>delta st.
         case ep_deltaApps P isSys delta of
           None \<Rightarrow> (Ok (), st)
         | Some dapps \<Rightarrow>
             carryOut P isSys delete ns c (serviceFilter E dapps) (serviceFilter E (co_apps c)) st)))"

text \<open>
  Recycling is due when the disk of the master node is under pressure. \<open>decS\<close> and \<open>decI\<close> are
  \<^verbatim>\<open>mapstructure.Decode\<close> into the pressure flags and the roles by node name.
\<close>

definition masterName :: "(string, string) gomap \<Rightarrow> string" where
  "masterName nodeInfo = (case find (\<lambda>ni. snd ni = ''master'') nodeInfo of Some ni \<Rightarrow> fst ni | None \<Rightarrow> [])"

definition diskPressure :: "(json \<Rightarrow> (string, bool) gomap result) \<Rightarrow> (json \<Rightarrow> (string, string) gomap result) \<Rightarrow>
    doc \<Rightarrow> bool result" where
  "diskPressure decS decI report =
     (case mget report ''nodestats'' of
        None \<Rightarrow> Err ''node stats not exist in report data''
      | Some val \<Rightarrow> rbind (decS val) (\<lambda>nodeStats.
          case mget report ''node'' of
            None \<Rightarrow> Err ''node info not exist in report data''
          | Some val \<Rightarrow> rbind (decI val) (\<lambda>nodeInfo.
              Ok (mget nodeStats (masterName nodeInfo) = Some True))))"

definition recycleIfNeed :: "('s, 'd, 'n, 'a) engine_params \<Rightarrow> (json \<Rightarrow> (string, bool) gomap result) \<Rightarrow>
    (json \<Rightarrow> (string, string) gomap result) \<Rightarrow> (node_doc \<Rightarrow> node_view) \<Rightarrow>
    ((string, configuration) gomap \<Rightarrow> (string, configuration) gomap) \<Rightarrow> node_doc \<Rightarrow>
    ('s, 'd, 'n, 'a) engine_state \<Rightarrow> unit result \<times> ('s, 'd, 'n, 'a) engine_state" where
  "recycleIfNeed P decS decI view rng nod st =
     sbind (diskPressure decS decI (entries (nd_report nod)), st) (\<lambda>b st.
       if \<not> b then (Ok (), st)
       else
         let y = es_sync st;
             (r, (s, fs)) = recycle (ep_env P) (ep_os P) (en_ops (ep_store P)) (ep_download P) rng
               (rmap view (node_Get (ep_bolt P) (ep_spec P) (es_db st))) (ss_store y, ss_fs y)
         in (r, st\<lparr>es_sync := y\<lparr>ss_store := s, ss_fs := fs\<rparr>\<rparr>))"

definition reportAndDesireAsync :: "('s, 'd, 'n, 'a) engine_params \<Rightarrow> (json \<Rightarrow> (string, bool) gomap result) \<Rightarrow>
    (json \<Rightarrow> (string, string) gomap result) \<Rightarrow> (node_doc \<Rightarrow> node_view) \<Rightarrow> ((string, configuration) gomap \<Rightarrow> (string, configuration) gomap) \<Rightarrow>
    (node_doc \<Rightarrow> bool \<Rightarrow> app_info list option) \<Rightarrow> bool \<Rightarrow>
    ('s, 'd, 'n, 'a) engine_state \<Rightarrow> unit result \<times> ('s, 'd, 'n, 'a) engine_state" where
  "reportAndDesireAsync P decS decI view rng desireOf delete st =
     sbind (node_Get (ep_bolt P) (ep_spec P) (es_db st), st) (\<lambda>nod st.
     slog (recycleIfNeed P decS decI view rng nod st) (\<lambda>st.
     sbind (reportAndApply P True delete (desireOf nod) st) (\<lambda>_ st.
     reportAndApply P False delete (desireOf nod) st)))"

section \<open>The certificate of the process itself\<close>

definition CreateWriteFile :: "os_env \<Rightarrow> string \<Rightarrow> string \<Rightarrow> fs \<Rightarrow> unit result \<times> fs" where
  "CreateWriteFile osys p content fs =
     (let dir = pathDir p
      in sbind (if mget fs dir = Some Dir then (Ok (), fs) else MkdirAll osys dir fs) (\<lambda>_ fs.
         WriteFile osys p content fs))"

definition genSystemCert :: "env \<Rightarrow> os_env \<Rightarrow> cert_ops \<Rightarrow> fs \<Rightarrow> unit result \<times> fs" where
  "genSystemCert E osys C fs =
     sbind (ce_ca C, fs) (\<lambda>ca fs.
     sbind (ce_issue C (e_appName E @ ''.'' @ e_svcName E)
              [e_svcName E @ ''.'' @ e_systemNs E, e_svcName E, ''localhost''], fs) (\<lambda>ck fs.
     sbind (CreateWriteFile osys (Join [ce_path C, ce_caFile C]) ca fs) (\<lambda>_ fs.
     sbind (CreateWriteFile osys (Join [ce_path C, ce_crt C]) (fst ck) fs) (\<lambda>_ fs.
     CreateWriteFile osys (Join [ce_path C, ce_key C]) (snd ck) fs))))"

section \<open>Service logs\<close>

definition validOne :: "string \<Rightarrow> string \<Rightarrow> int result" where
  "validOne what s =
     (if s = [] then Ok 0
      else rbind (ParseInt64 s) (\<lambda>n.
       if n < 0 then Err (''The request parameter is invalid.('' @ what @ '' is invalid)'') else Ok n))"

definition validParam :: "string \<Rightarrow> string \<Rightarrow> (int \<times> int) result" where
  "validParam tailLines sinceSeconds =
     rbind (validOne ''tailLines'' tailLines) (\<lambda>t.
     rbind (validOne ''sinceSeconds'' sinceSeconds) (\<lambda>n. Ok (t, n)))"

text \<open>
  The HTTP answer: status, error code (empty on success) and body. This handler is not wrapped: a
  panic of the platform leaves it.
\<close>

definition GetServiceLog :: "env \<Rightarrow> 'a ami_ops \<Rightarrow> string \<Rightarrow> string \<Rightarrow> string \<Rightarrow> string \<Rightarrow> 'a \<Rightarrow>
    (int \<times> string \<times> string) result" where
  "GetServiceLog E A service container tailLines sinceSeconds a =
     (let ns = (if hasPrefix service ''baetyl-'' then e_systemNs E else e_edgeNs E)
      in case validParam tailLines sinceSeconds of
           Err e \<Rightarrow> Ok (400, ''RequestParamInvalid'', e)
         | Panic p \<Rightarrow> Panic p
         | Ok (tail, since) \<Rightarrow>
             (case am_log A ns service container tail since a of
                Ok b \<Rightarrow> Ok (200, [], b)
              | Err e \<Rightarrow> Ok (500, ''UnknownError'', e)
              | Panic p \<Rightarrow> Panic p))"

section \<open>Nothing desired is deleted\<close>

lemma on_ami [simp]:
  "es_ami (snd (onSync f st)) = es_ami st" "es_ami (snd (onDb g st)) = es_ami st"
  "es_ami (snd (onAmi h st)) = snd (h (es_ami st))"
  by (simp_all add: onSync_def onDb_def onAmi_def Let_def split: prod.splits)

lemma prepareFor_ami [simp]: "es_ami (snd (prepareFor P app cfgs st)) = es_ami st"
  by (simp add: prepareFor_def Let_def split: prod.splits)

text \<open>A property of the platform that applying keeps, and deleting as far as \<open>ok\<close> allows.\<close>

definition appliesKeep :: "'a ami_ops \<Rightarrow> ('a \<Rightarrow> bool) \<Rightarrow> bool" where
  "appliesKeep A I \<longleftrightarrow> (\<forall>ns app cfgs secs a. I a \<longrightarrow> I (snd (am_apply A ns app cfgs secs a)))"

definition deletesKeep :: "'a ami_ops \<Rightarrow> (app_info \<Rightarrow> bool) \<Rightarrow> ('a \<Rightarrow> bool) \<Rightarrow> bool" where
  "deletesKeep A ok I \<longleftrightarrow> (\<forall>ns i a. ok i \<longrightarrow> I a \<longrightarrow> I (snd (am_delete A ns i a)))"

lemma applyApp_ami:
  assumes "appliesKeep (ep_ami P) I" and "I (es_ami st)"
  shows "I (es_ami (snd (applyApp P ns info st)))"
proof -
  have custom: "I (es_ami s) \<Longrightarrow> I (es_ami (snd (case customNsOf E app of None \<Rightarrow> (Ok (), s)
      | Some cns \<Rightarrow> onSync (onStore (recordCustom N info cns)) s)))" for E app N s
    by (simp split: option.split)
  show ?thesis unfolding applyApp_def Let_def
    by (intro sbind_inv[where I = "\<lambda>s. I (es_ami s)"] custom)
      (use assms in \<open>simp_all add: appliesKeep_def\<close>)
qed

lemma applyOne_ami:
  assumes "appliesKeep (ep_ami P) I" and "I (es_ami (snd w))"
  shows "I (es_ami (snd (snd (applyOne P ns info w))))"
proof -
  obtain r st where a: "applyApp P ns info (snd w) = (r, st)" by (rule prod.exhaust)
  with applyApp_ami[OF assms, of ns info] have "I (es_ami st)" by simp
  with a show ?thesis by (cases r) (simp_all add: applyOne_def Let_def)
qed

lemma applyApps_ami:
  assumes "appliesKeep (ep_ami P) I" and "I (es_ami (snd w))"
  shows "I (es_ami (snd (snd (applyApps P ns infos w))))"
  unfolding applyApps_def
  by (rule sfor_inv[where I = "\<lambda>w. I (es_ami (snd w))"]) (use assms applyOne_ami in auto)

lemma reportNode_ami [simp]: "es_ami (snd (reportNode P r st)) = es_ami st"
  by (simp add: reportNode_def)

lemma reportStats_ami [simp]: "es_ami (snd (reportAppStatsIfNeed P isSys c stats st)) = es_ami st"
proof (cases "reportNode P (reportOf P isSys c (map named (ep_rngS P stats))) st")
  case (Pair r s)
  then have "es_ami s = es_ami st" by (metis reportNode_ami snd_conv)
  with Pair show ?thesis by (cases r) (simp_all add: reportAppStatsIfNeed_def)
qed

lemma deleteApps_ami:
  assumes "deletesKeep (ep_ami P) ok I" and "\<And>kv. kv \<in> set (ep_rngU P del) \<Longrightarrow> ok (snd kv)" and "I (es_ami st)"
  shows "I (es_ami (snd (deleteApps P ns del st)))"
  unfolding deleteApps_def
  by (rule sfor_inv[where I = "\<lambda>s. I (es_ami s)"]) (use assms in \<open>auto simp: deletesKeep_def\<close>)

lemma gomap_scanReport: "gomap dl \<Longrightarrow> gomap (fst (fold scanReport rs (dl, u)))"
proof (induction rs arbitrary: dl u)
  case Nil
  then show ?case by simp
next
  case (Cons r rs)
  obtain dl' u' where s: "scanReport r (dl, u) = (dl', u')" by (rule prod.exhaust)
  with Cons.prems have "gomap dl'" by auto
  with Cons.IH[of dl' u'] s show ?case by (simp del: scanReport.simps)
qed

lemma gomap_keepDesired: "gomap dl \<Longrightarrow> gomap (fold keepDesired ds dl)"
  by (induction ds arbitrary: dl) (simp_all add: keepDesired_def split: option.split)

lemma gomap_delete_list: "gomap (fst (getDeleteAndUpdate ds rs))"
proof -
  obtain dl u where s: "fold scanReport rs ([], fold planDesire ds []) = (dl, u)" by (rule prod.exhaust)
  with gomap_scanReport[of "[]" rs "fold planDesire ds []"] have "gomap dl" by simp
  with s show ?thesis by (simp add: getDeleteAndUpdate_def gomap_keepDesired)
qed

lemma delete_list_names:
  assumes "range_ok rng" and "kv \<in> set (rng (fst (getDeleteAndUpdate ds rs)))"
  shows "ai_name (snd kv) \<in> ai_name ` set rs - ai_name ` set ds"
proof -
  let ?del = "fst (getDeleteAndUpdate ds rs)"
  have "(fst kv, snd kv) \<in> set ?del"
    using assms by (simp add: range_ok_set)
  then have "mget ?del (fst kv) = Some (snd kv)"
    using gomap_delete_list by (simp add: gomap_mget_iff)
  then have "fst kv \<notin> ai_name ` set ds" and l: "last_info rs (fst kv) = Some (snd kv)"
    by (simp_all add: delete_list_mget split: if_splits)
  with last_info_name[OF l] show ?thesis by (metis DiffI imageI)
qed

lemma carryOut_ami:
  assumes "range_ok (ep_rngU P)" and "appliesKeep (ep_ami P) I"
    and "delete \<longrightarrow> deletesKeep (ep_ami P) (\<lambda>i. ai_name i \<in> ai_name ` set rapps - ai_name ` set dapps) I"
    and "I (es_ami st)"
  shows "I (es_ami (snd (carryOut P isSys delete ns c dapps rapps st)))"
proof -
  obtain del update where p: "getDeleteAndUpdate dapps rapps = (del, update)" by (rule prod.exhaust)
  have del: "I (es_ami s) \<Longrightarrow> I (es_ami (snd (if delete then deleteApps P ns del s else (Ok (), s))))" for s
  proof (cases delete)
    case True
    assume I: "I (es_ami s)"
    have "I (es_ami (snd (deleteApps P ns del s)))"
    proof (rule deleteApps_ami[of P "\<lambda>i. ai_name i \<in> ai_name ` set rapps - ai_name ` set dapps"])
      show "deletesKeep (ep_ami P) (\<lambda>i. ai_name i \<in> ai_name ` set rapps - ai_name ` set dapps) I"
        using assms(3) True by blast
      fix kv
      assume "kv \<in> set (ep_rngU P del)"
      then show "ai_name (snd kv) \<in> ai_name ` set rapps - ai_name ` set dapps"
        using delete_list_names[OF assms(1), of kv dapps rapps] by (simp add: p)
    qed (rule I)
    with True show ?thesis by simp
  qed simp
  have applied: "I (es_ami s) \<Longrightarrow> I (es_ami (snd (case applyApps P ns u (stats, s) of
           (Ok _, (stats, st)) \<Rightarrow> reportAppStatsIfNeed P isSys c stats st
         | (Err e, (_, st)) \<Rightarrow> (Err e, st) | (Panic p, (_, st)) \<Rightarrow> (Panic p, st))))" for u stats s
    using applyApps_ami[OF assms(2), of "(stats, s)" ns u]
    by (auto split: prod.split result.split)
  have sync: "es_ami (snd (syncApps P dapps s)) = es_ami s" for s by (simp add: syncApps_def)
  show ?thesis unfolding carryOut_def Let_def p prod.case
    by (intro sbind_inv[where I = "\<lambda>s. I (es_ami s)"])
      (use assms(4) del applied in \<open>auto simp: sync split: prod.split intro!: sbind_inv[where I = "\<lambda>s. I (es_ami s)"]\<close>)
qed

text \<open>The report a round starts with.\<close>

definition roundReport :: "('s, 'd, 'n, 'a) engine_params \<Rightarrow> bool \<Rightarrow> (bool \<Rightarrow> app_info list option) \<Rightarrow>
    ('s, 'd, 'n, 'a) engine_state \<Rightarrow> doc result" where
  "roundReport P isSys desire st =
     rmap (\<lambda>c. reportOf P isSys c (co_appStats c))
       (collect P (if isSys then e_systemNs (ep_env P) else e_edgeNs (ep_env P)) (desire isSys) st)"

lemma reportAndApply_ami:
  assumes "range_ok (ep_rngU P)" and "appliesKeep (ep_ami P) I" and "I (es_ami st)"
    and "\<forall>r st' delta dapps. roundReport P isSys desire st = Ok r \<longrightarrow> reportNode P r st = (Ok delta, st') \<longrightarrow>
      ep_deltaApps P isSys delta = Some dapps \<longrightarrow> delete \<longrightarrow>
      deletesKeep (ep_ami P) (\<lambda>i. ai_name i \<notin> ai_name ` set (serviceFilter (ep_env P) dapps)) I"
  shows "I (es_ami (snd (reportAndApply P isSys delete desire st)))"
proof -
  define ns where "ns = (if isSys then e_systemNs (ep_env P) else e_edgeNs (ep_env P))"
  have main: "I (es_ami (snd (carryOut P isSys delete ns c (serviceFilter (ep_env P) dapps) rapps st')))"
    if "collect P ns (desire isSys) st = Ok c" "reportNode P (reportOf P isSys c (co_appStats c)) st = (Ok delta, st')"
      "ep_deltaApps P isSys delta = Some dapps" "I (es_ami st')" for c delta dapps rapps st'
  proof (rule carryOut_ami[OF assms(1,2) _ that(4)], rule impI)
    assume delete
    have "roundReport P isSys desire st = Ok (reportOf P isSys c (co_appStats c))"
      using that(1) by (simp add: roundReport_def ns_def)
    with assms(4) that(2,3) \<open>delete\<close> have "deletesKeep (ep_ami P)
        (\<lambda>i. ai_name i \<notin> ai_name ` set (serviceFilter (ep_env P) dapps)) I" by blast
    then show "deletesKeep (ep_ami P) (\<lambda>i. ai_name i \<in> ai_name ` set rapps
        - ai_name ` set (serviceFilter (ep_env P) dapps)) I"
      unfolding deletesKeep_def by blast
  qed
  show ?thesis
  proof (cases "collect P ns (desire isSys) st")
    case (Ok c)
    obtain r st' where r: "reportNode P (reportOf P isSys c (co_appStats c)) st = (r, st')" by (rule prod.exhaust)
    have keep: "I (es_ami st')" using assms(3) reportNode_ami[of P _ st] r by (metis snd_conv)
    show ?thesis
      unfolding reportAndApply_def Let_def ns_def[symmetric] Ok
      using keep main[OF Ok] r by (cases r) (auto split: option.split)
  qed (use assms(3) in \<open>simp_all add: reportAndApply_def ns_def[symmetric]\<close>)
qed

text \<open>
  C3. A round never deletes what is desired: let \<open>runs n\<close> say that application \<open>n\<close> runs on the
  platform, where applying applications does not stop it and deleting another one does not
  either. If the delta the node answers desires \<open>n\<close> for this process, or the round was told not to
  delete, then \<open>n\<close> still runs after the round, whether the round succeeds, fails or panics at any
  of its steps.
\<close>

theorem never_deletes_desired:
  assumes "range_ok (ep_rngU P)" and "appliesKeep (ep_ami P) (runs n)"
    and "deletesKeep (ep_ami P) (\<lambda>i. ai_name i \<noteq> n) (runs n)"
    and "\<forall>r st' delta dapps. roundReport P isSys desire st = Ok r \<longrightarrow> reportNode P r st = (Ok delta, st') \<longrightarrow>
        ep_deltaApps P isSys delta = Some dapps \<longrightarrow>
        \<not> delete \<or> n \<in> ai_name ` set (serviceFilter (ep_env P) dapps)"
    and "runs n (es_ami st)"
  shows "runs n (es_ami (snd (reportAndApply P isSys delete desire st)))"
proof (rule reportAndApply_ami[OF assms(1,2,5)], intro allI impI)
  fix r st' delta dapps
  assume "roundReport P isSys desire st = Ok r" and "reportNode P r st = (Ok delta, st')"
    and "ep_deltaApps P isSys delta = Some dapps" and delete
  with assms(4) have "n \<in> ai_name ` set (serviceFilter (ep_env P) dapps)" by blast
  with assms(3) show "deletesKeep (ep_ami P)
      (\<lambda>i. ai_name i \<notin> ai_name ` set (serviceFilter (ep_env P) dapps)) (runs n)"
    unfolding deletesKeep_def by metis
qed

section \<open>What is applied is complete\<close>

lemma loadVolume_step:
  assumes "loadVolume E S s v cs = Ok cs'"
  shows "case vol_config v of
      Some c \<Rightarrow> \<exists>x. b_get (st_cfg S) s (cfg_key E (ref_name c) (ref_version c)) = Ok x \<and>
        cs' = (mput (cfg_name x) x (fst cs), snd cs)
    | None \<Rightarrow> (case vol_secret v of
        Some c \<Rightarrow> \<exists>x. b_get (st_sec S) s (sec_key E (ref_name c) (ref_version c)) = Ok x \<and>
          cs' = (fst cs, mput (sec_name x) x (snd cs))
      | None \<Rightarrow> cs' = cs)"
  using assms by (auto simp: loadVolume_def Let_def rbind_Ok_iff split: option.splits if_splits)

lemma loadVolume_mono:
  assumes "loadVolume E S s v cs = Ok cs'"
  shows "keys (fst cs) \<subseteq> keys (fst cs') \<and> keys (snd cs) \<subseteq> keys (snd cs')"
  using loadVolume_step[OF assms] by (auto simp: keys_dom map_simps split: option.splits)

lemma rfor_loadVolume_mono:
  "rfor (loadVolume E S s) vs cs = Ok cs' \<Longrightarrow> keys (fst cs) \<subseteq> keys (fst cs') \<and> keys (snd cs) \<subseteq> keys (snd cs')"
proof (induction vs arbitrary: cs)
  case (Cons v vs)
  then obtain cm where "loadVolume E S s v cs = Ok cm" "rfor (loadVolume E S s) vs cm = Ok cs'"
    by (auto simp: rbind_Ok_iff)
  with loadVolume_mono Cons.IH show ?case by (meson subset_trans)
qed simp

text \<open>Every volume of a list is loaded at some point, and what it loaded stays.\<close>

lemma rfor_loadVolume_at:
  assumes "rfor (loadVolume E S s) vs cs = Ok cs'" and "v \<in> set vs"
  shows "\<exists>c1 c2. loadVolume E S s v c1 = Ok c2 \<and> keys (fst c2) \<subseteq> keys (fst cs') \<and> keys (snd c2) \<subseteq> keys (snd cs')"
  using assms
proof (induction vs arbitrary: cs)
  case (Cons w vs)
  then obtain cm where one: "loadVolume E S s w cs = Ok cm" and rest: "rfor (loadVolume E S s) vs cm = Ok cs'"
    by (auto simp: rbind_Ok_iff)
  show ?case
  proof (cases "v = w")
    case True
    with one rfor_loadVolume_mono[OF rest] show ?thesis by blast
  next
    case False
    with Cons.prems(2) Cons.IH[OF rest] show ?thesis by simp
  qed
qed simp

definition configOf :: "env \<Rightarrow> 's store_ops \<Rightarrow> 's \<Rightarrow> volume \<Rightarrow> configuration \<Rightarrow> bool" where
  "configOf E S s v x \<longleftrightarrow>
     (\<exists>c. vol_config v = Some c \<and> b_get (st_cfg S) s (cfg_key E (ref_name c) (ref_version c)) = Ok x)"

definition secretOf :: "env \<Rightarrow> 's store_ops \<Rightarrow> 's \<Rightarrow> volume \<Rightarrow> secret \<Rightarrow> bool" where
  "secretOf E S s v x \<longleftrightarrow> vol_config v = None \<and>
     (\<exists>c. vol_secret v = Some c \<and> b_get (st_sec S) s (sec_key E (ref_name c) (ref_version c)) = Ok x)"

lemma rfor_loadVolume_configs:
  assumes "rfor (loadVolume E S s) vs cs = Ok cs'" and "v \<in> set vs" and "vol_config v \<noteq> None"
  shows "\<exists>x. configOf E S s v x \<and> cfg_name x \<in> keys (fst cs')"
proof -
  from rfor_loadVolume_at[OF assms(1,2)] obtain c1 c2 where one: "loadVolume E S s v c1 = Ok c2" "keys (fst c2) \<subseteq> keys (fst cs')"
    by blast
  from loadVolume_step[OF one(1)] assms(3) obtain x where "configOf E S s v x" "cfg_name x \<in> keys (fst c2)"
    by (auto simp: configOf_def keys_dom map_simps split: option.splits)
  with one(2) show ?thesis by blast
qed

lemma rfor_loadVolume_secrets:
  assumes "rfor (loadVolume E S s) vs cs = Ok cs'" and "v \<in> set vs" and "vol_config v = None" and "vol_secret v \<noteq> None"
  shows "\<exists>x. secretOf E S s v x \<and> sec_name x \<in> keys (snd cs')"
proof -
  from rfor_loadVolume_at[OF assms(1,2)] obtain c1 c2 where one: "loadVolume E S s v c1 = Ok c2" "keys (snd c2) \<subseteq> keys (snd cs')"
    by blast
  from loadVolume_step[OF one(1)] assms(3,4) obtain x where "secretOf E S s v x" "sec_name x \<in> keys (snd c2)"
    by (auto simp: secretOf_def keys_dom map_simps split: option.splits)
  with one(2) show ?thesis by blast
qed

text \<open>Nothing else is loaded.\<close>

lemma rfor_loadVolume_only:
  assumes "rfor (loadVolume E S s) vs cs = Ok cs'" and "mget (fst cs') n = Some x"
  shows "mget (fst cs) n = Some x \<or> cfg_name x = n \<and> (\<exists>v \<in> set vs. configOf E S s v x)"
  using assms
proof (induction vs arbitrary: cs)
  case (Cons v vs)
  then obtain cm where one: "loadVolume E S s v cs = Ok cm" and rest: "rfor (loadVolume E S s) vs cm = Ok cs'"
    by (auto simp: rbind_Ok_iff)
  have "mget (fst cm) n = Some x \<Longrightarrow> mget (fst cs) n = Some x \<or> cfg_name x = n \<and> configOf E S s v x"
    using loadVolume_step[OF one] by (auto simp: configOf_def map_simps split: option.splits if_splits)
  with Cons.IH[OF rest Cons.prems(2)] show ?case by auto
qed simp

lemma rfor_loadVolume_secrets_only:
  assumes "rfor (loadVolume E S s) vs cs = Ok cs'" and "mget (snd cs') n = Some x"
  shows "mget (snd cs) n = Some x \<or> sec_name x = n \<and> (\<exists>v \<in> set vs. secretOf E S s v x)"
  using assms
proof (induction vs arbitrary: cs)
  case (Cons v vs)
  then obtain cm where one: "loadVolume E S s v cs = Ok cm" and rest: "rfor (loadVolume E S s) vs cm = Ok cs'"
    by (auto simp: rbind_Ok_iff)
  have "mget (snd cm) n = Some x \<Longrightarrow> mget (snd cs) n = Some x \<or> sec_name x = n \<and> secretOf E S s v x"
    using loadVolume_step[OF one] by (auto simp: secretOf_def map_simps split: option.splits if_splits)
  with Cons.IH[OF rest Cons.prems(2)] show ?case by auto
qed simp

section \<open>Certificates of the services\<close>

definition certMount :: "cert_ops \<Rightarrow> application \<Rightarrow> service \<Rightarrow> service" where
  "certMount C app svc = svc\<lparr>svc_volumeMounts := svc_volumeMounts svc @
     [\<lparr>vm_name = certVolume C app svc, vm_mountPath = ce_path C, vm_readOnly = True, vm_autoClean = False\<rparr>]\<rparr>"

definition certVol :: "cert_ops \<Rightarrow> application \<Rightarrow> service \<Rightarrow> volume" where
  "certVol C app svc = zero_volume\<lparr>vol_name := certVolume C app svc,
     vol_secret := Some \<lparr>ref_name = certSecret C app svc, ref_version = []\<rparr>\<rparr>"

text \<open>The certificate data a secret carries for a service.\<close>

definition carriesCert :: "env \<Rightarrow> cert_ops \<Rightarrow> string \<Rightarrow> application \<Rightarrow> service \<Rightarrow> secret \<Rightarrow> bool" where
  "carriesCert E C ca app svc s \<longleftrightarrow>
     (\<exists>crt ky. ce_issue C (app_name app @ ''.'' @ svc_name svc)
          (dnsNames (if app_system app then e_systemNs E else e_edgeNs E) app svc) = Ok (crt, ky)
        \<and> sec_data s = [(ce_crt C, crt), (ce_key C, ky), (ce_caFile C, ca)])"

lemma injectService_Ok:
  assumes "injectService E C ca app svc st = Ok st'"
  shows "ij_volumes st' = ij_volumes st @ [certVol C app svc]
    \<and> ij_services st' = ij_services st @ [certMount C app svc]
    \<and> (\<exists>s. ij_secs st' = mput (certSecret C app svc) s (ij_secs st) \<and> carriesCert E C ca app svc s)"
  using assms unfolding injectService_def
  by (auto simp: rbind_Ok_iff Let_def certVol_def certMount_def carriesCert_def)

lemma injectServices_Ok:
  assumes "rfor (injectService E C ca app) svcs st = Ok st'"
    and "distinct (map (certSecret C app) svcs)"
  shows "ij_volumes st' = ij_volumes st @ map (certVol C app) svcs
    \<and> ij_services st' = ij_services st @ map (certMount C app) svcs
    \<and> (\<forall>k. k \<notin> certSecret C app ` set svcs \<longrightarrow> mget (ij_secs st') k = mget (ij_secs st) k)
    \<and> (\<forall>svc \<in> set svcs. \<exists>s. mget (ij_secs st') (certSecret C app svc) = Some s \<and> carriesCert E C ca app svc s)"
  using assms
proof (induction svcs arbitrary: st)
  case Nil
  then show ?case by simp
next
  case (Cons svc svcs)
  from Cons.prems(1) obtain sm where one: "injectService E C ca app svc st = Ok sm"
    and rest: "rfor (injectService E C ca app) svcs sm = Ok st'"
    by (auto simp: rbind_Ok_iff)
  from injectService_Ok[OF one] obtain s where
    vols: "ij_volumes sm = ij_volumes st @ [certVol C app svc]"
    and svcs: "ij_services sm = ij_services st @ [certMount C app svc]"
    and secs: "ij_secs sm = mput (certSecret C app svc) s (ij_secs st)"
    and cert: "carriesCert E C ca app svc s" by auto
  from Cons.prems(2) have new: "certSecret C app svc \<notin> certSecret C app ` set svcs"
    and dist: "distinct (map (certSecret C app) svcs)" by auto
  note IH = Cons.IH[OF rest dist]
  from IH new secs have "mget (ij_secs st') (certSecret C app svc) = Some s"
    by (simp add: map_simps)
  with IH vols svcs secs cert show ?case by (simp add: map_simps)
qed

text \<open>
  Every service gets its certificate: when \<open>injectCert\<close> succeeds on an application whose
  services have different certificate secrets (different digests), every service has gained one
  read-only mount of its own certificate volume, the application one secret volume per service,
  and the secrets handed to the platform hold, under the name of that volume, the certificate and
  key issued for exactly this service and the authority's certificate; every other secret is
  passed on unchanged.
\<close>

theorem cert_injected:
  assumes "injectCert E C app secs = Ok (app', secs')"
    and "distinct (map (certSecret C app) (app_services app))"
  shows "app_services app' = map (certMount C app) (app_services app)
    \<and> app_volumes app' = app_volumes app @ map (certVol C app) (app_services app)
    \<and> (\<forall>k. k \<notin> certSecret C app ` set (app_services app) \<longrightarrow> mget secs' k = mget secs k)
    \<and> (\<exists>ca. ce_ca C = Ok ca \<and> (\<forall>svc \<in> set (app_services app).
         \<exists>s. mget secs' (certSecret C app svc) = Some s \<and> carriesCert E C ca app svc s))"
proof -
  from assms(1) obtain ca st where ca: "ce_ca C = Ok ca"
    and loop: "rfor (injectService E C ca app) (app_services app)
        \<lparr>ij_volumes = app_volumes app, ij_services = [], ij_secs = secs\<rparr> = Ok st"
    and res: "app' = app\<lparr>app_volumes := ij_volumes st, app_services := ij_services st\<rparr>" "secs' = ij_secs st"
    by (auto simp: injectCert_def rbind_Ok_iff)
  from injectServices_Ok[OF loop assms(2)] ca show ?thesis by (simp add: res)
qed

definition sample_ca :: cert_ops where
  "sample_ca = \<lparr>ce_ca = Ok ''CA'', ce_issue = (\<lambda>cn dns. Ok (''crt '' @ cn, ''key '' @ cn)),
     ce_md5 = (\<lambda>s. s), ce_path = ''/var/lib/baetyl/system/certs'', ce_crt = ''crt.pem'',
     ce_key = ''key.pem'', ce_caFile = ''ca.pem''\<rparr>"

theorem cert_injected_witness:
  "\<exists>app' secs' s. injectCert sample_env sample_ca
      (zero_application\<lparr>app_name := ''a'', app_services := [zero_service\<lparr>svc_name := ''s''\<rparr>]\<rparr>) [] = Ok (app', secs')
    \<and> mget secs' ''baetyl-cert-secret-a.s'' = Some s
    \<and> carriesCert sample_env sample_ca ''CA''
        (zero_application\<lparr>app_name := ''a'', app_services := [zero_service\<lparr>svc_name := ''s''\<rparr>]\<rparr>)
        (zero_service\<lparr>svc_name := ''s''\<rparr>) s"
proof -
  let ?app = "zero_application\<lparr>app_name := ''a'', app_services := [zero_service\<lparr>svc_name := ''s''\<rparr>]\<rparr>"
  obtain app' secs' where i: "injectCert sample_env sample_ca ?app [] = Ok (app', secs')"
    by (simp add: injectCert_def injectService_def sample_ca_def Let_def)
  have "certSecret sample_ca ?app (zero_service\<lparr>svc_name := ''s''\<rparr>) = ''baetyl-cert-secret-a.s''"
    by (simp add: certSecret_def sample_ca_def zero_application_def)
  with cert_injected[OF i] i show ?thesis by (auto simp: zero_application_def sample_ca_def)
qed

section \<open>A successful application\<close>

lemma onSync_store_frame:
  assumes "onSync (onStore f) st = (r, st')"
  shows "\<exists>s. f (storeOf st) = (r, s) \<and> storeOf st' = s \<and> es_ami st' = es_ami st \<and> ss_fs (es_sync st') = ss_fs (es_sync st)"
  using assms by (auto simp: onSync_def onStore_def Let_def split: prod.splits)

lemma prepareFor_store: "storeOf (snd (prepareFor P app cfgs st)) = storeOf st"
  by (simp add: prepareFor_def Let_def split: prod.splits)

lemma withCert_keys:
  assumes "withCert P app secs = Ok (app', secs')"
  shows "keys secs \<subseteq> keys secs'"
proof -
  have inj: "keys secs \<subseteq> keys secs'" if i: "injectCert E C app secs = Ok (app', secs')" for E C
  proof -
    from i obtain ca st where loop: "rfor (injectService E C ca app) (app_services app)
        \<lparr>ij_volumes = app_volumes app, ij_services = [], ij_secs = secs\<rparr> = Ok st" and res: "secs' = ij_secs st"
      by (auto simp: injectCert_def rbind_Ok_iff)
    have "keys secs \<subseteq> keys (ij_secs st)"
    proof (rule rfor_inv[OF loop, where I = "\<lambda>st. keys secs \<subseteq> keys (ij_secs st)"])
      fix svc st st'
      assume "keys secs \<subseteq> keys (ij_secs st)" and "injectService E C ca app svc st = Ok st'"
      with injectService_Ok[OF this(2)] show "keys secs \<subseteq> keys (ij_secs st')"
        unfolding keys_dom by (auto simp: map_simps)
    qed simp
    with res show ?thesis by simp
  qed
  with assms show ?thesis by (auto simp: withCert_def split: option.splits if_splits)
qed

text \<open>The steps of a successful \<open>applyApp\<close>: the platform is called once, and the store is the one read.\<close>

lemma applyApp_Ok:
  assumes "applyApp P ns info st = (Ok (), st')"
  obtains s app s2 cs s3 prepared as where
    "s = ss_store (snd (SyncResource (ep_env P) (ep_os P) (ep_dl P) (ep_link P) (en_ops (ep_store P)) (ep_download P)
        (ep_rngI P) (ep_rngA P) info (es_sync st)))"
    "b_get (st_app (en_ops (ep_store P))) s (app_key (ep_env P) (ai_name info) (ai_version info)) = Ok app"
    "rfor (loadVolume (ep_env P) (en_ops (ep_store P)) (storeOf s2)) (app_volumes app) ([], []) = Ok cs"
    "prepareFor P app (fst cs) s2 = (Ok prepared, s3)" "withCert P prepared (snd cs) = Ok as"
    "am_apply (ep_ami P) ns (fst as) (fst cs) (snd as) (es_ami st) = (Ok (), es_ami st')" "storeOf st' = storeOf s2"
    "ss_fs (es_sync s2) = ss_fs (snd (SyncResource (ep_env P) (ep_os P) (ep_dl P) (ep_link P) (en_ops (ep_store P)) (ep_download P)
        (ep_rngI P) (ep_rngA P) info (es_sync st)))"
proof -
  define E where "E = ep_env P"
  define S where "S = en_ops (ep_store P)"
  from assms obtain u1 u2 :: unit and s1 app s2 cs s3 prepared as where
      sync: "onSync (SyncResource E (ep_os P) (ep_dl P) (ep_link P) S (ep_download P) (ep_rngI P) (ep_rngA P) info) st = (Ok u1, s1)"
    and app: "b_get (st_app S) (storeOf s1) (app_key E (ai_name info) (ai_version info)) = Ok app"
    and custom: "(case customNsOf E app of None \<Rightarrow> (Ok (), s1)
        | Some cns \<Rightarrow> onSync (onStore (recordCustom (ep_store P) info cns)) s1) = (Ok u2, s2)"
    and load: "rfor (loadVolume E S (storeOf s2)) (app_volumes app) ([], []) = Ok cs"
    and prep: "prepareFor P app (fst cs) s2 = (Ok prepared, s3)"
    and cert: "withCert P prepared (snd cs) = Ok as"
    and call: "onAmi (am_apply (ep_ami P) ns (fst as) (fst cs) (snd as)) s3 = (Ok (), st')"
    unfolding applyApp_def Let_def sbind_Ok_iff E_def[symmetric] S_def[symmetric]
    by (elim exE conjE) (simp only: prod.inject, blast)
  have "es_ami s1 = es_ami st"
    using on_ami(1)[of "SyncResource E (ep_os P) (ep_dl P) (ep_link P) S (ep_download P) (ep_rngI P) (ep_rngA P) info" st]
    unfolding sync by simp
  moreover have s2: "es_ami s2 = es_ami s1 \<and> ss_fs (es_sync s2) = ss_fs (es_sync s1)"
  proof (cases "customNsOf E app")
    case None
    with custom show ?thesis by simp
  next
    case (Some cns)
    with custom have "onSync (onStore (recordCustom (ep_store P) info cns)) s1 = (Ok u2, s2)" by simp
    from onSync_store_frame[OF this] show ?thesis by blast
  qed
  moreover have "es_ami s3 = es_ami s2" using prep prepareFor_ami[of P app "fst cs" s2] by simp
  ultimately have a: "es_ami s3 = es_ami st" by simp
  obtain r t where t: "am_apply (ep_ami P) ns (fst as) (fst cs) (snd as) (es_ami s3) = (r, t)" by (rule prod.exhaust)
  with call have "r = Ok ()" and "st' = s3\<lparr>es_ami := t\<rparr>" by (simp_all add: onAmi_def)
  with t a have st': "am_apply (ep_ami P) ns (fst as) (fst cs) (snd as) (es_ami st) = (Ok (), es_ami st')"
    and "storeOf st' = storeOf s3" by simp_all
  moreover have "storeOf s3 = storeOf s2" using prep prepareFor_store[of P app "fst cs" s2] by simp
  moreover have "storeOf s1 = ss_store (snd (SyncResource E (ep_os P) (ep_dl P) (ep_link P) S (ep_download P)
        (ep_rngI P) (ep_rngA P) info (es_sync st)))"
    and fs: "ss_fs (es_sync s1) = ss_fs (snd (SyncResource E (ep_os P) (ep_dl P) (ep_link P) S (ep_download P)
        (ep_rngI P) (ep_rngA P) info (es_sync st)))"
    using sync by (auto simp: onSync_def split: prod.splits)
  ultimately show thesis
    using that[of "storeOf s1" app s2 cs prepared s3 as] app load prep cert s2 fs unfolding E_def S_def by simp
qed

text \<open>\<open>prepareFor\<close> depends on the file system only.\<close>

lemma prepareFor_fs:
  "ss_fs (es_sync st) = ss_fs (es_sync st') \<Longrightarrow> fst (prepareFor P app cfgs st) = fst (prepareFor P app cfgs st')"
  by (simp add: prepareFor_def Let_def split: prod.split)

text \<open>
  C16. What is handed to the platform is complete: when \<open>applyApp\<close> succeeds, the platform accepted
  exactly one application, the one that the store holds after the synchronisation under the name and
  version of the info, prepared on the files the synchronisation left and with its certificates. With
  it went a map of configurations and one of secrets. Before the certificates are added, each of the
  two maps holds every value the volumes of the application refer to, under its stored name, and every
  value in it is the one stored for such a volume.
\<close>

theorem apply_complete:
  assumes "applyApp P ns info st = (Ok (), st')"
    and "y = snd (SyncResource (ep_env P) (ep_os P) (ep_dl P) (ep_link P) (en_ops (ep_store P)) (ep_download P)
      (ep_rngI P) (ep_rngA P) info (es_sync st))"
  shows "\<exists>app cfgs secs prepared app' secs'.
      b_get (st_app (en_ops (ep_store P))) (ss_store y) (app_key (ep_env P) (ai_name info) (ai_version info)) = Ok app
    \<and> (\<forall>v \<in> set (app_volumes app). vol_config v \<noteq> None \<longrightarrow>
        (\<exists>x. configOf (ep_env P) (en_ops (ep_store P)) (storeOf st') v x \<and> cfg_name x \<in> keys cfgs))
    \<and> (\<forall>n x. mget cfgs n = Some x \<longrightarrow> cfg_name x = n \<and>
        (\<exists>v \<in> set (app_volumes app). configOf (ep_env P) (en_ops (ep_store P)) (storeOf st') v x))
    \<and> (\<forall>v \<in> set (app_volumes app). vol_config v = None \<longrightarrow> vol_secret v \<noteq> None \<longrightarrow>
        (\<exists>x. secretOf (ep_env P) (en_ops (ep_store P)) (storeOf st') v x \<and> sec_name x \<in> keys secs \<and> sec_name x \<in> keys secs'))
    \<and> (\<forall>n x. mget secs n = Some x \<longrightarrow> sec_name x = n \<and>
        (\<exists>v \<in> set (app_volumes app). secretOf (ep_env P) (en_ops (ep_store P)) (storeOf st') v x))
    \<and> fst (prepareFor P app cfgs (st\<lparr>es_sync := y\<rparr>)) = Ok prepared \<and> withCert P prepared secs = Ok (app', secs')
    \<and> am_apply (ep_ami P) ns app' cfgs secs' (es_ami st) = (Ok (), es_ami st')"
proof -
  obtain s app s2 cs s3 prepared as where s: "s = ss_store y" and run:
      "b_get (st_app (en_ops (ep_store P))) s (app_key (ep_env P) (ai_name info) (ai_version info)) = Ok app"
      "rfor (loadVolume (ep_env P) (en_ops (ep_store P)) (storeOf s2)) (app_volumes app) ([], []) = Ok cs"
      "prepareFor P app (fst cs) s2 = (Ok prepared, s3)" "withCert P prepared (snd cs) = Ok as"
      "am_apply (ep_ami P) ns (fst as) (fst cs) (snd as) (es_ami st) = (Ok (), es_ami st')" "storeOf st' = storeOf s2"
    and fs: "ss_fs (es_sync s2) = ss_fs y"
    unfolding assms(2) by (rule applyApp_Ok[OF assms(1)])
  have ks: "keys (snd cs) \<subseteq> keys (snd as)"
    using withCert_keys[of P prepared "snd cs" "fst as" "snd as"] run(4) by simp
  show ?thesis
    unfolding run(6)
  proof (intro exI conjI)
    show "b_get (st_app (en_ops (ep_store P))) (ss_store y) (app_key (ep_env P) (ai_name info) (ai_version info)) = Ok app"
      using run(1) unfolding s .
    show "\<forall>v \<in> set (app_volumes app). vol_config v \<noteq> None \<longrightarrow>
        (\<exists>x. configOf (ep_env P) (en_ops (ep_store P)) (storeOf s2) v x \<and> cfg_name x \<in> keys (fst cs))"
      using rfor_loadVolume_configs[OF run(2)] by blast
    show "\<forall>n x. mget (fst cs) n = Some x \<longrightarrow> cfg_name x = n \<and>
        (\<exists>v \<in> set (app_volumes app). configOf (ep_env P) (en_ops (ep_store P)) (storeOf s2) v x)"
      using rfor_loadVolume_only[OF run(2)] by simp
    show "\<forall>v \<in> set (app_volumes app). vol_config v = None \<longrightarrow> vol_secret v \<noteq> None \<longrightarrow>
        (\<exists>x. secretOf (ep_env P) (en_ops (ep_store P)) (storeOf s2) v x \<and> sec_name x \<in> keys (snd cs) \<and> sec_name x \<in> keys (snd as))"
      using rfor_loadVolume_secrets[OF run(2)] ks by blast
    show "\<forall>n x. mget (snd cs) n = Some x \<longrightarrow> sec_name x = n \<and>
        (\<exists>v \<in> set (app_volumes app). secretOf (ep_env P) (en_ops (ep_store P)) (storeOf s2) v x)"
      using rfor_loadVolume_secrets_only[OF run(2)] by simp
    have "fst (prepareFor P app (fst cs) (st\<lparr>es_sync := y\<rparr>)) = fst (prepareFor P app (fst cs) s2)"
      by (rule prepareFor_fs) (simp add: fs)
    then show "fst (prepareFor P app (fst cs) (st\<lparr>es_sync := y\<rparr>)) = Ok prepared" by (simp add: run(3))
    show "withCert P prepared (snd cs) = Ok (fst as, snd as)" by (simp add: run(4))
  qed (rule run(5))
qed

section \<open>Request parameters\<close>

lemma validOne_range: "validOne what s = Ok n \<Longrightarrow> 0 \<le> n \<and> n < 2 ^ 63"
  by (auto simp: validOne_def ParseInt64_def Let_def rbind_Ok_iff split: if_splits option.splits prod.splits)

lemma validOne_dec:
  assumes "0 \<le> n" and "n < 2 ^ 63"
  shows "validOne what (dec n) = Ok n"
  using ParseInt64_dec[OF assms] assms(1) by (simp add: validOne_def dec_def dec_nat_nonempty)

text \<open>
  The parameters of a log request: whatever text a client sends, the two numbers passed to
  the platform are never negative and fit an int64; every such pair written in decimal is
  accepted as it is; and a missing parameter counts as zero.
\<close>

theorem valid_param:
  "(validParam t s = Ok (n, m) \<longrightarrow> 0 \<le> n \<and> n < 2 ^ 63 \<and> 0 \<le> m \<and> m < 2 ^ 63)
   \<and> (0 \<le> n \<and> n < 2 ^ 63 \<and> 0 \<le> m \<and> m < 2 ^ 63 \<longrightarrow> validParam (dec n) (dec m) = Ok (n, m))
   \<and> validParam [] [] = Ok (0, 0)"
proof (intro conjI impI)
  assume "validParam t s = Ok (n, m)"
  then have "validOne ''tailLines'' t = Ok n" "validOne ''sinceSeconds'' s = Ok m"
    by (auto simp: validParam_def rbind_Ok_iff)
  then show "0 \<le> n" "n < 2 ^ 63" "0 \<le> m" "m < 2 ^ 63"
    using validOne_range by blast+
next
  assume "0 \<le> n \<and> n < 2 ^ 63 \<and> 0 \<le> m \<and> m < 2 ^ 63"
  then show "validParam (dec n) (dec m) = Ok (n, m)"
    by (simp add: validParam_def validOne_dec)
next
  show "validParam [] [] = Ok (0, 0)" by (simp add: validParam_def validOne_def)
qed

section \<open>Witnesses\<close>

theorem valid_param_witness: "validParam (dec 20) (dec 0) = Ok (20, 0)"
  using valid_param[of "[]" "[]" 20 0] by simp

text \<open>A platform that keeps the names of what runs.\<close>

definition list_ami :: "string list ami_ops" where
  "list_ami = \<lparr>am_nodeInfo = (\<lambda>_. Ok JNull), am_nodeStats = (\<lambda>_. Ok JNull), am_modeInfo = (\<lambda>_. Ok JNull),
     am_stats = (\<lambda>_ a. (map (\<lambda>n. zero_app_stats\<lparr>as_name := n, as_version := ''1''\<rparr>) a, Ok ())),
     am_apply = (\<lambda>_ app _ _ a. (Ok (), app_name app # a)),
     am_delete = (\<lambda>_ i a. (Ok (), filter (\<lambda>n. n \<noteq> ai_name i) a)),
     am_log = (\<lambda>_ _ _ _ _ _. Ok [])\<rparr>"

text \<open>The engine on a given platform, with the stores and links of the components below it.\<close>

definition params_on :: "'a ami_ops \<Rightarrow> (mem_store, string option, unit, 'a) engine_params" where
  "params_on A = \<lparr>ep_env = sample_env, ep_os = good_os, ep_dl = echo_dl, ep_link = sync_link,
     ep_store = \<lparr>en_ops = mem_ops, en_getCustom = (\<lambda>_. Err ''none''), en_putCustom = (\<lambda>_ s. (Ok (), s))\<rparr>,
     ep_bolt = mem_bolt, ep_spec = unary_codec, ep_ami = A, ep_cert = Some sample_ca,
     ep_download = ''/obj'', ep_hostPath = ''/host'', ep_objectPath = ''/obj'',
     ep_encode = (\<lambda>_ _ _ _ _ _. [(''apps'', JNull)]),
     ep_deltaApps = (\<lambda>_ _. Some [\<lparr>ai_name = ''a'', ai_version = ''1''\<rparr>]),
     ep_rngI = rev, ep_rngA = rev, ep_rngP = rev, ep_rngU = rev, ep_rngS = rev\<rparr>"

lemma params_on_simps:
  "ep_env (params_on A) = sample_env" "ep_ami (params_on A) = A" "ep_rngU (params_on A) = rev"
  "ep_deltaApps (params_on A) = (\<lambda>_ _. Some [\<lparr>ai_name = ''a'', ai_version = ''1''\<rparr>])"
  "ep_os (params_on A) = good_os" "ep_dl (params_on A) = echo_dl" "ep_link (params_on A) = sync_link"
  "en_ops (ep_store (params_on A)) = mem_ops" "ep_download (params_on A) = ''/obj''"
  "ep_rngI (params_on A) = rev" "ep_rngA (params_on A) = rev" "ep_cert (params_on A) = Some sample_ca"
  "ep_hostPath (params_on A) = ''/host''" "ep_objectPath (params_on A) = ''/obj''"
  "ep_bolt (params_on A) = mem_bolt" "ep_spec (params_on A) = unary_codec" "ep_rngP (params_on A) = rev"
  "ep_rngS (params_on A) = rev"
  by (simp_all add: params_on_def)

definition sample_params :: "(mem_store, string option, unit, string list) engine_params" where
  "sample_params = params_on list_ami"

lemma sample_params_simps:
  "ep_env sample_params = sample_env" "ep_ami sample_params = list_ami" "ep_rngU sample_params = rev"
  "ep_deltaApps sample_params = (\<lambda>_ _. Some [\<lparr>ai_name = ''a'', ai_version = ''1''\<rparr>])"
  "ep_os sample_params = good_os" "ep_dl sample_params = echo_dl" "ep_link sample_params = sync_link"
  "en_ops (ep_store sample_params) = mem_ops" "ep_download sample_params = ''/obj''"
  "ep_rngI sample_params = rev" "ep_rngA sample_params = rev" "ep_cert sample_params = Some sample_ca"
  "ep_hostPath sample_params = ''/host''" "ep_objectPath sample_params = ''/obj''"
  by (simp_all add: sample_params_def params_on_simps)

lemma sample_desired: "serviceFilter sample_env [\<lparr>ai_name = ''a'', ai_version = ''1''\<rparr>] =
    [\<lparr>ai_name = ''a'', ai_version = ''1''\<rparr>]"
  by (simp add: serviceFilter_def sample_env_def filterAppNotLike_filter)

theorem never_deletes_desired_witness:
  "''a'' \<in> set (es_ami (snd (reportAndApply sample_params False True (\<lambda>_. None)
     \<lparr>es_sync = sync_start, es_db = stored sample_doc, es_ami = [''a'', ''b'']\<rparr>)))"
  by (rule never_deletes_desired[where runs = "\<lambda>n a. n \<in> set a"])
    (auto simp: sample_params_simps sample_desired range_ok_rev list_ami_def appliesKeep_def deletesKeep_def)

definition sample_state :: "(mem_store, string option, unit, string list) engine_state" where
  "sample_state = \<lparr>es_sync = sync_start, es_db = None, es_ami = []\<rparr>"

lemma sample_injected: "withCert (params_on A) sync_app [] = Ok (sync_app, [])"
  by (simp add: withCert_def params_on_simps injectCert_def sync_app_def zero_application_def
      sample_env_def sample_ca_def)

lemma sample_applied:
  assumes "es_sync st = sync_start"
    and "am_apply A ns sync_app [(''c'', sync_cfg)] [] (es_ami st) = (Ok (), a)"
  shows "applyApp (params_on A) ns \<lparr>ai_name = ''a'', ai_version = ''1''\<rparr> st =
    (Ok (), st\<lparr>es_sync := sync_end, es_ami := a\<rparr>)"
proof -
  have key: "app_key sample_env ''a'' ''1'' = ''application-a-1''" "cfg_key sample_env ''c'' ''1'' = ''configuration-c-1''"
    by (simp_all add: utils_key.mk_total sample_env_def)
  have custom: "customNsOf sample_env sync_app = None"
    by (simp add: customNsOf_def sync_app_def zero_application_def)
  have load: "rfor (loadVolume sample_env mem_ops (ss_store sync_end)) (app_volumes sync_app) ([], []) =
      Ok ([(''c'', sync_cfg)], [])"
    by (simp add: sync_app_parts loadVolume_def zero_volume_def key mem_simps sync_end_def sync_cfg_plain)
  have prep: "PrepareApp sample_env good_os ''/host'' ''/obj'' (Some sync_app) [(''c'', sync_cfg)] [] =
      (Ok (), (Some sync_app, []))"
    by (simp add: PrepareApp_def sync_app_def zero_application_def prepVolume_def zero_volume_def sync_cfg_plain)
  have fs: "ss_fs sync_end = []" "ss_fs_update (\<lambda>_. []) sync_end = sync_end" by (simp_all add: sync_end_def)
  have app: "b_get (st_app mem_ops) (ss_store sync_end) ''application-a-1'' = Ok sync_app"
    by (simp add: mem_simps sync_end_def)
  show ?thesis
    by (simp add: applyApp_def params_on_simps onSync_def onAmi_def sync_done key app custom load
        prepareFor_def prep fs sample_injected assms)
qed

theorem apply_complete_witness:
  "\<exists>app cfgs secs. app_name app = ''a'' \<and>
     am_apply list_ami ''ns'' app cfgs secs (es_ami sample_state) = (Ok (), [''a''])"
proof -
  have "applyApp sample_params ''ns'' \<lparr>ai_name = ''a'', ai_version = ''1''\<rparr> sample_state =
      (Ok (), sample_state\<lparr>es_sync := sync_end, es_ami := [''a'']\<rparr>)"
    unfolding sample_params_def by (rule sample_applied) (simp_all add: sample_state_def list_ami_def sync_app_parts)
  from apply_complete[OF this refl] show ?thesis
    unfolding sample_params_simps by (auto simp: list_ami_def)
qed

end
