(* ===== verification/Engine_Handler.thy ===== *)
theory Engine_Handler
  imports Sync_Report
begin

text \<open>
  Remote commands: the downside handler of the engine (\<^verbatim>\<open>engine/msg_handler.go\<close>) and the chains it
  opens for remote debugging and log viewing (\<^verbatim>\<open>chain/\<close>). State: the table of open chains, the
  message bus as the list of published messages in order and the list of subscribed topics. What
  the platform (\<^verbatim>\<open>ami\<close>), the codec, the agent and the bus answer is the argument \<open>handler_ops\<close>.
\<close>

section \<open>State and interfaces\<close>

datatype command = Connect | Logs | Disconnect | NodeLabel | MultiNodeLabels | RPC | Agent
  | RPCMqtt | Describe

record rpc_request =
  rq_app :: string
  rq_system :: bool
  rq_params :: string

record chain =
  ch_token :: string
  ch_namespace :: string
  ch_name :: string
  ch_container :: string
  ch_host :: string
  ch_path :: string
  ch_port :: string
  ch_user :: string
  ch_password :: string
  ch_downside :: string

record handler_state =
  hs_chains :: "(string, chain) gomap"
  hs_out :: "(string \<times> message) list"
  hs_subs :: "string list"

record handler_ops =
  ho_command :: "string \<Rightarrow> command option"                 \<comment> \<open>the v1.Message constants\<close>
  ho_publish :: "(string \<times> message) list \<Rightarrow> string \<Rightarrow> message \<Rightarrow> string option"
  ho_subscribe :: "string \<Rightarrow> string option"
  ho_unsubscribe :: "string \<Rightarrow> string option"
  ho_start :: "chain \<Rightarrow> string option"                      \<comment> \<open>tomb.Go\<close>
  ho_labels :: "payload \<Rightarrow> (string, string) gomap result"
  ho_multiLabels :: "payload \<Rightarrow> (string, (string, string) gomap) gomap result"
  ho_request :: "payload \<Rightarrow> rpc_request result"
  ho_logOptions :: "payload \<Rightarrow> unit result"
  ho_bytes :: "payload \<Rightarrow> string result"
  ho_updateLabels :: "string \<Rightarrow> (string, string) gomap \<Rightarrow> unit result"
  ho_rpc :: "string \<Rightarrow> rpc_request \<Rightarrow> json result"
  ho_describe :: "string \<Rightarrow> string \<Rightarrow> string \<Rightarrow> string result"
  ho_agent :: "(string \<Rightarrow> bool result) option"

text \<open>\<^verbatim>\<open>m.Metadata[k]\<close>: the empty text where there is no entry.\<close>

definition meta :: "message \<Rightarrow> string \<Rightarrow> string" where
  "meta m k = (case mget (m_meta m) k of Some v \<Rightarrow> v | None \<Rightarrow> [])"

text \<open>
  A call of \<^verbatim>\<open>pb.Publish\<close>: the message is entered among those handed to the bus, also when the bus
  refuses it, as \<open>ho_publish\<close> decides. The callers only log a refusal.
\<close>

definition pubMsg :: "handler_ops \<Rightarrow> string \<Rightarrow> message \<Rightarrow> handler_state \<Rightarrow> unit result \<times> handler_state" where
  "pubMsg H topic msg st =
     ((case ho_publish H (hs_out st) topic msg of None \<Rightarrow> Ok () | Some e \<Rightarrow> Err e),
      st\<lparr>hs_out := hs_out st @ [(topic, msg)]\<rparr>)"

definition pubLogged :: "handler_ops \<Rightarrow> string \<Rightarrow> message \<Rightarrow> handler_state \<Rightarrow> handler_state" where
  "pubLogged H topic msg st = snd (pubMsg H topic msg st)"

definition failedMsg :: "string \<Rightarrow> message \<Rightarrow> message" where
  "failedMsg reason m = \<lparr>m_kind = MessageCMD,
     m_meta = [(''success'', ''false''), (''msg'', reason), (''token'', meta m ''token'')], m_content = NoContent\<rparr>"

definition publishFailedMsg :: "handler_ops \<Rightarrow> string \<Rightarrow> message \<Rightarrow> handler_state \<Rightarrow> handler_state" where
  "publishFailedMsg H reason m st = pubLogged H TopicUpside (failedMsg reason m) st"

definition successMsg :: "msg_kind \<Rightarrow> (string \<times> string) list \<Rightarrow> payload \<Rightarrow> message \<Rightarrow> message" where
  "successMsg knd extra content m = \<lparr>m_kind = knd,
     m_meta = [(''success'', ''true''), (''token'', meta m ''token'')] @ extra, m_content = content\<rparr>"

definition publishSuccessMsg :: "handler_ops \<Rightarrow> message \<Rightarrow> handler_state \<Rightarrow> handler_state" where
  "publishSuccessMsg H m st = pubLogged H TopicUpside (successMsg MessageCMD [] NoContent m) st"

text \<open>The reply after an error, and the error itself.\<close>

definition failReply :: "handler_ops \<Rightarrow> string \<Rightarrow> string \<Rightarrow> message \<Rightarrow> handler_state \<Rightarrow> unit result \<times> handler_state" where
  "failReply H reason err m st = (Err err, publishFailedMsg H reason m st)"

text \<open>\<^verbatim>\<open>if err != nil { publishFailedMsg(err.Error()); return err }\<close>\<close>

fun orFail :: "handler_ops \<Rightarrow> message \<Rightarrow> 'a result \<Rightarrow> handler_state \<Rightarrow>
    ('a \<Rightarrow> handler_state \<Rightarrow> unit result \<times> handler_state) \<Rightarrow> unit result \<times> handler_state" where
  "orFail H m (Ok x) st k = k x st"
| "orFail H m (Err e) st k = failReply H e e m st"
| "orFail H m (Panic p) st k = (Panic p, st)"

section \<open>Chains\<close>

definition ErrParseData :: string where "ErrParseData = ''failed to parse data''"

definition need :: "(string, string) gomap \<Rightarrow> string \<Rightarrow> (string \<Rightarrow> 'a result) \<Rightarrow> 'a result" where
  "need data k f = (case mget data k of None \<Rightarrow> Err ErrParseData | Some v \<Rightarrow> f v)"

definition downTopic :: "string \<Rightarrow> string" where
  "downTopic key = key @ ''_down''"

definition chainKey :: "string \<Rightarrow> string \<Rightarrow> string \<Rightarrow> string \<Rightarrow> string" where
  "chainKey ns name container token = ns @ ''_'' @ name @ ''_'' @ container @ ''_'' @ token"

text \<open>The options of a new chain from the metadata of the request.\<close>

definition chainOf :: "env \<Rightarrow> (string, string) gomap \<Rightarrow> bool \<Rightarrow> chain result" where
  "chainOf E data needNative =
     need data ''token'' (\<lambda>token. need data ''name'' (\<lambda>name. need data ''namespace'' (\<lambda>namespace.
       let container = (case mget data ''container'' of Some c \<Rightarrow> c | None \<Rightarrow> []);
           c = \<lparr>ch_token = token, ch_namespace = namespace, ch_name = name, ch_container = container,
                ch_host = [], ch_path = [], ch_port = [], ch_user = [], ch_password = [],
                ch_downside = namespace @ ''_'' @ name @ ''_'' @ container @ ''_'' @ token @ ''_'' @ ''down''\<rparr>
       in case mget data ''host'' of
            Some address \<Rightarrow> need data ''path'' (\<lambda>path. Ok (c\<lparr>ch_host := address, ch_path := path\<rparr>))
          | None \<Rightarrow>
              if e_native E \<and> needNative
              then need data ''port'' (\<lambda>port. need data ''userName'' (\<lambda>u. need data ''password'' (\<lambda>p.
                   Ok (c\<lparr>ch_port := port, ch_user := u, ch_password := p\<rparr>))))
              else Ok c)))"

definition NewChain :: "env \<Rightarrow> handler_ops \<Rightarrow> (string, string) gomap \<Rightarrow> bool \<Rightarrow> handler_state \<Rightarrow>
    chain result \<times> handler_state" where
  "NewChain E H data needNative st =
     sbind (chainOf E data needNative, st) (\<lambda>c st.
       case ho_subscribe H (ch_downside c) of
         Some e \<Rightarrow> (Err e, st)
       | None \<Rightarrow> (Ok c, st\<lparr>hs_subs := ch_downside c # hs_subs st\<rparr>))"

text \<open>\<^verbatim>\<open>Close\<close> logs every error and returns nil.\<close>

definition chain_Close :: "handler_ops \<Rightarrow> chain \<Rightarrow> handler_state \<Rightarrow> unit result \<times> handler_state" where
  "chain_Close H c st =
     (Ok (), case ho_unsubscribe H (ch_downside c) of
               Some _ \<Rightarrow> st | None \<Rightarrow> st\<lparr>hs_subs := remove1 (ch_downside c) (hs_subs st)\<rparr>)"

section \<open>Commands\<close>

definition ErrCreateChain :: string where "ErrCreateChain = ''failed to create new chain''"
definition ErrCloseChain :: string where "ErrCloseChain = ''failed to close connected chain''"
definition ErrGetChain :: string where "ErrGetChain = ''failed to get connected chain''"
definition ErrPublishDownsideChain :: string where "ErrPublishDownsideChain = ''failed to publish downside chain''"
definition ErrExecData :: string where "ErrExecData = ''failed to exec''"
definition ErrSubNodeName :: string where "ErrSubNodeName = ''failed to get sub node name''"
definition ErrAgentNotSet :: string where "ErrAgentNotSet = ''failed to request for the not set agent''"
definition ErrTimeout :: string where "ErrTimeout = ''engine timeout''"

definition closeOld :: "handler_ops \<Rightarrow> string \<Rightarrow> handler_state \<Rightarrow> handler_state" where
  "closeOld H key st =
     (case mget (hs_chains st) key of
        None \<Rightarrow> st
      | Some old \<Rightarrow> let st = snd (chain_Close H old st) in st\<lparr>hs_chains := mdel key (hs_chains st)\<rparr>)"

text \<open>The common end of \<^verbatim>\<open>connect\<close> and \<^verbatim>\<open>viewLogs\<close>: create, start and record the chain.\<close>

definition openChain :: "env \<Rightarrow> handler_ops \<Rightarrow> string \<Rightarrow> message \<Rightarrow> bool \<Rightarrow> handler_state \<Rightarrow>
    unit result \<times> handler_state" where
  "openChain E H key m needNative st =
     (case NewChain E H (m_meta m) needNative st of
        (Ok c, st) \<Rightarrow>
          (case ho_start H c of
             Some e \<Rightarrow> failReply H ErrExecData e m st
           | None \<Rightarrow> (Ok (), st\<lparr>hs_chains := mput key c (hs_chains st)\<rparr>))
      | (Err e, st) \<Rightarrow> failReply H ErrCreateChain e m st
      | (Panic p, st) \<Rightarrow> (Panic p, st))"

definition connect :: "env \<Rightarrow> handler_ops \<Rightarrow> string \<Rightarrow> message \<Rightarrow> handler_state \<Rightarrow> unit result \<times> handler_state" where
  "connect E H key m st = openChain E H key m True (closeOld H key st)"

definition viewLogs :: "env \<Rightarrow> handler_ops \<Rightarrow> string \<Rightarrow> message \<Rightarrow> handler_state \<Rightarrow> unit result \<times> handler_state" where
  "viewLogs E H key m st =
     (let st = closeOld H key st
      in orFail H m (ho_logOptions H (m_content m)) st (\<lambda>_ st. openChain E H key m False st))"

definition ExitCmd :: string where
  "ExitCmd = ''exit'' @ [char_of (10::nat)]"

definition exitMsg :: message where
  "exitMsg = \<lparr>m_kind = MessageData, m_meta = [], m_content = Wire ExitCmd\<rparr>"

definition sendExit :: "handler_ops \<Rightarrow> string \<Rightarrow> handler_state \<Rightarrow> handler_state" where
  "sendExit H key st = pubLogged H (downTopic key) exitMsg st"

definition disconnect :: "handler_ops \<Rightarrow> string \<Rightarrow> message \<Rightarrow> handler_state \<Rightarrow> unit result \<times> handler_state" where
  "disconnect H key m st =
     (case mget (hs_chains st) key of
        None \<Rightarrow> (Ok (), st)
      | Some c \<Rightarrow>
          let st = sendExit H key st
          in case chain_Close H c st of
               (Ok _, st) \<Rightarrow> (Ok (), st\<lparr>hs_chains := mdel key (hs_chains st)\<rparr>)
             | (Err e, st) \<Rightarrow> failReply H ErrCloseChain e m st
             | (Panic p, st) \<Rightarrow> (Panic p, st))"

definition nodeLabel :: "handler_ops \<Rightarrow> message \<Rightarrow> handler_state \<Rightarrow> unit result \<times> handler_state" where
  "nodeLabel H m st =
     (case mget (m_meta m) ''subName'' of
        None \<Rightarrow> failReply H ErrSubNodeName ErrSubNodeName m st
      | Some nodeName \<Rightarrow>
          orFail H m (ho_labels H (m_content m)) st (\<lambda>labels st.
          orFail H m (ho_updateLabels H nodeName labels) st (\<lambda>_ st.
          (Ok (), publishSuccessMsg H m st))))"

text \<open>The errors of all nodes, joined by line breaks.\<close>

definition labelErrors :: "handler_ops \<Rightarrow> (string, (string, string) gomap) gomap \<Rightarrow> string list" where
  "labelErrors H ls =
     List.map_filter (\<lambda>nl. case ho_updateLabels H (fst nl) (snd nl) of Err e \<Rightarrow> Some e | _ \<Rightarrow> None) ls"

definition labelMultiNodes :: "handler_ops \<Rightarrow> message \<Rightarrow> handler_state \<Rightarrow> unit result \<times> handler_state" where
  "labelMultiNodes H m st =
     sbind (ho_multiLabels H (m_content m), st) (\<lambda>nodesLabels st.
       let errs = labelErrors H nodesLabels; es = join [char_of (10::nat)] errs
       in if errs \<noteq> [] then failReply H es es m st else (Ok (), publishSuccessMsg H m st))"

definition PrefixHTTP :: string where "PrefixHTTP = ''http://''"
definition PrefixHTTPS :: string where "PrefixHTTPS = ''https://''"

definition assembleUrl :: "rpc_request \<Rightarrow> string" where
  "assembleUrl req =
     (let url = rq_app req;
          url = (if \<not> contains url PrefixHTTP \<and> \<not> contains url PrefixHTTPS
                 then PrefixHTTP @ url @ (if rq_system req then ''.baetyl-edge-system'' else ''.baetyl-edge'')
                 else url)
      in url @ rq_params req)"

definition rpc :: "handler_ops \<Rightarrow> message \<Rightarrow> handler_state \<Rightarrow> unit result \<times> handler_state" where
  "rpc H m st =
     orFail H m (ho_request H (m_content m)) st (\<lambda>request st.
     orFail H m (ho_rpc H (assembleUrl request) request) st (\<lambda>res st.
     (Ok (), pubLogged H TopicUpside (successMsg MessageCMD [] (Value res) m) st)))"

definition rpcMqtt :: "handler_ops \<Rightarrow> message \<Rightarrow> handler_state \<Rightarrow> unit result \<times> handler_state" where
  "rpcMqtt H m st =
     (let (r, st) = pubMsg H TopicEvent m st
      in orFail H m r st (\<lambda>_ st. (Ok (), pubLogged H TopicUpside (successMsg MessageCMD [] NoContent m) st)))"

definition agentControl :: "handler_ops \<Rightarrow> message \<Rightarrow> handler_state \<Rightarrow> unit result \<times> handler_state" where
  "agentControl H m st =
     (case ho_agent H of
        None \<Rightarrow> failReply H ErrAgentNotSet ErrAgentNotSet m st
      | Some agent \<Rightarrow>
          orFail H m (agent (meta m ''action'')) st (\<lambda>res st.
          (Ok (), pubLogged H TopicUpside
             (successMsg MessageCMD [(''stat'', if res then ''true'' else ''false'')] NoContent m) st)))"

definition describe :: "handler_ops \<Rightarrow> message \<Rightarrow> handler_state \<Rightarrow> unit result \<times> handler_state" where
  "describe H m st =
     orFail H m (ho_describe H (meta m ''resourceType'') (meta m ''namespace'') (meta m ''name'')) st (\<lambda>res st.
     (Ok (), pubLogged H TopicUpside (successMsg MessageData [] (Wire res) m) st))"

definition msgKey :: "message \<Rightarrow> string" where
  "msgKey m = chainKey (meta m ''namespace'') (meta m ''name'') (meta m ''container'') (meta m ''token'')"

definition runCommand :: "env \<Rightarrow> handler_ops \<Rightarrow> command \<Rightarrow> message \<Rightarrow> handler_state \<Rightarrow> unit result \<times> handler_state" where
  "runCommand E H cmd m st =
     (case cmd of
        Connect \<Rightarrow> connect E H (msgKey m) m st
      | Logs \<Rightarrow> viewLogs E H (msgKey m) m st
      | Disconnect \<Rightarrow> disconnect H (msgKey m) m st
      | NodeLabel \<Rightarrow> nodeLabel H m st
      | MultiNodeLabels \<Rightarrow> labelMultiNodes H m st
      | RPC \<Rightarrow> rpc H m st
      | Agent \<Rightarrow> agentControl H m st
      | RPCMqtt \<Rightarrow> rpcMqtt H m st
      | Describe \<Rightarrow> describe H m st)"

definition handler_OnMessage :: "env \<Rightarrow> handler_ops \<Rightarrow> message \<Rightarrow> handler_state \<Rightarrow> unit result \<times> handler_state" where
  "handler_OnMessage E H m st =
     (if e_svcName E \<noteq> e_core E then (Ok (), st)
      else case m_kind m of
        MessageCMD \<Rightarrow>
          (case ho_command H (meta m ''cmd'') of
             Some cmd \<Rightarrow> runCommand E H cmd m st | None \<Rightarrow> (Ok (), st))
      | MessageData \<Rightarrow>
          (case mget (hs_chains st) (msgKey m) of
             None \<Rightarrow> failReply H ErrGetChain (ErrGetChain @ msgKey m) m st
           | Some _ \<Rightarrow>
               (case pubMsg H (downTopic (msgKey m)) m st of
                  (Ok _, st) \<Rightarrow> (Ok (), st)
                | (Err e, st) \<Rightarrow> failReply H ErrPublishDownsideChain e m st
                | (Panic p, st) \<Rightarrow> (Panic p, st)))
      | _ \<Rightarrow> (Ok (), st))"

definition handler_OnTimeout :: "handler_ops \<Rightarrow> handler_state \<Rightarrow> unit result \<times> handler_state" where
  "handler_OnTimeout H st = pubMsg H TopicUpside \<lparr>m_kind = MessageCMD,
     m_meta = [(''success'', ''false''), (''msg'', ErrTimeout)], m_content = NoContent\<rparr> st"

section \<open>The handler of one chain\<close>

text \<open>
  \<open>write\<close> is the answer of the pipe into the session; \<open>input\<close> is what was written so far.
  The exit command ends the session: a websocket by its context, a shell by the text itself.
\<close>

definition chainFailed :: "chain \<Rightarrow> string \<Rightarrow> message" where
  "chainFailed c reason = \<lparr>m_kind = MessageData,
     m_meta = [(''success'', ''false''), (''msg'', reason), (''token'', ch_token c)], m_content = NoContent\<rparr>"

record session =
  se_input :: "string list"
  se_cancelled :: bool

definition chain_Cancel :: "(string \<Rightarrow> string option) \<Rightarrow> chain \<Rightarrow> session \<Rightarrow> session" where
  "chain_Cancel write c s =
     (if ch_host c \<noteq> [] then s\<lparr>se_cancelled := True\<rparr>
      else case write ExitCmd of
             Some _ \<Rightarrow> s | None \<Rightarrow> s\<lparr>se_input := se_input s @ [ExitCmd]\<rparr>)"

definition chain_OnMessage :: "handler_ops \<Rightarrow> (string \<Rightarrow> string option) \<Rightarrow> chain \<Rightarrow> message \<Rightarrow>
    session \<times> handler_state \<Rightarrow> unit result \<times> (session \<times> handler_state)" where
  "chain_OnMessage H write c m w =
     (case w of (s, st) \<Rightarrow>
        (case m_kind m of
           MessageData \<Rightarrow>
             (case ho_bytes H (m_content m) of
                Err e \<Rightarrow> (Err e, (s, pubLogged H TopicUpside (chainFailed c ''failed to unmarshal data message'') st))
              | Panic p \<Rightarrow> (Panic p, w)
              | Ok cmd \<Rightarrow>
                  if cmd = ExitCmd then (Ok (), (chain_Cancel write c s, st))
                  else case write cmd of
                         None \<Rightarrow> (Ok (), (s\<lparr>se_input := se_input s @ [cmd]\<rparr>, st))
                       | Some e \<Rightarrow> (Err e, (s, pubLogged H TopicUpside (chainFailed c ''failed to write debug command'') st)))
         | _ \<Rightarrow> (Ok (), w)))"

definition chain_OnTimeout :: "handler_ops \<Rightarrow> chain \<Rightarrow> handler_state \<Rightarrow> unit result \<times> handler_state" where
  "chain_OnTimeout H c st =
     (let st = pubLogged H TopicUpside (chainFailed c ''chain timeout'') st
      in pubMsg H TopicDownside \<lparr>m_kind = MessageCMD,
           m_meta = [(''namespace'', ch_namespace c), (''name'', ch_name c), (''container'', ch_container c),
                     (''token'', ch_token c), (''cmd'', ''disconnect'')], m_content = NoContent\<rparr> st)"

section \<open>The chain table\<close>

lemma downTopic_inj [simp]: "downTopic a = downTopic b \<longleftrightarrow> a = b"
  by (simp add: downTopic_def)

lemma need_Ok: "need data k f = Ok c \<longleftrightarrow> (\<exists>v. mget data k = Some v \<and> f v = Ok c)"
  by (auto simp: need_def split: option.splits)

lemma chainOf_downside:
  assumes "chainOf E (m_meta m) b = Ok c"
  shows "ch_downside c = downTopic (msgKey m)"
  using assms
  by (auto simp: chainOf_def need_Ok Let_def msgKey_def chainKey_def meta_def downTopic_def
      split: option.splits if_splits)

text \<open>
  Every chain of the table listens on the topic of its key, and the topic is subscribed unless the
  chain is one of the \<open>lost\<close> ones.
\<close>

definition tableInv :: "chain set \<Rightarrow> handler_state \<Rightarrow> bool" where
  "tableInv lost st \<longleftrightarrow> (\<forall>k c. mget (hs_chains st) k = Some c \<longrightarrow>
     ch_downside c = downTopic k \<and> (downTopic k \<in> set (hs_subs st) \<or> c \<in> lost))"

lemma tableInvD: "tableInv lost st \<Longrightarrow> mget (hs_chains st) k = Some c \<Longrightarrow>
    ch_downside c = downTopic k \<and> (downTopic k \<in> set (hs_subs st) \<or> c \<in> lost)"
  by (simp add: tableInv_def)

lemma tableInv_mono: "tableInv lost st \<Longrightarrow> lost \<subseteq> lost' \<Longrightarrow> tableInv lost' st"
  by (auto simp: tableInv_def)

lemma table_pub [simp]:
  "hs_chains (snd (pubMsg H t m st)) = hs_chains st" "hs_subs (snd (pubMsg H t m st)) = hs_subs st"
  "hs_chains (pubLogged H t m st) = hs_chains st" "hs_subs (pubLogged H t m st) = hs_subs st"
  "hs_chains (publishFailedMsg H e m st) = hs_chains st" "hs_subs (publishFailedMsg H e m st) = hs_subs st"
  "hs_chains (publishSuccessMsg H m st) = hs_chains st" "hs_subs (publishSuccessMsg H m st) = hs_subs st"
  "hs_chains (sendExit H k st) = hs_chains st" "hs_subs (sendExit H k st) = hs_subs st"
  by (simp_all add: pubMsg_def pubLogged_def publishFailedMsg_def publishSuccessMsg_def sendExit_def)

text \<open>What only publishes keeps the table and the subscriptions.\<close>

definition sameTable :: "handler_state \<Rightarrow> handler_state \<Rightarrow> bool" where
  "sameTable st st' \<longleftrightarrow> hs_chains st' = hs_chains st \<and> hs_subs st' = hs_subs st"

lemma sameTable_inv: "sameTable st st' \<Longrightarrow> tableInv lost st \<Longrightarrow> tableInv lost st'"
  by (simp add: sameTable_def tableInv_def)

lemma orFail_same:
  assumes "\<And>x. r = Ok x \<Longrightarrow> sameTable st (snd (k x st))"
  shows "sameTable st (snd (orFail H m r st k))"
  using assms by (cases r) (simp_all add: failReply_def sameTable_def)

lemma closeOld_inv:
  assumes "tableInv lost st"
  shows "tableInv lost (closeOld H key st)" and "mget (hs_chains (closeOld H key st)) key = None"
proof -
  show "mget (hs_chains (closeOld H key st)) key = None"
    by (auto simp: closeOld_def chain_Close_def map_simps Let_def split: option.split)
  show "tableInv lost (closeOld H key st)"
    using assms
    by (auto simp: tableInv_def closeOld_def chain_Close_def map_simps Let_def split: option.splits if_splits)
qed

lemma openChain_inv:
  assumes "tableInv lost st"
  shows "tableInv lost (snd (openChain E H (msgKey m) m b st))"
proof (cases "NewChain E H (m_meta m) b st")
  case (Pair r st1)
  have st1: "r = Ok c \<Longrightarrow> ch_downside c = downTopic (msgKey m) \<and>
      st1 = st\<lparr>hs_subs := downTopic (msgKey m) # hs_subs st\<rparr>" for c
    using Pair chainOf_downside[of E m b]
    by (cases "chainOf E (m_meta m) b") (auto simp: NewChain_def split: option.splits)
  have fail: "\<not> is_ok r \<Longrightarrow> st1 = st"
  proof (cases "chainOf E (m_meta m) b")
    case (Ok c)
    assume "\<not> is_ok r"
    moreover have "NewChain E H (m_meta m) b st = (case ho_subscribe H (ch_downside c) of
         Some e \<Rightarrow> (Err e, st) | None \<Rightarrow> (Ok c, st\<lparr>hs_subs := ch_downside c # hs_subs st\<rparr>))"
      by (simp add: NewChain_def Ok)
    ultimately show ?thesis
      using Pair by (cases "ho_subscribe H (ch_downside c)") (metis is_ok.simps(1) option.simps(4) Pair_inject,
        simp)
  qed (use Pair in \<open>simp_all add: NewChain_def\<close>)
  show ?thesis
  proof (cases r)
    case (Ok c)
    with st1[OF Ok] assms Pair show ?thesis
      by (auto simp: openChain_def failReply_def tableInv_def map_simps split: option.split)
  qed (use fail assms Pair in \<open>simp_all add: openChain_def failReply_def tableInv_def\<close>)
qed

lemma disconnect_inv:
  assumes "tableInv lost st"
  shows "tableInv lost (snd (disconnect H key m st))"
proof (cases "mget (hs_chains st) key")
  case None
  with assms show ?thesis by (simp add: disconnect_def)
next
  case (Some c)
  with tableInvD[OF assms] have "ch_downside c = downTopic key" by blast
  with Some assms show ?thesis
    by (auto simp: disconnect_def chain_Close_def tableInv_def map_simps Let_def split: option.splits)
qed

lemma runCommand_inv:
  assumes "tableInv lost st"
  shows "tableInv lost (snd (runCommand E H cmd m st))"
proof -
  have "sameTable st (snd (orFail H m (ho_labels H (m_content m)) st (\<lambda>labels st.
          orFail H m (ho_updateLabels H n labels) st (\<lambda>_ st. (Ok (), publishSuccessMsg H m st)))))" for n
    by (rule orFail_same, rule orFail_same) (simp add: sameTable_def)
  then have same1: "sameTable st (snd (nodeLabel H m st))"
    by (cases "mget (m_meta m) ''subName''") (simp_all add: nodeLabel_def failReply_def sameTable_def)
  have same2: "sameTable st (snd (rpc H m st))"
    unfolding rpc_def by (rule orFail_same, rule orFail_same) (simp add: sameTable_def)
  have "sameTable st (snd (orFail H m r st (\<lambda>res st. (Ok (), pubLogged H TopicUpside
             (successMsg MessageCMD [(''stat'', if res then ''true'' else ''false'')] NoContent m) st))))" for r
    by (rule orFail_same) (simp add: sameTable_def)
  then have same3: "sameTable st (snd (agentControl H m st))"
    by (cases "ho_agent H") (simp_all add: agentControl_def failReply_def sameTable_def)
  have same4: "sameTable st (snd (describe H m st))"
    unfolding describe_def by (rule orFail_same) (simp add: sameTable_def)
  note same = same1 same2 same3 same4
  have multi: "sameTable st (snd (labelMultiNodes H m st))"
    by (cases "ho_multiLabels H (m_content m)")
      (simp_all add: labelMultiNodes_def Let_def failReply_def sameTable_def)
  have mqtt: "sameTable st (snd (rpcMqtt H m st))"
    by (cases "fst (pubMsg H TopicEvent m st)")
      (simp_all add: rpcMqtt_def split_beta failReply_def sameTable_def Let_def)
  have logs: "tableInv lost (snd (viewLogs E H (msgKey m) m st))"
    using closeOld_inv(1)[OF assms, of H "msgKey m"] openChain_inv[of lost "closeOld H (msgKey m) st" E H m False]
    by (cases "ho_logOptions H (m_content m)") (simp_all add: viewLogs_def Let_def failReply_def tableInv_def)
  show ?thesis
    using assms logs disconnect_inv[OF assms, of H "msgKey m" m]
      openChain_inv[OF closeOld_inv(1)[OF assms], of E H m True H "msgKey m"]
    by (cases cmd) (simp_all add: runCommand_def connect_def sameTable_inv[OF same(1)] sameTable_inv[OF same(2)]
        sameTable_inv[OF same(3)] sameTable_inv[OF same(4)] sameTable_inv[OF multi] sameTable_inv[OF mqtt])
qed

lemma handler_inv:
  assumes "tableInv lost st"
  shows "tableInv lost (snd (handler_OnMessage E H m st))"
proof -
  have d: "tableInv lost (snd (case pubMsg H t m st of (Ok _, st) \<Rightarrow> (Ok (), st)
      | (Err e, st) \<Rightarrow> failReply H ErrPublishDownsideChain e m st | (Panic p, st) \<Rightarrow> (Panic p, st)))" for t
    using assms by (auto simp: pubMsg_def failReply_def tableInv_def split: option.split)
  show ?thesis
    using assms runCommand_inv[OF assms] d
    by (auto simp: handler_OnMessage_def failReply_def tableInv_def split: msg_kind.split option.split)
qed

section \<open>Replies\<close>

definition replied :: "bool \<Rightarrow> message \<Rightarrow> handler_state \<Rightarrow> bool" where
  "replied ok m st \<longleftrightarrow> hs_out st \<noteq> [] \<and> fst (last (hs_out st)) = TopicUpside \<and>
     mget (m_meta (snd (last (hs_out st)))) ''success'' = Some (if ok then ''true'' else ''false'') \<and>
     mget (m_meta (snd (last (hs_out st)))) ''token'' = Some (meta m ''token'')"

lemma replied_fail [simp]: "replied False m (publishFailedMsg H reason m st)"
  by (simp add: replied_def publishFailedMsg_def pubLogged_def pubMsg_def failedMsg_def)

lemma replied_success [simp]: "replied True m (pubLogged H TopicUpside (successMsg knd x c m) st)"
  "replied True m (publishSuccessMsg H m st)"
  by (simp_all add: replied_def publishSuccessMsg_def pubLogged_def pubMsg_def successMsg_def)

text \<open>How a result and a reply go together; \<open>quiet\<close> commands do not report success.\<close>

fun answered :: "bool \<Rightarrow> message \<Rightarrow> unit result \<times> handler_state \<Rightarrow> bool" where
  "answered quiet m (Ok _, st) = (quiet \<or> replied True m st)"
| "answered quiet m (Err _, st) = replied False m st"
| "answered quiet m (Panic _, st) = True"

lemma answered_fail [simp]: "answered q m (failReply H reason e m st)"
  by (simp add: failReply_def)

lemma answered_orFail:
  assumes "\<And>x. r = Ok x \<Longrightarrow> answered q m (k x st)"
  shows "answered q m (orFail H m r st k)"
  using assms by (cases r) simp_all

lemma answered_open: "answered True m (openChain E H key m b st)"
  by (auto simp: openChain_def split: prod.split result.split option.split)

lemma runCommand_answered:
  assumes "cmd = MultiNodeLabels \<longrightarrow> is_ok (ho_multiLabels H (m_content m))"
  shows "answered (cmd = Connect \<or> cmd = Logs \<or> cmd = Disconnect) m (runCommand E H cmd m st)"
proof (cases cmd)
  case Disconnect
  then show ?thesis
    by (auto simp: runCommand_def disconnect_def Let_def split: option.split prod.split result.split)
next
  case MultiNodeLabels
  with assms obtain ls where "ho_multiLabels H (m_content m) = Ok ls"
    by (cases "ho_multiLabels H (m_content m)") auto
  with MultiNodeLabels show ?thesis by (simp add: runCommand_def labelMultiNodes_def Let_def)
qed (auto intro!: answered_orFail answered_open simp: runCommand_def connect_def viewLogs_def nodeLabel_def
      rpc_def rpcMqtt_def agentControl_def describe_def Let_def split: option.split prod.split)

text \<open>
  C27. Commands are answered: a known command that fails hands the bus, as its last message, a failure
  message for the cloud that carries the token of the request, and a command that asks for something
  (labels of one node, calls, the agent, a description, labels of several nodes) and succeeds hands it a
  success message with that token. Outside of this are a request for the labels of several nodes whose
  content cannot be decoded, which is not answered, and the success of connect, logs and disconnect, for
  which no answer is demanded. Whether the bus takes the answer is the matter of the bus: a refusal is
  only logged.
\<close>

theorem commands_answered:
  assumes "e_svcName E = e_core E" and "m_kind m = MessageCMD"
    and "ho_command H (meta m ''cmd'') = Some cmd"
    and "cmd = MultiNodeLabels \<longrightarrow> is_ok (ho_multiLabels H (m_content m))"
  shows "answered (cmd = Connect \<or> cmd = Logs \<or> cmd = Disconnect) m (handler_OnMessage E H m st)"
  using assms runCommand_answered[OF assms(4), of E st] by (simp add: handler_OnMessage_def)

text \<open>The exception, and a chain that could be created but not started: its topic stays subscribed.\<close>

lemma undecodable_labels_silent:
  "e_svcName E = e_core E \<Longrightarrow> m_kind m = MessageCMD \<Longrightarrow>
   ho_command H (meta m ''cmd'') = Some MultiNodeLabels \<Longrightarrow> ho_multiLabels H (m_content m) = Err e \<Longrightarrow>
   handler_OnMessage E H m st = (Err e, st)"
  by (simp add: handler_OnMessage_def runCommand_def labelMultiNodes_def)

lemma unstarted_chain_leaks:
  assumes "chainOf E (m_meta m) True = Ok c" and "ho_subscribe H (ch_downside c) = None"
    and "ho_start H c = Some e" and "mget (hs_chains st) (msgKey m) = None"
  shows "ch_downside c \<in> set (hs_subs (snd (connect E H (msgKey m) m st))) \<and>
     mget (hs_chains (snd (connect E H (msgKey m) m st))) (msgKey m) = None"
  using assms by (simp add: connect_def closeOld_def openChain_def NewChain_def failReply_def)

section \<open>Witnesses\<close>

definition sample_ops :: handler_ops where
  "sample_ops = \<lparr>ho_command = (\<lambda>s. if s = ''connect'' then Some Connect else if s = ''rpc'' then Some RPC else None),
     ho_publish = (\<lambda>_ _ _. None), ho_subscribe = (\<lambda>_. None), ho_unsubscribe = (\<lambda>_. None), ho_start = (\<lambda>_. None),
     ho_labels = (\<lambda>_. Ok []), ho_multiLabels = (\<lambda>_. Ok []),
     ho_request = (\<lambda>_. Ok \<lparr>rq_app = ''app'', rq_system = True, rq_params = ''/x''\<rparr>),
     ho_logOptions = (\<lambda>_. Ok ()), ho_bytes = (\<lambda>_. Ok ''ls''), ho_updateLabels = (\<lambda>_ _. Ok ()),
     ho_rpc = (\<lambda>_ _. Err ''down''), ho_describe = (\<lambda>_ _ _. Ok []), ho_agent = None\<rparr>"

definition sample_meta :: "(string, string) gomap" where
  "sample_meta = [(''namespace'', ''ns''), (''name'', ''pod''), (''token'', ''t''), (''cmd'', ''connect'')]"

definition sample_msg :: "msg_kind \<Rightarrow> message" where
  "sample_msg knd = \<lparr>m_kind = knd, m_meta = sample_meta, m_content = NoContent\<rparr>"

definition sample_chain :: chain where
  "sample_chain = \<lparr>ch_token = ''t'', ch_namespace = ''ns'', ch_name = ''pod'', ch_container = [], ch_host = [],
     ch_path = [], ch_port = [], ch_user = [], ch_password = [], ch_downside = ''ns_pod__t_down''\<rparr>"

definition no_chains :: handler_state where
  "no_chains = \<lparr>hs_chains = [], hs_out = [], hs_subs = []\<rparr>"

lemma sample_key: "msgKey (sample_msg knd) = ''ns_pod__t''"
  by (simp add: msgKey_def chainKey_def meta_def sample_msg_def sample_meta_def)

lemma sample_connect: "handler_OnMessage sample_env sample_ops (sample_msg MessageCMD) no_chains =
    (Ok (), \<lparr>hs_chains = [(''ns_pod__t'', sample_chain)], hs_out = [], hs_subs = [''ns_pod__t_down'']\<rparr>)"
proof -
  have c: "chainOf sample_env sample_meta True = Ok sample_chain"
    by (simp add: chainOf_def need_def sample_meta_def sample_chain_def sample_env_def)
  have cmd: "ho_command sample_ops (meta (sample_msg MessageCMD) ''cmd'') = Some Connect"
    by (simp add: sample_ops_def meta_def sample_msg_def sample_meta_def)
  have k: "m_kind (sample_msg MessageCMD) = MessageCMD" "m_meta (sample_msg MessageCMD) = sample_meta"
    by (simp_all add: sample_msg_def)
  have ops: "ho_subscribe sample_ops = (\<lambda>_. None)" "ho_start sample_ops = (\<lambda>_. None)"
    by (simp_all add: sample_ops_def)
  show ?thesis
    by (simp add: handler_OnMessage_def sample_core cmd k runCommand_def connect_def closeOld_def openChain_def
        NewChain_def c ops sample_key no_chains_def) (simp add: sample_chain_def)
qed

theorem commands_answered_witness:
  "answered False (sample_msg MessageCMD\<lparr>m_meta := [(''cmd'', ''rpc''), (''token'', ''t'')]\<rparr>)
     (handler_OnMessage sample_env sample_ops
        (sample_msg MessageCMD\<lparr>m_meta := [(''cmd'', ''rpc''), (''token'', ''t'')]\<rparr>) no_chains)"
  using commands_answered[of sample_env "sample_msg MessageCMD\<lparr>m_meta := [(''cmd'', ''rpc''), (''token'', ''t'')]\<rparr>"
      sample_ops RPC no_chains]
  by (simp add: sample_core sample_msg_def sample_ops_def meta_def)

end
