(* ===== verification/Prober.thy ===== *)
theory Prober
  imports Keys
begin

text \<open>
  The probes of the native platform (\<^verbatim>\<open>ami/native/prober\<close>): one worker per application version
  that probes its process and restarts it after enough failures in a row, and the manager that
  adds, stops and removes workers. The network, \<^verbatim>\<open>url.Parse\<close> and the service library are
  arguments, the HTTP client that follows redirects is modelled; the goroutines of the workers are the steps of a relation.
\<close>

section \<open>One probe\<close>

datatype probe_result = ProbeSuccess | ProbeWarning | ProbeFailure | ProbeUnknown

definition maxProbeRetries :: nat where "maxProbeRetries = 3"

definition nil_deref :: string where
  "nil_deref = ''invalid memory address or nil pointer dereference''"

record url =
  url_scheme :: string
  url_host :: string
  url_path :: string
  url_rest :: string

type_synonym headers = "(string, string list) gomap"

text \<open>The body of an answer, read up to a limit: all of it, a part, or an error.\<close>

datatype body_read = BodyAll string | BodyCut string | BodyErr string

record http_answer =
  ha_code :: int
  ha_body :: body_read

datatype redirect = FollowRedirect | UseLastResponse | RedirectErr string

text \<open>The transport of the HTTP client, and the prober that holds it.\<close>

record http_transport =
  ht_skipVerify :: bool
  ht_disableKeepAlives :: bool
  ht_proxied :: bool
  ht_disableCompression :: bool

record http_prober =
  hp_transport :: http_transport
  hp_followNonLocal :: bool

text \<open>
  What one request brings: the answer and, if it asks for a redirect, the target its \<^verbatim>\<open>Location\<close>
  resolves to. \<open>pn_send\<close> gets the requests made before, the oldest first; the headers of a request
  that follows a redirect are made from them.
\<close>

record http_response =
  hr_answer :: http_answer
  hr_next :: "url result option"

record 'n probe_net =
  pn_parse :: "string \<Rightarrow> url result"
  pn_request :: "url \<Rightarrow> unit result"
  pn_send :: "http_transport \<Rightarrow> headers \<Rightarrow> string \<Rightarrow> int \<Rightarrow> url list \<Rightarrow> url \<Rightarrow> 'n \<Rightarrow> http_response result \<times> 'n"
  pn_dial :: "string \<Rightarrow> int \<Rightarrow> 'n \<Rightarrow> unit result \<times> 'n"
  pn_version :: string

text \<open>\<^verbatim>\<open>URL.Hostname\<close>: the host without its port, if what follows the last colon is one, and without brackets.\<close>

definition splitPort :: "string \<Rightarrow> string" where
  "splitPort hp =
     (case dropWhile (\<lambda>c. c \<noteq> CHR '':'') (rev hp) of
        [] \<Rightarrow> hp
      | _ # before \<Rightarrow>
          if list_all (\<lambda>c. digitOf c \<noteq> None) (takeWhile (\<lambda>c. c \<noteq> CHR '':'') (rev hp)) then rev before else hp)"

definition Hostname :: "url \<Rightarrow> string" where
  "Hostname u =
     (let h = splitPort (url_host u)
      in if h \<noteq> [] \<and> hd h = CHR ''['' \<and> last h = CHR '']'' then butlast (tl h) else h)"

text \<open>\<open>via\<close> are the requests made so far, the oldest first. The default of the client only counts them.\<close>

definition stopAfterTen :: "url list \<Rightarrow> redirect" where
  "stopAfterTen via = (if 10 \<le> length via then RedirectErr ''stopped after 10 redirects'' else FollowRedirect)"

definition redirectChecker :: "bool \<Rightarrow> url \<Rightarrow> url list \<Rightarrow> redirect" where
  "redirectChecker followNonLocal u via =
     (if followNonLocal then stopAfterTen via
      else if Hostname u \<noteq> Hostname (hd via) then UseLastResponse
      else stopAfterTen via)"

lemma redirectChecker_follow:
  "redirectChecker b u via = FollowRedirect \<Longrightarrow> length via < 10 \<and> (\<not> b \<longrightarrow> Hostname u = Hostname (hd via))"
  by (auto simp: redirectChecker_def stopAfterTen_def split: if_splits)

text \<open>\<^verbatim>\<open>Client.Do\<close> of \<^verbatim>\<open>net/http\<close> for a \<^verbatim>\<open>GET\<close>: request after request until an answer is no redirect.\<close>

function clientDo :: "'n probe_net \<Rightarrow> http_prober \<Rightarrow> headers \<Rightarrow> string \<Rightarrow> int \<Rightarrow> url list \<Rightarrow> url \<Rightarrow> 'n \<Rightarrow>
    http_answer result \<times> 'n" where
  "clientDo N pr hs host timeout via u n =
     (case pn_send N (hp_transport pr) hs host timeout via u n of
        (Err e, n) \<Rightarrow> (Err e, n)
      | (Panic p, n) \<Rightarrow> (Panic p, n)
      | (Ok r, n) \<Rightarrow>
          (case hr_next r of
             None \<Rightarrow> (Ok (hr_answer r), n)
           | Some (Err e) \<Rightarrow> (Err e, n)
           | Some (Panic p) \<Rightarrow> (Panic p, n)
           | Some (Ok v) \<Rightarrow>
               (case redirectChecker (hp_followNonLocal pr) v (via @ [u]) of
                  UseLastResponse \<Rightarrow> (Ok (hr_answer r), n)
                | RedirectErr e \<Rightarrow> (Err e, n)
                | FollowRedirect \<Rightarrow> clientDo N pr hs host timeout (via @ [u]) v n)))"
  by pat_completeness auto
termination
  by (relation "measure (\<lambda>(N, pr, hs, host, timeout, via, u, n). 10 - length via)")
    (auto dest: redirectChecker_follow)

declare clientDo.simps [simp del]

definition firstValue :: "headers \<Rightarrow> string \<Rightarrow> string" where
  "firstValue hs k = (case mget hs k of Some (v # _) \<Rightarrow> v | _ \<Rightarrow> [])"

definition probeHeaders :: "'n probe_net \<Rightarrow> headers \<Rightarrow> headers" where
  "probeHeaders N hs =
     (let hs = (if mget hs ''User-Agent'' = None then mput ''User-Agent'' [pn_version N] hs else hs)
      in if mget hs ''Accept'' = None then mput ''Accept'' [''*/*''] hs
         else if firstValue hs ''Accept'' = [] then mdel ''Accept'' hs
         else hs)"

definition classify :: "int \<Rightarrow> string \<Rightarrow> probe_result \<times> string" where
  "classify code body =
     (if 200 \<le> code \<and> code < 400
      then if 300 \<le> code then (ProbeWarning, body) else (ProbeSuccess, body)
      else (ProbeFailure, ''HTTP probe failed with statuscode: '' @ dec code))"

text \<open>\<open>client\<close> is the client the request is given to: its headers, its host and its URL.\<close>

definition DoHTTPProbe :: "'n probe_net \<Rightarrow> url \<Rightarrow> headers \<Rightarrow> (headers \<Rightarrow> string \<Rightarrow> url \<Rightarrow> 'n \<Rightarrow> http_answer result \<times> 'n) \<Rightarrow>
    'n \<Rightarrow> (probe_result \<times> string) result \<times> 'n" where
  "DoHTTPProbe N u hs client n =
     (case pn_request N u of
        Err e \<Rightarrow> (Ok (ProbeFailure, e), n)
      | Panic p \<Rightarrow> (Panic p, n)
      | Ok _ \<Rightarrow>
          let hs = probeHeaders N hs
          in (case client hs (firstValue hs ''Host'') u n of
                (Err e, n) \<Rightarrow> (Ok (ProbeFailure, e), n)
              | (Panic p, n) \<Rightarrow> (Panic p, n)
              | (Ok a, n) \<Rightarrow>
                  (case ha_body a of
                     BodyErr e \<Rightarrow> (Err e, n)
                   | BodyCut b \<Rightarrow> (Ok (classify (ha_code a) b), n)
                   | BodyAll b \<Rightarrow> (Ok (classify (ha_code a) b), n))))"

text \<open>The argument is \<^verbatim>\<open>InsecureSkipVerify\<close>, the one field of the TLS configuration that is set.\<close>

definition NewWithTLSConfig :: "bool \<Rightarrow> bool \<Rightarrow> http_prober" where
  "NewWithTLSConfig skipVerify followNonLocal =
     \<lparr>hp_transport = \<lparr>ht_skipVerify = skipVerify, ht_disableKeepAlives = True, ht_proxied = False, ht_disableCompression = False\<rparr>,
      hp_followNonLocal = followNonLocal\<rparr>"

definition NewHTTPProber :: "bool \<Rightarrow> http_prober" where
  "NewHTTPProber followNonLocal = NewWithTLSConfig True followNonLocal"

definition httpProbe :: "'n probe_net \<Rightarrow> http_prober \<Rightarrow> url \<Rightarrow> headers \<Rightarrow> int \<Rightarrow> 'n \<Rightarrow>
    (probe_result \<times> string) result \<times> 'n" where
  "httpProbe N pr u hs timeout n =
     (let pr = pr\<lparr>hp_transport := (hp_transport pr)\<lparr>ht_disableCompression := True\<rparr>\<rparr>
      in DoHTTPProbe N u hs (\<lambda>hs host u. clientDo N pr hs host timeout [] u) n)"

text \<open>The prober of a worker manager: it stays on the host it is pointed at.\<close>

definition newProber :: http_prober where
  "newProber = NewHTTPProber False"

definition joinHostPort :: "string \<Rightarrow> string \<Rightarrow> string" where
  "joinHostPort host port =
     (if CHR '':'' \<in> set host then ''['' @ host @ '']:'' @ port else host @ '':'' @ port)"

definition DoTCPProbe :: "'n probe_net \<Rightarrow> string \<Rightarrow> int \<Rightarrow> 'n \<Rightarrow> (probe_result \<times> string) result \<times> 'n" where
  "DoTCPProbe N addr timeout n =
     (case pn_dial N addr timeout n of
        (Err e, n) \<Rightarrow> (Ok (ProbeFailure, e), n)
      | (Panic p, n) \<Rightarrow> (Panic p, n)
      | (Ok _, n) \<Rightarrow> (Ok (ProbeSuccess, []), n))"

definition formatURL :: "'n probe_net \<Rightarrow> string \<Rightarrow> string \<Rightarrow> int \<Rightarrow> string \<Rightarrow> url" where
  "formatURL N scheme host port path =
     (let u = (case pn_parse N path of
                 Ok u \<Rightarrow> u
               | _ \<Rightarrow> \<lparr>url_scheme = [], url_host = [], url_path = path, url_rest = []\<rparr>)
      in u\<lparr>url_scheme := scheme, url_host := joinHostPort host (dec port)\<rparr>)"

definition addHeader :: "string \<times> string \<Rightarrow> headers \<Rightarrow> headers" where
  "addHeader h hs = mput (fst h) ((case mget hs (fst h) of Some vs \<Rightarrow> vs | None \<Rightarrow> []) @ [snd h]) hs"

definition buildHeader :: "(string \<times> string) list \<Rightarrow> headers" where
  "buildHeader hl = fold addHeader hl []"

text \<open>The port of a probe by its text: zero when it is no number.\<close>

definition portValue :: "string \<Rightarrow> int" where
  "portValue s = (case ParseInt64 s of Ok n \<Rightarrow> n | _ \<Rightarrow> 0)"

definition localhost :: string where "localhost = ''127.0.0.1''"

text \<open>The TCP branch reads the port of \<^verbatim>\<open>p.HTTPGet\<close>, which is nil there.\<close>

definition runProbe :: "'n probe_net \<Rightarrow> probe \<Rightarrow> 'n \<Rightarrow> (probe_result \<times> string) result \<times> 'n" where
  "runProbe N p n =
     (case pb_httpGet p of
        Some h \<Rightarrow>
          if hg_port h = [] then (Err ''No port selected'', n)
          else httpProbe N newProber
                 (formatURL N (toLower (hg_scheme h)) (if hg_host h = [] then localhost else hg_host h)
                    (portValue (hg_port h)) (hg_path h))
                 (buildHeader (hg_headers h)) (pb_timeoutSeconds p) n
      | None \<Rightarrow>
          (case pb_tcpSocket p of
             None \<Rightarrow> (Err ''missing probe handler'', n)
           | Some t \<Rightarrow>
               (case pb_httpGet p of
                  None \<Rightarrow> (Panic nil_deref, n)
                | Some h \<Rightarrow>
                    if hg_port h = [] then (Err ''No port selected'', n)
                    else DoTCPProbe N
                           (joinHostPort (if ts_host t = [] then localhost else ts_host t) (dec (portValue (hg_port h))))
                           (pb_timeoutSeconds p) n)))"

text \<open>An attempt that ends in an error is repeated, at most three in all.\<close>

fun tryProbe :: "('n \<Rightarrow> (probe_result \<times> string) result \<times> 'n) \<Rightarrow> nat \<Rightarrow> 'n \<Rightarrow>
    (probe_result \<times> string) result \<times> 'n" where
  "tryProbe f 0 n = (Ok (ProbeUnknown, []), n)"
| "tryProbe f (Suc k) n =
     (case f n of
        (Err e, n') \<Rightarrow> if k = 0 then (Err e, n') else tryProbe f k n'
      | (Ok r, n') \<Rightarrow> (Ok r, n')
      | (Panic p, n') \<Rightarrow> (Panic p, n'))"

definition pb_probe :: "'n probe_net \<Rightarrow> probe \<Rightarrow> 'n \<Rightarrow> probe_result result \<times> 'n" where
  "pb_probe N p n =
     (let (r, n) = tryProbe (runProbe N p) maxProbeRetries n
      in (rmap (\<lambda>(result, output).
             if result \<noteq> ProbeSuccess \<and> result \<noteq> ProbeWarning then ProbeFailure else ProbeSuccess) r, n))"

section \<open>A worker\<close>

datatype probe_type = Liveness | Startup

record probe_key =
  pk_name :: string
  pk_version :: string
  pk_type :: probe_type

datatype svc_status = StatusRunning | StatusStopped | StatusUnknown

text \<open>\<open>wk_lastResult\<close> is \<open>None\<close> before the first result, \<open>wk_stopCh\<close> whether a stop is in the channel
  (which holds one), \<open>wk_started\<close> whether the goroutine got past its start.\<close>

record worker =
  wk_type :: probe_type
  wk_app :: application
  wk_spec :: "probe option"
  wk_lastResult :: "probe_result option"
  wk_resultRun :: int
  wk_stopCh :: bool
  wk_started :: bool

definition newWorker :: "probe_type \<Rightarrow> application \<Rightarrow> worker" where
  "newWorker t app = \<lparr>wk_type = t, wk_app = app, wk_spec = svc_liveness (hd (app_services app)),
     wk_lastResult = None, wk_resultRun = 0, wk_stopCh = False, wk_started = False\<rparr>"

definition workerKey :: "worker \<Rightarrow> probe_key" where
  "workerKey w = \<lparr>pk_name = app_name (wk_app w), pk_version = app_version (wk_app w), pk_type = wk_type w\<rparr>"

text \<open>The start of the goroutine: a panic here is not recovered and ends the process.\<close>

definition runStart :: "worker \<Rightarrow> unit result" where
  "runStart w =
     (case wk_spec w of
        None \<Rightarrow> Panic nil_deref
      | Some p \<Rightarrow> if pb_periodSeconds p \<le> 0 then Panic ''non-positive interval for NewTicker'' else Ok ())"

definition worker_stop :: "worker \<Rightarrow> worker" where
  "worker_stop w = w\<lparr>wk_stopCh := True\<rparr>"

text \<open>What the service library and the clock answer in one round: the status of the process (\<open>None\<close>:
  an error) and the whole seconds since the worker started.\<close>

record tick =
  tk_status :: "svc_status option"
  tk_elapsed :: int

text \<open>What a round did: the result it recorded, if any, and whether it restarted the process.\<close>

type_synonym round = "probe_result option \<times> bool"

definition record_result :: "probe_result \<Rightarrow> worker \<Rightarrow> worker" where
  "record_result r w =
     (if wk_lastResult w = Some r then w\<lparr>wk_resultRun := wk_resultRun w + 1\<rparr>
      else w\<lparr>wk_lastResult := Some r, wk_resultRun := 1\<rparr>)"

definition judge :: "probe \<Rightarrow> probe_result \<Rightarrow> worker \<Rightarrow> round \<times> worker" where
  "judge p r w =
     (let w = record_result r w
      in if (r = ProbeFailure \<and> wk_resultRun w < pb_failureThreshold p) \<or>
            (r = ProbeSuccess \<and> wk_resultRun w < pb_successThreshold p) then ((Some r, False), w)
         else if r = ProbeFailure then ((Some r, True), w\<lparr>wk_resultRun := 0\<rparr>)
         else ((Some r, False), w))"

text \<open>The result is \<open>keepGoing\<close>; a panic is caught and the worker goes on.\<close>

definition doProbe :: "'n probe_net \<Rightarrow> tick \<Rightarrow> worker \<times> 'n \<Rightarrow> bool \<times> round \<times> (worker \<times> 'n)" where
  "doProbe N t wn =
     (let (w, n) = wn; idle = (None, False)
      in case tk_status t of
           None \<Rightarrow> (True, idle, wn)
         | Some status \<Rightarrow>
             if status = StatusStopped then (False, idle, wn)
             else if wk_type w = Liveness \<and> status = StatusUnknown then (True, idle, wn)
             else if wk_type w = Startup \<and> status = StatusRunning then (True, idle, wn)
             else (case wk_spec w of
                     None \<Rightarrow> (True, idle, wn)
                   | Some p \<Rightarrow>
                       if tk_elapsed t < pb_initialDelaySeconds p then (True, idle, wn)
                       else (case pb_probe N p n of
                               (Ok r, n) \<Rightarrow> let (e, w) = judge p r w in (True, e, (w, n))
                             | (Err e, n) \<Rightarrow> (True, idle, (w, n))
                             | (Panic e, n) \<Rightarrow> (True, idle, (w, n)))))"

text \<open>The rounds of a worker, one per tick, until it is told to end.\<close>

fun watch :: "'n probe_net \<Rightarrow> tick list \<Rightarrow> worker \<times> 'n \<Rightarrow> round list \<times> (worker \<times> 'n)" where
  "watch N [] wn = ([], wn)"
| "watch N (t # ts) wn =
     (let (keep, e, wn) = doProbe N t wn
      in if keep then (let (es, wn) = watch N ts wn in (e # es, wn)) else ([e], wn))"

section \<open>A process is restarted after enough failures in a row, and only then\<close>

text \<open>Failures in a row since the last success or restart.\<close>

definition streakStep :: "round \<Rightarrow> nat \<Rightarrow> nat" where
  "streakStep e s =
     (case e of (None, _) \<Rightarrow> s
      | (Some r, restarted) \<Rightarrow> if r = ProbeFailure \<and> \<not> restarted then s + 1 else 0)"

definition streak :: "round list \<Rightarrow> nat" where
  "streak es = fold streakStep es 0"

definition counts :: "nat \<Rightarrow> worker \<Rightarrow> bool" where
  "counts s w \<longleftrightarrow> (if wk_lastResult w = Some ProbeFailure then wk_resultRun w = int s else s = 0)"

lemma judge_counts:
  assumes "counts s w" and "judge p r w = (e, w')"
  shows "fst e = Some r
    \<and> (snd e \<longleftrightarrow> r = ProbeFailure \<and> pb_failureThreshold p \<le> int (s + 1))
    \<and> counts (streakStep e s) w' \<and> wk_spec w' = wk_spec w"
  using assms
  by (cases r)
    (auto simp: judge_def record_result_def Let_def counts_def streakStep_def split: if_splits)

text \<open>A round leaves the worker as it was or records one result.\<close>

lemma doProbe_cases:
  assumes "doProbe N t (w, n) = (k, e, (w', n'))"
  shows "(e = (None, False) \<and> w' = w) \<or> (\<exists>p r. wk_spec w = Some p \<and> judge p r w = (e, w'))"
proof (cases "wk_spec w")
  case None
  with assms show ?thesis by (auto simp: doProbe_def Let_def split: option.splits if_splits)
next
  case (Some p)
  obtain q n1 where q: "pb_probe N p n = (q, n1)" by (rule prod.exhaust)
  show ?thesis
  proof (cases q)
    case (Ok r)
    obtain e1 w1 where j: "judge p r w = (e1, w1)" by (rule prod.exhaust)
    from assms Some q Ok j show ?thesis
      by (auto simp: doProbe_def Let_def split: option.splits if_splits)
  qed (use assms Some q in \<open>auto simp: doProbe_def Let_def split: option.splits if_splits\<close>)
qed

lemma doProbe_counts:
  assumes "counts s w" and "wk_spec w = Some p" and "doProbe N t (w, n) = (k, e, (w', n'))"
  shows "(snd e \<longleftrightarrow> fst e = Some ProbeFailure \<and> pb_failureThreshold p \<le> int (s + 1))
    \<and> counts (streakStep e s) w' \<and> wk_spec w' = Some p"
proof (cases "e = (None, False) \<and> w' = w")
  case True
  with assms(1,2) show ?thesis by (simp add: streakStep_def)
next
  case False
  with doProbe_cases[OF assms(3)] assms(2) obtain r where "judge p r w = (e, w')" by auto
  from judge_counts[OF assms(1) this] assms(2) show ?thesis by auto
qed
lemma streak_Cons: "streak (e # es) = fold streakStep es (streakStep e 0)"
  by (simp add: streak_def)

lemma watch_counts:
  assumes "counts s w" and "wk_spec w = Some p" and "watch N ts (w, n) = (es, wn')" and "i < length es"
  shows "snd (es ! i) \<longleftrightarrow> fst (es ! i) = Some ProbeFailure
    \<and> pb_failureThreshold p \<le> int (fold streakStep (take i es) s + 1)"
  using assms
proof (induction ts arbitrary: s w n es wn' i)
  case Nil
  then show ?case by simp
next
  case (Cons t ts)
  obtain k e w1 n1 where d: "doProbe N t (w, n) = (k, e, (w1, n1))" by (metis prod.exhaust)
  from doProbe_counts[OF Cons.prems(1,2) d]
  have e: "snd e \<longleftrightarrow> fst e = Some ProbeFailure \<and> pb_failureThreshold p \<le> int (s + 1)"
    and c: "counts (streakStep e s) w1" and sp: "wk_spec w1 = Some p" by auto
  obtain es1 wn1 where w: "watch N ts (w1, n1) = (es1, wn1)" by (rule prod.exhaust)
  show ?case
  proof (cases i)
    case 0
    with Cons.prems(3) d w e show ?thesis by (auto split: if_splits)
  next
    case (Suc j)
    with Cons.prems(3,4) d w have "k" "es = e # es1" "j < length es1" by (auto split: if_splits)
    with Cons.IH[OF c sp w, of j] Suc show ?thesis by simp
  qed
qed

text \<open>
  C31. Restarts: over any sequence of ticks, network answers and process states, a new worker
  restarts its process in exactly those rounds whose probe failed and made the number of failed
  probes since the last success or restart reach the failure threshold. Rounds without a result
  (process not running yet, initial delay, probe errors, panics) neither restart nor reset the
  count.
\<close>

theorem restart_after_streak:
  assumes "wk_spec (newWorker ty app) = Some p"
    and "watch N ts (newWorker ty app, n) = (es, wn)" and "i < length es"
  shows "snd (es ! i) \<longleftrightarrow> fst (es ! i) = Some ProbeFailure
    \<and> pb_failureThreshold p \<le> int (streak (take i es) + 1)"
  unfolding streak_def
  by (rule watch_counts[OF _ assms]) (simp add: counts_def newWorker_def)

text \<open>The answers of a client that is refused every connection, and a process that runs.\<close>

definition refusing :: "unit probe_net" where
  "refusing = \<lparr>pn_parse = (\<lambda>p. Ok \<lparr>url_scheme = [], url_host = [], url_path = p, url_rest = []\<rparr>),
     pn_request = (\<lambda>_. Ok ()), pn_send = (\<lambda>_ _ _ _ _ _ n. (Err ''refused'', n)),
     pn_dial = (\<lambda>_ _ n. (Err ''refused'', n)), pn_version = ''kube-probe/1.0''\<rparr>"

definition http_probe :: probe where
  "http_probe = \<lparr>pb_httpGet = Some \<lparr>hg_scheme = ''HTTP'', hg_host = [], hg_port = ''80'', hg_path = ''/'', hg_headers = []\<rparr>,
     pb_tcpSocket = None, pb_timeoutSeconds = 1, pb_periodSeconds = 1, pb_initialDelaySeconds = 0,
     pb_failureThreshold = 2, pb_successThreshold = 1\<rparr>"

definition probed_app :: "probe option \<Rightarrow> probe option \<Rightarrow> application" where
  "probed_app l s = zero_application\<lparr>app_name := ''a'', app_version := ''1'',
     app_services := [zero_service\<lparr>svc_name := ''s'', svc_liveness := l, svc_startup := s\<rparr>]\<rparr>"

lemma refused: "pb_probe refusing http_probe n = (Ok ProbeFailure, n)"
  by (simp add: pb_probe_def maxProbeRetries_def numeral_3_eq_3 runProbe_def httpProbe_def DoHTTPProbe_def
      clientDo.simps refusing_def http_probe_def)

definition running_tick :: tick where
  "running_tick = \<lparr>tk_status = Some StatusRunning, tk_elapsed = 10\<rparr>"

lemma http_probe_simps: "pb_failureThreshold http_probe = 2" "pb_successThreshold http_probe = 1"
  "pb_initialDelaySeconds http_probe = 0"
  by (simp_all add: http_probe_def)

lemma refused_rounds: "\<exists>wn. watch refusing [running_tick, running_tick, running_tick]
     (newWorker Liveness (probed_app (Some http_probe) None), ()) =
   ([(Some ProbeFailure, False), (Some ProbeFailure, True), (Some ProbeFailure, False)], wn)"
  by (simp add: doProbe_def running_tick_def newWorker_def probed_app_def refused judge_def record_result_def
      http_probe_simps Let_def)

theorem restart_after_streak_witness:
  "snd (fst (watch refusing [running_tick, running_tick, running_tick]
     (newWorker Liveness (probed_app (Some http_probe) None), ())) ! 1)
   \<and> pb_failureThreshold http_probe \<le> int (streak [(Some ProbeFailure, False)] + 1)"
proof -
  obtain wn where w: "watch refusing [running_tick, running_tick, running_tick]
     (newWorker Liveness (probed_app (Some http_probe) None), ()) =
   ([(Some ProbeFailure, False), (Some ProbeFailure, True), (Some ProbeFailure, False)], wn)"
    using refused_rounds by blast
  have "wk_spec (newWorker Liveness (probed_app (Some http_probe) None)) = Some http_probe"
    by (simp add: newWorker_def probed_app_def)
  from restart_after_streak[OF this w, of 1] show ?thesis by (simp add: w del: watch.simps)
qed

text \<open>
  A TCP liveness probe never restarts anything: reading the port panics in every round, the panic
  is caught, and no result is recorded.
\<close>

lemma tcp_never_restarts:
  assumes "wk_spec w = Some p" and "pb_httpGet p = None" and "pb_tcpSocket p = Some t"
  shows "\<exists>k. doProbe N tk (w, n) = (k, (None, False), (w, n))"
proof -
  have "pb_probe N p n = (Panic nil_deref, n)"
    using assms(2,3) by (simp add: pb_probe_def maxProbeRetries_def numeral_3_eq_3 runProbe_def)
  with assms(1) show ?thesis by (auto simp: doProbe_def Let_def split: option.split)
qed

text \<open>
  The goroutine of a worker for a startup probe without a liveness probe panics as it starts,
  and so does one whose period is not set; nothing recovers that.
\<close>

lemma startup_only_crashes: "svc_liveness (hd (app_services app)) = None \<Longrightarrow> runStart (newWorker ty app) = Panic nil_deref"
  by (simp add: runStart_def newWorker_def)

lemma no_period_crashes:
  "svc_liveness (hd (app_services app)) = Some p \<Longrightarrow> pb_periodSeconds p = 0 \<Longrightarrow> \<not> is_ok (runStart (newWorker ty app))"
  by (simp add: runStart_def newWorker_def)

section \<open>The manager\<close>

record manager =
  mg_workers :: "(probe_key, worker) gomap"
  mg_status :: "(probe_key, nat) gomap"

definition NewManager :: manager where
  "NewManager = \<lparr>mg_workers = [], mg_status = []\<rparr>"

definition AddApp :: "application option \<Rightarrow> manager \<Rightarrow> manager" where
  "AddApp app m =
     (case app of
        None \<Rightarrow> m
      | Some app \<Rightarrow>
          (case app_services app of
             [] \<Rightarrow> m
           | svc # _ \<Rightarrow>
               (case (if svc_liveness svc \<noteq> None then Some Liveness
                      else if svc_startup svc \<noteq> None then Some Startup else None) of
                  None \<Rightarrow> m
                | Some p \<Rightarrow>
                    let key = \<lparr>pk_name = app_name app, pk_version = app_version app, pk_type = p\<rparr>
                    in if mget (mg_workers m) key \<noteq> None then m
                       else m\<lparr>mg_workers := mput key (newWorker p app) (mg_workers m),
                              mg_status := mput key 0 (mg_status m)\<rparr>)))"

definition stopWorker :: "probe_key \<Rightarrow> manager \<Rightarrow> manager" where
  "stopWorker key m =
     (case mget (mg_workers m) key of
        None \<Rightarrow> m
      | Some w \<Rightarrow> m\<lparr>mg_workers := mput key (worker_stop w) (mg_workers m)\<rparr>)"

definition RemoveApp :: "app_info option \<Rightarrow> manager \<Rightarrow> manager" where
  "RemoveApp info m =
     (case info of
        None \<Rightarrow> m
      | Some i \<Rightarrow>
          stopWorker \<lparr>pk_name = ai_name i, pk_version = ai_version i, pk_type = Startup\<rparr>
            (stopWorker \<lparr>pk_name = ai_name i, pk_version = ai_version i, pk_type = Liveness\<rparr> m))"

text \<open>\<open>store\<close> is the store, \<open>None\<close> when the manager has none.\<close>

definition CheckAndStart :: "env \<Rightarrow> ('s store_ops \<times> 's) option \<Rightarrow> app_info \<Rightarrow> manager \<Rightarrow> manager" where
  "CheckAndStart E store info m =
     (case store of
        None \<Rightarrow> m
      | Some (S, s) \<Rightarrow>
          if hasPrefix (ai_name info) (e_core E) \<or> hasPrefix (ai_name info) (e_init E) then m
          else (case b_get (st_app S) s (app_key E (ai_name info) (ai_version info)) of
                  Ok app \<Rightarrow> AddApp (Some app) m
                | _ \<Rightarrow> m))"

definition cleanupOne :: "env \<Rightarrow> (string, bool) gomap \<Rightarrow> probe_key \<Rightarrow> manager \<Rightarrow> manager" where
  "cleanupOne E apps key m =
     (let k = app_key E (pk_name key) (pk_version key)
      in if mget apps k = None
         then let count = (case mget (mg_status m) key of Some c \<Rightarrow> c | None \<Rightarrow> 0) + 1;
                  m = m\<lparr>mg_status := mput key count (mg_status m)\<rparr>
              in if maxProbeRetries \<le> count then stopWorker key m else m
         else m\<lparr>mg_status := mput key 0 (mg_status m)\<rparr>)"

definition CleanupApps :: "env \<Rightarrow> (string, bool) gomap \<Rightarrow> manager \<Rightarrow> manager" where
  "CleanupApps E apps m = fold (cleanupOne E apps) (map fst (mg_workers m)) m"

definition removeWorker :: "probe_key \<Rightarrow> manager \<Rightarrow> manager" where
  "removeWorker key m = m\<lparr>mg_workers := mdel key (mg_workers m), mg_status := mdel key (mg_status m)\<rparr>"

text \<open>
  The states of the manager: its four operations, called in any order, and the steps of the
  worker goroutines. A worker in its loop probes at a tick, and ends when the process has
  stopped or when it finds a stop in its channel; a goroutine that panics at its start ends the
  whole process, so there is no step for it.
\<close>

inductive mg_reachable :: "env \<Rightarrow> 'n probe_net \<Rightarrow> manager \<Rightarrow> bool" for E and N :: "'n probe_net" where
  mg_start: "mg_reachable E N NewManager"
| mg_add: "mg_reachable E N m \<Longrightarrow> mg_reachable E N (AddApp app m)"
| mg_remove: "mg_reachable E N m \<Longrightarrow> mg_reachable E N (RemoveApp info m)"
| mg_check: "mg_reachable E N m \<Longrightarrow> mg_reachable E N (CheckAndStart E (store :: (mem_store store_ops \<times> mem_store) option) i m)"
| mg_cleanup: "mg_reachable E N m \<Longrightarrow> mg_reachable E N (CleanupApps E apps m)"
| mg_run: "mg_reachable E N m \<Longrightarrow> mget (mg_workers m) key = Some w \<Longrightarrow> \<not> wk_started w \<Longrightarrow> runStart w = Ok () \<Longrightarrow>
    mg_reachable E N (m\<lparr>mg_workers := mput key (w\<lparr>wk_started := True\<rparr>) (mg_workers m)\<rparr>)"
| mg_tick: "mg_reachable E N m \<Longrightarrow> mget (mg_workers m) key = Some w \<Longrightarrow> wk_started w \<Longrightarrow>
    doProbe N t (w, n) = (True, e, (w', n')) \<Longrightarrow>
    mg_reachable E N (m\<lparr>mg_workers := mput key w' (mg_workers m)\<rparr>)"
| mg_exit: "mg_reachable E N m \<Longrightarrow> mget (mg_workers m) key = Some w \<Longrightarrow> wk_started w \<Longrightarrow>
    doProbe N t (w, n) = (False, e, (w', n')) \<Longrightarrow> mg_reachable E N (removeWorker key m)"
| mg_stopped: "mg_reachable E N m \<Longrightarrow> mget (mg_workers m) key = Some w \<Longrightarrow> wk_started w \<Longrightarrow> wk_stopCh w \<Longrightarrow>
    mg_reachable E N (removeWorker key m)"

text \<open>What holds of every worker the manager knows, with the number of collections that missed it.\<close>

definition workerInv :: "probe_key \<Rightarrow> nat \<Rightarrow> worker \<Rightarrow> bool" where
  "workerInv key c w \<longleftrightarrow> workerKey w = key \<and> (maxProbeRetries \<le> c \<longrightarrow> wk_stopCh w)
     \<and> (wk_started w \<longrightarrow> wk_spec w \<noteq> None) \<and> (pk_type key = Startup \<longrightarrow> wk_spec w = None)"

fun entryInv :: "probe_key \<Rightarrow> worker option \<Rightarrow> nat option \<Rightarrow> bool" where
  "entryInv key None s = (s = None)"
| "entryInv key (Some w) (Some c) = workerInv key c w"
| "entryInv key (Some w) None = False"

definition managerInv :: "manager \<Rightarrow> bool" where
  "managerInv m \<longleftrightarrow> (\<forall>key. entryInv key (mget (mg_workers m) key) (mget (mg_status m) key))"

lemma managerInv_D: "managerInv m \<Longrightarrow> mget (mg_workers m) key = Some w \<Longrightarrow>
    \<exists>c. mget (mg_status m) key = Some c \<and> workerInv key c w"
  unfolding managerInv_def by (metis entryInv.simps(2,3) not_None_eq)

lemma managerInv_put:
  assumes "managerInv m" and "workerInv key c w"
  shows "managerInv (m\<lparr>mg_workers := mput key w (mg_workers m), mg_status := mput key c (mg_status m)\<rparr>)"
  using assms by (simp add: managerInv_def map_simps)

lemma managerInv_worker:
  assumes "managerInv m" and "mget (mg_status m) key = Some c" and "workerInv key c w"
  shows "managerInv (m\<lparr>mg_workers := mput key w (mg_workers m)\<rparr>)"
  using assms by (simp add: managerInv_def map_simps)

lemma managerInv_AddApp:
  assumes "managerInv m"
  shows "managerInv (AddApp app m)"
proof -
  have new: "managerInv (m\<lparr>mg_workers := mput \<lparr>pk_name = app_name a, pk_version = app_version a, pk_type = p\<rparr> (newWorker p a) (mg_workers m),
      mg_status := mput \<lparr>pk_name = app_name a, pk_version = app_version a, pk_type = p\<rparr> 0 (mg_status m)\<rparr>)"
    if "app_services a = svc # svcs"
      "(if svc_liveness svc \<noteq> None then Some Liveness else if svc_startup svc \<noteq> None then Some Startup else None) = Some p"
    for a svc svcs p
    by (rule managerInv_put[OF assms])
      (use that in \<open>auto simp: workerInv_def newWorker_def workerKey_def maxProbeRetries_def split: if_splits\<close>)
  show ?thesis
    unfolding AddApp_def using assms new by (auto simp: Let_def split: option.split list.split)
qed

lemma managerInv_stop:
  assumes "managerInv m"
  shows "managerInv (stopWorker key m)"
proof (cases "mget (mg_workers m) key")
  case None
  with assms show ?thesis by (simp add: stopWorker_def)
next
  case (Some w)
  with managerInv_D[OF assms] obtain c where c: "mget (mg_status m) key = Some c" "workerInv key c w" by blast
  have "managerInv (m\<lparr>mg_workers := mput key (worker_stop w) (mg_workers m)\<rparr>)"
    by (rule managerInv_worker[OF assms c(1)])
      (use c(2) in \<open>simp add: workerInv_def worker_stop_def workerKey_def\<close>)
  with Some show ?thesis by (simp add: stopWorker_def)
qed

lemma stopWorker_status [simp]: "mg_status (stopWorker key m) = mg_status m"
  by (simp add: stopWorker_def split: option.split)

lemma stopWorker_keys: "mget (mg_workers (stopWorker key m)) k = None \<longleftrightarrow> mget (mg_workers m) k = None"
  by (simp add: stopWorker_def map_simps split: option.split)

lemma managerInv_cleanupOne:
  assumes "managerInv m" and "mget (mg_workers m) key \<noteq> None"
  shows "managerInv (cleanupOne E apps key m)"
proof -
  from assms(2) obtain w where w: "mget (mg_workers m) key = Some w" by blast
  with managerInv_D[OF assms(1)] obtain c where c: "mget (mg_status m) key = Some c" "workerInv key c w" by blast
  have set: "managerInv (m\<lparr>mg_workers := mput key w' (mg_workers m), mg_status := mput key c' (mg_status m)\<rparr>)"
    if "workerInv key c' w'" for c' w'
    by (rule managerInv_put[OF assms(1) that])
  have keep: "managerInv (m\<lparr>mg_status := mput key c' (mg_status m)\<rparr>)" if "workerInv key c' w" for c'
    using assms(1) that w by (simp add: managerInv_def map_simps)
  have zero: "workerInv key 0 w" and stopped: "workerInv key c' (worker_stop w)" for c'
    using c(2) by (simp_all add: workerInv_def maxProbeRetries_def worker_stop_def workerKey_def)
  show ?thesis
  proof (cases "mget apps (app_key E (pk_name key) (pk_version key)) = None")
    case False
    then show ?thesis using keep[OF zero] by (auto simp: cleanupOne_def Let_def)
  next
    case gone: True
    show ?thesis
    proof (cases "maxProbeRetries \<le> Suc c")
      case True
      with gone set[OF stopped[of "Suc c"]] show ?thesis
        by (simp add: cleanupOne_def Let_def c(1) stopWorker_def w managerInv_def)
    next
      case False
      with c(2) have "workerInv key (Suc c) w" by (simp add: workerInv_def)
      with gone False keep show ?thesis by (simp add: cleanupOne_def Let_def c(1))
    qed
  qed
qed

lemma cleanupOne_keys: "mget (mg_workers (cleanupOne E apps key m)) k = None \<longleftrightarrow> mget (mg_workers m) k = None"
  by (simp add: cleanupOne_def Let_def stopWorker_keys)

lemma managerInv_cleanup:
  assumes "managerInv m" and "\<forall>k \<in> set ks. mget (mg_workers m) k \<noteq> None"
  shows "managerInv (fold (cleanupOne E apps) ks m)"
  using assms
proof (induction ks arbitrary: m)
  case Nil
  then show ?case by simp
next
  case (Cons k ks)
  then have "managerInv (cleanupOne E apps k m)" by (simp add: managerInv_cleanupOne)
  moreover have "\<forall>k' \<in> set ks. mget (mg_workers (cleanupOne E apps k m)) k' \<noteq> None"
    using Cons.prems(2) by (simp add: cleanupOne_keys)
  ultimately show ?case by (simp add: Cons.IH)
qed

lemma managerInv_remove:
  assumes "managerInv m"
  shows "managerInv (removeWorker key m)"
  using assms by (simp add: managerInv_def removeWorker_def map_simps)

lemma doProbe_worker:
  assumes "doProbe N t (w, n) = (k, e, (w', n'))"
  shows "wk_type w' = wk_type w \<and> wk_app w' = wk_app w \<and> wk_spec w' = wk_spec w \<and>
    wk_stopCh w' = wk_stopCh w \<and> wk_started w' = wk_started w"
  using doProbe_cases[OF assms]
  by (auto simp: Let_def judge_def record_result_def split: if_splits)

lemma mg_invariant: "mg_reachable E N m \<Longrightarrow> managerInv m"
proof (induction rule: mg_reachable.induct)
  case mg_start
  then show ?case by (simp add: managerInv_def NewManager_def)
next
  case (mg_add m app)
  then show ?case by (simp add: managerInv_AddApp)
next
  case (mg_remove m info)
  then show ?case by (simp add: RemoveApp_def managerInv_stop split: option.split)
next
  case (mg_check m store i)
  then show ?case by (auto simp: CheckAndStart_def managerInv_AddApp split: option.split result.split)
next
  case (mg_cleanup m apps)
  have "mget (mg_workers m) k \<noteq> None" if "k \<in> set (map fst (mg_workers m))" for k
    using that by (simp add: mget_None_iff)
  with mg_cleanup show ?case unfolding CleanupApps_def by (intro managerInv_cleanup) simp_all
next
  case (mg_run m key w)
  from managerInv_D[OF mg_run(5,2)] obtain c where "mget (mg_status m) key = Some c" "workerInv key c w" by blast
  with mg_run show ?case
    by (intro managerInv_worker) (auto simp: workerInv_def workerKey_def runStart_def split: option.splits)
next
  case (mg_tick m key w t n e w' n')
  from managerInv_D[OF mg_tick(5,2)] obtain c where "mget (mg_status m) key = Some c" "workerInv key c w" by blast
  with doProbe_worker[OF mg_tick(4)] mg_tick(5) show ?case
    by (intro managerInv_worker) (auto simp: workerInv_def workerKey_def)
next
  case (mg_exit m key w t n e w' n')
  then show ?case by (simp add: managerInv_remove)
next
  case (mg_stopped m key w)
  then show ?case by (simp add: managerInv_remove)
qed

text \<open>
  C18. Probes are supervised: in every state the manager can reach, by its operations in any order
  and the steps of its workers, the worker under a key probes exactly the application version of
  that key, a worker whose application three collections in a row did not see has been asked to
  stop, the counters are exactly those of the known workers, and every worker in its loop is a
  liveness worker with a probe to run.
\<close>

theorem probes_supervised:
  assumes "mg_reachable E N m"
  shows "keys (mg_status m) = keys (mg_workers m)
    \<and> (\<forall>key w. mget (mg_workers m) key = Some w \<longrightarrow> workerKey w = key
        \<and> (\<exists>c. mget (mg_status m) key = Some c \<and> (maxProbeRetries \<le> c \<longrightarrow> wk_stopCh w))
        \<and> (wk_started w \<longrightarrow> wk_spec w \<noteq> None \<and> wk_type w = Liveness))"
proof -
  note inv = mg_invariant[OF assms]
  have "mget (mg_status m) key = None \<longleftrightarrow> mget (mg_workers m) key = None" for key
    using inv unfolding managerInv_def by (metis entryInv.elims(2) option.distinct(1))
  then have "keys (mg_status m) = keys (mg_workers m)" unfolding keys_dom dom_def by simp
  moreover have "workerKey w = key \<and> (\<exists>c. mget (mg_status m) key = Some c \<and> (maxProbeRetries \<le> c \<longrightarrow> wk_stopCh w))
      \<and> (wk_started w \<longrightarrow> wk_spec w \<noteq> None \<and> wk_type w = Liveness)"
    if w: "mget (mg_workers m) key = Some w" for key w
  proof -
    obtain c where c: "mget (mg_status m) key = Some c" "workerInv key c w"
      using managerInv_D[OF inv w] by blast
    have "wk_type w = Liveness" if "wk_spec w \<noteq> None"
      using that c(2) by (cases "wk_type w") (auto simp: workerInv_def workerKey_def)
    with c show ?thesis by (simp add: workerInv_def)
  qed
  ultimately show ?thesis by blast
qed

theorem probes_supervised_witness:
  "workerKey (newWorker Liveness (probed_app (Some http_probe) None)) =
     \<lparr>pk_name = ''a'', pk_version = ''1'', pk_type = Liveness\<rparr>"
proof -
  let ?m = "AddApp (Some (probed_app (Some http_probe) None)) NewManager"
  have "mg_reachable sample_env refusing ?m" by (rule mg_add[OF mg_start])
  moreover have "mget (mg_workers ?m) \<lparr>pk_name = ''a'', pk_version = ''1'', pk_type = Liveness\<rparr> =
      Some (newWorker Liveness (probed_app (Some http_probe) None))"
    by (simp add: AddApp_def NewManager_def probed_app_def Let_def)
  ultimately show ?thesis using probes_supervised by blast
qed

end
