(* ===== verification/Native.thy ===== *)
theory Native
  imports Prober Go_Path "HOL-Library.List_Lexorder" "HOL-Library.Char_ord"
begin

text \<open>
  The native platform (\<^verbatim>\<open>ami/native/native.go\<close>, \<^verbatim>\<open>native_log.go\<close>): applications are directories
  of service instances under the run directory, each installed as a system service. The service
  library, the port allocator and the mapping file of \<^verbatim>\<open>baetyl-go\<close>, YAML and the process table are
  arguments over an opaque system state.
\<close>

section \<open>State\<close>

text \<open>What a service is created from, and what is written beside its instance.\<close>

record svc_conf =
  sc_name :: string
  sc_dir :: string
  sc_description :: string
  sc_args :: "string list"

record prg_config =
  pc_name :: string
  pc_displayName :: string
  pc_description :: string
  pc_dir :: string
  pc_exec :: string
  pc_args :: "string list"
  pc_env :: "string list"
  pc_logFile :: string
  pc_logger :: string

record child =
  ch_pid :: int
  ch_name :: string
  ch_ppid :: int

text \<open>The process table as \<^verbatim>\<open>gopsutil\<close> answers it; a name or parent that cannot be read is \<open>None\<close>.\<close>

record proc_table =
  pt_pids :: "int list"
  pt_children :: "int \<Rightarrow> int list"
  pt_name :: "int \<Rightarrow> string option"
  pt_ppid :: "int \<Rightarrow> int option"

text \<open>
  A status query answers a status and an error; the code also looks at the status beside an
  error. \<open>sy_entry\<close> reads the entry of a program description, \<open>sy_conf\<close> the logger section of a
  program configuration (\<open>None\<close>: no file), \<open>sy_yaml\<close> renders a program configuration. \<open>sy_usage\<close>
  is \<^verbatim>\<open>getServiceInsStats\<close>, which scales floating-point percentages of \<^verbatim>\<open>gopsutil\<close>.
\<close>

record 'x sys_ops =
  sy_new :: "svc_conf \<Rightarrow> 'x \<Rightarrow> unit result"
  sy_install :: "svc_conf \<Rightarrow> 'x \<Rightarrow> unit result \<times> 'x"
  sy_uninstall :: "svc_conf \<Rightarrow> 'x \<Rightarrow> unit result \<times> 'x"
  sy_start :: "svc_conf \<Rightarrow> 'x \<Rightarrow> unit result \<times> 'x"
  sy_stop :: "svc_conf \<Rightarrow> 'x \<Rightarrow> unit result \<times> 'x"
  sy_status :: "svc_conf \<Rightarrow> 'x \<Rightarrow> svc_status \<times> string option"
  sy_pid :: "svc_conf \<Rightarrow> 'x \<Rightarrow> int result"
  sy_procs :: "'x \<Rightarrow> proc_table result"
  sy_usage :: "int \<Rightarrow> 'x \<Rightarrow> (string, string) gomap result"
  sy_terminate :: "int \<Rightarrow> 'x \<Rightarrow> 'x"
  sy_allocate :: "'x \<Rightarrow> int result \<times> 'x"
  sy_setPorts :: "string \<Rightarrow> int list \<Rightarrow> 'x \<Rightarrow> unit result \<times> 'x"
  sy_delPorts :: "string \<Rightarrow> 'x \<Rightarrow> unit result \<times> 'x"
  sy_entry :: "string \<Rightarrow> string result"
  sy_conf :: "string option \<Rightarrow> string result"
  sy_yaml :: "prg_config \<Rightarrow> string result"

text \<open>The configuration of the platform and the constants of the \<^verbatim>\<open>program\<close> package and \<^verbatim>\<open>baetyl-go\<close>.\<close>

record native_env =
  ne_run :: string
  ne_log :: string
  ne_lib :: string
  ne_windows :: bool
  ne_path :: string
  ne_keyPort :: string
  ne_keyLib :: string

definition ProgramConfYaml :: string where "ProgramConfYaml = ''/etc/baetyl/conf.yml''"
definition ProgramEntryYaml :: string where "ProgramEntryYaml = ''program.yml''"
definition ProgramServiceYaml :: string where "ProgramServiceYaml = ''service.yml''"
definition ProgramBinPath :: string where "ProgramBinPath = ''/var/lib/baetyl/bin''"

text \<open>
  Mounted host directories are symbolic links, kept beside the file system as a map from the
  path of the link to its target; an operation on a path goes through the links on its way.
\<close>

record 'x native_state =
  nt_fs :: fs
  nt_links :: "(string, string) gomap"
  nt_probes :: manager
  nt_sys :: 'x

definition linkOn :: "(string, string) gomap \<Rightarrow> string \<Rightarrow> (string \<times> string) option" where
  "linkOn links p = find (\<lambda>l. below (fst l) p) links"

definition resolve :: "(string, string) gomap \<Rightarrow> string \<Rightarrow> string" where
  "resolve links p =
     (case linkOn links p of None \<Rightarrow> p | Some (l, target) \<Rightarrow> target @ drop (length l) p)"

definition onFs :: "(fs \<Rightarrow> 'r result \<times> fs) \<Rightarrow> 'x native_state \<Rightarrow> 'r result \<times> 'x native_state" where
  "onFs f st = (let (r, fs) = f (nt_fs st) in (r, st\<lparr>nt_fs := fs\<rparr>))"

definition onSys :: "('x \<Rightarrow> 'r result \<times> 'x) \<Rightarrow> 'x native_state \<Rightarrow> 'r result \<times> 'x native_state" where
  "onSys f st = (let (r, x) = f (nt_sys st) in (r, st\<lparr>nt_sys := x\<rparr>))"

definition nMkdir :: "os_env \<Rightarrow> string \<Rightarrow> 'x native_state \<Rightarrow> unit result \<times> 'x native_state" where
  "nMkdir osys p st = onFs (MkdirAll osys (resolve (nt_links st) p)) st"

definition nWrite :: "os_env \<Rightarrow> string \<Rightarrow> string \<Rightarrow> 'x native_state \<Rightarrow> unit result \<times> 'x native_state" where
  "nWrite osys p s st = onFs (WriteFile osys (resolve (nt_links st) p) s) st"

definition nRead :: "os_env \<Rightarrow> string \<Rightarrow> 'x native_state \<Rightarrow> string result" where
  "nRead osys p st = ReadFile osys (resolve (nt_links st) p) (nt_fs st)"

definition nSymlink :: "os_env \<Rightarrow> string \<Rightarrow> string \<Rightarrow> 'x native_state \<Rightarrow> unit result \<times> 'x native_state" where
  "nSymlink osys target p st =
     (if mget (nt_links st) p \<noteq> None \<or> mget (nt_fs st) p \<noteq> None \<or> os_noCreate osys p
      then (Err ''symlink'', st) else (Ok (), st\<lparr>nt_links := mput p target (nt_links st)\<rparr>))"

text \<open>Removing a tree removes the links in it, not what they point to.\<close>

definition nRemoveAll :: "os_env \<Rightarrow> string \<Rightarrow> 'x native_state \<Rightarrow> unit result \<times> 'x native_state" where
  "nRemoveAll osys d st = onFs (RemoveAll osys d) (st\<lparr>nt_links := filter (\<lambda>l. \<not> below d (fst l)) (nt_links st)\<rparr>)"

text \<open>The directories among the entries of a directory, in the order of their names.\<close>

definition subdirs :: "os_env \<Rightarrow> string \<Rightarrow> 'x native_state \<Rightarrow> string list result" where
  "subdirs osys d st =
     rmap (\<lambda>ns. sort (filter (\<lambda>n. mget (nt_fs st) (d @ ''/'' @ n) = Some Dir) ns)) (ReadDir osys d (nt_fs st))"

definition orNil :: "'b list result \<Rightarrow> 'b list" where
  "orNil r = (case r of Ok xs \<Rightarrow> xs | _ \<Rightarrow> [])"

definition genServiceInstanceName :: "string \<Rightarrow> string \<Rightarrow> string \<Rightarrow> string \<Rightarrow> string \<Rightarrow> string" where
  "genServiceInstanceName ns app ver svc ins = ns @ ''.'' @ app @ ''.'' @ ver @ ''.'' @ svc @ ''.'' @ ins"

section \<open>The processes of a service\<close>

text \<open>The conversion of a process id to \<^verbatim>\<open>int32\<close>.\<close>

definition toInt32 :: "int \<Rightarrow> int" where
  "toInt32 n = (n + 2 ^ 31) mod 2 ^ 32 - 2 ^ 31"

text \<open>
  The recursion over the children of a process, with fuel for its depth; a child whose name or
  parent cannot be read ends the loop at its level. Without fuel the recursion is taken not to
  end, which in Go exhausts the stack.
\<close>

fun getChild :: "proc_table \<Rightarrow> nat \<Rightarrow> int \<Rightarrow> child list \<Rightarrow> child list option"
and getChilds :: "proc_table \<Rightarrow> nat \<Rightarrow> int list \<Rightarrow> child list \<Rightarrow> child list option" where
  "getChild T 0 p acc = None"
| "getChild T (Suc k) p acc = getChilds T k (pt_children T p) acc"
| "getChilds T k [] acc = Some acc"
| "getChilds T k (c # cs) acc =
     (case pt_name T c of
        None \<Rightarrow> Some acc
      | Some name \<Rightarrow>
          (case pt_ppid T c of
             None \<Rightarrow> Some acc
           | Some ppid \<Rightarrow>
               (case getChild T k c (acc @ [\<lparr>ch_pid = c, ch_name = name, ch_ppid = ppid\<rparr>]) of
                  None \<Rightarrow> None
                | Some acc \<Rightarrow> getChilds T k cs acc)))"

text \<open>
  The process table is one snapshot and the children of a process are processes of it, so that a recursion
  deeper than the table meets a process twice on its way: a cycle, on which the recursion of the source
  does not end until the stack is exhausted. The bound stands for that case only.
\<close>

definition getChildProcessInfo :: "'x sys_ops \<Rightarrow> 'x \<Rightarrow> int \<Rightarrow> child list result" where
  "getChildProcessInfo Y x pid =
     rbind (sy_procs Y x) (\<lambda>T.
       if toInt32 pid \<notin> set (pt_pids T) then Err ''failed to get process of pid''
       else case getChild T (Suc (length (pt_pids T))) (toInt32 pid) [] of
              Some childs \<Rightarrow> Ok childs
            | None \<Rightarrow> Panic ''stack overflow'')"

definition getPPID :: "'x sys_ops \<Rightarrow> 'x \<Rightarrow> int \<Rightarrow> int result" where
  "getPPID Y x pid =
     rbind (sy_procs Y x) (\<lambda>T.
       if toInt32 pid \<notin> set (pt_pids T) then Ok 0
       else case pt_ppid T (toInt32 pid) of Some ppid \<Rightarrow> Ok ppid | None \<Rightarrow> Err ''ppid'')"

section \<open>Deleting\<close>

text \<open>On Windows the child processes of a running service are collected first and killed later.\<close>

definition winChildren :: "native_env \<Rightarrow> 'x sys_ops \<Rightarrow> svc_conf \<Rightarrow> 'x \<Rightarrow> child list" where
  "winChildren NE Y c x =
     (if \<not> ne_windows NE then []
      else case sy_status Y c x of
             (status, None) \<Rightarrow>
               if status = StatusRunning
               then orNil (getChildProcessInfo Y x (case sy_pid Y c x of Ok pid \<Rightarrow> pid | _ \<Rightarrow> 0)) else []
           | (_, Some _) \<Rightarrow> [])"

definition deleteInstance :: "native_env \<Rightarrow> os_env \<Rightarrow> 'x sys_ops \<Rightarrow> string \<Rightarrow> app_info \<Rightarrow> string \<Rightarrow> string \<Rightarrow> string \<Rightarrow>
    string \<Rightarrow> 'x native_state \<Rightarrow> unit result \<times> 'x native_state" where
  "deleteInstance NE osys Y ns app ver svcDir svc ins st =
     (let c = \<lparr>sc_name = genServiceInstanceName ns (ai_name app) ver svc ins, sc_dir = ins,
               sc_description = [], sc_args = []\<rparr>
      in sbind (sy_new Y c (nt_sys st), st) (\<lambda>_ st.
         let childs = winChildren NE Y c (nt_sys st);
             st = st\<lparr>nt_probes := RemoveApp (Some app) (nt_probes st)\<rparr>
         in slog (onSys (sy_stop Y c) st) (\<lambda>st.
            slog (onSys (sy_uninstall Y c) st) (\<lambda>st.
            nRemoveAll osys (Join [svcDir, ins])
              (st\<lparr>nt_sys := fold (\<lambda>ch. sy_terminate Y (ch_pid ch)) childs (nt_sys st)\<rparr>)))))"

definition deleteService :: "native_env \<Rightarrow> os_env \<Rightarrow> 'x sys_ops \<Rightarrow> string \<Rightarrow> app_info \<Rightarrow> string \<Rightarrow> string \<Rightarrow> string \<Rightarrow>
    'x native_state \<Rightarrow> unit result \<times> 'x native_state" where
  "deleteService NE osys Y ns app ver verDir svc st =
     (let svcDir = Join [verDir, svc]
      in sbind (subdirs osys svcDir st, st) (\<lambda>inss st.
         sbind (sfor (deleteInstance NE osys Y ns app ver svcDir svc) inss st) (\<lambda>_ st.
         sbind (nRemoveAll osys svcDir st) (\<lambda>_ st.
         onSys (sy_delPorts Y svc) st))))"

definition deleteVersion :: "native_env \<Rightarrow> os_env \<Rightarrow> 'x sys_ops \<Rightarrow> string \<Rightarrow> app_info \<Rightarrow> string \<Rightarrow> string \<Rightarrow>
    'x native_state \<Rightarrow> unit result \<times> 'x native_state" where
  "deleteVersion NE osys Y ns app appDir ver st =
     (let verDir = Join [appDir, ver]
      in sbind (subdirs osys verDir st, st) (\<lambda>svcs st.
         sbind (sfor (deleteService NE osys Y ns app ver verDir) svcs st) (\<lambda>_ st.
         nRemoveAll osys verDir st)))"

definition native_DeleteApp :: "native_env \<Rightarrow> os_env \<Rightarrow> 'x sys_ops \<Rightarrow> string \<Rightarrow> app_info \<Rightarrow>
    'x native_state \<Rightarrow> unit result \<times> 'x native_state" where
  "native_DeleteApp NE osys Y ns app st =
     (let appDir = Join [ne_run NE, ns, ai_name app]
      in if mget (nt_fs st) appDir = None then (Ok (), st)
         else sbind (subdirs osys appDir st, st) (\<lambda>vers st.
              sbind (sfor (deleteVersion NE osys Y ns app appDir) vers st) (\<lambda>_ st.
              nRemoveAll osys appDir st)))"

section \<open>Applying\<close>

definition setEnv :: "environment list \<Rightarrow> string \<Rightarrow> string \<Rightarrow> environment list" where
  "setEnv es k v =
     (case List.extract (\<lambda>e. env_name e = k) es of
        Some (pre, e, post) \<Rightarrow> pre @ e\<lparr>env_value := v\<rparr> # post
      | None \<Rightarrow> es @ [\<lparr>env_name = k, env_value = v\<rparr>])"

text \<open>The executable named by the program description, kept inside the directory unless absolute.\<close>

definition programExec :: "string \<Rightarrow> string \<Rightarrow> string" where
  "programExec base entry = (if IsAbs entry then Clean entry else Join [base, Join [''/'', entry]])"

definition readEntry :: "os_env \<Rightarrow> 'x sys_ops \<Rightarrow> string \<Rightarrow> string \<Rightarrow> 'x native_state \<Rightarrow> string result" where
  "readEntry osys Y base file st =
     rbind (nRead osys file st) (\<lambda>content. rbind (sy_entry Y content) (\<lambda>entry. Ok (programExec base entry)))"

text \<open>The mounts of one instance, with the executable found so far.\<close>

definition mountHost :: "os_env \<Rightarrow> 'x sys_ops \<Rightarrow> string \<Rightarrow> string \<Rightarrow> host_path \<Rightarrow>
    string \<times> 'x native_state \<Rightarrow> unit result \<times> (string \<times> 'x native_state)" where
  "mountHost osys Y insDir path hp w =
     (let (exec, st) = w; mp = Join [insDir, Join [''/'', path]];
          (r, st) = sbind (nMkdir osys (pathDir mp) st) (\<lambda>_ st. nSymlink osys (hp_path hp) mp st)
      in case r of
           Ok _ \<Rightarrow>
             if path = ProgramBinPath
             then (case readEntry osys Y mp (Join [mp, ProgramEntryYaml]) st of
                     Ok e \<Rightarrow> (Ok (), (e, st))
                   | Err e \<Rightarrow> (Err e, (exec, st))
                   | Panic p \<Rightarrow> (Panic p, (exec, st)))
             else (Ok (), (exec, st))
         | _ \<Rightarrow> (r, (exec, st)))"

definition mountEntry :: "os_env \<Rightarrow> 'x sys_ops \<Rightarrow> string \<Rightarrow> string \<times> string \<Rightarrow>
    string \<times> 'x native_state \<Rightarrow> unit result \<times> (string \<times> 'x native_state)" where
  "mountEntry osys Y dir kv w =
     (let (exec, st) = w; file = Join [dir, fst kv];
          (r, st) = nWrite osys file (snd kv) st
      in case r of
           Ok _ \<Rightarrow>
             if fst kv = ProgramEntryYaml \<and> exec = []
             then (case readEntry osys Y dir file st of
                     Ok e \<Rightarrow> (Ok (), (e, st))
                   | Err e \<Rightarrow> (Err e, (exec, st))
                   | Panic p \<Rightarrow> (Panic p, (exec, st)))
             else (Ok (), (exec, st))
         | _ \<Rightarrow> (r, (exec, st)))"

definition mountSecret :: "os_env \<Rightarrow> string \<Rightarrow> string \<times> string \<Rightarrow>
    string \<times> 'x native_state \<Rightarrow> unit result \<times> (string \<times> 'x native_state)" where
  "mountSecret osys dir kv w =
     (let (r, st) = nWrite osys (Join [dir, fst kv]) (snd kv) (snd w) in (r, (fst w, st)))"

text \<open>A configuration or secret that is not among those handed over counts as empty.\<close>

definition mountFiles :: "os_env \<Rightarrow> 'x sys_ops \<Rightarrow> (string, configuration) gomap \<Rightarrow> (string, secret) gomap \<Rightarrow>
    string \<Rightarrow> string \<Rightarrow> volume \<Rightarrow> string \<times> 'x native_state \<Rightarrow> unit result \<times> (string \<times> 'x native_state)" where
  "mountFiles osys Y configs secrets insDir path av w =
     (let dir = Join [insDir, path]; (r, st) = nMkdir osys dir (snd w); w = (fst w, st)
      in case r of
           Ok _ \<Rightarrow>
             (case vol_config av of
                Some c \<Rightarrow>
                  sfor (mountEntry osys Y dir)
                    (case mget configs (ref_name c) of Some vc \<Rightarrow> cfg_data vc | None \<Rightarrow> []) w
              | None \<Rightarrow>
                  (case vol_secret av of
                     Some s \<Rightarrow>
                       sfor (mountSecret osys dir)
                         (case mget secrets (ref_name s) of Some vs \<Rightarrow> sec_data vs | None \<Rightarrow> []) w
                   | None \<Rightarrow> (Ok (), w)))
         | _ \<Rightarrow> (r, w))"

definition mountVolume :: "os_env \<Rightarrow> 'x sys_ops \<Rightarrow> (string, volume) gomap \<Rightarrow> (string, configuration) gomap \<Rightarrow>
    (string, secret) gomap \<Rightarrow> string \<Rightarrow> volume_mount \<Rightarrow>
    string \<times> 'x native_state \<Rightarrow> unit result \<times> (string \<times> 'x native_state)" where
  "mountVolume osys Y avs configs secrets insDir vm w =
     (case mget avs (vm_name vm) of
        None \<Rightarrow> (Err ''volume not found in app volumes'', w)
      | Some av \<Rightarrow>
          (case vol_hostPath av of
             Some hp \<Rightarrow> mountHost osys Y insDir (vm_mountPath vm) hp w
           | None \<Rightarrow> mountFiles osys Y configs secrets insDir (vm_mountPath vm) av w))"

text \<open>\<^verbatim>\<open>err = f(); if err != nil { undo(); err = f() }\<close>.\<close>

definition retryAfter :: "('x \<Rightarrow> unit result \<times> 'x) \<Rightarrow> ('x \<Rightarrow> unit result \<times> 'x) \<Rightarrow> 'x \<Rightarrow> unit result \<times> 'x" where
  "retryAfter undo f x =
     (case f x of
        (Err e, x) \<Rightarrow> slog (undo x) f
      | r \<Rightarrow> r)"

definition envLine :: "environment \<Rightarrow> string" where
  "envLine e = env_name e @ ''='' @ env_value e"

definition programConfig :: "native_env \<Rightarrow> string \<Rightarrow> application \<Rightarrow> service \<Rightarrow> string \<Rightarrow> string \<Rightarrow> string \<Rightarrow>
    environment list \<Rightarrow> string \<Rightarrow> prg_config" where
  "programConfig NE ns app s i insDir exec env logger =
     \<lparr>pc_name = genServiceInstanceName ns (app_name app) (app_version app) (svc_name s) i,
      pc_displayName = app_name app @ '' '' @ svc_name s, pc_description = app_description app,
      pc_dir = insDir, pc_exec = exec, pc_args = svc_args s,
      pc_env = (''PATH='' @ ne_path NE) # (ne_keyLib NE @ ''='' @ ne_lib NE) # map envLine env,
      pc_logFile = Join [ne_log NE, ns, app_name app, app_version app, svc_name s @ ''-'' @ i @ ''.log''],
      pc_logger = logger\<rparr>"

text \<open>Installing and starting an instance whose files are in place.\<close>

definition startInstance :: "native_env \<Rightarrow> os_env \<Rightarrow> 'x sys_ops \<Rightarrow> string \<Rightarrow> application \<Rightarrow> service \<Rightarrow> string \<Rightarrow>
    string \<Rightarrow> string \<Rightarrow> environment list \<Rightarrow> 'x native_state \<Rightarrow> unit result \<times> 'x native_state" where
  "startInstance NE osys Y ns app s i insDir exec env st =
     (let confFile = Join [insDir, ProgramConfYaml];
          exists = isFile (mget (nt_fs st) (resolve (nt_links st) confFile))
      in sbind (if exists then rbind (nRead osys confFile st) (\<lambda>c. sy_conf Y (Some c)) else sy_conf Y None, st) (\<lambda>logger st.
         let pc = programConfig NE ns app s i insDir exec env logger;
             c = \<lparr>sc_name = pc_name pc, sc_dir = insDir, sc_description = pc_description pc,
                  sc_args = [''program'', insDir]\<rparr>
         in sbind (sy_yaml Y pc, st) (\<lambda>yml st.
            sbind (nWrite osys (Join [insDir, ProgramServiceYaml]) yml st) (\<lambda>_ st.
            sbind (sy_new Y c (nt_sys st), st) (\<lambda>_ st.
            sbind (onSys (retryAfter (sy_uninstall Y c) (sy_install Y c)) st) (\<lambda>_ st.
            sbind (onSys (retryAfter (sy_stop Y c) (sy_start Y c)) st) (\<lambda>_ st.
            (Ok (), st\<lparr>nt_probes := AddApp (Some app) (nt_probes st)\<rparr>))))))))"

record 'x apply_work =
  aw_ports :: "int list"
  aw_env :: "environment list"
  aw_st :: "'x native_state"

definition onWork :: "('x native_state \<Rightarrow> 'r result \<times> 'x native_state) \<Rightarrow> 'x apply_work \<Rightarrow> 'r result \<times> 'x apply_work" where
  "onWork f w = (let (r, st) = f (aw_st w) in (r, w\<lparr>aw_st := st\<rparr>))"

definition mountAll :: "os_env \<Rightarrow> 'x sys_ops \<Rightarrow> (string, volume) gomap \<Rightarrow> (string, configuration) gomap \<Rightarrow>
    (string, secret) gomap \<Rightarrow> string \<Rightarrow> service \<Rightarrow> 'x native_state \<Rightarrow> string result \<times> 'x native_state" where
  "mountAll osys Y avs configs secrets insDir s st =
     (let (r, (exec, st)) = sfor (mountVolume osys Y avs configs secrets insDir) (svc_volumeMounts s) ([], st)
      in (rmap (\<lambda>_. exec) r, st))"

definition applyInstance :: "native_env \<Rightarrow> os_env \<Rightarrow> 'x sys_ops \<Rightarrow> string \<Rightarrow> application \<Rightarrow> (string, configuration) gomap \<Rightarrow>
    (string, secret) gomap \<Rightarrow> string \<Rightarrow> service \<Rightarrow> int \<Rightarrow> 'x apply_work \<Rightarrow> unit result \<times> 'x apply_work" where
  "applyInstance NE osys Y ns app configs secrets appDir s i w =
     (let insDir = Join [appDir, svc_name s, dec i];
          avs = fold (\<lambda>v. mput (vol_name v) v) (app_volumes app) []
      in sbind (onWork (nMkdir osys insDir) w) (\<lambda>_ w.
         sbind (onWork (mountAll osys Y avs configs secrets insDir s) w) (\<lambda>exec w.
         if exec = []
         then slog (onWork (native_DeleteApp NE osys Y ns \<lparr>ai_name = app_name app, ai_version = app_version app\<rparr>) w)
                (\<lambda>w. (Err ''no program executable, the program config may not be mounted'', w))
         else sbind (onWork (onSys (sy_allocate Y)) w) (\<lambda>port w.
              let w = w\<lparr>aw_ports := aw_ports w @ [port], aw_env := setEnv (aw_env w) (ne_keyPort NE) (dec port)\<rparr>
              in onWork (startInstance NE osys Y ns app s (dec i) insDir exec (aw_env w)) w))))"

definition applyService :: "native_env \<Rightarrow> os_env \<Rightarrow> 'x sys_ops \<Rightarrow> string \<Rightarrow> application \<Rightarrow> (string, configuration) gomap \<Rightarrow>
    (string, secret) gomap \<Rightarrow> string \<Rightarrow> service \<Rightarrow> 'x native_state \<Rightarrow> unit result \<times> 'x native_state" where
  "applyService NE osys Y ns app configs secrets appDir s st =
     (let (r, w) = sfor (applyInstance NE osys Y ns app configs secrets appDir s) [1..svc_replica s]
            \<lparr>aw_ports = [], aw_env = svc_env s, aw_st = st\<rparr>
      in sbind (r, aw_st w) (\<lambda>_ st.
         if aw_ports w = [] then (Ok (), st)
         else onSys (sy_setPorts Y (if app_type app = AppTypeContainer then svc_name s else app_name app) (aw_ports w)) st))"

definition native_ApplyApp :: "native_env \<Rightarrow> os_env \<Rightarrow> 'x sys_ops \<Rightarrow> string \<Rightarrow> application \<Rightarrow> (string, configuration) gomap \<Rightarrow>
    (string, secret) gomap \<Rightarrow> 'x native_state \<Rightarrow> unit result \<times> 'x native_state" where
  "native_ApplyApp NE osys Y ns app configs secrets st =
     slog (native_DeleteApp NE osys Y ns \<lparr>ai_name = app_name app, ai_version = app_version app\<rparr> st) (\<lambda>st.
       let appDir = Join [ne_run NE, ns, app_name app, app_version app]
       in sbind (nMkdir osys appDir st) (\<lambda>_ st.
          sfor (applyService NE osys Y ns app configs secrets appDir) (app_services app) st))"

section \<open>Statistics\<close>

definition prgStatusToSpecStatus :: "svc_status \<Rightarrow> status" where
  "prgStatusToSpecStatus s =
     (case s of StatusRunning \<Rightarrow> Running | StatusStopped \<Rightarrow> Pending | StatusUnknown \<Rightarrow> Unknown)"

fun appStatusLoop :: "bool \<Rightarrow> instance_stats list \<Rightarrow> status" where
  "appStatusLoop pending [] = (if pending then Pending else Running)"
| "appStatusLoop pending (i # is) =
     (if is_status i = Pending then appStatusLoop True is
      else if is_status i = Unknown then Unknown
      else appStatusLoop pending is)"

definition getAppStatus :: "(string, instance_stats) gomap \<Rightarrow> status" where
  "getAppStatus infos = appStatusLoop False (map snd infos)"

text \<open>The children of a process; the first whose usage cannot be read ends the loop.\<close>

fun childStats :: "'x sys_ops \<Rightarrow> 'x \<Rightarrow> instance_stats \<Rightarrow> child list \<Rightarrow>
    (string, instance_stats) gomap \<Rightarrow> (string, instance_stats) gomap" where
  "childStats Y x main [] m = m"
| "childStats Y x main (c # cs) m =
     (case sy_usage Y (ch_pid c) x of
        Ok usage \<Rightarrow>
          let n = ch_name c @ ''-'' @ dec (ch_pid c)
          in childStats Y x main cs (mput n (zero_instance_stats\<lparr>is_name := n, is_service := is_service main,
               is_usage := usage, is_status := is_status main, is_pid := ch_pid c, is_ppid := ch_ppid c\<rparr>) m)
      | _ \<Rightarrow> m)"

definition getChildInsStats :: "'x sys_ops \<Rightarrow> 'x \<Rightarrow> int \<Rightarrow> string \<Rightarrow>
    (string, instance_stats) gomap \<Rightarrow> (string, instance_stats) gomap" where
  "getChildInsStats Y x pid name m =
     (case getChildProcessInfo Y x pid of
        Ok childs \<Rightarrow> (case mget m name of None \<Rightarrow> m | Some main \<Rightarrow> childStats Y x main childs m)
      | _ \<Rightarrow> m)"

text \<open>What a running service shows: its process, the parent and the usage, or why not.\<close>

definition runningStats :: "'x sys_ops \<Rightarrow> 'x \<Rightarrow> svc_conf \<Rightarrow> instance_stats \<Rightarrow> (string, instance_stats) gomap" where
  "runningStats Y x c main =
     (let name = sc_name c;
          failed = (\<lambda>main cause. [(name, main\<lparr>is_status := Unknown, is_cause := cause\<rparr>)])
      in case sy_pid Y c x of
           Ok pid \<Rightarrow>
             if pid = 0 \<or> pid = 1 then failed main ''failed to get svc pid''
             else let main = main\<lparr>is_pid := toInt32 pid\<rparr>
                  in (case getPPID Y x pid of
                        Ok ppid \<Rightarrow>
                          if ppid = 0 then failed main ''failed to get svc ppid''
                          else let main = main\<lparr>is_ppid := ppid\<rparr>
                               in (case sy_usage Y pid x of
                                     Ok usage \<Rightarrow> getChildInsStats Y x pid name [(name, main\<lparr>is_usage := usage\<rparr>)]
                                   | Err e \<Rightarrow> failed main e
                                   | Panic e \<Rightarrow> failed main e)
                      | _ \<Rightarrow> failed main ''failed to get svc ppid'')
         | _ \<Rightarrow> failed main ''failed to get svc pid'')"

text \<open>The statistics of one instance, and whether its service exists.\<close>

definition instanceStats :: "'x sys_ops \<Rightarrow> 'x \<Rightarrow> string \<Rightarrow> svc_conf \<Rightarrow> (string, instance_stats) gomap \<times> bool" where
  "instanceStats Y x svc c =
     (let name = sc_name c; main = zero_instance_stats\<lparr>is_service := svc, is_name := name\<rparr>
      in case sy_new Y c x of
           Ok _ \<Rightarrow>
             (case sy_status Y c x of
                (status, err) \<Rightarrow>
                  let main = main\<lparr>is_status := prgStatusToSpecStatus status\<rparr>
                  in if err \<noteq> None \<or> status \<noteq> StatusRunning
                     then [(name, main\<lparr>is_cause := ''error : service is not running''\<rparr>)]
                     else runningStats Y x c main, True)
         | _ \<Rightarrow> ([(name, main\<lparr>is_status := Unknown, is_cause := ''failed to create service''\<rparr>)], False))"

text \<open>
  The scan: the statistics collected, the applications that have a service, the instances of the
  version at hand, and the probe manager. Each instance replaces the map of instances.
\<close>

record scan =
  sn_stats :: "app_stats list"
  sn_apps :: "(string, bool) gomap"
  sn_cur :: "(string, instance_stats) gomap"
  sn_probes :: manager

definition scanInstance :: "env \<Rightarrow> ('s store_ops \<times> 's) option \<Rightarrow> 'x sys_ops \<Rightarrow> string \<Rightarrow> string \<Rightarrow> string \<Rightarrow>
    string \<Rightarrow> 'x native_state \<Rightarrow> string \<Rightarrow> scan \<Rightarrow> unit result \<times> scan" where
  "scanInstance E store Y ns app ver svc st ins sn =
     (let c = \<lparr>sc_name = genServiceInstanceName ns app ver svc ins, sc_dir = ins, sc_description = [], sc_args = []\<rparr>;
          (m, exists) = instanceStats Y (nt_sys st) svc c;
          sn = (if exists
                then sn\<lparr>sn_apps := mput (app_key E app ver) True (sn_apps sn),
                        sn_probes := CheckAndStart E store \<lparr>ai_name = app, ai_version = ver\<rparr> (sn_probes sn)\<rparr>
                else sn)
      in (Ok (), sn\<lparr>sn_cur := m\<rparr>))"

definition scanService :: "env \<Rightarrow> ('s store_ops \<times> 's) option \<Rightarrow> os_env \<Rightarrow> 'x sys_ops \<Rightarrow> string \<Rightarrow> string \<Rightarrow> string \<Rightarrow>
    string \<Rightarrow> 'x native_state \<Rightarrow> string \<Rightarrow> scan \<Rightarrow> unit result \<times> scan" where
  "scanService E store osys Y ns app ver verDir st svc sn =
     (let svcDir = Join [verDir, svc]
      in if mget (nt_fs st) svcDir \<noteq> Some Dir then (Ok (), sn)
         else sbind (subdirs osys svcDir st, sn) (\<lambda>inss sn.
              sfor (scanInstance E store Y ns app ver svc st) inss sn))"

definition scanVersion :: "env \<Rightarrow> ('s store_ops \<times> 's) option \<Rightarrow> os_env \<Rightarrow> 'x sys_ops \<Rightarrow> string \<Rightarrow> string \<Rightarrow> string \<Rightarrow>
    'x native_state \<Rightarrow> string \<Rightarrow> scan \<Rightarrow> unit result \<times> scan" where
  "scanVersion E store osys Y ns app appDir st ver sn =
     (let verDir = Join [appDir, ver]; sn = sn\<lparr>sn_cur := []\<rparr>
      in if mget (nt_fs st) verDir \<noteq> Some Dir then (Ok (), sn)
         else sbind (subdirs osys verDir st, sn) (\<lambda>svcs sn.
              sbind (sfor (scanService E store osys Y ns app ver verDir st) svcs sn) (\<lambda>_ sn.
              if sn_cur sn = [] then (Ok (), sn)
              else (Ok (), sn\<lparr>sn_stats := sn_stats sn @
                [zero_app_stats\<lparr>as_name := app, as_version := ver, as_status := getAppStatus (sn_cur sn),
                   as_instances := Some (sn_cur sn)\<rparr>]\<rparr>))))"

definition scanAppDir :: "env \<Rightarrow> ('s store_ops \<times> 's) option \<Rightarrow> os_env \<Rightarrow> 'x sys_ops \<Rightarrow> string \<Rightarrow> string \<Rightarrow>
    'x native_state \<Rightarrow> string \<Rightarrow> scan \<Rightarrow> unit result \<times> scan" where
  "scanAppDir E store osys Y ns nsDir st app sn =
     (let appDir = Join [nsDir, app]
      in if mget (nt_fs st) appDir \<noteq> Some Dir then (Ok (), sn)
         else sbind (subdirs osys appDir st, sn) (\<lambda>vers sn.
              sfor (scanVersion E store osys Y ns app appDir st) vers sn))"

definition native_StatsApps :: "env \<Rightarrow> ('s store_ops \<times> 's) option \<Rightarrow> native_env \<Rightarrow> os_env \<Rightarrow> 'x sys_ops \<Rightarrow> string \<Rightarrow>
    'x native_state \<Rightarrow> (app_stats list \<times> unit result) \<times> 'x native_state" where
  "native_StatsApps E store NE osys Y ns st =
     (let nsDir = Join [ne_run NE, ns]
      in if mget (nt_fs st) (ne_run NE) \<noteq> Some Dir \<or> mget (nt_fs st) nsDir \<noteq> Some Dir then (([], Ok ()), st)
         else
           let (r, sn) = sbind (subdirs osys nsDir st, \<lparr>sn_stats = [], sn_apps = [], sn_cur = [], sn_probes = nt_probes st\<rparr>)
                 (\<lambda>apps sn. sfor (scanAppDir E store osys Y ns nsDir st) apps sn)
           in ((if is_ok r then sn_stats sn else [], r),
               st\<lparr>nt_probes := (if is_ok r then CleanupApps E (sn_apps sn) (sn_probes sn) else sn_probes sn)\<rparr>))"

section \<open>Logs and calls\<close>

text \<open>\<open>tail\<close> runs the \<^verbatim>\<open>tail\<close> command on a number of lines and a path, \<open>win\<close> reads the file.\<close>

definition native_logPath :: "native_env \<Rightarrow> string \<Rightarrow> string result" where
  "native_logPath NE pod =
     (case split (CHR ''.'') pod of
        [a, b, c, d, e] \<Rightarrow> Ok (ne_log NE @ ''/'' @ a @ ''/'' @ b @ ''/'' @ c @ ''/'' @ d @ ''-'' @ e @ ''.log'')
      | _ \<Rightarrow> Err ''log path error'')"

definition native_FetchLog :: "native_env \<Rightarrow> (int \<Rightarrow> string \<Rightarrow> string result) \<Rightarrow> (string \<Rightarrow> int \<Rightarrow> string result) \<Rightarrow>
    string \<Rightarrow> int \<Rightarrow> string result" where
  "native_FetchLog NE tail win pod tailLines =
     rbind (native_logPath NE pod) (\<lambda>path.
       let tailLines = 200
       in if ne_windows NE then win path tailLines else tail tailLines path)"

text \<open>
  \<^verbatim>\<open>seekLastN\<close> on the bytes of the file: \<open>cursor\<close> bytes from the end have been passed, \<open>cnt\<close> line
  ends seen; the result is the offset the file is left at.
\<close>

function seekLoop :: "string \<Rightarrow> int \<Rightarrow> nat \<Rightarrow> int \<Rightarrow> nat" where
  "seekLoop s n cursor cnt =
     (let cursor = cursor + 1
      in if length s < cursor then 0
         else let cnt = (if s ! (length s - cursor) = CHR 0x0A then cnt + 1 else cnt)
              in if n + 1 \<le> cnt then length s - cursor + 1
                 else seekLoop s n cursor cnt)"
  by pat_completeness auto
termination
  by (relation "measure (\<lambda>(s, n, cursor, cnt). Suc (length s) - cursor)") auto

declare seekLoop.simps [simp del]

definition seekLastN :: "string \<Rightarrow> int \<Rightarrow> nat" where
  "seekLastN s n = seekLoop s n 0 0"

definition rpcUrl :: "string \<Rightarrow> string \<Rightarrow> string" where
  "rpcUrl url params =
     (if hasPrefix url ''https://'' then ''https://'' @ ''0.0.0.0'' @ params else ''http://'' @ ''0.0.0.0'' @ params)"

section \<open>Deleting touches the application's directory only\<close>

text \<open>Removals below \<open>D\<close>: no new entries, and everything not below \<open>D\<close> as before.\<close>

definition removedBelow :: "string \<Rightarrow> 'x native_state \<Rightarrow> 'x native_state \<Rightarrow> bool" where
  "removedBelow D st st' \<longleftrightarrow> set (nt_fs st') \<subseteq> set (nt_fs st) \<and>
     (\<forall>p. \<not> below D p \<longrightarrow> mget (nt_fs st') p = mget (nt_fs st) p)"

lemma removedBelow_refl: "nt_fs st' = nt_fs st \<Longrightarrow> removedBelow D st st'"
  by (simp add: removedBelow_def)

lemma removedBelow_fs: "removedBelow D st st1 \<Longrightarrow> nt_fs st' = nt_fs st1 \<Longrightarrow> removedBelow D st st'"
  by (simp add: removedBelow_def)

lemma onSys_fs [simp]: "nt_fs (snd (onSys f st)) = nt_fs st"
  by (simp add: onSys_def Let_def split: prod.split)

lemma nRemoveAll_fs: "nt_fs (snd (nRemoveAll osys d st)) = snd (RemoveAll osys d (nt_fs st))"
  "fst (nRemoveAll osys d st) = fst (RemoveAll osys d (nt_fs st))"
  by (simp_all add: nRemoveAll_def onFs_def Let_def split: prod.split)

lemma removedBelow_RemoveAll:
  assumes "removedBelow D st st1" and "below D d"
  shows "removedBelow D st (snd (nRemoveAll osys d st1))"
proof -
  have "mget (nt_fs (snd (nRemoveAll osys d st1))) p = mget (nt_fs st1) p" if "\<not> below D p" for p
    using that below_trans[OF assms(2), of p] RemoveAll_other[of d p osys "nt_fs st1"] by (auto simp: nRemoveAll_fs)
  moreover have "set (nt_fs (snd (nRemoveAll osys d st1))) \<subseteq> set (nt_fs st1)"
    using RemoveAll_subset by (simp add: nRemoveAll_fs)
  ultimately show ?thesis using assms(1) unfolding removedBelow_def by (metis subset_trans)
qed

lemma subdirs_plain:
  assumes "removedBelow D st st1" and "canonical_fs (nt_fs st)" and "canonical d cs" and "cs \<noteq> []"
    and "subdirs osys d st1 = Ok ns" and "n \<in> set ns"
  shows "plain [n]"
proof -
  from assms(5) obtain all where all: "ReadDir osys d (nt_fs st1) = Ok all"
    and ns: "ns = sort (filter (\<lambda>n. mget (nt_fs st1) (d @ ''/'' @ n) = Some Dir) all)"
    by (cases "ReadDir osys d (nt_fs st1)") (auto simp: subdirs_def)
  with assms(6) have "n \<in> set all" and "(d @ ''/'' @ n, Dir) \<in> set (nt_fs st1)"
    by (auto dest: map_of_SomeD)
  with assms(1,2) obtain ds where "canonical (d @ ''/'' @ n) ds"
    unfolding removedBelow_def canonical_fs_def by fastforce
  moreover have "slash \<notin> set n" using ReadDir_no_slash[OF all \<open>n \<in> set all\<close>] .
  ultimately show ?thesis using canonical_child[OF assms(3,4)] by blast
qed

lemma slog_inv:
  assumes "I (snd m)" and "\<And>s. I s \<Longrightarrow> I (snd (k s))"
  shows "I (snd (slog m k))"
proof (cases m)
  case (Pair r s)
  with assms show ?thesis by (cases r) auto
qed

lemma deleteInstance_below:
  assumes "removedBelow D st0 st" and "below D svcDir" and "canonical svcDir cs" and "cs \<noteq> []" and "plain [ins]"
  shows "removedBelow D st0 (snd (deleteInstance NE osys Y ns app ver svcDir svc ins st))"
proof -
  have "below D (Join [svcDir, ins])"
    using canonical_Join(1)[OF assms(3,4,5)] below_child[OF assms(2)] by simp
  with assms(1) show ?thesis
    unfolding deleteInstance_def Let_def
    by (intro sbind_inv[where I = "removedBelow D st0"] slog_inv[where I = "removedBelow D st0"]
        removedBelow_RemoveAll) (auto elim: removedBelow_fs)
qed

text \<open>The shape shared by the three levels: every subdirectory is treated, then the rest follows.\<close>

lemma each_subdir_below:
  assumes "removedBelow D st0 st" and "canonical_fs (nt_fs st0)" and "canonical d cs" and "cs \<noteq> []"
    and "\<And>n s. plain [n] \<Longrightarrow> removedBelow D st0 s \<Longrightarrow> removedBelow D st0 (snd (f n s))"
    and "\<And>s. removedBelow D st0 s \<Longrightarrow> removedBelow D st0 (snd (k s))"
  shows "removedBelow D st0 (snd (sbind (subdirs osys d st, st) (\<lambda>ns s. sbind (sfor f ns s) (\<lambda>_. k))))"
proof (rule sbind_inv[where I = "removedBelow D st0"])
  show "removedBelow D st0 (snd (subdirs osys d st, st))" using assms(1) by simp
  fix ns s
  assume s: "(subdirs osys d st, st) = (Ok ns, s)" and "removedBelow D st0 s"
  show "removedBelow D st0 (snd (sbind (sfor f ns s) (\<lambda>_. k)))"
  proof (rule sbind_inv[where I = "removedBelow D st0"])
    show "removedBelow D st0 (snd (sfor f ns s))"
    proof (rule sfor_inv[where I = "removedBelow D st0"])
      fix n s'
      assume "n \<in> set ns" and "removedBelow D st0 s'"
      then show "removedBelow D st0 (snd (f n s'))"
        using assms(5) subdirs_plain[OF assms(1,2,3,4), of osys ns n] s by (metis fst_conv)
    qed fact
  qed (rule assms(6))
qed

lemma deleteService_below:
  assumes "removedBelow D st0 st" and "canonical_fs (nt_fs st0)"
    and "below D verDir" and "canonical verDir cs" and "cs \<noteq> []" and "plain [svc]"
  shows "removedBelow D st0 (snd (deleteService NE osys Y ns app ver verDir svc st))"
proof -
  define svcDir where "svcDir = Join [verDir, svc]"
  have b: "below D svcDir" and c: "canonical svcDir (cs @ [svc])"
    using canonical_Join[OF assms(4,5,6)] below_child[OF assms(3)] by (simp_all add: svcDir_def)
  have rest: "removedBelow D st0 (snd (sbind (nRemoveAll osys svcDir s) (\<lambda>_. onSys (sy_delPorts Y svc))))"
    if "removedBelow D st0 s" for s
    by (rule sbind_inv[where I = "removedBelow D st0"], rule removedBelow_RemoveAll[OF that b])
      (auto elim: removedBelow_fs)
  show ?thesis
    unfolding deleteService_def Let_def svcDir_def[symmetric]
    by (rule each_subdir_below[OF assms(1,2) c])
      (simp_all add: deleteInstance_below[OF _ b c] rest)
qed

lemma deleteVersion_below:
  assumes "removedBelow D st0 st" and "canonical_fs (nt_fs st0)"
    and "below D appDir" and "canonical appDir cs" and "cs \<noteq> []" and "plain [ver]"
  shows "removedBelow D st0 (snd (deleteVersion NE osys Y ns app appDir ver st))"
proof -
  define verDir where "verDir = Join [appDir, ver]"
  have b: "below D verDir" and c: "canonical verDir (cs @ [ver])"
    using canonical_Join[OF assms(4,5,6)] below_child[OF assms(3)] by (simp_all add: verDir_def)
  show ?thesis
    unfolding deleteVersion_def Let_def verDir_def[symmetric]
    by (rule each_subdir_below[OF assms(1,2) c])
      (simp_all add: deleteService_below[OF _ assms(2) b c] removedBelow_RemoveAll[OF _ b])
qed

text \<open>
  C20. Deleting an application removes its directory and nothing else: whatever fails on the way,
  files and directories outside the directory of the application are as they were, and when
  \<open>DeleteApp\<close> succeeds on an application that has a directory, nothing below it is left. (The
  paths of the file system are canonical; the namespace and the name are plain path components.)
\<close>

theorem native_delete_confined:
  assumes "canonical_fs (nt_fs st)" and "canonical (ne_run NE) cs" and "cs \<noteq> []" and "plain [ns, ai_name app]"
    and "D = ne_run NE @ ''/'' @ ns @ ''/'' @ ai_name app"
    and "native_DeleteApp NE osys Y ns app st = (r, st')"
  shows "(\<forall>p. \<not> below D p \<longrightarrow> mget (nt_fs st') p = mget (nt_fs st) p)
    \<and> (r = Ok () \<longrightarrow> mget (nt_fs st) D \<noteq> None \<longrightarrow> (\<forall>p e. mget (nt_fs st') p = Some e \<longrightarrow> \<not> below D p))"
proof -
  have abs: "IsAbs (ne_run NE)" using assms(2) by (simp add: canonical_def IsAbs_iff)
  have J: "Join [ne_run NE, ns, ai_name app] = D" and c: "canonical D (cs @ [ns, ai_name app])"
    using canonical_Join3[OF assms(2,3,4)] by (simp_all add: assms(5))
  have top: "removedBelow D st (snd (native_DeleteApp NE osys Y ns app st))"
  proof (cases "mget (nt_fs st) D = None")
    case True
    then show ?thesis by (simp add: native_DeleteApp_def J removedBelow_refl)
  next
    case False
    then have "native_DeleteApp NE osys Y ns app st = sbind (subdirs osys D st, st) (\<lambda>vers st.
        sbind (sfor (deleteVersion NE osys Y ns app D) vers st) (\<lambda>_ st. nRemoveAll osys D st))"
      by (auto simp: native_DeleteApp_def J)
    moreover have "removedBelow D st (snd (sbind (subdirs osys D st, st) (\<lambda>vers st.
        sbind (sfor (deleteVersion NE osys Y ns app D) vers st) (\<lambda>_ st. nRemoveAll osys D st))))"
      by (rule each_subdir_below[OF removedBelow_refl[OF refl] assms(1) c])
        (simp_all add: deleteVersion_below[OF _ assms(1) _ c] removedBelow_RemoveAll below_def)
    ultimately show ?thesis by simp
  qed
  have gone: "\<not> below D p" if ok: "r = Ok ()" and dir: "mget (nt_fs st) D \<noteq> None" and e: "mget (nt_fs st') p = Some e" for p e
  proof -
    from assms(6) ok dir obtain s where "nRemoveAll osys D s = (Ok (), st')"
      unfolding native_DeleteApp_def Let_def J by (auto simp: sbind_Ok_iff)
    with nRemoveAll_fs[of osys D s] have f: "fst (RemoveAll osys D (nt_fs s)) = Ok ()" "nt_fs st' = snd (RemoveAll osys D (nt_fs s))"
      by simp_all
    from e have "(p, e) \<in> set (nt_fs st')" by (rule map_of_SomeD)
    with RemoveAll_gone[OF f(1)] f(2) show ?thesis by (metis fst_conv)
  qed
  from top gone show ?thesis using assms(6) by (simp add: removedBelow_def)
qed

section \<open>The last lines of a log\<close>

abbreviation newline :: char where
  "newline \<equiv> CHR 0x0A"

definition lineEnds :: "string \<Rightarrow> nat" where
  "lineEnds s = length (filter (\<lambda>c. c = newline) s)"

lemma lineEnds_simps [simp]: "lineEnds [] = 0" "lineEnds (c # s) = (if c = newline then 1 else 0) + lineEnds s"
  "lineEnds (s @ t) = lineEnds s + lineEnds t"
  by (simp_all add: lineEnds_def)

text \<open>What the loop finds: the offset after the line end that leaves \<open>n\<close> line ends behind it.\<close>

definition seeks :: "string \<Rightarrow> int \<Rightarrow> nat \<Rightarrow> bool" where
  "seeks s n off \<longleftrightarrow>
     (if int (lineEnds s) \<le> n then off = 0
      else 0 < off \<and> off \<le> length s \<and> s ! (off - 1) = newline \<and> int (lineEnds (drop off s)) = n)"

lemma seekLoop_seeks:
  assumes "cursor \<le> length s" and "cnt = int (lineEnds (drop (length s - cursor) s))" and "cnt \<le> n"
  shows "seeks s n (seekLoop s n cursor cnt)"
  using assms
proof (induction s n cursor cnt rule: seekLoop.induct)
  case (1 s n cursor cnt)
  show ?case
  proof (cases "cursor = length s")
    case True
    with "1.prems" show ?thesis by (simp add: seekLoop.simps[of s n "length s"] seeks_def)
  next
    case False
    define pos where "pos = length s - (cursor + 1)"
    from False "1.prems"(1) have pos: "pos < length s" "length s - cursor = Suc pos" "\<not> length s < cursor + 1"
      by (simp_all add: pos_def)
    define cnt' where "cnt' = (if s ! pos = newline then cnt + 1 else cnt)"
    have split: "drop pos s = s ! pos # drop (Suc pos) s"
      using pos(1) by (simp add: Cons_nth_drop_Suc)
    have cnt': "cnt' = int (lineEnds (drop pos s))"
      using "1.prems"(2) pos(2) by (simp add: cnt'_def split)
    have step: "seekLoop s n cursor cnt = (if n + 1 \<le> cnt' then Suc pos else seekLoop s n (cursor + 1) cnt')"
      using pos(3) by (simp add: seekLoop.simps[of s n cursor] Let_def cnt'_def pos_def)
    show ?thesis
    proof (cases "n + 1 \<le> cnt'")
      case True
      with "1.prems"(3) have "s ! pos = newline" "cnt = n" by (auto simp: cnt'_def split: if_splits)
      moreover have "lineEnds (drop pos s) \<le> lineEnds s"
        by (metis append_take_drop_id le_add2 lineEnds_simps(3))
      ultimately show ?thesis
        unfolding step using True "1.prems"(2) pos cnt' by (simp add: seeks_def)
    next
      case more: False
      have "seeks s n (seekLoop s n (cursor + 1) cnt')"
        using "1.IH"[OF refl pos(3)] more cnt' pos by (simp add: cnt'_def pos_def)
      with more show ?thesis by (simp add: step)
    qed
  qed
qed

lemma seekLastN_seeks: "0 \<le> n \<Longrightarrow> seeks s n (seekLastN s n)"
  unfolding seekLastN_def by (rule seekLoop_seeks) simp_all

lemma lineEnds_drop_less:
  assumes "i < j" and "j \<le> length s" and "s ! (j - 1) = newline"
  shows "lineEnds (drop j s) < lineEnds (drop i s)"
proof -
  have "drop i s = take (j - 1 - i) (drop i s) @ drop (j - 1) s"
    using assms(1) append_take_drop_id[of "j - 1 - i" "drop i s"] by simp
  moreover have "drop (j - 1) s = newline # drop j s"
    using Cons_nth_drop_Suc[of "j - 1" s] assms by simp
  ultimately have "lineEnds (drop i s) = lineEnds (take (j - 1 - i) (drop i s) @ newline # drop j s)"
    by metis
  also have "\<dots> = lineEnds (take (j - 1 - i) (drop i s)) + Suc (lineEnds (drop j s))" by simp
  finally show ?thesis by simp
qed

lemma seeks_unique:
  assumes "seeks s n i" and "seeks s n j"
  shows "i = j"
proof (rule ccontr)
  assume "i \<noteq> j"
  with assms lineEnds_drop_less[of i j s] lineEnds_drop_less[of j i s] show False
    by (auto simp: seeks_def neq_iff split: if_splits)
qed

definition unlines :: "string list \<Rightarrow> string" where
  "unlines ls = concat (map (\<lambda>l. l @ [newline]) ls)"

lemma lineEnds_free: "newline \<notin> set l \<Longrightarrow> lineEnds l = 0"
  by (induction l) auto

lemma lineEnds_unlines: "\<forall>l \<in> set ls. newline \<notin> set l \<Longrightarrow> lineEnds (unlines ls) = length ls"
  by (induction ls) (auto simp: unlines_def lineEnds_free)

lemma unlines_append: "unlines (xs @ ys) = unlines xs @ unlines ys"
  by (simp add: unlines_def)

text \<open>
  Seeking finds the last lines: in a file of complete lines, \<open>seekLastN\<close> leaves the file at the
  offset from which exactly the last \<open>n\<close> lines are read, or at its start if it has no more.
\<close>

theorem seek_last_lines:
  assumes "\<forall>l \<in> set ls. newline \<notin> set l"
  shows "drop (seekLastN (unlines ls) (int n)) (unlines ls) = unlines (drop (length ls - n) ls)"
proof (cases "length ls \<le> n")
  case True
  have "seeks (unlines ls) (int n) 0" using True lineEnds_unlines[OF assms] by (simp add: seeks_def)
  with seeks_unique[OF seekLastN_seeks[of "int n" "unlines ls"]] True show ?thesis by simp
next
  case False
  define as where "as = take (length ls - n) ls"
  define bs where "bs = drop (length ls - n) ls"
  have ls: "ls = as @ bs" by (simp add: as_def bs_def)
  have "as \<noteq> []" using False by (auto simp: as_def)
  then obtain xs x where x: "as = xs @ [x]" by (metis rev_exhaust)
  have "length bs = n" using False by (simp add: bs_def)
  moreover have "\<forall>l \<in> set bs. newline \<notin> set l" using assms ls by simp
  ultimately have "lineEnds (unlines bs) = n" by (simp add: lineEnds_unlines)
  moreover have "unlines as ! (length (unlines as) - 1) = newline" "0 < length (unlines as)"
    by (simp_all add: x unlines_def nth_append)
  ultimately have "seeks (unlines ls) (int n) (length (unlines as))"
    using False lineEnds_unlines[OF assms]
    by (simp add: seeks_def ls unlines_append nth_append)
  with seeks_unique[OF seekLastN_seeks[of "int n" "unlines ls"]]
  have "seekLastN (unlines ls) (int n) = length (unlines as)" by simp
  then show ?thesis by (simp add: bs_def[symmetric]) (simp add: ls unlines_append)
qed

section \<open>The walk over the processes ends\<close>

text \<open>\<open>h\<close> bounds how deep the tree below a process is: a child is less deep than its parent.\<close>

definition depths :: "proc_table \<Rightarrow> (int \<Rightarrow> nat) \<Rightarrow> bool" where
  "depths T h \<longleftrightarrow> (\<forall>p. \<forall>c \<in> set (pt_children T p). h c < h p)"

lemma getChild_ends:
  "depths T h \<Longrightarrow> h p < k \<Longrightarrow> \<exists>cs. getChild T k p acc = Some (acc @ cs)"
  "depths T h \<Longrightarrow> \<forall>c \<in> set ps. h c < k \<Longrightarrow> \<exists>cs. getChilds T k ps acc = Some (acc @ cs)"
proof (induction T k p acc and T k ps acc rule: getChild_getChilds.induct)
  case (1 T p acc)
  then show ?case by simp
next
  case (2 T k p acc)
  then have "\<forall>c \<in> set (pt_children T p). h c < k" unfolding depths_def by (metis less_Suc_eq_le order_less_le_trans)
  with 2 show ?case by simp
next
  case (3 T k acc)
  then show ?case by simp
next
  case (4 T k c cs acc)
  show ?case
  proof (cases "pt_name T c = None \<or> pt_ppid T c = None")
    case True
    then show ?thesis by (auto split: option.split)
  next
    case False
    then obtain n q where nq: "pt_name T c = Some n" "pt_ppid T c = Some q" by auto
    define acc1 where "acc1 = acc @ [\<lparr>ch_pid = c, ch_name = n, ch_ppid = q\<rparr>]"
    from "4.IH"(1)[OF nq "4.prems"(1)] "4.prems"(2) obtain us where us: "getChild T k c acc1 = Some (acc1 @ us)"
      by (auto simp: acc1_def)
    from "4.IH"(2)[OF nq us[unfolded acc1_def] "4.prems"(1)] "4.prems"(2)
    obtain vs where "getChilds T k cs (acc1 @ us) = Some ((acc1 @ us) @ vs)" by (auto simp: acc1_def)
    with nq us show ?thesis by (simp add: acc1_def)
  qed
qed

text \<open>
  C38. Collecting the processes of a service ends: if the parent relation of the process table has
  no cycle and is no deeper than the table is long, the recursion over the children returns, with
  a list for a known process and an error for an unknown one.
\<close>

theorem children_end:
  assumes "sy_procs Y x = Ok T" and "depths T h" and "\<forall>p. h p \<le> length (pt_pids T)"
  shows "if toInt32 pid \<in> set (pt_pids T) then \<exists>cs. getChildProcessInfo Y x pid = Ok cs
    else \<exists>e. getChildProcessInfo Y x pid = Err e"
proof -
  have "h (toInt32 pid) < Suc (length (pt_pids T))" using assms(3) by (simp add: less_Suc_eq_le)
  from getChild_ends(1)[OF assms(2) this, of "[]"] show ?thesis
    by (auto simp: getChildProcessInfo_def assms(1))
qed

section \<open>Further facts\<close>

text \<open>The status of an application: unknown if any instance is, else pending if any is.\<close>

lemma getAppStatus_iff:
  "getAppStatus infos =
     (if \<exists>i \<in> set infos. is_status (snd i) = Unknown then Unknown
      else if \<exists>i \<in> set infos. is_status (snd i) = Pending then Pending else Running)"
proof -
  have "appStatusLoop b is = (if \<exists>i \<in> set is. is_status i = Unknown then Unknown
      else if b \<or> (\<exists>i \<in> set is. is_status i = Pending) then Pending else Running)" for b "is"
    by (induction "is" arbitrary: b) auto
  then show ?thesis by (simp add: getAppStatus_def)
qed

text \<open>
  The statistics of a service with several instances are those of its last one: every instance
  replaces the map.
\<close>

lemma only_last_instance:
  assumes "sfor (scanInstance E store Y ns app ver svc st) (inss @ [ins]) sn = (r, sn')"
  shows "sn_cur sn' = fst (instanceStats Y (nt_sys st) svc
     \<lparr>sc_name = genServiceInstanceName ns app ver svc ins, sc_dir = ins, sc_description = [], sc_args = []\<rparr>)"
  using assms
proof (induction inss arbitrary: sn)
  case Nil
  then show ?case by (auto simp: scanInstance_def Let_def split: prod.splits if_splits)
next
  case (Cons i inss)
  obtain q sn1 where one: "scanInstance E store Y ns app ver svc st i sn = (q, sn1)" by (rule prod.exhaust)
  then have "q = Ok ()" by (auto simp: scanInstance_def Let_def split: prod.splits)
  with one Cons show ?case by simp
qed

text \<open>The number of lines a client asks for is ignored.\<close>

lemma fetch_log_ignores_tail: "native_FetchLog NE tail win pod m = native_FetchLog NE tail win pod n"
  by (simp add: native_FetchLog_def)

text \<open>
  Replacing a version stops the probe of the version passed in, which for \<open>ApplyApp\<close> is the new
  one: the worker of the version being removed is left alone.
\<close>

lemma upgrade_keeps_old_probe:
  "pk_version key \<noteq> ai_version i \<Longrightarrow> mget (mg_workers (RemoveApp (Some i) m)) key = mget (mg_workers m) key"
  by (cases key) (simp add: RemoveApp_def stopWorker_def map_simps split: option.split)

text \<open>A mounted configuration is not kept inside the instance: its mount path may climb out.\<close>

lemma mount_path_escapes:
  "Join [''/run/ns/a/1/s/1'', ''../../../../../../etc''] = ''/etc''"
  by code_simp

text \<open>The environment: the first entry of a name is replaced, or one is added; others stay.\<close>

lemma setEnv_value:
  "\<exists>e \<in> set (setEnv es k v). env_name e = k \<and> env_value e = v"
  "e \<in> set es \<Longrightarrow> env_name e \<noteq> k \<Longrightarrow> e \<in> set (setEnv es k v)"
  by (auto simp: setEnv_def split: option.splits dest!: extract_SomeE)

section \<open>Witnesses\<close>

definition plain_sys :: "unit sys_ops" where
  "plain_sys = \<lparr>sy_new = (\<lambda>_ _. Ok ()), sy_install = (\<lambda>_ x. (Ok (), x)), sy_uninstall = (\<lambda>_ x. (Ok (), x)),
     sy_start = (\<lambda>_ x. (Ok (), x)), sy_stop = (\<lambda>_ x. (Ok (), x)), sy_status = (\<lambda>_ _. (StatusRunning, None)),
     sy_pid = (\<lambda>_ _. Ok 7), sy_procs = (\<lambda>_. Ok \<lparr>pt_pids = [7, 8], pt_children = (\<lambda>p. if p = 7 then [8] else []),
       pt_name = (\<lambda>_. Some ''p''), pt_ppid = (\<lambda>_. Some 7)\<rparr>), sy_usage = (\<lambda>_ _. Ok []),
     sy_terminate = (\<lambda>_ x. x), sy_allocate = (\<lambda>x. (Ok 80, x)), sy_setPorts = (\<lambda>_ _ x. (Ok (), x)),
     sy_delPorts = (\<lambda>_ x. (Ok (), x)), sy_entry = Ok, sy_conf = (\<lambda>_. Ok []), sy_yaml = (\<lambda>_. Ok [])\<rparr>"

definition plain_env :: native_env where
  "plain_env = \<lparr>ne_run = ''/run'', ne_log = ''/log'', ne_lib = ''/lib'', ne_windows = False, ne_path = ''/bin'',
     ne_keyPort = ''PORT'', ne_keyLib = ''LIB''\<rparr>"

definition two_apps :: "unit native_state" where
  "two_apps = \<lparr>nt_fs = [(''/run'', Dir), (''/run/ns'', Dir), (''/run/ns/a'', Dir), (''/run/ns/b'', Dir)],
     nt_links = [], nt_probes = NewManager, nt_sys = ()\<rparr>"

lemma two_apps_canonical: "canonical_fs (nt_fs two_apps)"
proof -
  have "canonical ''/run'' [''run'']" "canonical ''/run/ns'' [''run'', ''ns'']"
    "canonical ''/run/ns/a'' [''run'', ''ns'', ''a'']" "canonical ''/run/ns/b'' [''run'', ''ns'', ''b'']"
    by (simp_all add: canonical_def plain_def)
  then show ?thesis unfolding canonical_fs_def two_apps_def by auto
qed

lemma two_apps_deleted: "fst (native_DeleteApp plain_env good_os plain_sys ''ns'' \<lparr>ai_name = ''a'', ai_version = ''1''\<rparr> two_apps) = Ok ()"
  by code_simp

theorem native_delete_confined_witness:
  "mget (nt_fs (snd (native_DeleteApp plain_env good_os plain_sys ''ns'' \<lparr>ai_name = ''a'', ai_version = ''1''\<rparr> two_apps))) ''/run/ns/b'' = Some Dir
   \<and> (\<nexists>p e. mget (nt_fs (snd (native_DeleteApp plain_env good_os plain_sys ''ns'' \<lparr>ai_name = ''a'', ai_version = ''1''\<rparr> two_apps))) p = Some e
        \<and> below ''/run/ns/a'' p)"
proof -
  let ?app = "\<lparr>ai_name = ''a'', ai_version = ''1''\<rparr>"
  obtain st' where d: "native_DeleteApp plain_env good_os plain_sys ''ns'' ?app two_apps = (Ok (), st')"
    using two_apps_deleted by (metis prod.collapse)
  have "canonical (ne_run plain_env) [''run'']" "plain [''ns'', ai_name ?app]"
    by (simp_all add: plain_env_def canonical_def plain_def)
  note del = native_delete_confined[OF two_apps_canonical this(1) _ this(2) refl d]
  have "ne_run plain_env @ ''/'' @ ''ns'' @ ''/'' @ ai_name ?app = ''/run/ns/a''" by (simp add: plain_env_def)
  with del have "\<forall>p. \<not> below ''/run/ns/a'' p \<longrightarrow> mget (nt_fs st') p = mget (nt_fs two_apps) p"
    "mget (nt_fs two_apps) ''/run/ns/a'' \<noteq> None \<longrightarrow> (\<forall>p e. mget (nt_fs st') p = Some e \<longrightarrow> \<not> below ''/run/ns/a'' p)"
    by simp_all
  moreover have "\<not> below ''/run/ns/a'' ''/run/ns/b''" by (simp add: below_def hasPrefix_def)
  moreover have "mget (nt_fs two_apps) ''/run/ns/b'' = Some Dir" "mget (nt_fs two_apps) ''/run/ns/a'' = Some Dir"
    by (simp_all add: two_apps_def)
  ultimately show ?thesis by (auto simp: d)
qed

theorem seek_last_lines_witness:
  "drop (seekLastN (unlines [''a'', ''b'', ''c'']) (int 2)) (unlines [''a'', ''b'', ''c'']) = unlines [''b'', ''c'']"
  using seek_last_lines[of "[''a'', ''b'', ''c'']" 2] by simp

theorem children_end_witness: "\<exists>cs. getChildProcessInfo plain_sys () 7 = Ok cs"
proof -
  define T where "T = \<lparr>pt_pids = [7, 8], pt_children = (\<lambda>p :: int. if p = 7 then [8] else []),
       pt_name = (\<lambda>_. Some ''p''), pt_ppid = (\<lambda>_. Some 7)\<rparr>"
  have T: "sy_procs plain_sys () = Ok T" by (simp add: plain_sys_def T_def)
  have "depths T (\<lambda>p. if p = 7 then 1 else 0)" by (auto simp: depths_def T_def)
  from children_end[OF T this, of 7] show ?thesis by (simp add: T_def toInt32_def)
qed

end
