(* ===== verification/Kube_Types.thy ===== *)
theory Kube_Types
  imports Keys "HOL-Library.Word"
begin

text \<open>
  The Kubernetes objects that \<^verbatim>\<open>ami/kube\<close> builds and reads, with the fields it touches, and the
  typed clients of \<^verbatim>\<open>k8s.io/client-go\<close> it calls. The API server is not under src/: its state is
  opaque, its operations are an argument, and \<open>api_ok\<close> is what its documentation promises of them.
  Integers that the code converts with \<^verbatim>\<open>int32(...)\<close> are 32-bit words.
\<close>

type_synonym int32 = "32 word"

section \<open>Objects\<close>

text \<open>Every object has the same metadata; the body depends on the kind.\<close>

record 'b kobj =
  ob_name :: string
  ob_namespace :: string
  ob_labels :: "(string, string) gomap"
  ob_annotations :: "(string, string) gomap"
  ob_version :: string                       \<comment> \<open>ResourceVersion\<close>
  ob_body :: 'b

record env_var =
  ev_name :: string
  ev_value :: string
  ev_fieldPath :: "string option"            \<comment> \<open>ValueFrom.FieldRef.FieldPath\<close>

record container =
  ct_name :: string
  ct_image :: string
  ct_args :: "string list"
  ct_env :: "env_var list"
  ct_limits :: "(string, string) gomap"
  ct_privileged :: "bool option"

text \<open>A quantity is its canonical text; parsing and adding are the library's.\<close>

type_synonym quantity = string

datatype volume_source =
    VsConfigMap string
  | VsSecret string
  | VsHostPath string string                 \<comment> \<open>path, type\<close>
  | VsEmptyDir string "quantity option"      \<comment> \<open>medium, size limit\<close>
  | VsNone

record pod_volume =
  pv_name :: string
  pv_source :: volume_source

record pod_spec =
  ps_volumes :: "pod_volume list"
  ps_initContainers :: "container list"
  ps_containers :: "container list"
  ps_pullSecrets :: "string list"
  ps_hostNetwork :: bool
  ps_dnsPolicy :: string
  ps_restartPolicy :: string
  ps_serviceAccount :: string
  ps_nodeAffinity :: "string option"         \<comment> \<open>the label a node must carry\<close>

record deployment =
  dp_replicas :: "int32 option"
  dp_strategy :: string
  dp_selector :: "(string, string) gomap"
  dp_podLabels :: "(string, string) gomap"
  dp_pod :: pod_spec

record daemonset =
  dm_desired :: int32                        \<comment> \<open>Status.DesiredNumberScheduled\<close>
  dm_selector :: "(string, string) gomap"
  dm_podLabels :: "(string, string) gomap"
  dm_pod :: pod_spec

record job =
  jb_parallelism :: "int32 option"
  jb_completions :: "int32 option"
  jb_backoffLimit :: "int32 option"
  jb_selector :: "(string, string) gomap"
  jb_podLabels :: "(string, string) gomap"
  jb_pod :: pod_spec

record service_port =
  sp_name :: string
  sp_port :: int
  sp_target :: int
  sp_nodePort :: int
  sp_protocol :: string

record kservice =
  ks_selector :: "(string, string) gomap"
  ks_ports :: "service_port list"
  ks_type :: string
  ks_clusterIP :: string

record hpa_metric =
  hm_type :: string
  hm_resource :: string
  hm_targetType :: string
  hm_averageUtilization :: "int32 option"
  hm_averageValue :: "quantity option"
  hm_value :: "quantity option"

record hpa =
  hp_targetKind :: string
  hp_targetName :: string
  hp_apiVersion :: string
  hp_minReplicas :: "int32 option"
  hp_maxReplicas :: int32
  hp_metrics :: "hpa_metric list"

record ksecret =
  kc_type :: string
  kc_data :: "(string, string) gomap"

type_synonym configmap = "(string, string) gomap"

section \<open>Pods and nodes as the collectors read them\<close>

record container_status =
  cs_name :: string
  cs_image :: string
  cs_waiting :: "string option"              \<comment> \<open>the reason, where the state is set\<close>
  cs_running :: bool
  cs_terminated :: "string option"

record pod =
  pd_phase :: status
  pd_reason :: string
  pd_ip :: string
  pd_node :: string
  pd_initStatuses :: "container_status list"
  pd_statuses :: "container_status list"

record kube_node =
  kn_arch :: string
  kn_kernel :: string
  kn_os :: string
  kn_runtime :: string
  kn_machineID :: string
  kn_osImage :: string
  kn_bootID :: string
  kn_systemUUID :: string
  kn_addresses :: "(string \<times> string) list"   \<comment> \<open>type, address\<close>
  kn_capacity :: "(string, quantity) gomap"
  kn_conditions :: "(string \<times> bool) list"    \<comment> \<open>type, status is True\<close>

section \<open>The clients\<close>

record ('c, 'b) api =
  api_get :: "string \<Rightarrow> string \<Rightarrow> 'c \<Rightarrow> 'b kobj result"
  api_create :: "string \<Rightarrow> 'b kobj \<Rightarrow> 'c \<Rightarrow> unit result \<times> 'c"
  api_update :: "string \<Rightarrow> 'b kobj \<Rightarrow> 'c \<Rightarrow> unit result \<times> 'c"
  api_delete :: "string \<Rightarrow> string \<Rightarrow> 'c \<Rightarrow> unit result \<times> 'c"
  api_list :: "string \<Rightarrow> (string, string) gomap \<Rightarrow> 'c \<Rightarrow> 'b kobj list result"

record 'c cluster =
  cl_nsGet :: "string \<Rightarrow> 'c \<Rightarrow> unit result"
  cl_nsCreate :: "string \<Rightarrow> 'c \<Rightarrow> unit result \<times> 'c"
  cl_configs :: "('c, configmap) api"
  cl_secrets :: "('c, ksecret) api"
  cl_deploys :: "('c, deployment) api"
  cl_daemons :: "('c, daemonset) api"
  cl_jobs :: "('c, job) api"
  cl_services :: "('c, kservice) api"
  cl_hpas :: "('c, hpa) api"
  cl_stateful :: "('c, unit) api"
  cl_pods :: "('c, pod) api"
  cl_nodes :: "('c, kube_node) api"
  cl_nodeMetrics :: "'c \<Rightarrow> (string \<times> (string, quantity) gomap) list result"
  cl_podMetrics :: "string \<Rightarrow> string \<Rightarrow> 'c \<Rightarrow> (string \<times> (string, quantity) gomap) list result"
  cl_version :: "'c \<Rightarrow> (string \<times> string) result"   \<comment> \<open>major, minor\<close>

text \<open>A label selector picks the objects that carry all its labels.\<close>

definition selects :: "(string, string) gomap \<Rightarrow> (string, string) gomap \<Rightarrow> bool" where
  "selects sel labels \<longleftrightarrow> (\<forall>kv \<in> set sel. mget labels (fst kv) = Some (snd kv))"

text \<open>
  What the API server promises for one kind of object, where \<open>dflt\<close> fills the defaults of a body:
  an accepted object is what a read finds under its name, with its labels and its defaulted body; an
  accepted deletion removes the name; every other name of every namespace is left alone; what is
  refused changes nothing; a list holds the stored objects that the selector picks.
\<close>

definition accepted :: "('b \<Rightarrow> 'b) \<Rightarrow> 'b kobj \<Rightarrow> 'b kobj \<Rightarrow> bool" where
  "accepted dflt ob got \<longleftrightarrow>
     ob_name got = ob_name ob \<and> ob_labels got = ob_labels ob \<and> ob_body got = dflt (ob_body ob)"

definition puts :: "('b \<Rightarrow> 'b) \<Rightarrow> ('c, 'b) api \<Rightarrow> (string \<Rightarrow> 'b kobj \<Rightarrow> 'c \<Rightarrow> unit result \<times> 'c) \<Rightarrow> bool" where
  "puts dflt A put \<longleftrightarrow>
     (\<forall>ns ob c t. put ns ob c = (Ok (), t) \<longrightarrow>
        (\<exists>got. api_get A ns (ob_name ob) t = Ok got \<and> accepted dflt ob got)) \<and>
     (\<forall>ns ob c ns' n. (ns', n) \<noteq> (ns, ob_name ob) \<longrightarrow>
        api_get A ns' n (snd (put ns ob c)) = api_get A ns' n c) \<and>
     (\<forall>ns ob c r t. put ns ob c = (r, t) \<longrightarrow> r \<noteq> Ok () \<longrightarrow> t = c)"

definition deletes :: "('c, 'b) api \<Rightarrow> bool" where
  "deletes A \<longleftrightarrow>
     (\<forall>ns n c t. api_delete A ns n c = (Ok (), t) \<longrightarrow> \<not> is_ok (api_get A ns n t)) \<and>
     (\<forall>ns n c ns' n'. (ns', n') \<noteq> (ns, n) \<longrightarrow>
        api_get A ns' n' (snd (api_delete A ns n c)) = api_get A ns' n' c) \<and>
     (\<forall>ns n c r t. api_delete A ns n c = (r, t) \<longrightarrow> r \<noteq> Ok () \<longrightarrow> t = c)"

definition lists :: "('c, 'b) api \<Rightarrow> bool" where
  "lists A \<longleftrightarrow>
     (\<forall>ns sel c obs ob. api_list A ns sel c = Ok obs \<longrightarrow>
        (ob \<in> set obs \<longleftrightarrow> api_get A ns (ob_name ob) c = Ok ob \<and> selects sel (ob_labels ob))) \<and>
     (\<forall>ns n c ob. api_get A ns n c = Ok ob \<longrightarrow> ob_name ob = n)"

definition api_ok :: "('b \<Rightarrow> 'b) \<Rightarrow> ('c, 'b) api \<Rightarrow> bool" where
  "api_ok dflt A \<longleftrightarrow> puts dflt A (api_create A) \<and> puts dflt A (api_update A) \<and> deletes A \<and> lists A"

text \<open>Operations on one kind of object leave another kind alone.\<close>

definition api_frame :: "('c, 'b) api \<Rightarrow> ('c, 'd) api \<Rightarrow> bool" where
  "api_frame A B \<longleftrightarrow>
     (\<forall>ns ob c ns' n. api_get B ns' n (snd (api_create A ns ob c)) = api_get B ns' n c) \<and>
     (\<forall>ns ob c ns' n. api_get B ns' n (snd (api_update A ns ob c)) = api_get B ns' n c) \<and>
     (\<forall>ns m c ns' n. api_get B ns' n (snd (api_delete A ns m c)) = api_get B ns' n c)"

lemma putsD:
  assumes "puts dflt A put"
  shows puts_stored: "put ns ob c = (Ok (), t) \<Longrightarrow>
          \<exists>got. api_get A ns (ob_name ob) t = Ok got \<and> accepted dflt ob got"
    and puts_other: "(ns', n) \<noteq> (ns, ob_name ob) \<Longrightarrow> api_get A ns' n (snd (put ns ob c)) = api_get A ns' n c"
    and puts_failed: "put ns ob c = (r, t) \<Longrightarrow> r \<noteq> Ok () \<Longrightarrow> t = c"
  using assms unfolding puts_def by blast+

lemma deletesD:
  assumes "deletes A"
  shows deletes_gone: "api_delete A ns n c = (Ok (), t) \<Longrightarrow> \<not> is_ok (api_get A ns n t)"
    and deletes_other: "(ns', n') \<noteq> (ns, n) \<Longrightarrow> api_get A ns' n' (snd (api_delete A ns n c)) = api_get A ns' n' c"
    and deletes_failed: "api_delete A ns n c = (r, t) \<Longrightarrow> r \<noteq> Ok () \<Longrightarrow> t = c"
  using assms unfolding deletes_def by blast+

lemma listsD:
  assumes "lists A"
  shows lists_mem: "api_list A ns sel c = Ok obs \<Longrightarrow>
          ob \<in> set obs \<longleftrightarrow> api_get A ns (ob_name ob) c = Ok ob \<and> selects sel (ob_labels ob)"
    and get_name: "api_get A ns n c = Ok ob \<Longrightarrow> ob_name ob = n"
  using assms unfolding lists_def by blast+

lemma api_okD:
  assumes "api_ok dflt A"
  shows ok_create: "puts dflt A (api_create A)" and ok_update: "puts dflt A (api_update A)"
    and ok_deletes: "deletes A" and ok_lists: "lists A"
  using assms unfolding api_ok_def by simp_all

lemma api_frameD:
  assumes "api_frame A B"
  shows frame_create: "api_get B ns' n (snd (api_create A ns ob c)) = api_get B ns' n c"
    and frame_update: "api_get B ns' n (snd (api_update A ns ob c)) = api_get B ns' n c"
    and frame_delete: "api_get B ns' n (snd (api_delete A ns m c)) = api_get B ns' n c"
  using assms unfolding api_frame_def by simp_all

section \<open>A cluster for the witnesses\<close>

text \<open>
  An in-memory cluster with the promised behaviour and no defaulting: it shows that the hypotheses
  can hold and lets the witnesses evaluate. No theorem is about it.
\<close>

type_synonym 'b shelf = "((string \<times> string), 'b kobj) gomap"

definition mem_api :: "('c \<Rightarrow> 'b shelf) \<Rightarrow> ('b shelf \<Rightarrow> 'c \<Rightarrow> 'c) \<Rightarrow> ('c, 'b) api" where
  "mem_api sel upd = \<lparr>
     api_get = (\<lambda>ns n c. case mget (sel c) (ns, n) of
         None \<Rightarrow> Err ''not found''
       | Some ob \<Rightarrow> if ob_name ob = n then Ok ob else Err ''not found''),
     api_create = (\<lambda>ns ob c. if mget (sel c) (ns, ob_name ob) = None
         then (Ok (), upd (mput (ns, ob_name ob) ob (sel c)) c) else (Err ''already exists'', c)),
     api_update = (\<lambda>ns ob c. if mget (sel c) (ns, ob_name ob) = None
         then (Err ''not found'', c) else (Ok (), upd (mput (ns, ob_name ob) ob (sel c)) c)),
     api_delete = (\<lambda>ns n c. if mget (sel c) (ns, n) = None
         then (Err ''not found'', c) else (Ok (), upd (mdel (ns, n) (sel c)) c)),
     api_list = (\<lambda>ns s c. if distinct (map fst (sel c)) \<and> list_all (\<lambda>e. ob_name (snd e) = snd (fst e)) (sel c)
         then Ok (map snd (filter (\<lambda>e. fst (fst e) = ns \<and> selects s (ob_labels (snd e))) (sel c)))
         else Err ''corrupt'')\<rparr>"

lemma mem_api_ok:
  assumes "\<And>m c. sel (upd m c) = m"
  shows "api_ok (\<lambda>b. b) (mem_api sel upd)"
proof -
  have "lists (mem_api sel upd)"
    unfolding lists_def
  proof (intro conjI allI impI)
    fix ns s c obs ob
    assume l: "api_list (mem_api sel upd) ns s c = Ok obs"
    then have "distinct (map fst (sel c))" and n: "list_all (\<lambda>e. ob_name (snd e) = snd (fst e)) (sel c)"
      and o: "obs = map snd (filter (\<lambda>e. fst (fst e) = ns \<and> selects s (ob_labels (snd e))) (sel c))"
      by (auto simp: mem_api_def split: if_splits)
    then have "mget (sel c) (ns, ob_name ob) = Some ob \<longleftrightarrow> ((ns, ob_name ob), ob) \<in> set (sel c)" by simp
    with n show "ob \<in> set obs \<longleftrightarrow> api_get (mem_api sel upd) ns (ob_name ob) c = Ok ob \<and> selects s (ob_labels ob)"
      unfolding o by (force simp: mem_api_def list_all_iff image_iff split: option.split)
  next
    fix ns n c ob
    assume "api_get (mem_api sel upd) ns n c = Ok ob"
    then show "ob_name ob = n" by (auto simp: mem_api_def split: option.splits if_splits)
  qed
  then show ?thesis
    unfolding api_ok_def puts_def deletes_def accepted_def
    by (auto simp: mem_api_def assms map_simps split: if_splits option.splits)
qed

lemma mem_api_frame:
  assumes "\<And>m c. sel' (upd m c) = sel' c"
  shows "api_frame (mem_api sel upd) (mem_api sel' upd')"
  unfolding api_frame_def by (simp add: mem_api_def assms)

end
