(* ===== verification/Kube_Pod.thy ===== *)
theory Kube_Pod
  imports Kube_Types
begin

text \<open>
  The translation of an application into Kubernetes objects (\<^verbatim>\<open>ami/kube/kube_apply.go\<close>): pods,
  deployments, daemon sets, jobs, services and autoscalers. The field copier and the parser of
  quantities are third-party code, the arguments \<open>pl_copy\<close> and \<open>pl_quantity\<close>.
\<close>

section \<open>Names and versions\<close>

definition AppName :: string where
  "AppName = ''baetyl-app-name''"

definition AppVersion :: string where
  "AppVersion = ''baetyl-app-version''"

definition KubeNodeName :: string where
  "KubeNodeName = ''KUBE_NODE_NAME''"

definition PrefixBaetyl :: string where
  "PrefixBaetyl = ''baetyl-''"

definition ServiceAccountName :: string where
  "ServiceAccountName = ''baetyl-edge-system-service-account''"

definition MasterRole :: string where
  "MasterRole = ''node-role.kubernetes.io/master''"

definition newBackendContainerPort :: int where
  "newBackendContainerPort = 54000"

abbreviation i32 :: "int \<Rightarrow> int32" where
  "i32 \<equiv> word_of_int"

text \<open>\<^verbatim>\<open>strings.LastIndex(s, "-")\<close>, and the part before it.\<close>

fun lastDash :: "string \<Rightarrow> nat option" where
  "lastDash [] = None"
| "lastDash (c # s) =
     (case lastDash s of
        Some i \<Rightarrow> Some (Suc i)
      | None \<Rightarrow> if c = CHR ''-'' then Some 0 else None)"

definition cutSysServiceRandSuffix :: "string \<Rightarrow> string" where
  "cutSysServiceRandSuffix s =
     (if hasPrefix s PrefixBaetyl
      then let sub = drop (length PrefixBaetyl) s
           in case lastDash sub of Some idx \<Rightarrow> PrefixBaetyl @ take idx sub | None \<Rightarrow> s
      else s)"

text \<open>\<^verbatim>\<open>strings.Compare(a, b) >= 0\<close>: the order of strings, byte by byte.\<close>

fun notBelow :: "string \<Rightarrow> string \<Rightarrow> bool" where
  "notBelow a [] = True"
| "notBelow [] (c # b) = False"
| "notBelow (x # a) (y # b) =
     (if x = y then notBelow a b else (of_char y :: nat) < of_char x)"

definition hpaAvailable :: "'c cluster \<Rightarrow> 'c \<Rightarrow> bool" where
  "hpaAvailable K c =
     (case cl_version K c of Ok (major, minor) \<Rightarrow> major = ''1'' \<and> notBelow minor ''23'' | _ \<Rightarrow> False)"

section \<open>Deprecated fields\<close>

definition compatWorkload :: "application \<Rightarrow> application" where
  "compatWorkload app =
     (if app_workload app = NoWorkload
      then app\<lparr>app_workload :=
             (case app_services app of
                svc # _ \<Rightarrow> if svc_type svc \<noteq> NoWorkload then svc_type svc else WorkloadDeployment
              | [] \<Rightarrow> WorkloadDeployment)\<rparr>
      else app)"

definition compatHostNetwork :: "application \<Rightarrow> application" where
  "compatHostNetwork app =
     (if \<not> app_hostNetwork app \<and> (case app_services app of svc # _ \<Rightarrow> svc_hostNetwork svc | [] \<Rightarrow> False)
      then app\<lparr>app_hostNetwork := True\<rparr> else app)"

definition compatReplica :: "application \<Rightarrow> application" where
  "compatReplica app =
     (if app_replica app = 0
      then case app_services app of
             svc # _ \<Rightarrow> if svc_replica svc \<noteq> 0 then app\<lparr>app_replica := svc_replica svc\<rparr> else app
           | [] \<Rightarrow> app
      else app)"

definition never_job :: job_config where
  "never_job = \<lparr>jc_completions = 0, jc_parallelism = 0, jc_backoffLimit = 0, jc_restartPolicy = ''Never''\<rparr>"

definition noPolicy :: "job_config option \<Rightarrow> bool" where
  "noPolicy jc = (case jc of None \<Rightarrow> True | Some j \<Rightarrow> jc_restartPolicy j = [])"

definition compatJob :: "application \<Rightarrow> application" where
  "compatJob app =
     (if noPolicy (app_jobConfig app)
      then app\<lparr>app_jobConfig := Some
             (case app_services app of
                svc # _ \<Rightarrow> (case svc_jobConfig svc of Some j \<Rightarrow> j | None \<Rightarrow> never_job)
              | [] \<Rightarrow> never_job)\<rparr>
      else app)"

definition compatibleDeprecatedField :: "application \<Rightarrow> application" where
  "compatibleDeprecatedField app = compatJob (compatReplica (compatHostNetwork (compatWorkload app)))"

section \<open>Pods\<close>

record pod_lib =
  pl_copy :: "service \<Rightarrow> container result"      \<comment> \<open>copier.Copy\<close>
  pl_quantity :: "string \<Rightarrow> quantity result"    \<comment> \<open>resource.ParseQuantity\<close>

definition setLimit :: "pod_lib \<Rightarrow> string \<times> string \<Rightarrow> container \<Rightarrow> container result" where
  "setLimit P nv c =
     rbind (pl_quantity P (snd nv)) (\<lambda>q. Ok (c\<lparr>ct_limits := mput (fst nv) q (ct_limits c)\<rparr>))"

definition nodeNameVar :: env_var where
  "nodeNameVar = \<lparr>ev_name = KubeNodeName, ev_value = [], ev_fieldPath = Some ''spec.nodeName''\<rparr>"

definition TransSvcToContainer :: "pod_lib \<Rightarrow> service \<Rightarrow> container result" where
  "TransSvcToContainer P svc =
     rbind (pl_copy P svc) (\<lambda>c.
     rbind (case svc_limits svc of
              Some limits \<Rightarrow> rfor (setLimit P) limits (c\<lparr>ct_limits := []\<rparr>)
            | None \<Rightarrow> Ok c) (\<lambda>c.
     let c = (case svc_privileged svc of Some p \<Rightarrow> c\<lparr>ct_privileged := Some p\<rparr> | None \<Rightarrow> c)
     in Ok (c\<lparr>ct_env := ct_env c @ [nodeNameVar]\<rparr>)))"

definition podVolume :: "pod_lib \<Rightarrow> volume \<Rightarrow> pod_volume result" where
  "podVolume P v =
     rmap (\<lambda>src. \<lparr>pv_name = vol_name v, pv_source = src\<rparr>)
       (case (vol_config v, vol_secret v, vol_hostPath v, vol_emptyDir v) of
          (Some r, _, _, _) \<Rightarrow> Ok (VsConfigMap (ref_name r))
        | (None, Some r, _, _) \<Rightarrow> Ok (VsSecret (ref_name r))
        | (None, None, Some h, _) \<Rightarrow> Ok (VsHostPath (hp_path h) (hp_type h))
        | (None, None, None, Some e) \<Rightarrow>
            if ed_sizeLimit e = [] then Ok (VsEmptyDir (ed_medium e) None)
            else rmap (\<lambda>q. VsEmptyDir (ed_medium e) (Some q)) (pl_quantity P (ed_sizeLimit e))
        | (None, None, None, None) \<Rightarrow> Ok VsNone)"

definition prepareInfo :: "pod_lib \<Rightarrow> application \<Rightarrow> string list \<Rightarrow> pod_spec result" where
  "prepareInfo P app pullSecrets =
     rbind (rmapM (TransSvcToContainer P) (app_initServices app)) (\<lambda>inits.
     rbind (rmapM (TransSvcToContainer P) (app_services app)) (\<lambda>cs.
     rbind (rmapM (podVolume P) (app_volumes app)) (\<lambda>vs.
     Ok \<lparr>ps_volumes = vs, ps_initContainers = inits, ps_containers = cs, ps_pullSecrets = pullSecrets,
         ps_hostNetwork = app_hostNetwork app, ps_dnsPolicy = app_dnsPolicy app,
         ps_restartPolicy = [], ps_serviceAccount = [], ps_nodeAffinity = None\<rparr>)))"

text \<open>The entry of \<^verbatim>\<open>ami.Hooks\<close>: absent, of another type, or a function on pods.\<close>

datatype pod_hook = NoHook | OtherHook | PodHook "pod_spec \<Rightarrow> application \<Rightarrow> pod_spec result"

fun runPodHook :: "pod_hook \<Rightarrow> pod_spec \<Rightarrow> application \<Rightarrow> pod_spec result" where
  "runPodHook (PodHook f) spec app = f spec app"
| "runPodHook _ spec app = Err ''failed to convert SetPodSpec function''"

definition SetPodSpec :: "pod_spec \<Rightarrow> application \<Rightarrow> pod_spec result" where
  "SetPodSpec spec app = Ok (spec\<lparr>ps_nodeAffinity := Some MasterRole\<rparr>)"

section \<open>Workloads\<close>

definition objectMeta :: "string \<Rightarrow> string \<Rightarrow> (string, string) gomap \<Rightarrow> 'b \<Rightarrow> 'b kobj" where
  "objectMeta n ns labels body = \<lparr>ob_name = n, ob_namespace = ns, ob_labels = labels, ob_annotations = [],
     ob_version = [], ob_body = body\<rparr>"

definition mputs :: "(string, string) gomap \<Rightarrow> (string, string) gomap \<Rightarrow> (string, string) gomap" where
  "mputs kvs m = fold (\<lambda>kv. mput (fst kv) (snd kv)) kvs m"

definition ofApp :: "application \<Rightarrow> (string, string) gomap" where
  "ofApp app = [(AppName, app_name app)]"

definition prepareJob :: "pod_lib \<Rightarrow> pod_hook \<Rightarrow> string \<Rightarrow> application \<Rightarrow> string list \<Rightarrow> job kobj result" where
  "prepareJob P h ns app pullSecrets =
     rbind (prepareInfo P app pullSecrets) (\<lambda>spec.
     rbind (runPodHook h spec app) (\<lambda>spec.
     let labels = mputs (app_labels app) [];
         (policy, par, com, backoff) = (case app_jobConfig app of
             None \<Rightarrow> (''Never'', None, None, None)
           | Some j \<Rightarrow> (jc_restartPolicy j, Some (i32 (jc_parallelism j)), Some (i32 (jc_completions j)),
                        Some (i32 (jc_backoffLimit j))))
     in Ok (objectMeta (app_name app) ns labels
              \<lparr>jb_parallelism = par, jb_completions = com, jb_backoffLimit = backoff, jb_selector = [],
               jb_podLabels = labels, jb_pod = spec\<lparr>ps_restartPolicy := policy\<rparr>\<rparr>)))"

definition prepareDaemon :: "pod_lib \<Rightarrow> pod_hook \<Rightarrow> string \<Rightarrow> application \<Rightarrow> string list \<Rightarrow> daemonset kobj result" where
  "prepareDaemon P h ns app pullSecrets =
     rbind (prepareInfo P app pullSecrets) (\<lambda>spec.
     rbind (runPodHook h spec app) (\<lambda>spec.
     Ok (objectMeta (app_name app) ns (mputs (app_labels app) [])
           \<lparr>dm_desired = 0, dm_selector = ofApp app, dm_podLabels = mputs (app_labels app) (ofApp app),
            dm_pod = spec\<rparr>)))"

definition prepareDeploy :: "env \<Rightarrow> pod_lib \<Rightarrow> pod_hook \<Rightarrow> string \<Rightarrow> application \<Rightarrow> string list \<Rightarrow> deployment kobj result" where
  "prepareDeploy E P h ns app pullSecrets =
     rbind (prepareInfo P app pullSecrets) (\<lambda>spec.
     rbind (runPodHook h spec app) (\<lambda>spec.
     let spec = (if contains (app_name app) (e_core E) \<or> contains (app_name app) (e_init E)
                 then spec\<lparr>ps_serviceAccount := ServiceAccountName\<rparr> else spec)
     in Ok (objectMeta (app_name app) ns (mputs (app_labels app) [])
              \<lparr>dp_replicas = Some (i32 (app_replica app)), dp_strategy = ''Recreate'',
               dp_selector = ofApp app, dp_podLabels = mputs (app_labels app) (ofApp app),
               dp_pod = spec\<rparr>)))"

section \<open>Services\<close>

definition nodePort :: string where
  "nodePort = ''NodePort''"

definition servicePort :: "bool \<Rightarrow> application \<Rightarrow> service \<Rightarrow> nat \<Rightarrow> container_port \<Rightarrow> service_port" where
  "servicePort np app svc i p =
     (let proto = (if cp_protocol p = [] then ''TCP'' else cp_protocol p)
      in \<lparr>sp_name = svc_name svc @ ''-'' @ dec (cp_containerPort p) @ ''-'' @ toLower proto,
          sp_port = cp_containerPort p,
          sp_target = (if mget (app_labels app) ''baetyl-webhook'' = Some ''true''
                       then sint (i32 (newBackendContainerPort + int i)) else cp_containerPort p),
          sp_nodePort = (if np then cp_nodePort p else 0),
          sp_protocol = proto\<rparr>)"

text \<open>The loops of the two functions: the ports of one service type, with their positions.\<close>

definition portsOf :: "bool \<Rightarrow> application \<Rightarrow> service \<Rightarrow> service_port list" where
  "portsOf np app svc =
     map (\<lambda>(i, p). servicePort np app svc i p)
       (filter (\<lambda>(i, p). (cp_serviceType p = nodePort) = np) (List.enumerate 0 (svc_ports svc)))"

definition prepareService :: "string \<Rightarrow> application \<Rightarrow> kservice kobj option" where
  "prepareService ns app =
     (let ports = concat (map (portsOf False app) (app_services app))
      in if ports = [] then None
         else Some (objectMeta (cutSysServiceRandSuffix (app_name app)) ns (ofApp app)
           \<lparr>ks_selector = ofApp app, ks_ports = ports, ks_type = [], ks_clusterIP = []\<rparr>))"

definition prepareNodePortService :: "string \<Rightarrow> application \<Rightarrow> kservice kobj option" where
  "prepareNodePortService ns app =
     (let ports = concat (map (portsOf True app) (app_services app))
      in if ports = [] then None
         else Some (objectMeta (cutSysServiceRandSuffix (app_name app) @ ''-'' @ ''nodeport'') ns (ofApp app)
           \<lparr>ks_selector = ofApp app, ks_ports = ports, ks_type = nodePort, ks_clusterIP = []\<rparr>))"

section \<open>Autoscalers\<close>

definition optQuantity :: "pod_lib \<Rightarrow> string \<Rightarrow> quantity option result" where
  "optQuantity P s = (if s = [] then Ok None else rmap Some (pl_quantity P s))"

definition prepareMetric :: "pod_lib \<Rightarrow> metric_spec \<Rightarrow> hpa_metric result" where
  "prepareMetric P m =
     rbind (optQuantity P (ms_averageValue m)) (\<lambda>av.
     rbind (optQuantity P (ms_value m)) (\<lambda>v.
     Ok \<lparr>hm_type = ms_type m, hm_resource = ms_resource m, hm_targetType = ms_targetType m,
         hm_averageUtilization =
           (if ms_averageUtilization m = 0 then None else Some (i32 (ms_averageUtilization m))),
         hm_averageValue = av, hm_value = v\<rparr>))"

definition prepareHPA :: "'c cluster \<Rightarrow> pod_lib \<Rightarrow> string \<Rightarrow> application \<Rightarrow> 'c \<Rightarrow> hpa kobj option" where
  "prepareHPA K P ns app c =
     (case app_autoScale app of
        None \<Rightarrow> None
      | Some a \<Rightarrow>
          if \<not> hpaAvailable K c \<or> asc_metrics a = [] then None
          else case rmapM (prepareMetric P) (asc_metrics a) of
                 Ok metrics \<Rightarrow> Some (objectMeta (app_name app) ns (ofApp app)
                   \<lparr>hp_targetKind = ''Deployment'', hp_targetName = app_name app, hp_apiVersion = ''apps/v1'',
                    hp_minReplicas = Some (i32 (asc_minReplicas a)), hp_maxReplicas = i32 (asc_maxReplicas a),
                    hp_metrics = metrics\<rparr>)
               | _ \<Rightarrow> None)"

section \<open>Pods carry what the application says\<close>

text \<open>The copier copies the fields of the same name.\<close>

definition copier_ok :: "pod_lib \<Rightarrow> bool" where
  "copier_ok P \<longleftrightarrow>
     (\<forall>svc c. pl_copy P svc = Ok c \<longrightarrow>
        ct_name c = svc_name svc \<and> ct_image c = svc_image svc \<and> ct_args c = svc_args svc)"

definition runsService :: "pod_lib \<Rightarrow> service \<Rightarrow> container \<Rightarrow> bool" where
  "runsService P svc c \<longleftrightarrow>
     ct_name c = svc_name svc \<and> ct_image c = svc_image svc \<and> ct_args c = svc_args svc \<and>
     nodeNameVar \<in> set (ct_env c) \<and>
     (\<forall>p. svc_privileged svc = Some p \<longrightarrow> ct_privileged c = Some p) \<and>
     (\<forall>ls. svc_limits svc = Some ls \<longrightarrow> gomap ls \<longrightarrow>
        (\<forall>n v. mget ls n = Some v \<longrightarrow> (\<exists>q. pl_quantity P v = Ok q \<and> mget (ct_limits c) n = Some q)))"

text \<open>Setting limits changes nothing else, and sets each of them.\<close>

lemma setLimit_Ok: "setLimit P nv c = Ok c' \<longleftrightarrow>
    (\<exists>q. pl_quantity P (snd nv) = Ok q \<and> c' = c\<lparr>ct_limits := mput (fst nv) q (ct_limits c)\<rparr>)"
  by (auto simp: setLimit_def rbind_Ok_iff)

lemma setLimits_fields:
  assumes "rfor (setLimit P) ls c = Ok c'"
  shows "ct_name c' = ct_name c \<and> ct_image c' = ct_image c \<and> ct_args c' = ct_args c"
  by (rule rfor_inv[OF assms]) (auto simp: setLimit_Ok)

lemma setLimits_Ok:
  assumes "rfor (setLimit P) ls c = Ok c'" and "gomap ls"
  shows "(\<forall>n. mget ls n = None \<longrightarrow> mget (ct_limits c') n = mget (ct_limits c) n)
    \<and> (\<forall>n v. mget ls n = Some v \<longrightarrow> (\<exists>q. pl_quantity P v = Ok q \<and> mget (ct_limits c') n = Some q))"
  using assms
proof (induction ls arbitrary: c)
  case Nil
  then show ?case by simp
next
  case (Cons nv ls)
  obtain m w where nv: "nv = (m, w)" by (cases nv)
  from Cons.prems(1) obtain q where q: "pl_quantity P w = Ok q"
    "rfor (setLimit P) ls (c\<lparr>ct_limits := mput m q (ct_limits c)\<rparr>) = Ok c'"
    by (auto simp: nv rbind_Ok_iff setLimit_Ok)
  from Cons.prems(2) have g: "gomap ls" "mget ls m = None"
    by (auto simp: nv gomap_def map_of_eq_None_iff)
  note ih = Cons.IH[OF q(2) g(1)]
  from ih q(1) g(2) have "mget (ct_limits c') m = Some q" by (simp add: map_simps)
  with ih q(1) show ?case by (auto simp: nv map_simps)
qed

lemma TransSvcToContainer_Ok:
  assumes "TransSvcToContainer P svc = Ok c" and "copier_ok P"
  shows "runsService P svc c"
proof -
  from assms(1) obtain c0 c1 where c0: "pl_copy P svc = Ok c0"
    and c1: "(case svc_limits svc of Some limits \<Rightarrow> rfor (setLimit P) limits (c0\<lparr>ct_limits := []\<rparr>) | None \<Rightarrow> Ok c0) = Ok c1"
    and c: "c = (case svc_privileged svc of Some p \<Rightarrow> c1\<lparr>ct_privileged := Some p\<rparr> | None \<Rightarrow> c1)
        \<lparr>ct_env := ct_env (case svc_privileged svc of Some p \<Rightarrow> c1\<lparr>ct_privileged := Some p\<rparr> | None \<Rightarrow> c1) @ [nodeNameVar]\<rparr>"
    by (auto simp: TransSvcToContainer_def rbind_Ok_iff Let_def)
  have lim: "ct_limits c = ct_limits c1" unfolding c by (simp split: option.split)
  have "ct_name c1 = ct_name c0 \<and> ct_image c1 = ct_image c0 \<and> ct_args c1 = ct_args c0"
    using c1 setLimits_fields[of P _ "c0\<lparr>ct_limits := []\<rparr>" c1] by (cases "svc_limits svc") auto
  moreover have "ct_name c0 = svc_name svc \<and> ct_image c0 = svc_image svc \<and> ct_args c0 = svc_args svc"
    using assms(2) c0 unfolding copier_ok_def by blast
  moreover have "ct_name c = ct_name c1" "ct_image c = ct_image c1" "ct_args c = ct_args c1"
    "nodeNameVar \<in> set (ct_env c)" "\<forall>p. svc_privileged svc = Some p \<longrightarrow> ct_privileged c = Some p"
    unfolding c by (simp_all split: option.split)
  moreover have "\<forall>ls. svc_limits svc = Some ls \<longrightarrow> gomap ls \<longrightarrow>
      (\<forall>n v. mget ls n = Some v \<longrightarrow> (\<exists>q. pl_quantity P v = Ok q \<and> mget (ct_limits c) n = Some q))"
    using c1 setLimits_Ok[of P _ "c0\<lparr>ct_limits := []\<rparr>" c1] unfolding lim by auto
  ultimately show ?thesis unfolding runsService_def by simp
qed

lemma rmap_Ok_iff: "rmap f m = Ok y \<longleftrightarrow> (\<exists>x. m = Ok x \<and> y = f x)"
  by (cases m) auto

lemma podVolume_name: "podVolume P v = Ok pv \<Longrightarrow> pv_name pv = vol_name v"
  unfolding podVolume_def rmap_Ok_iff by auto

text \<open>
  The pod of an application is complete: when the field copier copies the fields of the same
  name, a prepared pod has one container per service and one init container per init service, in
  their order, each with the service's name, image, arguments, privilege and every resource limit,
  and one volume per volume.
\<close>

theorem pod_complete:
  assumes "copier_ok P" and "prepareInfo P app pull = Ok spec"
  shows "list_all2 (runsService P) (app_services app) (ps_containers spec) \<and>
    list_all2 (runsService P) (app_initServices app) (ps_initContainers spec) \<and>
    map pv_name (ps_volumes spec) = map vol_name (app_volumes app)"
proof -
  from assms(2) obtain inits cs vs where r: "rmapM (TransSvcToContainer P) (app_initServices app) = Ok inits"
      "rmapM (TransSvcToContainer P) (app_services app) = Ok cs" "rmapM (podVolume P) (app_volumes app) = Ok vs"
    and s: "ps_containers spec = cs" "ps_initContainers spec = inits" "ps_volumes spec = vs"
    by (auto simp: prepareInfo_def rbind_Ok_iff)
  have runs: "list_all2 (runsService P) svcs cs'" if "rmapM (TransSvcToContainer P) svcs = Ok cs'" for svcs cs'
    using that unfolding rmapM_Ok by (rule list_all2_mono) (rule TransSvcToContainer_Ok[OF _ assms(1)])
  have "map pv_name vs = map vol_name (app_volumes app)"
    using r(3) unfolding rmapM_Ok by (induction rule: list_all2_induct) (auto dest: podVolume_name)
  with runs[OF r(1)] runs[OF r(2)] show ?thesis by (simp add: s)
qed

section \<open>Deprecated fields\<close>

text \<open>Each rule sets one field from its old value and the first service.\<close>

definition settledWorkload :: "service list \<Rightarrow> workload \<Rightarrow> workload" where
  "settledWorkload svcs w =
     (if w \<noteq> NoWorkload then w
      else case svcs of svc # _ \<Rightarrow> if svc_type svc \<noteq> NoWorkload then svc_type svc else WorkloadDeployment
                      | [] \<Rightarrow> WorkloadDeployment)"

definition settledReplica :: "service list \<Rightarrow> int \<Rightarrow> int" where
  "settledReplica svcs n = (if n \<noteq> 0 then n else case svcs of svc # _ \<Rightarrow> svc_replica svc | [] \<Rightarrow> 0)"

definition settledJob :: "service list \<Rightarrow> job_config option \<Rightarrow> job_config option" where
  "settledJob svcs jc =
     (if noPolicy jc
      then Some (case svcs of svc # _ \<Rightarrow> (case svc_jobConfig svc of Some j \<Rightarrow> j | None \<Rightarrow> never_job) | [] \<Rightarrow> never_job)
      else jc)"

lemma compat_steps:
  "compatWorkload app = app\<lparr>app_workload := settledWorkload (app_services app) (app_workload app)\<rparr>"
  "compatHostNetwork app = app\<lparr>app_hostNetwork := app_hostNetwork app \<or>
     (case app_services app of svc # _ \<Rightarrow> svc_hostNetwork svc | [] \<Rightarrow> False)\<rparr>"
  "compatReplica app = app\<lparr>app_replica := settledReplica (app_services app) (app_replica app)\<rparr>"
  "compatJob app = app\<lparr>app_jobConfig := settledJob (app_services app) (app_jobConfig app)\<rparr>"
  unfolding compatWorkload_def compatHostNetwork_def compatReplica_def compatJob_def
    settledWorkload_def settledReplica_def settledJob_def
  by (cases app, auto split: list.split)+

lemma compat_eq:
  "compatibleDeprecatedField app = app\<lparr>
     app_workload := settledWorkload (app_services app) (app_workload app),
     app_hostNetwork := app_hostNetwork app \<or>
       (case app_services app of svc # _ \<Rightarrow> svc_hostNetwork svc | [] \<Rightarrow> False),
     app_replica := settledReplica (app_services app) (app_replica app),
     app_jobConfig := settledJob (app_services app) (app_jobConfig app)\<rparr>"
  by (simp add: compatibleDeprecatedField_def compat_steps)

lemma compat_fields:
  "app_services (compatibleDeprecatedField app) = app_services app"
  "app_initServices (compatibleDeprecatedField app) = app_initServices app"
  "app_name (compatibleDeprecatedField app) = app_name app"
  "app_labels (compatibleDeprecatedField app) = app_labels app"
  "app_volumes (compatibleDeprecatedField app) = app_volumes app"
  "app_autoScale (compatibleDeprecatedField app) = app_autoScale app"
  by (simp_all add: compat_eq)

text \<open>
  The compatibility rules settle in one pass: applying them twice is applying them once, and
  afterwards the workload and the job configuration are never missing, the host network of the first
  service is adopted, and a replica count of zero remains only where the first service has none either.
\<close>

theorem compat_settles:
  "let app' = compatibleDeprecatedField app in
     compatibleDeprecatedField app' = app' \<and> app_workload app' \<noteq> NoWorkload \<and> app_jobConfig app' \<noteq> None \<and>
     (case app_services app of
        [] \<Rightarrow> True
      | svc # _ \<Rightarrow> app_hostNetwork app' = (app_hostNetwork app \<or> svc_hostNetwork svc) \<and>
                  app_replica app' = (if app_replica app = 0 then svc_replica svc else app_replica app))"
  unfolding compat_eq Let_def
  by (cases app) (auto simp: settledWorkload_def settledReplica_def settledJob_def noPolicy_def never_job_def
      split: list.split option.split)

section \<open>Numbers of replicas\<close>

lemma sint_i32: "sint (i32 k) = k \<longleftrightarrow> - (2 ^ 31) \<le> k \<and> k < 2 ^ 31"
  by (simp add: sint_sbintrunc' signed_take_bit_int_eq_self_iff)

lemma prepareDeploy_Ok:
  assumes "prepareDeploy E P h ns app pull = Ok d"
  shows "ob_name d = app_name app \<and> ob_labels d = mputs (app_labels app) [] \<and>
    dp_replicas (ob_body d) = Some (i32 (app_replica app)) \<and> dp_selector (ob_body d) = ofApp app \<and>
    dp_podLabels (ob_body d) = mputs (app_labels app) (ofApp app)"
  using assms by (auto simp: prepareDeploy_def rbind_Ok_iff Let_def objectMeta_def)

lemma prepareDaemon_Ok:
  assumes "prepareDaemon P h ns app pull = Ok d"
  shows "ob_name d = app_name app \<and> ob_labels d = mputs (app_labels app) [] \<and>
    dm_selector (ob_body d) = ofApp app \<and> dm_podLabels (ob_body d) = mputs (app_labels app) (ofApp app)"
  using assms by (auto simp: prepareDaemon_def rbind_Ok_iff objectMeta_def)

lemma prepareJob_Ok:
  assumes "prepareJob P h ns app pull = Ok d" and "app_jobConfig app = Some j"
  shows "ob_name d = app_name app \<and> ob_labels d = mputs (app_labels app) [] \<and>
    jb_completions (ob_body d) = Some (i32 (jc_completions j)) \<and>
    jb_parallelism (ob_body d) = Some (i32 (jc_parallelism j)) \<and>
    jb_backoffLimit (ob_body d) = Some (i32 (jc_backoffLimit j)) \<and>
    ps_restartPolicy (jb_pod (ob_body d)) = jc_restartPolicy j"
  using assms by (auto simp: prepareJob_def rbind_Ok_iff Let_def objectMeta_def)

text \<open>
  A deployment asks for as many replicas as the application exactly when that number fits an
  int32: the conversion truncates anything else silently.
\<close>

theorem deploy_replicas:
  assumes "prepareDeploy E P h ns app pull = Ok d"
  shows "\<exists>r. dp_replicas (ob_body d) = Some r \<and>
    (sint r = app_replica app \<longleftrightarrow> - (2 ^ 31) \<le> app_replica app \<and> app_replica app < 2 ^ 31)"
  using prepareDeploy_Ok[OF assms] sint_i32 by auto

text \<open>
  A job without a restart policy, in its own configuration and in that of its first service, is told
  to complete zero pods, whatever the number of completions it asks for.
\<close>

lemma job_without_policy_runs_nothing:
  assumes "noPolicy (app_jobConfig app)" and "app_services app = svc # svcs" and "svc_jobConfig svc = None"
    and "prepareJob P h ns (compatibleDeprecatedField app) pull = Ok d"
  shows "jb_completions (ob_body d) = Some 0 \<and> jb_parallelism (ob_body d) = Some 0"
proof -
  have "app_jobConfig (compatibleDeprecatedField app) = Some never_job"
    using assms(1-3) by (simp add: compat_eq settledJob_def)
  from prepareJob_Ok[OF assms(4) this] show ?thesis by (simp add: never_job_def)
qed

text \<open>
  The versions are compared as texts: autoscaling is off on a 1.100 server and on on a 1.9 server.
\<close>

lemma hpa_version_text_order:
  "cl_version K c = Ok (''1'', ''100'') \<Longrightarrow> \<not> hpaAvailable K c"
  "cl_version K c = Ok (''1'', ''9'') \<Longrightarrow> hpaAvailable K c"
  by (simp_all add: hpaAvailable_def)

section \<open>Labels and ports\<close>

lemma mget_mputs: "gomap kvs \<Longrightarrow> mget (mputs kvs m) k = (case mget kvs k of Some v \<Rightarrow> Some v | None \<Rightarrow> mget m k)"
  unfolding mputs_def
proof (induction kvs arbitrary: m)
  case Nil
  then show ?case by simp
next
  case (Cons kv kvs)
  then have "gomap kvs" "mget kvs (fst kv) = None"
    by (auto simp: gomap_def map_of_eq_None_iff)
  with Cons.IH show ?case by (cases kv) (auto simp: map_simps split: option.split)
qed

text \<open>
  C40. A workload gets its own pods and the traffic of its services: for an application whose labels do
  not name another application, the selector of the prepared deployment and of the prepared daemon set
  picks the labels of its own pod template, and the selectors of the prepared cluster service and node
  port service pick the same pods.
\<close>

theorem workload_selects_its_pods:
  assumes "gomap (app_labels app)" and "mget (app_labels app) AppName = None \<or> mget (app_labels app) AppName = Some (app_name app)"
    and "prepareDeploy E P h ns app pull = Ok d" and "prepareDaemon P h ns app pull = Ok s"
    and "svcs = List.map_filter id [prepareService ns app, prepareNodePortService ns app]"
  shows "selects (dp_selector (ob_body d)) (dp_podLabels (ob_body d)) \<and>
    selects (dm_selector (ob_body s)) (dm_podLabels (ob_body s)) \<and>
    list_all (\<lambda>k. selects (ks_selector (ob_body k)) (dp_podLabels (ob_body d)) \<and>
      selects (ks_selector (ob_body k)) (dm_podLabels (ob_body s))) svcs"
proof -
  have pods: "selects (ofApp app) (mputs (app_labels app) (ofApp app))"
    using assms(1,2) by (auto simp: selects_def ofApp_def mget_mputs)
  have d: "dp_selector (ob_body d) = ofApp app" "dp_podLabels (ob_body d) = mputs (app_labels app) (ofApp app)"
    and s: "dm_selector (ob_body s) = ofApp app" "dm_podLabels (ob_body s) = mputs (app_labels app) (ofApp app)"
    using prepareDeploy_Ok[OF assms(3)] prepareDaemon_Ok[OF assms(4)] by simp_all
  have "ks_selector (ob_body k) = ofApp app" if "k \<in> set svcs" for k
    using that by (auto simp: assms(5) List.map_filter_def prepareService_def prepareNodePortService_def objectMeta_def Let_def
        split: if_splits)
  with pods d s show ?thesis by (simp add: list_all_iff)
qed

definition portKey :: "service_port \<Rightarrow> string \<times> int \<times> string" where
  "portKey sp = (sp_name sp, sp_port sp, sp_protocol sp)"

definition portsIn :: "kservice kobj option \<Rightarrow> service_port list" where
  "portsIn k = (case k of None \<Rightarrow> [] | Some ob \<Rightarrow> ks_ports (ob_body ob))"

definition givenPort :: "service \<Rightarrow> container_port \<Rightarrow> string \<times> int \<times> string" where
  "givenPort svc p =
     (let proto = (if cp_protocol p = [] then ''TCP'' else cp_protocol p)
      in (svc_name svc @ ''-'' @ dec (cp_containerPort p) @ ''-'' @ toLower proto, cp_containerPort p, proto))"

lemma servicePort_key: "portKey (servicePort np app svc i p) = givenPort svc p"
  by (simp add: servicePort_def portKey_def givenPort_def Let_def)

lemma enumerate_partition:
  "mset (map portKey (map (\<lambda>(i, p). servicePort False app svc i p)
       (filter (\<lambda>(i, p). (cp_serviceType p = nodePort) = False) (List.enumerate n ps)))) +
   mset (map portKey (map (\<lambda>(i, p). servicePort True app svc i p)
       (filter (\<lambda>(i, p). (cp_serviceType p = nodePort) = True) (List.enumerate n ps))))
   = mset (map (givenPort svc) ps)"
proof (induction ps arbitrary: n)
  case Nil
  then show ?case by simp
next
  case (Cons p ps)
  from Cons.IH[of "Suc n"] show ?case by (cases "cp_serviceType p = nodePort") (simp_all add: servicePort_key)
qed

lemma portsOf_partition:
  "mset (map portKey (portsOf False app svc)) + mset (map portKey (portsOf True app svc))
   = mset (map (givenPort svc) (svc_ports svc))"
  unfolding portsOf_def by (rule enumerate_partition)

text \<open>
  C37. No port is lost or published twice: the ports of the cluster service and of the node port
  service of an application are together exactly the ports of its services, and the two have
  different names, so that neither replaces the other.
\<close>

theorem service_ports_partition:
  "mset (map portKey (portsIn (prepareService ns app))) + mset (map portKey (portsIn (prepareNodePortService ns app)))
     = mset (concat (map (\<lambda>svc. map (givenPort svc) (svc_ports svc)) (app_services app))) \<and>
   (\<nexists>a b. prepareService ns app = Some a \<and> prepareNodePortService ns app = Some b \<and> ob_name a = ob_name b)"
proof -
  have ports: "portsIn (prepareService ns app) = concat (map (portsOf False app) (app_services app))"
      "portsIn (prepareNodePortService ns app) = concat (map (portsOf True app) (app_services app))"
    by (auto simp: portsIn_def prepareService_def prepareNodePortService_def Let_def objectMeta_def)
  have "mset (map portKey (concat (map (portsOf False app) svcs))) + mset (map portKey (concat (map (portsOf True app) svcs)))
      = mset (concat (map (\<lambda>svc. map (givenPort svc) (svc_ports svc)) svcs))" for svcs
  proof (induction svcs)
    case Nil
    then show ?case by simp
  next
    case (Cons svc svcs)
    then show ?case using portsOf_partition[of app svc] by (simp add: ac_simps)
  qed
  then show ?thesis
    unfolding ports by (auto simp: prepareService_def prepareNodePortService_def Let_def objectMeta_def split: if_splits)
qed

section \<open>Witnesses\<close>

definition plain_lib :: pod_lib where
  "plain_lib = \<lparr>
     pl_copy = (\<lambda>svc. Ok \<lparr>ct_name = svc_name svc, ct_image = svc_image svc, ct_args = svc_args svc,
        ct_env = map (\<lambda>e. \<lparr>ev_name = env_name e, ev_value = env_value e, ev_fieldPath = None\<rparr>) (svc_env svc),
        ct_limits = [], ct_privileged = None\<rparr>),
     pl_quantity = (\<lambda>s. if s = [] then Err ''quantities must match the regular expression'' else Ok s)\<rparr>"

lemma plain_lib_ok: "copier_ok plain_lib"
  by (simp add: copier_ok_def plain_lib_def)

definition web_service :: service where
  "web_service = zero_service\<lparr>svc_name := ''web'', svc_image := ''nginx'',
     svc_limits := Some [(''cpu'', ''1'')], svc_privileged := Some True\<rparr>"

definition web_app :: application where
  "web_app = zero_application\<lparr>app_name := ''shop'', app_version := ''2'', app_type := AppTypeContainer,
     app_workload := WorkloadDeployment, app_replica := 3, app_services := [web_service],
     app_volumes := [zero_volume\<lparr>vol_name := ''tmp'', vol_emptyDir := Some \<lparr>ed_medium = [], ed_sizeLimit = []\<rparr>\<rparr>],
     app_labels := [(AppName, ''shop''), (AppVersion, ''2'')]\<rparr>"

definition web_container :: container where
  "web_container = \<lparr>ct_name = ''web'', ct_image = ''nginx'', ct_args = [], ct_env = [nodeNameVar],
     ct_limits = [(''cpu'', ''1'')], ct_privileged = Some True\<rparr>"

definition web_pod :: pod_spec where
  "web_pod = \<lparr>ps_volumes = [\<lparr>pv_name = ''tmp'', pv_source = VsEmptyDir [] None\<rparr>], ps_initContainers = [],
     ps_containers = [web_container], ps_pullSecrets = [],
     ps_hostNetwork = False, ps_dnsPolicy = [], ps_restartPolicy = [], ps_serviceAccount = [],
     ps_nodeAffinity = None\<rparr>"

lemma web_prepared: "prepareInfo plain_lib web_app [] = Ok web_pod"
  by (simp add: prepareInfo_def web_app_def web_service_def web_pod_def web_container_def zero_application_def
      zero_service_def zero_volume_def TransSvcToContainer_def plain_lib_def setLimit_def podVolume_def)

theorem pod_complete_witness:
  "list_all2 (runsService plain_lib) [web_service] [web_container] \<and>
   map pv_name (ps_volumes web_pod) = map vol_name (app_volumes web_app)"
proof -
  have "app_services web_app = [web_service]" "ps_containers web_pod = [web_container]"
    by (simp_all add: web_app_def web_pod_def)
  with pod_complete[OF plain_lib_ok web_prepared] show ?thesis by simp
qed

lemma web_fields: "app_name web_app = ''shop''" "app_replica web_app = 3"
  by (simp_all add: web_app_def)

lemma web_deploy: "prepareDeploy E plain_lib (PodHook SetPodSpec) ns web_app [] = Ok (objectMeta ''shop'' ns
    (mputs (app_labels web_app) [])
    \<lparr>dp_replicas = Some (i32 3), dp_strategy = ''Recreate'', dp_selector = ofApp web_app,
     dp_podLabels = mputs (app_labels web_app) (ofApp web_app),
     dp_pod = (if contains ''shop'' (e_core E) \<or> contains ''shop'' (e_init E)
       then (web_pod\<lparr>ps_nodeAffinity := Some MasterRole\<rparr>)\<lparr>ps_serviceAccount := ServiceAccountName\<rparr>
       else web_pod\<lparr>ps_nodeAffinity := Some MasterRole\<rparr>)\<rparr>)"
  by (simp add: prepareDeploy_def web_prepared SetPodSpec_def web_fields)

lemma web_daemon: "prepareDaemon plain_lib (PodHook SetPodSpec) ns web_app [] = Ok (objectMeta ''shop'' ns
    (mputs (app_labels web_app) [])
    \<lparr>dm_desired = 0, dm_selector = ofApp web_app, dm_podLabels = mputs (app_labels web_app) (ofApp web_app),
     dm_pod = web_pod\<lparr>ps_nodeAffinity := Some MasterRole\<rparr>\<rparr>)"
  by (simp add: prepareDaemon_def web_prepared SetPodSpec_def web_fields)

theorem deploy_replicas_witness:
  "\<exists>d r. prepareDeploy sample_env plain_lib (PodHook SetPodSpec) ''ns'' web_app [] = Ok d \<and>
     dp_replicas (ob_body d) = Some r \<and> sint r = 3"
  using deploy_replicas[OF web_deploy[of sample_env "''ns''"]] unfolding web_deploy web_fields by auto

theorem workload_selects_its_pods_witness:
  "\<exists>d s. prepareDeploy sample_env plain_lib (PodHook SetPodSpec) ''ns'' web_app [] = Ok d \<and>
     prepareDaemon plain_lib (PodHook SetPodSpec) ''ns'' web_app [] = Ok s \<and>
     selects (dp_selector (ob_body d)) (dp_podLabels (ob_body d)) \<and> selects (dm_selector (ob_body s)) (dm_podLabels (ob_body s))"
proof -
  have "gomap (app_labels web_app)" "mget (app_labels web_app) AppName = None \<or> mget (app_labels web_app) AppName = Some (app_name web_app)"
    by (simp_all add: web_app_def gomap_def AppName_def AppVersion_def)
  from workload_selects_its_pods[OF this web_deploy web_daemon refl] web_deploy web_daemon show ?thesis by blast
qed

end
