(* ===== verification/Kube_Apply.thy ===== *)
theory Kube_Apply
  imports Kube_Pod Node
begin

text \<open>
  Writing to the cluster (\<^verbatim>\<open>ami/kube/kube_apply.go\<close>, \<^verbatim>\<open>kube_registry.go\<close>): namespaces, config maps,
  secrets, workloads, services and autoscalers, and the deletion of an application by its label.
  The locale \<open>placing\<close> is the contract of the routines that put one object in place.
\<close>

section \<open>Parameters\<close>

record 'c kube =
  kp_cluster :: "'c cluster"
  kp_lib :: pod_lib
  kp_env :: env
  kp_hook :: pod_hook
  kp_copyConfig :: "configuration \<Rightarrow> configmap kobj result"   \<comment> \<open>copier.Copy\<close>
  kp_copySecret :: "secret \<Rightarrow> ksecret kobj result"
  kp_marshal :: "json \<Rightarrow> string result"                     \<comment> \<open>json.Marshal\<close>
  kp_secretLabel :: string                                  \<comment> \<open>specv1.SecretLabel\<close>
  kp_secretRegistry :: string                               \<comment> \<open>specv1.SecretRegistry\<close>
  kp_range :: "(string, kservice kobj) gomap \<Rightarrow> (string, kservice kobj) gomap"

section \<open>Namespaces\<close>

definition checkAndCreateNamespace :: "'c cluster \<Rightarrow> string \<Rightarrow> 'c \<Rightarrow> unit result \<times> 'c" where
  "checkAndCreateNamespace K ns c =
     (case cl_nsGet K ns c of
        Err e \<Rightarrow> if contains e ''not found'' then cl_nsCreate K ns c else (Err e, c)
      | r \<Rightarrow> (r, c))"

section \<open>Registry secrets\<close>

text \<open>\<^verbatim>\<open>base64.StdEncoding.EncodeToString\<close>.\<close>

definition base64Digit :: "nat \<Rightarrow> char" where
  "base64Digit d = (if d < 26 then char_of (65 + d) else if d < 52 then char_of (71 + d)
     else if d < 62 then char_of (d - 4) else if d = 62 then CHR ''+'' else CHR ''/'')"

fun base64 :: "string \<Rightarrow> string" where
  "base64 [] = []"
| "base64 [a] = (let x = of_char a in
     [base64Digit (x div 4), base64Digit (x mod 4 * 16), CHR ''='', CHR ''=''])"
| "base64 [a, b] = (let x = of_char a; y = of_char b in
     [base64Digit (x div 4), base64Digit (x mod 4 * 16 + y div 16), base64Digit (y mod 16 * 4), CHR ''=''])"
| "base64 (a # b # c # s) = (let x = of_char a; y = of_char b; z = of_char c in
     [base64Digit (x div 4), base64Digit (x mod 4 * 16 + y div 16),
      base64Digit (y mod 16 * 4 + z div 64), base64Digit (z mod 64)] @ base64 s)"

definition isRegistrySecret :: "'c kube \<Rightarrow> secret \<Rightarrow> bool" where
  "isRegistrySecret KP sec \<longleftrightarrow> mget (sec_labels sec) (kp_secretLabel KP) = Some (kp_secretRegistry KP)"

definition dataOf :: "secret \<Rightarrow> string \<Rightarrow> string" where
  "dataOf sec k = (case mget (sec_data sec) k of Some v \<Rightarrow> v | None \<Rightarrow> [])"

definition generateRegistrySecret :: "'c kube \<Rightarrow> string \<Rightarrow> string \<Rightarrow> string \<Rightarrow> string \<Rightarrow> string \<Rightarrow> ksecret kobj result" where
  "generateRegistrySecret KP ns n server username password =
     (let auth = JObj [(''Username'', JStr username), (''Password'', JStr password),
                       (''Auth'', JStr (base64 (username @ '':'' @ password)))]
      in rmap (\<lambda>data. objectMeta n ns [] \<lparr>kc_type = ''kubernetes.io/dockerconfigjson'',
                 kc_data = [(''.dockerconfigjson'', data)]\<rparr>)
           (kp_marshal KP (JObj [(''auths'', JObj [(server, auth)])])))"

definition kubeSecret :: "'c kube \<Rightarrow> string \<Rightarrow> secret \<Rightarrow> ksecret kobj result" where
  "kubeSecret KP ns sec =
     rmap (\<lambda>s. s\<lparr>ob_namespace := ns\<rparr>)
       (if isRegistrySecret KP sec
        then generateRegistrySecret KP ns (sec_name sec) (dataOf sec ''address'')
               (dataOf sec ''username'') (dataOf sec ''password'')
        else kp_copySecret KP sec)"

section \<open>Putting one object in place\<close>

text \<open>The loop body shared by config maps, secrets, deployments and daemon sets.\<close>

definition replaceOrCreate :: "('c, 'b) api \<Rightarrow> string \<Rightarrow> 'b kobj \<Rightarrow> 'c \<Rightarrow> unit result \<times> 'c" where
  "replaceOrCreate A ns ob c =
     (case api_get A ns (ob_name ob) c of
        Ok old \<Rightarrow> api_update A ns (ob\<lparr>ob_version := ob_version old\<rparr>) c
      | Err _ \<Rightarrow> api_create A ns ob c
      | Panic p \<Rightarrow> (Panic p, c))"

definition replaceService :: "('c, kservice) api \<Rightarrow> string \<Rightarrow> kservice kobj \<Rightarrow> 'c \<Rightarrow> unit result \<times> 'c" where
  "replaceService A ns ob c =
     (case api_get A ns (ob_name ob) c of
        Ok old \<Rightarrow> api_update A ns (ob\<lparr>ob_version := ob_version old,
                    ob_body := (ob_body ob)\<lparr>ks_clusterIP := ks_clusterIP (ob_body old)\<rparr>\<rparr>) c
      | Err _ \<Rightarrow> api_create A ns ob c
      | Panic p \<Rightarrow> (Panic p, c))"

definition recreateJob :: "('c, 'b) api \<Rightarrow> string \<Rightarrow> 'b kobj \<Rightarrow> 'c \<Rightarrow> unit result \<times> 'c" where
  "recreateJob A ns ob c =
     (case api_get A ns (ob_name ob) c of
        Ok old \<Rightarrow> sbind (api_delete A ns (ob_name old) c) (\<lambda>_ c. api_create A ns ob c)
      | Err _ \<Rightarrow> api_create A ns ob c
      | Panic p \<Rightarrow> (Panic p, c))"

definition applyHPA :: "('c, 'b) api \<Rightarrow> string \<Rightarrow> 'b kobj \<Rightarrow> 'c \<Rightarrow> unit result \<times> 'c" where
  "applyHPA A ns ob c =
     (case api_get A ns (ob_name ob) c of
        Ok old \<Rightarrow> api_update A ns ob c
      | Err _ \<Rightarrow> api_create A ns ob c
      | Panic p \<Rightarrow> (Panic p, c))"

definition applyConfigurations :: "'c kube \<Rightarrow> string \<Rightarrow> (string, configuration) gomap \<Rightarrow> 'c \<Rightarrow> unit result \<times> 'c" where
  "applyConfigurations KP ns cfgs c =
     sfor (\<lambda>kv c. sbind (kp_copyConfig KP (snd kv), c) (\<lambda>cm c.
        replaceOrCreate (cl_configs (kp_cluster KP)) ns (cm\<lparr>ob_namespace := ns\<rparr>) c)) cfgs c"

definition applySecrets :: "'c kube \<Rightarrow> string \<Rightarrow> (string, secret) gomap \<Rightarrow> 'c \<Rightarrow> unit result \<times> 'c" where
  "applySecrets KP ns secs c =
     sfor (\<lambda>kv c. sbind (kubeSecret KP ns (snd kv), c) (\<lambda>s c.
        replaceOrCreate (cl_secrets (kp_cluster KP)) ns s c)) secs c"

definition applyDeploys :: "'c cluster \<Rightarrow> string \<Rightarrow> (string, deployment kobj) gomap \<Rightarrow> 'c \<Rightarrow> unit result \<times> 'c" where
  "applyDeploys K ns ds c = sfor (\<lambda>kv. replaceOrCreate (cl_deploys K) ns (snd kv)) ds c"

definition applyDaemons :: "'c cluster \<Rightarrow> string \<Rightarrow> (string, daemonset kobj) gomap \<Rightarrow> 'c \<Rightarrow> unit result \<times> 'c" where
  "applyDaemons K ns ds c = sfor (\<lambda>kv. replaceOrCreate (cl_daemons K) ns (snd kv)) ds c"

definition applyJobs :: "'c cluster \<Rightarrow> string \<Rightarrow> (string, job kobj) gomap \<Rightarrow> 'c \<Rightarrow> unit result \<times> 'c" where
  "applyJobs K ns js c = sfor (\<lambda>kv. recreateJob (cl_jobs K) ns (snd kv)) js c"

definition applyServices :: "'c cluster \<Rightarrow> string \<Rightarrow> (string, kservice kobj) gomap \<Rightarrow> 'c \<Rightarrow> unit result \<times> 'c" where
  "applyServices K ns ss c = sfor (\<lambda>kv. replaceService (cl_services K) ns (snd kv)) ss c"

section \<open>Applying an application\<close>

text \<open>Volumes of secrets that only authenticate against a registry lose their source.\<close>

definition dropPullSecret :: "string list \<Rightarrow> volume \<Rightarrow> volume" where
  "dropPullSecret pull v =
     (case vol_secret v of
        Some r \<Rightarrow> if ref_name r \<in> set pull then v\<lparr>vol_secret := None\<rparr> else v
      | None \<Rightarrow> v)"

definition labelled :: "application \<Rightarrow> application" where
  "labelled app = app\<lparr>app_labels := mput AppVersion (app_version app) (mput AppName (app_name app) (app_labels app))\<rparr>"

definition readied :: "string list \<Rightarrow> application \<Rightarrow> application" where
  "readied pull app =
     compatibleDeprecatedField (labelled (app\<lparr>app_volumes := map (dropPullSecret pull) (app_volumes app)\<rparr>))"

record workloads =
  wl_deploys :: "(string, deployment kobj) gomap"
  wl_daemons :: "(string, daemonset kobj) gomap"
  wl_jobs :: "(string, job kobj) gomap"

definition prepareWorkload :: "'c kube \<Rightarrow> string \<Rightarrow> application \<Rightarrow> string list \<Rightarrow> workloads result" where
  "prepareWorkload KP ns app pull =
     (let none = \<lparr>wl_deploys = [], wl_daemons = [], wl_jobs = []\<rparr>
      in case app_workload app of
           WorkloadDaemonSet \<Rightarrow> rmap (\<lambda>d. none\<lparr>wl_daemons := [(ob_name d, d)]\<rparr>)
             (prepareDaemon (kp_lib KP) (kp_hook KP) ns app pull)
         | WorkloadDeployment \<Rightarrow> rmap (\<lambda>d. none\<lparr>wl_deploys := [(ob_name d, d)]\<rparr>)
             (prepareDeploy (kp_env KP) (kp_lib KP) (kp_hook KP) ns app pull)
         | WorkloadJob \<Rightarrow> rmap (\<lambda>d. none\<lparr>wl_jobs := [(ob_name d, d)]\<rparr>)
             (prepareJob (kp_lib KP) (kp_hook KP) ns app pull)
         | _ \<Rightarrow> Ok none)"

definition addService :: "kservice kobj option \<Rightarrow> (string, kservice kobj) gomap \<Rightarrow> (string, kservice kobj) gomap" where
  "addService s m = (case s of Some ob \<Rightarrow> mput (ob_name ob) ob m | None \<Rightarrow> m)"

definition servicesOf :: "string \<Rightarrow> application \<Rightarrow> (string, kservice kobj) gomap" where
  "servicesOf ns app = addService (prepareNodePortService ns app) (addService (prepareService ns app) [])"

definition applyApplication :: "'c kube \<Rightarrow> string \<Rightarrow> application \<Rightarrow> string list \<Rightarrow> 'c \<Rightarrow> unit result \<times> 'c" where
  "applyApplication KP ns app0 pull c =
     (let K = kp_cluster KP; app = readied pull app0
      in sbind (prepareWorkload KP ns app pull, c) (\<lambda>w c.
         sbind (applyDeploys K ns (wl_deploys w) c) (\<lambda>_ c.
         sbind (applyDaemons K ns (wl_daemons w) c) (\<lambda>_ c.
         sbind (applyServices K ns (kp_range KP (servicesOf ns app)) c) (\<lambda>_ c.
         sbind (applyJobs K ns (wl_jobs w) c) (\<lambda>_ c.
         case prepareHPA K (kp_lib KP) ns app c of
           Some h \<Rightarrow> applyHPA (cl_hpas K) ns h c
         | None \<Rightarrow> (Ok (), c)))))))"

section \<open>Deleting an application\<close>

definition removeEach :: "('c, 'b) api \<Rightarrow> string \<Rightarrow> 'b kobj list \<Rightarrow> 'c \<Rightarrow> unit result \<times> 'c" where
  "removeEach A ns obs c = sfor (\<lambda>ob. api_delete A ns (ob_name ob)) obs c"

definition deleteHPAs :: "'c cluster \<Rightarrow> string \<Rightarrow> (string, string) gomap \<Rightarrow> 'c \<Rightarrow> unit result \<times> 'c" where
  "deleteHPAs K ns sel c =
     (if hpaAvailable K c
      then sbind (api_list (cl_hpas K) ns sel c, c) (\<lambda>hpas c. removeEach (cl_hpas K) ns hpas c)
      else (Ok (), c))"

definition deleteApplication :: "'c cluster \<Rightarrow> string \<Rightarrow> string \<Rightarrow> 'c \<Rightarrow> unit result \<times> 'c" where
  "deleteApplication K ns n c =
     (let sel = [(AppName, n)]
      in sbind (api_list (cl_deploys K) ns sel c, c) (\<lambda>deploys c.
         sbind (api_list (cl_daemons K) ns sel c, c) (\<lambda>daemons c.
         sbind (api_list (cl_services K) ns sel c, c) (\<lambda>services c.
         sbind (api_list (cl_jobs K) ns sel c, c) (\<lambda>jobs c.
         sbind (deleteHPAs K ns sel c) (\<lambda>_ c.
         sbind (removeEach (cl_deploys K) ns deploys c) (\<lambda>_ c.
         sbind (removeEach (cl_daemons K) ns daemons c) (\<lambda>_ c.
         sbind (removeEach (cl_services K) ns services c) (\<lambda>_ c.
         removeEach (cl_jobs K) ns jobs c)))))))))"

section \<open>The cluster's promises\<close>

record body_defaults =
  df_configs :: "configmap \<Rightarrow> configmap"
  df_secrets :: "ksecret \<Rightarrow> ksecret"
  df_deploys :: "deployment \<Rightarrow> deployment"
  df_daemons :: "daemonset \<Rightarrow> daemonset"
  df_jobs :: "job \<Rightarrow> job"
  df_services :: "kservice \<Rightarrow> kservice"
  df_hpas :: "hpa \<Rightarrow> hpa"

datatype rkind = RConfig | RSecret | RDeploy | RDaemon | RJob | RService | RHpa

text \<open>One operation of a client, and what a kind's reads find.\<close>

definition steps :: "('c, 'b) api \<Rightarrow> 'c \<Rightarrow> 'c \<Rightarrow> bool" where
  "steps A c c' \<longleftrightarrow>
     (\<exists>ns ob. c' = snd (api_create A ns ob c)) \<or> (\<exists>ns ob. c' = snd (api_update A ns ob c)) \<or>
     (\<exists>ns n. c' = snd (api_delete A ns n c))"

definition agree :: "('c, 'b) api \<Rightarrow> 'c \<Rightarrow> 'c \<Rightarrow> bool" where
  "agree A c c' \<longleftrightarrow> (\<forall>ns n. api_get A ns n c' = api_get A ns n c)"

fun acts :: "'c cluster \<Rightarrow> rkind \<Rightarrow> 'c \<Rightarrow> 'c \<Rightarrow> bool" where
  "acts K RConfig = steps (cl_configs K)"
| "acts K RSecret = steps (cl_secrets K)"
| "acts K RDeploy = steps (cl_deploys K)"
| "acts K RDaemon = steps (cl_daemons K)"
| "acts K RJob = steps (cl_jobs K)"
| "acts K RService = steps (cl_services K)"
| "acts K RHpa = steps (cl_hpas K)"

fun sees :: "'c cluster \<Rightarrow> rkind \<Rightarrow> 'c \<Rightarrow> 'c \<Rightarrow> bool" where
  "sees K RConfig = agree (cl_configs K)"
| "sees K RSecret = agree (cl_secrets K)"
| "sees K RDeploy = agree (cl_deploys K)"
| "sees K RDaemon = agree (cl_daemons K)"
| "sees K RJob = agree (cl_jobs K)"
| "sees K RService = agree (cl_services K)"
| "sees K RHpa = agree (cl_hpas K)"

text \<open>Every kind keeps the promises of \<open>api_ok\<close>, and the operations of one kind do not show in another.\<close>

definition cluster_ok :: "body_defaults \<Rightarrow> 'c cluster \<Rightarrow> bool" where
  "cluster_ok D K \<longleftrightarrow>
     api_ok (df_configs D) (cl_configs K) \<and> api_ok (df_secrets D) (cl_secrets K) \<and>
     api_ok (df_deploys D) (cl_deploys K) \<and> api_ok (df_daemons D) (cl_daemons K) \<and>
     api_ok (df_jobs D) (cl_jobs K) \<and> api_ok (df_services D) (cl_services K) \<and>
     api_ok (df_hpas D) (cl_hpas K) \<and>
     (\<forall>k k' c c'. k \<noteq> k' \<longrightarrow> acts K k c c' \<longrightarrow> sees K k' c c')"

lemma agree_refl: "agree A c c"
  by (simp add: agree_def)

lemma agree_trans: "agree A a b \<Longrightarrow> agree A b c \<Longrightarrow> agree A a c"
  by (simp add: agree_def)

lemma sees_refl: "sees K k c c"
  by (cases k) (simp_all add: agree_refl)

lemma sees_trans: "sees K k a b \<Longrightarrow> sees K k b c \<Longrightarrow> sees K k a c"
  by (cases k) (auto intro: agree_trans)

lemma acts_frame:
  assumes "cluster_ok D K" and "k \<noteq> k'" and "(acts K k)\<^sup>*\<^sup>* c c'"
  shows "sees K k' c c'"
  using assms(3)
proof (induction rule: rtranclp_induct)
  case base
  then show ?case by (rule sees_refl)
next
  case (step b c')
  from step(2) assms(1,2) have "sees K k' b c'" unfolding cluster_ok_def by blast
  with step(3) show ?case by (rule sees_trans)
qed

section \<open>The contract of placing an object\<close>

text \<open>
  A placing routine uses only the client's operations, stores the object under its name with its
  labels and a body that \<open>fits\<close>, and leaves every other name alone.
\<close>

locale placing =
  fixes place :: "('c, 'b) api \<Rightarrow> string \<Rightarrow> 'b kobj \<Rightarrow> 'c \<Rightarrow> unit result \<times> 'c"
    and fits :: "('b \<Rightarrow> 'b) \<Rightarrow> 'b \<Rightarrow> 'b \<Rightarrow> bool"
  assumes place_steps: "(steps A)\<^sup>*\<^sup>* c (snd (place A ns ob c))"
    and place_stores: "api_ok dflt A \<Longrightarrow> place A ns ob c = (Ok u, t) \<Longrightarrow>
      \<exists>got. api_get A ns (ob_name ob) t = Ok got \<and> ob_labels got = ob_labels ob \<and>
            fits dflt (ob_body ob) (ob_body got)"
    and place_other: "api_ok dflt A \<Longrightarrow> (ns', n) \<noteq> (ns, ob_name ob) \<Longrightarrow>
      api_get A ns' n (snd (place A ns ob c)) = api_get A ns' n c"
begin

abbreviation place_all :: "('c, 'b) api \<Rightarrow> string \<Rightarrow> (string \<times> 'b kobj) list \<Rightarrow> 'c \<Rightarrow> unit result \<times> 'c" where
  "place_all A ns obs \<equiv> sfor (\<lambda>kv. place A ns (snd kv)) obs"

lemma all_steps: "(steps A)\<^sup>*\<^sup>* c (snd (place_all A ns obs c))"
  by (rule sfor_inv) (auto intro: rtranclp_trans place_steps)

lemma all_other:
  assumes "api_ok dflt A" and "\<And>kv. kv \<in> set obs \<Longrightarrow> (ns', n) \<noteq> (ns, ob_name (snd kv))"
  shows "api_get A ns' n (snd (place_all A ns obs c)) = api_get A ns' n c"
  by (rule sfor_inv) (use assms place_other[OF assms(1)] in auto)

lemma all_stores:
  assumes "api_ok dflt A" and "distinct (map (\<lambda>kv. ob_name (snd kv)) obs)"
    and "place_all A ns obs c = (Ok u, t)" and "kv \<in> set obs"
  shows "\<exists>got. api_get A ns (ob_name (snd kv)) t = Ok got \<and> ob_labels got = ob_labels (snd kv) \<and>
           fits dflt (ob_body (snd kv)) (ob_body got)"
  using assms(2-4)
proof (induction obs arbitrary: c)
  case Nil
  then show ?case by simp
next
  case (Cons x obs)
  from Cons.prems(2) obtain v c1 where c1: "place A ns (snd x) c = (Ok v, c1)" "place_all A ns obs c1 = (Ok u, t)"
    by (auto simp: sbind_Ok_iff)
  show ?case
  proof (cases "kv \<in> set obs")
    case True
    with Cons.IH[OF _ c1(2)] Cons.prems(1) show ?thesis by simp
  next
    case False
    with Cons.prems(3) have kv: "kv = x" by simp
    have "api_get A ns (ob_name (snd x)) (snd (place_all A ns obs c1)) = api_get A ns (ob_name (snd x)) c1"
      using Cons.prems(1) by (intro all_other[OF assms(1)]) force
    with place_stores[OF assms(1) c1(1)] c1(2) kv show ?thesis by simp
  qed
qed

end

lemma steps_intros:
  "steps A c (snd (api_create A ns ob c))" "steps A c (snd (api_update A ns ob c))"
  "steps A c (snd (api_delete A ns n c))"
  unfolding steps_def by blast+

lemma acceptedD: "accepted dflt ob got \<Longrightarrow>
    ob_name got = ob_name ob \<and> ob_labels got = ob_labels ob \<and> ob_body got = dflt (ob_body ob)"
  by (simp add: accepted_def)

text \<open>What one client call stores, with the object as the caller sees it.\<close>

lemma create_stored:
  "api_ok dflt A \<Longrightarrow> api_create A ns ob c = (Ok u, t) \<Longrightarrow>
     \<exists>got. api_get A ns (ob_name ob) t = Ok got \<and> ob_labels got = ob_labels ob \<and> ob_body got = dflt (ob_body ob)"
  using puts_stored[OF ok_create, of dflt A ns ob c t] by (auto dest: acceptedD)

lemma update_stored:
  "api_ok dflt A \<Longrightarrow> api_update A ns ob c = (Ok u, t) \<Longrightarrow>
     \<exists>got. api_get A ns (ob_name ob) t = Ok got \<and> ob_labels got = ob_labels ob \<and> ob_body got = dflt (ob_body ob)"
  using puts_stored[OF ok_update, of dflt A ns ob c t] by (auto dest: acceptedD)

lemma recreate_steps: "(steps A)\<^sup>*\<^sup>* c (snd (recreateJob A ns ob c))"
proof (cases "api_get A ns (ob_name ob) c")
  case (Ok old)
  have "(steps A)\<^sup>*\<^sup>* c (snd (sbind (api_delete A ns (ob_name old) c) (\<lambda>_ c. api_create A ns ob c)))"
    by (rule sbind_inv[where I = "\<lambda>s. (steps A)\<^sup>*\<^sup>* c s"]) (auto intro: steps_intros rtranclp.rtrancl_into_rtrancl)
  with Ok show ?thesis by (simp add: recreateJob_def)
qed (auto simp: recreateJob_def intro: steps_intros)

lemma recreate_other:
  assumes "api_ok dflt A" and "(ns', n) \<noteq> (ns, ob_name ob)"
  shows "api_get A ns' n (snd (recreateJob A ns ob c)) = api_get A ns' n c"
proof (cases "api_get A ns (ob_name ob) c")
  case (Ok old)
  then have "(ns', n) \<noteq> (ns, ob_name old)" using get_name[OF ok_lists[OF assms(1)] Ok] assms(2) by simp
  note del = deletes_other[OF ok_deletes[OF assms(1)] this, of c]
  have "api_get A ns' n (snd (sbind (api_delete A ns (ob_name old) c) (\<lambda>_ c. api_create A ns ob c))) = api_get A ns' n c"
    by (rule sbind_inv[where I = "\<lambda>s. api_get A ns' n s = api_get A ns' n c"])
      (simp_all add: del puts_other[OF ok_create[OF assms(1)] assms(2)])
  with Ok show ?thesis by (simp add: recreateJob_def)
next
  case (Err e)
  then show ?thesis using puts_other[OF ok_create[OF assms(1)] assms(2)] by (simp add: recreateJob_def)
qed (simp add: recreateJob_def)

interpretation plain: placing "replaceOrCreate" "\<lambda>dflt b b'. b' = dflt b"
proof (unfold_locales, goal_cases)
  case (1 A c ns ob)
  show ?case unfolding replaceOrCreate_def by (auto split: result.split intro: steps_intros)
next
  case (2 dflt A ns ob c u t)
  show ?case
  proof (cases "api_get A ns (ob_name ob) c")
    case (Ok old)
    from update_stored[OF 2(1), of ns "ob\<lparr>ob_version := ob_version old\<rparr>" c u t] 2(2) Ok
    show ?thesis by (simp add: replaceOrCreate_def)
  next
    case (Err e)
    with create_stored[OF 2(1), of ns ob c u t] 2(2) show ?thesis by (simp add: replaceOrCreate_def)
  qed (use 2(2) in \<open>simp add: replaceOrCreate_def\<close>)
next
  case (3 dflt A ns' n ns ob c)
  then show ?case
    using puts_other[OF ok_update, of dflt A ns' n ns "ob\<lparr>ob_version := v\<rparr>" c for v]
      puts_other[OF ok_create, of dflt A ns' n ns ob c]
    unfolding replaceOrCreate_def by (simp split: result.split)
qed

interpretation hpa: placing "applyHPA" "\<lambda>dflt b b'. b' = dflt b"
proof (unfold_locales, goal_cases)
  case (1 A c ns ob)
  show ?case unfolding applyHPA_def by (auto split: result.split intro: steps_intros)
next
  case (2 dflt A ns ob c u t)
  show ?case
  proof (cases "api_get A ns (ob_name ob) c")
    case (Ok old)
    with update_stored[OF 2(1), of ns ob c u t] 2(2) show ?thesis by (simp add: applyHPA_def)
  next
    case (Err e)
    with create_stored[OF 2(1), of ns ob c u t] 2(2) show ?thesis by (simp add: applyHPA_def)
  qed (use 2(2) in \<open>simp add: applyHPA_def\<close>)
next
  case (3 dflt A ns' n ns ob c)
  then show ?case
    using puts_other[OF ok_update, of dflt A ns' n ns ob c] puts_other[OF ok_create, of dflt A ns' n ns ob c]
    unfolding applyHPA_def by (simp split: result.split)
qed

interpretation service: placing "replaceService" "\<lambda>dflt b b'. \<exists>ip. b' = dflt (b\<lparr>ks_clusterIP := ip\<rparr>)"
proof (unfold_locales, goal_cases)
  case (1 A c ns ob)
  show ?case unfolding replaceService_def by (auto split: result.split intro: steps_intros)
next
  case (2 dflt A ns ob c u t)
  show ?case
  proof (cases "api_get A ns (ob_name ob) c")
    case (Ok old)
    from update_stored[OF 2(1), of ns "ob\<lparr>ob_version := ob_version old,
        ob_body := (ob_body ob)\<lparr>ks_clusterIP := ks_clusterIP (ob_body old)\<rparr>\<rparr>" c u t] 2(2) Ok
    show ?thesis by (auto simp: replaceService_def)
  next
    case (Err e)
    with create_stored[OF 2(1), of ns ob c u t] 2(2) obtain got where
      "api_get A ns (ob_name ob) t = Ok got" "ob_labels got = ob_labels ob"
      "ob_body got = dflt ((ob_body ob)\<lparr>ks_clusterIP := ks_clusterIP (ob_body ob)\<rparr>)"
      by (auto simp: replaceService_def)
    then show ?thesis by blast
  next
    case (Panic p)
    with 2(2) show ?thesis by (simp add: replaceService_def)
  qed
next
  case (3 dflt A ns' n ns ob c)
  then show ?case
    using puts_other[OF ok_update, of dflt A ns' n ns "ob\<lparr>ob_version := v, ob_body := b\<rparr>" c for v b]
      puts_other[OF ok_create, of dflt A ns' n ns ob c]
    unfolding replaceService_def by (simp split: result.split)
qed

interpretation recreate: placing "recreateJob" "\<lambda>dflt b b'. b' = dflt b"
proof (unfold_locales, goal_cases)
  case (1 A c ns ob)
  show ?case by (rule recreate_steps)
next
  case (2 dflt A ns ob c u t)
  then have "\<exists>c1. api_create A ns ob c1 = (Ok u, t)"
    unfolding recreateJob_def by (auto simp: sbind_Ok_iff split: result.splits)
  with create_stored[OF 2(1)] show ?case by blast
next
  case (3 dflt A ns' n ns ob c)
  then show ?case by (rule recreate_other)
qed

section \<open>Deleting by label\<close>

definition absent :: "('c, 'b) api \<Rightarrow> string \<Rightarrow> (string, string) gomap \<Rightarrow> 'c \<Rightarrow> bool" where
  "absent A ns sel c \<longleftrightarrow> (\<forall>n ob. api_get A ns n c = Ok ob \<longrightarrow> \<not> selects sel (ob_labels ob))"

text \<open>Whatever the selector does not pick in the namespace, and everything elsewhere, is still there.\<close>

definition spares :: "('c, 'b) api \<Rightarrow> string \<Rightarrow> (string, string) gomap \<Rightarrow> 'c \<Rightarrow> 'c \<Rightarrow> bool" where
  "spares A ns sel c t \<longleftrightarrow>
     (\<forall>ns' m ob. api_get A ns' m c = Ok ob \<longrightarrow> ns' \<noteq> ns \<or> \<not> selects sel (ob_labels ob) \<longrightarrow>
        api_get A ns' m t = Ok ob)"

fun sparesK :: "'c cluster \<Rightarrow> rkind \<Rightarrow> string \<Rightarrow> (string, string) gomap \<Rightarrow> 'c \<Rightarrow> 'c \<Rightarrow> bool" where
  "sparesK K RConfig ns sel c t = agree (cl_configs K) c t"
| "sparesK K RSecret ns sel c t = agree (cl_secrets K) c t"
| "sparesK K RDeploy ns sel c t = spares (cl_deploys K) ns sel c t"
| "sparesK K RDaemon ns sel c t = spares (cl_daemons K) ns sel c t"
| "sparesK K RJob ns sel c t = spares (cl_jobs K) ns sel c t"
| "sparesK K RService ns sel c t = spares (cl_services K) ns sel c t"
| "sparesK K RHpa ns sel c t = spares (cl_hpas K) ns sel c t"

lemma spares_agree: "spares A ns sel c s \<Longrightarrow> agree A s t \<Longrightarrow> spares A ns sel c t"
  by (simp add: spares_def agree_def)

lemma absent_agree: "absent A ns sel s \<Longrightarrow> agree A s t \<Longrightarrow> absent A ns sel t"
  by (simp add: absent_def agree_def)

lemma sparesK_sees: "sparesK K k ns sel c s \<Longrightarrow> sees K k s t \<Longrightarrow> sparesK K k ns sel c t"
  by (cases k) (auto intro: spares_agree agree_trans)

lemma sparesK_refl: "sparesK K k ns sel c c"
  by (cases k) (simp_all add: spares_def agree_refl)

lemma spared_all:
  assumes "cluster_ok D K" and "(acts K k)\<^sup>*\<^sup>* s t" and "sparesK K k ns sel c t"
    and "\<forall>k'. sparesK K k' ns sel c s"
  shows "\<forall>k'. sparesK K k' ns sel c t"
  using acts_frame[OF assms(1) _ assms(2)] assms(3,4) sparesK_sees by metis

lemma removeEach_steps: "(steps A)\<^sup>*\<^sup>* c (snd (removeEach A ns obs c))"
  unfolding removeEach_def
  by (rule sfor_inv) (auto intro: steps_intros rtranclp.rtrancl_into_rtrancl)

lemma removeEach_other:
  assumes "deletes A" and "ns' \<noteq> ns \<or> n \<notin> ob_name ` set obs"
  shows "api_get A ns' n (snd (removeEach A ns obs c)) = api_get A ns' n c"
  unfolding removeEach_def
proof (rule sfor_inv[where I = "\<lambda>s. api_get A ns' n s = api_get A ns' n c"])
  fix ob s
  assume "ob \<in> set obs" and s: "api_get A ns' n s = api_get A ns' n c"
  with assms(2) have "(ns', n) \<noteq> (ns, ob_name ob)" by auto
  from deletes_other[OF assms(1) this] s show "api_get A ns' n (snd (api_delete A ns (ob_name ob) s)) = api_get A ns' n c"
    by simp
qed simp

lemma removeEach_gone:
  assumes "deletes A" and "removeEach A ns obs c = (Ok u, t)" and "ob \<in> set obs"
  shows "\<not> is_ok (api_get A ns (ob_name ob) t)"
  using assms(2,3)
proof (induction obs arbitrary: c ob)
  case Nil
  then show ?case by simp
next
  case (Cons x obs)
  from Cons.prems(1) obtain v c1 where c1: "api_delete A ns (ob_name x) c = (Ok v, c1)" "removeEach A ns obs c1 = (Ok u, t)"
    by (auto simp: removeEach_def sbind_Ok_iff)
  show ?case
  proof (cases "ob_name ob \<in> ob_name ` set obs")
    case True
    then obtain ob' where ob': "ob' \<in> set obs" "ob_name ob = ob_name ob'" by auto
    from Cons.IH[OF c1(2) ob'(1)] show ?thesis by (simp add: ob'(2))
  next
    case False
    with Cons.prems(2) have "ob = x" by auto
    moreover have "api_get A ns (ob_name ob) t = api_get A ns (ob_name ob) c1"
      using removeEach_other[OF assms(1), of ns ns "ob_name ob" obs c1] False c1(2) by simp
    moreover have "\<not> is_ok (api_get A ns (ob_name x) c1)"
      using deletes_gone[OF assms(1), of ns "ob_name x" c c1] c1(1) by simp
    ultimately show ?thesis by simp
  qed
qed

text \<open>Removing what a list found, with nothing of this kind changed in between.\<close>

lemma remove_listed_spares:
  assumes "api_ok d A" and "api_list A ns sel c = Ok obs" and "spares A ns sel c s"
  shows "spares A ns sel c (snd (removeEach A ns obs s))"
  unfolding spares_def
proof (intro allI impI)
  fix ns' m ob
  assume ob: "api_get A ns' m c = Ok ob" "ns' \<noteq> ns \<or> \<not> selects sel (ob_labels ob)"
  have "ns' \<noteq> ns \<or> m \<notin> ob_name ` set obs"
  proof (rule ccontr)
    assume "\<not> (ns' \<noteq> ns \<or> m \<notin> ob_name ` set obs)"
    then obtain x where "x \<in> set obs" "ob_name x = m" "ns' = ns" by auto
    with lists_mem[OF ok_lists[OF assms(1)] assms(2), of x] ob show False by simp
  qed
  from removeEach_other[OF ok_deletes[OF assms(1)] this] assms(3) ob
  show "api_get A ns' m (snd (removeEach A ns obs s)) = Ok ob" by (simp add: spares_def)
qed

lemma remove_listed_absent:
  assumes "api_ok d A" and "api_list A ns sel c = Ok obs" and "agree A c s" and "removeEach A ns obs s = (Ok u, t)"
  shows "absent A ns sel t"
  unfolding absent_def
proof (intro allI impI notI)
  fix n ob
  assume t: "api_get A ns n t = Ok ob" and sel: "selects sel (ob_labels ob)"
  note del = ok_deletes[OF assms(1)] and lst = ok_lists[OF assms(1)]
  have "n \<notin> ob_name ` set obs" using removeEach_gone[OF del assms(4)] t by force
  then have "api_get A ns n c = Ok ob"
    using removeEach_other[OF del, of ns ns n obs s] assms(3,4) t by (simp add: agree_def)
  with get_name[OF lst this] lists_mem[OF lst assms(2), of ob] sel have "ob \<in> set obs" by simp
  with \<open>n \<notin> ob_name ` set obs\<close> get_name[OF lst t] show False by auto
qed

lemma cluster_apis:
  assumes "cluster_ok D K"
  shows "api_ok (df_configs D) (cl_configs K)" "api_ok (df_secrets D) (cl_secrets K)"
    "api_ok (df_deploys D) (cl_deploys K)" "api_ok (df_daemons D) (cl_daemons K)"
    "api_ok (df_jobs D) (cl_jobs K)" "api_ok (df_services D) (cl_services K)" "api_ok (df_hpas D) (cl_hpas K)"
  using assms unfolding cluster_ok_def by simp_all

lemma remove_spared:
  assumes "cluster_ok D K" and "\<forall>k. sparesK K k ns sel c s"
  shows "api_list (cl_deploys K) ns sel c = Ok ds \<Longrightarrow> \<forall>k. sparesK K k ns sel c (snd (removeEach (cl_deploys K) ns ds s))"
    and "api_list (cl_daemons K) ns sel c = Ok ms \<Longrightarrow> \<forall>k. sparesK K k ns sel c (snd (removeEach (cl_daemons K) ns ms s))"
    and "api_list (cl_jobs K) ns sel c = Ok js \<Longrightarrow> \<forall>k. sparesK K k ns sel c (snd (removeEach (cl_jobs K) ns js s))"
    and "api_list (cl_services K) ns sel c = Ok ss \<Longrightarrow> \<forall>k. sparesK K k ns sel c (snd (removeEach (cl_services K) ns ss s))"
    and "api_list (cl_hpas K) ns sel c = Ok hs \<Longrightarrow> \<forall>k. sparesK K k ns sel c (snd (removeEach (cl_hpas K) ns hs s))"
proof -
  note all = spared_all[OF assms(1) _ _ assms(2)]
  note ok = cluster_apis[OF assms(1)]
  show "api_list (cl_deploys K) ns sel c = Ok ds \<Longrightarrow> \<forall>k. sparesK K k ns sel c (snd (removeEach (cl_deploys K) ns ds s))"
    using remove_listed_spares[OF ok(3)] spec[OF assms(2), of RDeploy]
    by (intro all[where k = RDeploy]) (simp_all add: removeEach_steps)
  show "api_list (cl_daemons K) ns sel c = Ok ms \<Longrightarrow> \<forall>k. sparesK K k ns sel c (snd (removeEach (cl_daemons K) ns ms s))"
    using remove_listed_spares[OF ok(4)] spec[OF assms(2), of RDaemon]
    by (intro all[where k = RDaemon]) (simp_all add: removeEach_steps)
  show "api_list (cl_jobs K) ns sel c = Ok js \<Longrightarrow> \<forall>k. sparesK K k ns sel c (snd (removeEach (cl_jobs K) ns js s))"
    using remove_listed_spares[OF ok(5)] spec[OF assms(2), of RJob]
    by (intro all[where k = RJob]) (simp_all add: removeEach_steps)
  show "api_list (cl_services K) ns sel c = Ok ss \<Longrightarrow> \<forall>k. sparesK K k ns sel c (snd (removeEach (cl_services K) ns ss s))"
    using remove_listed_spares[OF ok(6)] spec[OF assms(2), of RService]
    by (intro all[where k = RService]) (simp_all add: removeEach_steps)
  show "api_list (cl_hpas K) ns sel c = Ok hs \<Longrightarrow> \<forall>k. sparesK K k ns sel c (snd (removeEach (cl_hpas K) ns hs s))"
    using remove_listed_spares[OF ok(7)] spec[OF assms(2), of RHpa]
    by (intro all[where k = RHpa]) (simp_all add: removeEach_steps)
qed

lemma deleteHPAs_spared:
  assumes "cluster_ok D K"
  shows "\<forall>k. sparesK K k ns sel c (snd (deleteHPAs K ns sel c))"
proof -
  have "\<forall>k. sparesK K k ns sel c c" by (simp add: sparesK_refl)
  from remove_spared(5)[OF assms this] show ?thesis
    unfolding deleteHPAs_def by (cases "api_list (cl_hpas K) ns sel c") (auto simp: sparesK_refl)
qed

lemma sbind_read_inv:
  "I c \<Longrightarrow> (\<And>x. m = Ok x \<Longrightarrow> I (snd (k x c))) \<Longrightarrow> I (snd (sbind (m, c) k))"
  by (cases m) simp_all

lemma deleteApplication_spared:
  assumes "cluster_ok D K"
  shows "\<forall>k. sparesK K k ns [(AppName, n)] c (snd (deleteApplication K ns n c))"
proof -
  let ?I = "\<lambda>s. \<forall>k. sparesK K k ns [(AppName, n)] c s"
  have base: "?I c" by (simp add: sparesK_refl)
  note rem = remove_spared[OF assms]
  show ?thesis
    unfolding deleteApplication_def Let_def
    by (rule sbind_read_inv[where I = ?I], rule base, rule sbind_read_inv[where I = ?I], rule base,
        rule sbind_read_inv[where I = ?I], rule base, rule sbind_read_inv[where I = ?I], rule base,
        rule sbind_inv[where I = ?I], rule deleteHPAs_spared[OF assms],
        rule sbind_inv[where I = ?I], rule rem(1), assumption, assumption,
        rule sbind_inv[where I = ?I], rule rem(2), assumption, assumption,
        rule sbind_inv[where I = ?I], rule rem(4), assumption, assumption,
        rule rem(3), assumption, assumption)
qed

text \<open>
  Deleting an application spares the others: on a cluster that keeps the promises of its API,
  whatever fails on the way, every deployment, daemon set, job, service and autoscaler of another
  namespace or with another application label is left as it was, and so is every config map and secret.
\<close>

theorem delete_spares_others:
  assumes "cluster_ok D K" and "deleteApplication K ns n c = (r, t)"
  shows "spares (cl_deploys K) ns [(AppName, n)] c t \<and> spares (cl_daemons K) ns [(AppName, n)] c t \<and>
    spares (cl_jobs K) ns [(AppName, n)] c t \<and> spares (cl_services K) ns [(AppName, n)] c t \<and>
    spares (cl_hpas K) ns [(AppName, n)] c t \<and> agree (cl_configs K) c t \<and> agree (cl_secrets K) c t"
proof -
  have "sparesK K k ns [(AppName, n)] c t" for k
    using deleteApplication_spared[OF assms(1), of ns n c] assms(2) by simp
  from this[of RDeploy] this[of RDaemon] this[of RJob] this[of RService] this[of RHpa]
    this[of RConfig] this[of RSecret] show ?thesis by simp
qed

text \<open>A successful deletion, call by call.\<close>

lemma deleteHPAs_steps: "(steps (cl_hpas K))\<^sup>*\<^sup>* c (snd (deleteHPAs K ns sel c))"
  unfolding deleteHPAs_def
  by (auto intro!: sbind_read_inv[where I = "(steps (cl_hpas K))\<^sup>*\<^sup>* c"] removeEach_steps)

lemma deleteHPAs_absent:
  assumes "api_ok d (cl_hpas K)" and "deleteHPAs K ns sel c = (Ok u, t)" and "hpaAvailable K c"
  shows "absent (cl_hpas K) ns sel t"
proof -
  from assms(2,3) obtain hs where "api_list (cl_hpas K) ns sel c = Ok hs" "removeEach (cl_hpas K) ns hs c = (Ok u, t)"
    by (auto simp: deleteHPAs_def sbind_Ok_iff)
  from remove_listed_absent[OF assms(1) this(1) agree_refl this(2)] show ?thesis .
qed

lemma delete_absent:
  assumes "cluster_ok D K" and "deleteApplication K ns n c = (Ok u, t)"
  shows "absent (cl_deploys K) ns [(AppName, n)] t \<and> absent (cl_daemons K) ns [(AppName, n)] t \<and>
    absent (cl_jobs K) ns [(AppName, n)] t \<and> absent (cl_services K) ns [(AppName, n)] t \<and>
    (hpaAvailable K c \<longrightarrow> absent (cl_hpas K) ns [(AppName, n)] t)"
proof -
  let ?sel = "[(AppName, n)]"
  from assms(2) obtain ds ms ss js u1 u2 u3 u4 c1 c2 c3 c4 where
      l: "api_list (cl_deploys K) ns ?sel c = Ok ds" "api_list (cl_daemons K) ns ?sel c = Ok ms"
        "api_list (cl_services K) ns ?sel c = Ok ss" "api_list (cl_jobs K) ns ?sel c = Ok js"
    and h: "deleteHPAs K ns ?sel c = (Ok u1, c1)"
    and r: "removeEach (cl_deploys K) ns ds c1 = (Ok u2, c2)" "removeEach (cl_daemons K) ns ms c2 = (Ok u3, c3)"
        "removeEach (cl_services K) ns ss c3 = (Ok u4, c4)" "removeEach (cl_jobs K) ns js c4 = (Ok u, t)"
    unfolding deleteApplication_def Let_def sbind_Ok_iff Pair_inject by (elim exE conjE) simp
  have st: "(acts K RHpa)\<^sup>*\<^sup>* c c1" "(acts K RDeploy)\<^sup>*\<^sup>* c1 c2" "(acts K RDaemon)\<^sup>*\<^sup>* c2 c3"
      "(acts K RService)\<^sup>*\<^sup>* c3 c4" "(acts K RJob)\<^sup>*\<^sup>* c4 t"
    using deleteHPAs_steps[of K c ns ?sel] removeEach_steps[of "cl_deploys K" c1 ns ds]
      removeEach_steps[of "cl_daemons K" c2 ns ms] removeEach_steps[of "cl_services K" c3 ns ss]
      removeEach_steps[of "cl_jobs K" c4 ns js] h r by simp_all
  note fr = acts_frame[OF assms(1)]
  note ok = cluster_apis[OF assms(1)]
  have dp: "agree (cl_deploys K) c c1" "agree (cl_deploys K) c2 t"
    using fr[OF _ st(1), of RDeploy] fr[OF _ st(3), of RDeploy] fr[OF _ st(4), of RDeploy] fr[OF _ st(5), of RDeploy]
    by (auto intro: agree_trans)
  have dm: "agree (cl_daemons K) c c2" "agree (cl_daemons K) c3 t"
    using fr[OF _ st(1), of RDaemon] fr[OF _ st(2), of RDaemon] fr[OF _ st(4), of RDaemon] fr[OF _ st(5), of RDaemon]
    by (auto intro: agree_trans)
  have sv: "agree (cl_services K) c c3" "agree (cl_services K) c4 t"
    using fr[OF _ st(1), of RService] fr[OF _ st(2), of RService] fr[OF _ st(3), of RService] fr[OF _ st(5), of RService]
    by (auto intro: agree_trans)
  have jb: "agree (cl_jobs K) c c4"
    using fr[OF _ st(1), of RJob] fr[OF _ st(2), of RJob] fr[OF _ st(3), of RJob] fr[OF _ st(4), of RJob]
    by (auto intro: agree_trans)
  have hp: "agree (cl_hpas K) c1 t"
    using fr[OF _ st(2), of RHpa] fr[OF _ st(3), of RHpa] fr[OF _ st(4), of RHpa] fr[OF _ st(5), of RHpa]
    by (auto intro: agree_trans)
  from remove_listed_absent[OF ok(3) l(1) dp(1) r(1)] remove_listed_absent[OF ok(4) l(2) dm(1) r(2)]
    remove_listed_absent[OF ok(6) l(3) sv(1) r(3)] remove_listed_absent[OF ok(5) l(4) jb r(4)]
    deleteHPAs_absent[OF ok(7) h] dp(2) dm(2) sv(2) hp
  show ?thesis by (auto intro: absent_agree)
qed

section \<open>What applying an application touches and stores\<close>

fun sameAt :: "'c cluster \<Rightarrow> rkind \<Rightarrow> string \<Rightarrow> string \<Rightarrow> 'c \<Rightarrow> 'c \<Rightarrow> bool" where
  "sameAt K RConfig ns n c t = (api_get (cl_configs K) ns n t = api_get (cl_configs K) ns n c)"
| "sameAt K RSecret ns n c t = (api_get (cl_secrets K) ns n t = api_get (cl_secrets K) ns n c)"
| "sameAt K RDeploy ns n c t = (api_get (cl_deploys K) ns n t = api_get (cl_deploys K) ns n c)"
| "sameAt K RDaemon ns n c t = (api_get (cl_daemons K) ns n t = api_get (cl_daemons K) ns n c)"
| "sameAt K RJob ns n c t = (api_get (cl_jobs K) ns n t = api_get (cl_jobs K) ns n c)"
| "sameAt K RService ns n c t = (api_get (cl_services K) ns n t = api_get (cl_services K) ns n c)"
| "sameAt K RHpa ns n c t = (api_get (cl_hpas K) ns n t = api_get (cl_hpas K) ns n c)"

lemma sameAt_refl: "sameAt K k ns n c c"
  by (cases k) simp_all

lemma sameAt_sees: "sameAt K k ns n c s \<Longrightarrow> sees K k s t \<Longrightarrow> sameAt K k ns n c t"
  by (cases k) (simp_all add: agree_def)

lemma sameAt_acts:
  "cluster_ok D K \<Longrightarrow> (acts K k')\<^sup>*\<^sup>* s t \<Longrightarrow> k' \<noteq> k \<Longrightarrow> sameAt K k ns n c s \<Longrightarrow> sameAt K k ns n c t"
  using acts_frame sameAt_sees by metis

lemma apply_acts:
  "(acts K RDeploy)\<^sup>*\<^sup>* c (snd (applyDeploys K ns ds c))"
  "(acts K RDaemon)\<^sup>*\<^sup>* c (snd (applyDaemons K ns ms c))"
  "(acts K RService)\<^sup>*\<^sup>* c (snd (applyServices K ns ss c))"
  "(acts K RJob)\<^sup>*\<^sup>* c (snd (applyJobs K ns js c))"
  "(acts K RHpa)\<^sup>*\<^sup>* c (snd (applyHPA (cl_hpas K) ns h c))"
  unfolding applyDeploys_def applyDaemons_def applyServices_def applyJobs_def
  by (simp_all add: plain.all_steps service.all_steps recreate.all_steps hpa.place_steps)

lemma prepareWorkload_kinds:
  assumes "prepareWorkload KP ns app pull = Ok w"
  shows "(\<forall>kv \<in> set (wl_deploys w). app_workload app = WorkloadDeployment \<and> ob_name (snd kv) = app_name app) \<and>
    (\<forall>kv \<in> set (wl_daemons w). app_workload app = WorkloadDaemonSet \<and> ob_name (snd kv) = app_name app) \<and>
    (\<forall>kv \<in> set (wl_jobs w). app_workload app = WorkloadJob \<and> ob_name (snd kv) = app_name app)"
proof (cases "app_workload app")
  case WorkloadDeployment
  with assms prepareDeploy_Ok show ?thesis by (fastforce simp: prepareWorkload_def rmap_Ok_iff)
next
  case WorkloadDaemonSet
  with assms prepareDaemon_Ok show ?thesis by (fastforce simp: prepareWorkload_def rmap_Ok_iff)
next
  case WorkloadJob
  have "ob_name d = app_name app" if "prepareJob (kp_lib KP) (kp_hook KP) ns app pull = Ok d" for d
    using that by (cases "app_jobConfig app") (auto simp: prepareJob_def rbind_Ok_iff Let_def objectMeta_def)
  with assms WorkloadJob show ?thesis by (fastforce simp: prepareWorkload_def rmap_Ok_iff)
qed (use assms in \<open>auto simp: prepareWorkload_def\<close>)

lemma application_sameAt:
  assumes "cluster_ok D (kp_cluster KP)"
    and "\<And>w s. prepareWorkload KP ns (readied pull app) pull = Ok w \<Longrightarrow> sameAt (kp_cluster KP) k ns' n c s \<Longrightarrow>
        (k = RDeploy \<longrightarrow> sameAt (kp_cluster KP) k ns' n c (snd (applyDeploys (kp_cluster KP) ns (wl_deploys w) s))) \<and>
        (k = RDaemon \<longrightarrow> sameAt (kp_cluster KP) k ns' n c (snd (applyDaemons (kp_cluster KP) ns (wl_daemons w) s))) \<and>
        (k = RJob \<longrightarrow> sameAt (kp_cluster KP) k ns' n c (snd (applyJobs (kp_cluster KP) ns (wl_jobs w) s)))"
    and "k \<noteq> RService" and "k \<noteq> RHpa"
  shows "sameAt (kp_cluster KP) k ns' n c (snd (applyApplication KP ns app pull c))"
proof (cases "prepareWorkload KP ns (readied pull app) pull")
  case (Ok w)
  let ?I = "sameAt (kp_cluster KP) k ns' n c"
  note fr = sameAt_acts[OF assms(1) apply_acts(1)] sameAt_acts[OF assms(1) apply_acts(2)]
    sameAt_acts[OF assms(1) apply_acts(3)] sameAt_acts[OF assms(1) apply_acts(4)] sameAt_acts[OF assms(1) apply_acts(5)]
  have st: "?I s \<Longrightarrow> ?I (snd (applyDeploys (kp_cluster KP) ns (wl_deploys w) s))"
    "?I s \<Longrightarrow> ?I (snd (applyDaemons (kp_cluster KP) ns (wl_daemons w) s))"
    "?I s \<Longrightarrow> ?I (snd (applyJobs (kp_cluster KP) ns (wl_jobs w) s))"
    "?I s \<Longrightarrow> ?I (snd (applyServices (kp_cluster KP) ns ss s))"
    "?I s \<Longrightarrow> ?I (snd (applyHPA (cl_hpas (kp_cluster KP)) ns h s))" for s ss h
    using assms(2)[OF Ok, of s] fr(1)[of k] fr(2)[of k] fr(3)[of k] fr(4)[of k] fr(5)[of k] assms(3,4) by metis+
  show ?thesis
    unfolding applyApplication_def Let_def Ok sbind.simps(1)
    by (rule sbind_inv[where I = ?I], rule st(1), rule sameAt_refl,
        rule sbind_inv[where I = ?I], rule st(2), assumption,
        rule sbind_inv[where I = ?I], rule st(4), assumption,
        rule sbind_inv[where I = ?I], rule st(3), assumption,
        simp split: option.split, auto intro: st(5))
qed (simp_all add: applyApplication_def Let_def sameAt_refl)

text \<open>Workloads of another kind, and of another name, are left alone.\<close>

lemma application_touches:
  assumes "cluster_ok D (kp_cluster KP)"
  shows "(ns', n) \<noteq> (ns, app_name app) \<or> app_workload (readied pull app) \<noteq> WorkloadDeployment \<Longrightarrow>
      api_get (cl_deploys (kp_cluster KP)) ns' n (snd (applyApplication KP ns app pull c)) = api_get (cl_deploys (kp_cluster KP)) ns' n c"
    and "(ns', n) \<noteq> (ns, app_name app) \<or> app_workload (readied pull app) \<noteq> WorkloadDaemonSet \<Longrightarrow>
      api_get (cl_daemons (kp_cluster KP)) ns' n (snd (applyApplication KP ns app pull c)) = api_get (cl_daemons (kp_cluster KP)) ns' n c"
    and "(ns', n) \<noteq> (ns, app_name app) \<or> app_workload (readied pull app) \<noteq> WorkloadJob \<Longrightarrow>
      api_get (cl_jobs (kp_cluster KP)) ns' n (snd (applyApplication KP ns app pull c)) = api_get (cl_jobs (kp_cluster KP)) ns' n c"
proof -
  have nm: "app_name (readied pull app) = app_name app" by (simp add: readied_def compat_fields labelled_def)
  note same = application_sameAt[OF assms, where pull = pull and ns = ns and app = app and ns' = ns' and n = n and c = c]
  note ok = cluster_apis[OF assms]
  show "(ns', n) \<noteq> (ns, app_name app) \<or> app_workload (readied pull app) \<noteq> WorkloadDeployment \<Longrightarrow>
      api_get (cl_deploys (kp_cluster KP)) ns' n (snd (applyApplication KP ns app pull c)) = api_get (cl_deploys (kp_cluster KP)) ns' n c"
    using same[of RDeploy] plain.all_other[OF ok(3)] by (simp add: applyDeploys_def) (metis nm prepareWorkload_kinds)
  show "(ns', n) \<noteq> (ns, app_name app) \<or> app_workload (readied pull app) \<noteq> WorkloadDaemonSet \<Longrightarrow>
      api_get (cl_daemons (kp_cluster KP)) ns' n (snd (applyApplication KP ns app pull c)) = api_get (cl_daemons (kp_cluster KP)) ns' n c"
    using same[of RDaemon] plain.all_other[OF ok(4)] by (simp add: applyDaemons_def) (metis nm prepareWorkload_kinds)
  show "(ns', n) \<noteq> (ns, app_name app) \<or> app_workload (readied pull app) \<noteq> WorkloadJob \<Longrightarrow>
      api_get (cl_jobs (kp_cluster KP)) ns' n (snd (applyApplication KP ns app pull c)) = api_get (cl_jobs (kp_cluster KP)) ns' n c"
    using same[of RJob] recreate.all_other[OF ok(5)] by (simp add: applyJobs_def) (metis nm prepareWorkload_kinds)
qed

lemma applyApplication_Ok:
  assumes "applyApplication KP ns app pull c = (Ok u, t)"
  obtains w c1 c2 c3 c4 v1 v2 v3 v4 where
    "prepareWorkload KP ns (readied pull app) pull = Ok w"
    "applyDeploys (kp_cluster KP) ns (wl_deploys w) c = (Ok v1, c1)"
    "applyDaemons (kp_cluster KP) ns (wl_daemons w) c1 = (Ok v2, c2)"
    "applyServices (kp_cluster KP) ns (kp_range KP (servicesOf ns (readied pull app))) c2 = (Ok v3, c3)"
    "applyJobs (kp_cluster KP) ns (wl_jobs w) c3 = (Ok v4, c4)"
    "(acts (kp_cluster KP) RHpa)\<^sup>*\<^sup>* c4 t"
proof -
  from assms obtain w c1 c2 c3 c4 v1 v2 v3 v4 where
    r: "prepareWorkload KP ns (readied pull app) pull = Ok w"
    "applyDeploys (kp_cluster KP) ns (wl_deploys w) c = (Ok v1, c1)"
    "applyDaemons (kp_cluster KP) ns (wl_daemons w) c1 = (Ok v2, c2)"
    "applyServices (kp_cluster KP) ns (kp_range KP (servicesOf ns (readied pull app))) c2 = (Ok v3, c3)"
    "applyJobs (kp_cluster KP) ns (wl_jobs w) c3 = (Ok v4, c4)"
    and h: "(case prepareHPA (kp_cluster KP) (kp_lib KP) ns (readied pull app) c4 of
           Some h \<Rightarrow> applyHPA (cl_hpas (kp_cluster KP)) ns h c4 | None \<Rightarrow> (Ok (), c4)) = (Ok u, t)"
    unfolding applyApplication_def Let_def sbind_Ok_iff Pair_inject by (elim exE conjE) simp
  have "(acts (kp_cluster KP) RHpa)\<^sup>*\<^sup>* c4 t"
    using h apply_acts(5)[of "kp_cluster KP" c4 ns] by (auto split: option.splits) (metis snd_conv)
  with r show thesis by (rule that)
qed

lemma addService_mem:
  "kv \<in> set (servicesOf ns app) \<longleftrightarrow> (\<exists>s. kv = (ob_name s, s) \<and>
     (prepareService ns app = Some s \<or> prepareNodePortService ns app = Some s))"
proof -
  have ne: "prepareService ns app = Some a \<Longrightarrow> prepareNodePortService ns app = Some b \<Longrightarrow> ob_name a \<noteq> ob_name b" for a b
    by (auto simp: prepareService_def prepareNodePortService_def Let_def objectMeta_def split: if_splits)
  show ?thesis
    by (cases "prepareService ns app"; cases "prepareNodePortService ns app")
      (auto simp: servicesOf_def addService_def dest: ne)
qed

text \<open>An object of the cluster with the name and labels of another, and a given body.\<close>

definition inPlace :: "('c, 'b) api \<Rightarrow> string \<Rightarrow> 'b kobj \<Rightarrow> 'b \<Rightarrow> 'c \<Rightarrow> bool" where
  "inPlace A ns ob body c \<longleftrightarrow>
     (\<exists>got. api_get A ns (ob_name ob) c = Ok got \<and> ob_labels got = ob_labels ob \<and> ob_body got = body)"

lemma prepareWorkload_distinct:
  assumes "prepareWorkload KP ns app pull = Ok w"
  shows "distinct (map (\<lambda>kv. ob_name (snd kv)) (wl_deploys w)) \<and> distinct (map (\<lambda>kv. ob_name (snd kv)) (wl_daemons w)) \<and>
    distinct (map (\<lambda>kv. ob_name (snd kv)) (wl_jobs w))"
  using assms by (cases "app_workload app") (auto simp: prepareWorkload_def rmap_Ok_iff)

lemma servicesOf_distinct:
  assumes "range_ok rng"
  shows "distinct (map (\<lambda>kv. ob_name (snd kv)) (rng (servicesOf ns app)))"
proof -
  have "gomap (servicesOf ns app)" by (simp add: servicesOf_def addService_def gomap_def split: option.split)
  from range_ok_gomap[OF assms this] have "distinct (map fst (rng (servicesOf ns app)))" by (simp add: gomap_def)
  moreover have "map (\<lambda>kv. ob_name (snd kv)) (rng (servicesOf ns app)) = map fst (rng (servicesOf ns app))"
    using addService_mem[of _ ns app] range_ok_set[OF assms, of "servicesOf ns app"] by auto
  ultimately show ?thesis by (simp only:)
qed

text \<open>
  C28. A successful apply leaves the objects of the application in the cluster: the workload prepared
  for it is stored under its name with its labels and body, and each of its services is stored with
  its ports and selector, keeping a cluster address of the server.
\<close>

theorem apply_stores:
  assumes "cluster_ok D (kp_cluster KP)" and "range_ok (kp_range KP)"
    and "applyApplication KP ns app pull c = (Ok u, t)"
    and "K = kp_cluster KP" and "app' = readied pull app"
  shows "\<exists>w. prepareWorkload KP ns app' pull = Ok w \<and>
    (\<forall>kv \<in> set (wl_deploys w). inPlace (cl_deploys K) ns (snd kv) (df_deploys D (ob_body (snd kv))) t) \<and>
    (\<forall>kv \<in> set (wl_daemons w). inPlace (cl_daemons K) ns (snd kv) (df_daemons D (ob_body (snd kv))) t) \<and>
    (\<forall>kv \<in> set (wl_jobs w). inPlace (cl_jobs K) ns (snd kv) (df_jobs D (ob_body (snd kv))) t) \<and>
    (\<forall>s. prepareService ns app' = Some s \<or> prepareNodePortService ns app' = Some s \<longrightarrow>
       (\<exists>ip. inPlace (cl_services K) ns s (df_services D ((ob_body s)\<lparr>ks_clusterIP := ip\<rparr>)) t))"
proof -
  from applyApplication_Ok[OF assms(3)] obtain w c1 c2 c3 c4 v1 v2 v3 v4 where
    w: "prepareWorkload KP ns app' pull = Ok w"
    and r: "applyDeploys K ns (wl_deploys w) c = (Ok v1, c1)" "applyDaemons K ns (wl_daemons w) c1 = (Ok v2, c2)"
      "applyServices K ns (kp_range KP (servicesOf ns app')) c2 = (Ok v3, c3)"
      "applyJobs K ns (wl_jobs w) c3 = (Ok v4, c4)"
    and h: "(acts K RHpa)\<^sup>*\<^sup>* c4 t"
    unfolding assms(4,5) by metis
  have ck: "cluster_ok D K" using assms(1,4) by simp
  note ok = cluster_apis[OF ck]
  have st: "(acts K RDaemon)\<^sup>*\<^sup>* c1 c2" "(acts K RService)\<^sup>*\<^sup>* c2 c3" "(acts K RJob)\<^sup>*\<^sup>* c3 c4"
    using apply_acts(2)[of K c1 ns "wl_daemons w"] apply_acts(3)[of K c2 ns "kp_range KP (servicesOf ns app')"]
      apply_acts(4)[of K c3 ns "wl_jobs w"] r by simp_all
  note fr = acts_frame[OF ck]
  have dp: "agree (cl_deploys K) c1 t"
    using fr[OF _ st(1), of RDeploy] fr[OF _ st(2), of RDeploy] fr[OF _ st(3), of RDeploy] fr[OF _ h, of RDeploy]
    by (auto intro: agree_trans)
  have dm: "agree (cl_daemons K) c2 t"
    using fr[OF _ st(2), of RDaemon] fr[OF _ st(3), of RDaemon] fr[OF _ h, of RDaemon] by (auto intro: agree_trans)
  have sv: "agree (cl_services K) c3 t"
    using fr[OF _ st(3), of RService] fr[OF _ h, of RService] by (auto intro: agree_trans)
  have jb: "agree (cl_jobs K) c4 t" using fr[OF _ h, of RJob] by simp
  note dist = prepareWorkload_distinct[OF w]
  have "inPlace (cl_deploys K) ns (snd kv) (df_deploys D (ob_body (snd kv))) t" if "kv \<in> set (wl_deploys w)" for kv
    using plain.all_stores[OF ok(3) _ r(1)[unfolded applyDeploys_def] that] dist dp by (simp add: inPlace_def agree_def)
  moreover have "inPlace (cl_daemons K) ns (snd kv) (df_daemons D (ob_body (snd kv))) t" if "kv \<in> set (wl_daemons w)" for kv
    using plain.all_stores[OF ok(4) _ r(2)[unfolded applyDaemons_def] that] dist dm by (simp add: inPlace_def agree_def)
  moreover have "inPlace (cl_jobs K) ns (snd kv) (df_jobs D (ob_body (snd kv))) t" if "kv \<in> set (wl_jobs w)" for kv
    using recreate.all_stores[OF ok(5) _ r(4)[unfolded applyJobs_def] that] dist jb by (simp add: inPlace_def agree_def)
  moreover have "\<exists>ip. inPlace (cl_services K) ns s (df_services D ((ob_body s)\<lparr>ks_clusterIP := ip\<rparr>)) t"
    if "prepareService ns app' = Some s \<or> prepareNodePortService ns app' = Some s" for s
  proof -
    have "(ob_name s, s) \<in> set (kp_range KP (servicesOf ns app'))"
      using that range_ok_set[OF assms(2)] addService_mem by fastforce
    from service.all_stores[OF ok(6) servicesOf_distinct[OF assms(2)] r(3)[unfolded applyServices_def] this]
    show ?thesis using sv by (auto simp: inPlace_def agree_def)
  qed
  ultimately show ?thesis using w by blast
qed

section \<open>A cluster for the witnesses\<close>

text \<open>Shelves for every kind of object, with the operations of \<open>mem_api\<close>; no theorem is about it.\<close>

record kube_state =
  mk_namespaces :: "string list"
  mk_configs :: "configmap shelf"
  mk_secrets :: "ksecret shelf"
  mk_deploys :: "deployment shelf"
  mk_daemons :: "daemonset shelf"
  mk_jobs :: "job shelf"
  mk_services :: "kservice shelf"
  mk_hpas :: "hpa shelf"
  mk_pods :: "pod shelf"

definition mem_cluster :: "kube_state cluster" where
  "mem_cluster = \<lparr>
     cl_nsGet = (\<lambda>ns c. if ns \<in> set (mk_namespaces c) then Ok () else Err ''namespaces not found''),
     cl_nsCreate = (\<lambda>ns c. (Ok (), c\<lparr>mk_namespaces := ns # mk_namespaces c\<rparr>)),
     cl_configs = mem_api mk_configs (\<lambda>m c. c\<lparr>mk_configs := m\<rparr>),
     cl_secrets = mem_api mk_secrets (\<lambda>m c. c\<lparr>mk_secrets := m\<rparr>),
     cl_deploys = mem_api mk_deploys (\<lambda>m c. c\<lparr>mk_deploys := m\<rparr>),
     cl_daemons = mem_api mk_daemons (\<lambda>m c. c\<lparr>mk_daemons := m\<rparr>),
     cl_jobs = mem_api mk_jobs (\<lambda>m c. c\<lparr>mk_jobs := m\<rparr>),
     cl_services = mem_api mk_services (\<lambda>m c. c\<lparr>mk_services := m\<rparr>),
     cl_hpas = mem_api mk_hpas (\<lambda>m c. c\<lparr>mk_hpas := m\<rparr>),
     cl_stateful = mem_api (\<lambda>_. []) (\<lambda>_ c. c),
     cl_pods = mem_api mk_pods (\<lambda>m c. c\<lparr>mk_pods := m\<rparr>),
     cl_nodes = mem_api (\<lambda>_. []) (\<lambda>_ c. c),
     cl_nodeMetrics = (\<lambda>_. Ok []), cl_podMetrics = (\<lambda>_ _ _. Err ''metrics not available''),
     cl_version = (\<lambda>_. Ok (''1'', ''28''))\<rparr>"

definition same_bodies :: body_defaults where
  "same_bodies = \<lparr>df_configs = \<lambda>b. b, df_secrets = \<lambda>b. b, df_deploys = \<lambda>b. b, df_daemons = \<lambda>b. b,
     df_jobs = \<lambda>b. b, df_services = \<lambda>b. b, df_hpas = \<lambda>b. b\<rparr>"

lemma steps_agree: "api_frame A B \<Longrightarrow> steps A c c' \<Longrightarrow> agree B c c'"
  unfolding steps_def agree_def using api_frameD[of A B] by metis

lemma mem_cluster_frame: "k \<noteq> k' \<Longrightarrow> acts mem_cluster k c c' \<Longrightarrow> sees mem_cluster k' c c'"
  by (cases k; cases k') (auto simp: mem_cluster_def elim!: steps_agree[rotated] intro!: mem_api_frame)

lemma mem_cluster_ok: "cluster_ok same_bodies mem_cluster"
proof -
  have "api_ok (\<lambda>b. b) (cl_configs mem_cluster)" "api_ok (\<lambda>b. b) (cl_secrets mem_cluster)"
    "api_ok (\<lambda>b. b) (cl_deploys mem_cluster)" "api_ok (\<lambda>b. b) (cl_daemons mem_cluster)"
    "api_ok (\<lambda>b. b) (cl_jobs mem_cluster)" "api_ok (\<lambda>b. b) (cl_services mem_cluster)"
    "api_ok (\<lambda>b. b) (cl_hpas mem_cluster)"
    by (simp_all add: mem_cluster_def mem_api_ok)
  then show ?thesis
    unfolding cluster_ok_def same_bodies_def using mem_cluster_frame by simp
qed

definition empty_cluster :: kube_state where
  "empty_cluster = \<lparr>mk_namespaces = [], mk_configs = [], mk_secrets = [], mk_deploys = [], mk_daemons = [],
     mk_jobs = [], mk_services = [], mk_hpas = [], mk_pods = []\<rparr>"

definition mem_kube :: "kube_state kube" where
  "mem_kube = \<lparr>kp_cluster = mem_cluster, kp_lib = plain_lib, kp_env = sample_env, kp_hook = PodHook SetPodSpec,
     kp_copyConfig = (\<lambda>c. Ok (objectMeta (cfg_name c) [] (cfg_labels c) (cfg_data c))),
     kp_copySecret = (\<lambda>s. Ok (objectMeta (sec_name s) [] (sec_labels s) \<lparr>kc_type = [], kc_data = sec_data s\<rparr>)),
     kp_marshal = (\<lambda>_. Ok ''json''), kp_secretLabel = ''secret-type'', kp_secretRegistry = ''registry'',
     kp_range = (\<lambda>m. m)\<rparr>"

definition old_daemon :: "daemonset kobj" where
  "old_daemon = objectMeta ''shop'' ''ns'' [(AppName, ''shop'')]
     \<lparr>dm_desired = 1, dm_selector = [(AppName, ''shop'')], dm_podLabels = [(AppName, ''shop'')], dm_pod = web_pod\<rparr>"

definition other_deploy :: "deployment kobj" where
  "other_deploy = objectMeta ''other'' ''ns'' [(AppName, ''other'')]
     \<lparr>dp_replicas = Some 1, dp_strategy = ''Recreate'', dp_selector = [(AppName, ''other'')],
      dp_podLabels = [(AppName, ''other'')], dp_pod = web_pod\<rparr>"

definition busy_cluster :: kube_state where
  "busy_cluster = empty_cluster\<lparr>mk_namespaces := [''ns''], mk_daemons := [((''ns'', ''shop''), old_daemon)],
     mk_deploys := [((''ns'', ''other''), other_deploy)]\<rparr>"

lemma busy_other: "api_get (cl_deploys mem_cluster) ''ns'' ''other'' busy_cluster = Ok other_deploy"
  by (simp add: mem_cluster_def mem_api_def busy_cluster_def other_deploy_def objectMeta_def)

theorem delete_spares_others_witness:
  "api_get (cl_deploys mem_cluster) ''ns'' ''other'' (snd (deleteApplication mem_cluster ''ns'' ''shop'' busy_cluster))
     = Ok other_deploy"
proof -
  obtain r t where d: "deleteApplication mem_cluster ''ns'' ''shop'' busy_cluster = (r, t)" by (rule prod.exhaust)
  have "\<not> selects [(AppName, ''shop'')] (ob_labels other_deploy)"
    by (simp add: selects_def other_deploy_def objectMeta_def)
  with delete_spares_others[OF mem_cluster_ok d] busy_other show ?thesis unfolding spares_def d by simp
qed

theorem apply_stores_witness:
  "\<exists>d. ob_name d = ''shop'' \<and>
     inPlace (cl_deploys mem_cluster) ''ns'' d (ob_body d) (snd (applyApplication mem_kube ''ns'' web_app [] busy_cluster))"
proof -
  have "fst (applyApplication mem_kube ''ns'' web_app [] busy_cluster) = Ok ()" by code_simp
  then obtain t where t: "applyApplication mem_kube ''ns'' web_app [] busy_cluster = (Ok (), t)" by (metis prod.collapse)
  have k: "cluster_ok same_bodies (kp_cluster mem_kube)" "range_ok (kp_range mem_kube)" "mem_cluster = kp_cluster mem_kube"
    using mem_cluster_ok by (simp_all add: mem_kube_def range_ok_def)
  from apply_stores[OF k(1,2) t k(3) refl] obtain w where w: "prepareWorkload mem_kube ''ns'' (readied [] web_app) [] = Ok w"
    and d: "\<forall>kv \<in> set (wl_deploys w). inPlace (cl_deploys mem_cluster) ''ns'' (snd kv) (df_deploys same_bodies (ob_body (snd kv))) t"
    by blast
  have "rmap (\<lambda>w. map (\<lambda>kv. ob_name (snd kv)) (wl_deploys w)) (prepareWorkload mem_kube ''ns'' (readied [] web_app) []) = Ok [''shop'']"
    by code_simp
  with w obtain kv where "wl_deploys w = [kv]" "ob_name (snd kv) = ''shop''" by auto
  with d t show ?thesis by (auto simp: same_bodies_def)
qed

end
