(* ===== verification/Kube_Collect.thy ===== *)
theory Kube_Collect
  imports Kube_Apply
begin

text \<open>
  Observing the cluster (\<^verbatim>\<open>ami/kube/kube_collect.go\<close>): nodes, and the status of the applications from
  the pods of their workloads. Arithmetic on quantities, the merge of extension maps and the texts of
  the workload constants are library code, the argument \<open>collect_lib\<close>; creation times and the
  request rates of pods are left out.
\<close>

record collect_lib =
  cb_add :: "quantity \<Rightarrow> quantity \<Rightarrow> quantity"                                  \<comment> \<open>Quantity.Add\<close>
  cb_workload :: "workload \<Rightarrow> string"                                          \<comment> \<open>specv1.Workload constants\<close>
  cb_merge :: "(string \<times> json) list \<Rightarrow> (string \<times> json) list \<Rightarrow> (string \<times> json) list result"   \<comment> \<open>mergo.Merge\<close>

section \<open>Nodes\<close>

record node_info =
  ni_arch :: string
  ni_variant :: string
  ni_kernel :: string
  ni_os :: string
  ni_runtime :: string
  ni_machineID :: string
  ni_osImage :: string
  ni_bootID :: string
  ni_systemUUID :: string
  ni_hostname :: string
  ni_address :: string
  ni_role :: string
  ni_labels :: "(string, string) gomap"

text \<open>The last address of a type wins.\<close>

definition addressOf :: "string \<Rightarrow> (string \<times> string) list \<Rightarrow> string" where
  "addressOf typ addrs = fold (\<lambda>a old. if fst a = typ then snd a else old) addrs []"

definition nodeInfoOf :: "kube_node kobj \<Rightarrow> node_info" where
  "nodeInfoOf n =
     (let b = ob_body n
      in \<lparr>ni_arch = kn_arch b, ni_variant = [], ni_kernel = kn_kernel b, ni_os = kn_os b, ni_runtime = kn_runtime b,
          ni_machineID = kn_machineID b, ni_osImage = kn_osImage b, ni_bootID = kn_bootID b,
          ni_systemUUID = kn_systemUUID b, ni_hostname = addressOf ''Hostname'' (kn_addresses b),
          ni_address = addressOf ''InternalIP'' (kn_addresses b),
          ni_role = (if MasterRole \<in> keys (ob_labels n) then ''master'' else ''worker''),
          ni_labels = ob_labels n\<rparr>)"

definition kube_CollectNodeInfo :: "'c cluster \<Rightarrow> 'c \<Rightarrow> (string, node_info) gomap result" where
  "kube_CollectNodeInfo K c =
     rmap (\<lambda>nodes. fold (\<lambda>n. mput (ob_name n) (nodeInfoOf n)) nodes []) (api_list (cl_nodes K) [] [] c)"

record node_stats =
  nt_usage :: "(string, quantity) gomap"
  nt_capacity :: "(string, quantity) gomap"
  nt_diskPressure :: bool
  nt_memoryPressure :: bool
  nt_ready :: bool
  nt_pidPressure :: bool
  nt_networkUnavailable :: bool
  nt_extension :: "(string \<times> json) list"

text \<open>
  An extension hook: absent or of another type, failed, or a value per node. A value that is there
  and not nil must be a map: the type assertion panics otherwise.
\<close>

type_synonym stats_hook = "(string, json) gomap result option"

definition hookStats :: "stats_hook \<Rightarrow> (string, json) gomap" where
  "hookStats h = (case h of Some (Ok m) \<Rightarrow> m | _ \<Rightarrow> [])"

fun asMap :: "json \<Rightarrow> (string \<times> json) list result" where
  "asMap (JObj kvs) = Ok kvs"
| "asMap _ = Panic ''interface conversion''"

definition extOf :: "(string, json) gomap \<Rightarrow> string \<Rightarrow> json option" where
  "extOf exts n = (case mget exts n of Some JNull \<Rightarrow> None | r \<Rightarrow> r)"

definition mergedExt :: "collect_lib \<Rightarrow> (string, json) gomap \<Rightarrow> (string, json) gomap \<Rightarrow> string \<Rightarrow> (string \<times> json) list result" where
  "mergedExt B gpu node n =
     rbind (case extOf gpu n of Some e \<Rightarrow> asMap e | None \<Rightarrow> Ok []) (\<lambda>base.
     case extOf node n of
       None \<Rightarrow> Ok base
     | Some e \<Rightarrow> rbind (asMap e) (\<lambda>more.
         case cb_merge B base more of Ok m \<Rightarrow> Ok m | Err _ \<Rightarrow> Ok base | Panic p \<Rightarrow> Panic p))"

definition condition :: "string \<Rightarrow> kube_node kobj \<Rightarrow> bool" where
  "condition typ n \<longleftrightarrow> (typ, True) \<in> set (kn_conditions (ob_body n))"

definition nodeStatsOf :: "(string, quantity) gomap \<Rightarrow> kube_node kobj \<Rightarrow> (string \<times> json) list \<Rightarrow> node_stats" where
  "nodeStatsOf usage n ext =
     \<lparr>nt_usage = mputs usage [],
      nt_capacity = mputs (filter (\<lambda>rq. fst rq \<in> keys usage) (kn_capacity (ob_body n))) [],
      nt_diskPressure = condition ''DiskPressure'' n, nt_memoryPressure = condition ''MemoryPressure'' n,
      nt_ready = condition ''Ready'' n, nt_pidPressure = condition ''PIDPressure'' n,
      nt_networkUnavailable = condition ''NetworkUnavailable'' n, nt_extension = ext\<rparr>"

definition kube_CollectNodeStats :: "'c cluster \<Rightarrow> collect_lib \<Rightarrow> stats_hook \<Rightarrow> stats_hook \<Rightarrow> 'c \<Rightarrow>
    (string, node_stats) gomap result" where
  "kube_CollectNodeStats K B gpuHook nodeHook c =
     rbind (api_list (cl_nodes K) [] [] c) (\<lambda>nodes.
     rbind (cl_nodeMetrics K c) (\<lambda>ms.
     let metrics = fold (\<lambda>m. mput (fst m) (snd m)) ms []
     in rfor (\<lambda>n infos.
          rbind (mergedExt B (hookStats gpuHook) (hookStats nodeHook) (ob_name n)) (\<lambda>ext.
          let usage = (case mget metrics (ob_name n) of Some u \<Rightarrow> u | None \<Rightarrow> [])
          in Ok (mput (ob_name n) (nodeStatsOf usage n ext) infos))) nodes []))"

section \<open>Pods\<close>

definition getContainerStatus :: "container_status \<Rightarrow> container_state \<times> string" where
  "getContainerStatus s =
     (case cs_waiting s of
        Some reason \<Rightarrow> (ContainerWaiting, reason)
      | None \<Rightarrow>
          if cs_running s then (ContainerRunning, [])
          else case cs_terminated s of
                 Some reason \<Rightarrow> (ContainerTerminated, reason)
               | None \<Rightarrow> (ContainerWaiting, ''status unknown''))"

definition containerInfo :: "(string, quantity) gomap \<Rightarrow> container_status \<Rightarrow> container_info" where
  "containerInfo usage s =
     \<lparr>ci_name = cs_name s, ci_state = fst (getContainerStatus s), ci_reason = snd (getContainerStatus s),
      ci_image = cs_image s, ci_usage = usage\<rparr>"

definition addUsage :: "collect_lib \<Rightarrow> (string, quantity) gomap \<Rightarrow> (string, quantity) gomap \<Rightarrow> (string, quantity) gomap" where
  "addUsage B usage acc =
     fold (\<lambda>rq acc. mput (fst rq) (case mget acc (fst rq) of Some q \<Rightarrow> cb_add B q (snd rq) | None \<Rightarrow> snd rq) acc)
       usage acc"

definition collectInstanceStats :: "'c cluster \<Rightarrow> collect_lib \<Rightarrow> string \<Rightarrow> string \<Rightarrow> 'c \<Rightarrow> pod kobj \<Rightarrow> instance_stats" where
  "collectInstanceStats K B ns appName c p =
     (let b = ob_body p;
          metrics = (case cl_podMetrics K ns (ob_name p) c of Ok m \<Rightarrow> m | _ \<Rightarrow> []);
          perContainer = fold (\<lambda>cu. mput (fst cu) (mputs (snd cu) [])) metrics [];
          usageOf = (\<lambda>n. case mget perContainer n of Some u \<Rightarrow> u | None \<Rightarrow> [])
      in zero_instance_stats\<lparr>is_name := ob_name p, is_app := appName, is_status := pd_phase b,
           is_cause := pd_reason b, is_ip := pd_ip b, is_node := pd_node b,
           is_usage := fold (\<lambda>cu. addUsage B (snd cu)) metrics [],
           is_initContainers := map (containerInfo []) (pd_initStatuses b),
           is_containers := map (\<lambda>s. containerInfo (usageOf (cs_name s)) s) (pd_statuses b)\<rparr>)"

section \<open>The status of an application\<close>

definition up :: "status \<Rightarrow> bool" where
  "up s \<longleftrightarrow> s = Running \<or> s = Succeeded"

definition kube_getAppStatus :: "status \<Rightarrow> int32 \<Rightarrow> (string, instance_stats) gomap \<Rightarrow> status" where
  "kube_getAppStatus status replicas insStats =
     (let cnt = fold (\<lambda>kv cnt. if up (is_status (snd kv)) then cnt + 1 else cnt) insStats (0 :: int32);
          pending = (\<exists>kv \<in> set insStats. is_status (snd kv) = Pending \<or> is_status (snd kv) = Failed);
          unknown = (\<exists>kv \<in> set insStats. is_status (snd kv) = Unknown);
          res = (if cnt = replicas then Running
                 else if unknown then Unknown else if pending then Pending else Pending)
      in if status = NoStatus \<or> status = Running then res else status)"

record kube_app_info =
  ka_name :: string
  ka_version :: string
  ka_type :: string
  ka_replicas :: int32
  ka_set :: "(string, string) gomap"

definition instancesOf :: "'c cluster \<Rightarrow> collect_lib \<Rightarrow> string \<Rightarrow> string \<Rightarrow> 'c \<Rightarrow> pod kobj list \<Rightarrow>
    (string, instance_stats) gomap \<Rightarrow> (string, instance_stats) gomap" where
  "instancesOf K B ns appName c pods m =
     fold (\<lambda>p. mput (ob_name p) (collectInstanceStats K B ns appName c p)) pods m"

definition collectAppStats :: "'c cluster \<Rightarrow> collect_lib \<Rightarrow> string \<Rightarrow> 'c \<Rightarrow> kube_app_info \<Rightarrow>
    (string, app_stats) gomap \<Rightarrow> (string, app_stats) gomap result" where
  "collectAppStats K B ns c info appStats =
     (if ka_name info = [] then Ok appStats
      else
        let stats = (case mget appStats (ka_name info) of
              Some s \<Rightarrow> s
            | None \<Rightarrow> zero_app_stats\<lparr>as_name := ka_name info, as_version := ka_version info, as_deployType := ka_type info\<rparr>)
        in rbind (api_list (cl_pods K) ns (ka_set info) c) (\<lambda>pods.
           if pods = [] then Ok appStats
           else
             let old = (case as_instances stats of Some m \<Rightarrow> m | None \<Rightarrow> []);
                 stats = stats\<lparr>as_instances := Some (instancesOf K B ns (ka_name info) c pods old),
                   as_status := kube_getAppStatus (as_status stats) (ka_replicas info)
                                  (instancesOf K B ns (ka_name info) c pods [])\<rparr>
             in Ok (mput (ka_name info) stats appStats)))"

definition labelOf :: "'b kobj \<Rightarrow> string \<Rightarrow> string" where
  "labelOf ob k = (case mget (ob_labels ob) k of Some v \<Rightarrow> v | None \<Rightarrow> [])"

text \<open>Reading through a nil pointer panics.\<close>

fun deref :: "'a option \<Rightarrow> 'a result" where
  "deref (Some x) = Ok x"
| "deref None = Panic ''invalid memory address or nil pointer dereference''"

definition deployInfo :: "collect_lib \<Rightarrow> deployment kobj \<Rightarrow> kube_app_info result" where
  "deployInfo B d =
     rmap (\<lambda>r. \<lparr>ka_name = labelOf d AppName, ka_version = labelOf d AppVersion,
               ka_type = cb_workload B WorkloadDeployment, ka_replicas = r, ka_set = dp_selector (ob_body d)\<rparr>)
       (deref (dp_replicas (ob_body d)))"

definition daemonInfo :: "collect_lib \<Rightarrow> daemonset kobj \<Rightarrow> kube_app_info result" where
  "daemonInfo B d =
     Ok \<lparr>ka_name = labelOf d AppName, ka_version = labelOf d AppVersion,
         ka_type = cb_workload B WorkloadDaemonSet, ka_replicas = dm_desired (ob_body d),
         ka_set = dm_selector (ob_body d)\<rparr>"

definition jobInfo :: "collect_lib \<Rightarrow> job kobj \<Rightarrow> kube_app_info result" where
  "jobInfo B j =
     rmap (\<lambda>r. \<lparr>ka_name = labelOf j AppName, ka_version = labelOf j AppVersion,
               ka_type = cb_workload B WorkloadJob, ka_replicas = r, ka_set = jb_selector (ob_body j)\<rparr>)
       (deref (jb_completions (ob_body j)))"

text \<open>The loop the three collectors share.\<close>

definition collectEach :: "('b kobj \<Rightarrow> kube_app_info result) \<Rightarrow> 'c cluster \<Rightarrow> collect_lib \<Rightarrow> string \<Rightarrow> 'c \<Rightarrow>
    'b kobj list \<Rightarrow> (string, app_stats) gomap result" where
  "collectEach info K B ns c obs =
     rfor (\<lambda>ob st. rbind (info ob) (\<lambda>i. collectAppStats K B ns c i st)) obs []"

definition collectDeploymentStats :: "'c cluster \<Rightarrow> collect_lib \<Rightarrow> ((string, app_stats) gomap \<Rightarrow> (string, app_stats) gomap) \<Rightarrow>
    string \<Rightarrow> 'c \<Rightarrow> app_stats list result" where
  "collectDeploymentStats K B rng ns c =
     rbind (api_list (cl_deploys K) ns [] c) (\<lambda>ds.
     rmap (\<lambda>st. map snd (rng st)) (collectEach (deployInfo B) K B ns c ds))"

definition collectDaemonSetStats :: "'c cluster \<Rightarrow> collect_lib \<Rightarrow> ((string, app_stats) gomap \<Rightarrow> (string, app_stats) gomap) \<Rightarrow>
    string \<Rightarrow> 'c \<Rightarrow> app_stats list result" where
  "collectDaemonSetStats K B rng ns c =
     rbind (api_list (cl_daemons K) ns [] c) (\<lambda>ds.
     rmap (\<lambda>st. map snd (rng st)) (collectEach (daemonInfo B) K B ns c ds))"

definition collectJobStats :: "'c cluster \<Rightarrow> collect_lib \<Rightarrow> ((string, app_stats) gomap \<Rightarrow> (string, app_stats) gomap) \<Rightarrow>
    string \<Rightarrow> 'c \<Rightarrow> app_stats list result" where
  "collectJobStats K B rng ns c =
     rbind (api_list (cl_jobs K) ns [] c) (\<lambda>js.
     rmap (\<lambda>st. map snd (rng st)) (collectEach (jobInfo B) K B ns c js))"

section \<open>When an application counts as running\<close>

lemma kube_count: "fold (\<lambda>kv cnt. if up (is_status (snd kv)) then cnt + 1 else cnt) m (k :: int32)
    = k + word_of_nat (length (filter (\<lambda>kv. up (is_status (snd kv))) m))"
  by (induction m arbitrary: k) simp_all

lemma kube_status_running:
  "kube_getAppStatus s r m = Running \<longleftrightarrow> (s = NoStatus \<or> s = Running) \<and>
     r = word_of_nat (length (filter (\<lambda>kv. up (is_status (snd kv))) m))"
  by (auto simp: kube_getAppStatus_def kube_count Let_def)

lemma kube_status_range:
  "s \<in> {NoStatus, Running, Pending, Unknown} \<Longrightarrow> kube_getAppStatus s r m \<in> {Running, Pending, Unknown}"
  by (auto simp: kube_getAppStatus_def Let_def)

text \<open>
  The replica count is compared at 32 bits and that is exact in practice: with fewer than
  \<open>2 ^ 31\<close> instances, an application with no earlier status is running exactly when the number of its running or succeeded instances is the desired one.
\<close>

theorem kube_running_exact:
  assumes "length m < 2 ^ 31"
  shows "kube_getAppStatus NoStatus r m = Running \<longleftrightarrow>
           int (length (filter (\<lambda>kv. up (is_status (snd kv))) m)) = sint r"
proof -
  let ?n = "length (filter (\<lambda>kv. up (is_status (snd kv))) m)"
  have "?n < 2 ^ 31" by (rule le_less_trans[OF length_filter_le assms])
  then have n: "sint (i32 (int ?n)) = int ?n" unfolding sint_i32 by simp
  have "r = word_of_nat ?n \<longleftrightarrow> int ?n = sint r"
  proof
    assume "r = word_of_nat ?n"
    then have "r = i32 (int ?n)" by simp
    with n show "int ?n = sint r" by simp
  next
    assume "int ?n = sint r"
    then have "i32 (int ?n) = i32 (sint r)" by (simp only:)
    then show "r = word_of_nat ?n" by simp
  qed
  then show ?thesis by (simp add: kube_status_running)
qed

text \<open>The pods that a workload's selector finds.\<close>

definition podsOf :: "'c cluster \<Rightarrow> string \<Rightarrow> 'c \<Rightarrow> kube_app_info \<Rightarrow> pod kobj list" where
  "podsOf K ns c i = (case api_list (cl_pods K) ns (ka_set i) c of Ok pods \<Rightarrow> pods | _ \<Rightarrow> [])"

text \<open>A workload counts for an application when it carries its name and has pods; it is complete when
  as many instances are up as it asks for.\<close>

definition countsFor :: "('b kobj \<Rightarrow> kube_app_info result) \<Rightarrow> 'c cluster \<Rightarrow> string \<Rightarrow> 'c \<Rightarrow> string \<Rightarrow> 'b kobj \<Rightarrow> bool" where
  "countsFor info K ns c a ob \<longleftrightarrow> (\<exists>i. info ob = Ok i \<and> ka_name i = a \<and> a \<noteq> [] \<and> podsOf K ns c i \<noteq> [])"

definition complete :: "('b kobj \<Rightarrow> kube_app_info result) \<Rightarrow> 'c cluster \<Rightarrow> collect_lib \<Rightarrow> string \<Rightarrow> 'c \<Rightarrow> 'b kobj \<Rightarrow> bool" where
  "complete info K B ns c ob \<longleftrightarrow> (\<exists>i. info ob = Ok i \<and>
     kube_getAppStatus NoStatus (ka_replicas i) (instancesOf K B ns (ka_name i) c (podsOf K ns c i) []) = Running)"

definition statusIn :: "(string, app_stats) gomap \<Rightarrow> string \<Rightarrow> status" where
  "statusIn st a = (case mget st a of Some s \<Rightarrow> as_status s | None \<Rightarrow> NoStatus)"

lemma running_step:
  "s \<in> {NoStatus, Running, Pending, Unknown} \<Longrightarrow>
     kube_getAppStatus s r m = Running \<longleftrightarrow> s \<in> {NoStatus, Running} \<and> kube_getAppStatus NoStatus r m = Running"
  by (auto simp: kube_status_running)

text \<open>One workload: who is in the map afterwards, and with which status.\<close>

lemma collectAppStats_step:
  assumes "collectAppStats K B ns c i st = Ok st'"
  shows "(ka_name i = [] \<or> podsOf K ns c i = [] \<longrightarrow> st' = st) \<and>
    (ka_name i \<noteq> [] \<and> podsOf K ns c i \<noteq> [] \<longrightarrow>
       (\<exists>s. mget st' = (mget st)(ka_name i \<mapsto> s) \<and>
            as_name s = (case mget st (ka_name i) of Some s0 \<Rightarrow> as_name s0 | None \<Rightarrow> ka_name i) \<and>
            as_status s = kube_getAppStatus (statusIn st (ka_name i)) (ka_replicas i)
              (instancesOf K B ns (ka_name i) c (podsOf K ns c i) [])))"
proof (cases "ka_name i = []")
  case True
  with assms show ?thesis by (simp add: collectAppStats_def)
next
  case False
  then obtain pods where p: "api_list (cl_pods K) ns (ka_set i) c = Ok pods"
    using assms by (auto simp: collectAppStats_def Let_def rbind_Ok_iff)
  then have po: "podsOf K ns c i = pods" by (simp add: podsOf_def)
  show ?thesis
  proof (cases "pods = []")
    case True
    with assms False p po show ?thesis by (simp add: collectAppStats_def Let_def)
  next
    case ne: False
    with assms False p have "\<exists>s. st' = mput (ka_name i) s st \<and>
        as_name s = (case mget st (ka_name i) of Some s0 \<Rightarrow> as_name s0 | None \<Rightarrow> ka_name i) \<and>
        as_status s = kube_getAppStatus (statusIn st (ka_name i)) (ka_replicas i)
              (instancesOf K B ns (ka_name i) c pods [])"
      by (cases "mget st (ka_name i)") (auto simp: collectAppStats_def Let_def statusIn_def zero_app_stats_def)
    then obtain s where s: "st' = mput (ka_name i) s st"
        "as_name s = (case mget st (ka_name i) of Some s0 \<Rightarrow> as_name s0 | None \<Rightarrow> ka_name i)"
        "as_status s = kube_getAppStatus (statusIn st (ka_name i)) (ka_replicas i)
              (instancesOf K B ns (ka_name i) c pods [])" by blast
    have "mget st' = (mget st)(ka_name i \<mapsto> s)" by (simp add: s(1) map_simps)
    with s(2,3) po ne False show ?thesis by blast
  qed
qed

text \<open>The map the collectors build: each entry carries its key's name and a status of the report.\<close>

definition collectInv :: "(string, app_stats) gomap \<Rightarrow> bool" where
  "collectInv st \<longleftrightarrow> gomap st \<and>
     (\<forall>a s. mget st a = Some s \<longrightarrow> as_name s = a \<and> as_status s \<in> {Running, Pending, Unknown})"

lemma collectAppStats_gomap: "collectAppStats K B ns c i st = Ok st' \<Longrightarrow> gomap st \<Longrightarrow> gomap st'"
  by (auto simp: collectAppStats_def Let_def rbind_Ok_iff split: if_splits)

lemma statusIn_range: "collectInv st \<Longrightarrow> statusIn st a \<in> {NoStatus, Running, Pending, Unknown}"
  by (auto simp: statusIn_def collectInv_def split: option.split)

lemma collect_one:
  assumes "collectAppStats K B ns c i st = Ok st'" and "info ob = Ok i" and "collectInv st"
  shows "collectInv st' \<and>
    (mget st' a \<noteq> None \<longleftrightarrow> mget st a \<noteq> None \<or> countsFor info K ns c a ob) \<and>
    (statusIn st' a \<in> {NoStatus, Running} \<longleftrightarrow>
       statusIn st a \<in> {NoStatus, Running} \<and> (countsFor info K ns c a ob \<longrightarrow> complete info K B ns c ob))"
proof (cases "ka_name i = [] \<or> podsOf K ns c i = []")
  case True
  with collectAppStats_step[OF assms(1)] have "st' = st" by blast
  moreover have "\<not> countsFor info K ns c a ob" using True assms(2) by (auto simp: countsFor_def)
  ultimately show ?thesis using assms(3) by simp
next
  case False
  let ?n = "ka_name i" and ?ins = "instancesOf K B ns (ka_name i) c (podsOf K ns c i) []"
  from collectAppStats_step[OF assms(1)] False obtain s where st': "mget st' = (mget st)(?n \<mapsto> s)"
    and nm: "as_name s = (case mget st ?n of Some s0 \<Rightarrow> as_name s0 | None \<Rightarrow> ?n)"
    and sts: "as_status s = kube_getAppStatus (statusIn st ?n) (ka_replicas i) ?ins" by blast
  have cf: "countsFor info K ns c a ob \<longleftrightarrow> a = ?n" using False assms(2) by (auto simp: countsFor_def)
  have co: "complete info K B ns c ob \<longleftrightarrow> kube_getAppStatus NoStatus (ka_replicas i) ?ins = Running"
    using assms(2) by (auto simp: complete_def)
  note rng = statusIn_range[OF assms(3), of ?n]
  have r: "as_status s \<in> {Running, Pending, Unknown}" unfolding sts by (rule kube_status_range[OF rng])
  have "as_name s = ?n" using nm assms(3) by (auto simp: collectInv_def split: option.splits)
  then have "collectInv st'"
    using assms(3) r collectAppStats_gomap[OF assms(1)] st' by (auto simp: collectInv_def)
  moreover have "statusIn st' ?n = as_status s" "a \<noteq> ?n \<Longrightarrow> statusIn st' a = statusIn st a"
    by (simp_all add: statusIn_def st')
  moreover have "as_status s \<in> {NoStatus, Running} \<longleftrightarrow> as_status s = Running" using r by auto
  moreover have "as_status s = Running \<longleftrightarrow> statusIn st ?n \<in> {NoStatus, Running} \<and> complete info K B ns c ob"
    unfolding sts co by (rule running_step[OF rng])
  ultimately show ?thesis unfolding cf st' by (cases "a = ?n") simp_all
qed

lemma collectEach_spec:
  assumes "rfor (\<lambda>ob st. rbind (info ob) (\<lambda>i. collectAppStats K B ns c i st)) obs st0 = Ok st" and "collectInv st0"
  shows "collectInv st \<and>
    (mget st a \<noteq> None \<longleftrightarrow> mget st0 a \<noteq> None \<or> (\<exists>ob \<in> set obs. countsFor info K ns c a ob)) \<and>
    (statusIn st a \<in> {NoStatus, Running} \<longleftrightarrow>
       statusIn st0 a \<in> {NoStatus, Running} \<and> (\<forall>ob \<in> set obs. countsFor info K ns c a ob \<longrightarrow> complete info K B ns c ob))"
  using assms
proof (induction obs arbitrary: st0)
  case Nil
  then show ?case by simp
next
  case (Cons ob obs)
  from Cons.prems(1) obtain i st1 where i: "info ob = Ok i" "collectAppStats K B ns c i st0 = Ok st1"
    "rfor (\<lambda>ob st. rbind (info ob) (\<lambda>i. collectAppStats K B ns c i st)) obs st1 = Ok st"
    by (auto simp: rbind_Ok_iff)
  note one = collect_one[where info = info and ob = ob, OF i(2,1) Cons.prems(2), of a]
  then have "collectInv st1" by blast
  from Cons.IH[OF i(3) this] one show ?case by simp
qed

text \<open>
  The report on deployments is exact: an application is in it exactly when a deployment with its
  label has pods, under its own name, and it is reported running exactly when every such deployment
  has as many instances up as it asks for.
\<close>

theorem deployments_reported:
  assumes "collectDeploymentStats K B rng ns c = Ok res" and "range_ok rng" and "api_list (cl_deploys K) ns [] c = Ok ds"
  shows "((\<exists>s \<in> set res. as_name s = a) \<longleftrightarrow> (\<exists>d \<in> set ds. countsFor (deployInfo B) K ns c a d)) \<and>
    (\<forall>s \<in> set res. as_status s = Running \<longleftrightarrow>
       (\<forall>d \<in> set ds. countsFor (deployInfo B) K ns c (as_name s) d \<longrightarrow> complete (deployInfo B) K B ns c d))"
proof -
  from assms(1,3) obtain st where st: "collectEach (deployInfo B) K B ns c ds = Ok st" and res: "res = map snd (rng st)"
    by (auto simp: collectDeploymentStats_def rmap_Ok_iff)
  have "collectInv []" by (simp add: collectInv_def)
  note spec = collectEach_spec[OF st[unfolded collectEach_def] this]
  have inv: "collectInv st" using spec by blast
  then have g: "gomap st" by (simp add: collectInv_def)
  have key: "mget st k = Some s \<Longrightarrow> as_name s = k" for k s using inv by (simp add: collectInv_def)
  have mem: "s \<in> set res \<longleftrightarrow> mget st (as_name s) = Some s" for s
  proof
    assume "s \<in> set res"
    then obtain k where "(k, s) \<in> set st" unfolding res using range_ok_set[OF assms(2), of st] by auto
    with gomap_mget_iff[OF g] have k: "mget st k = Some s" by simp
    with key[OF k] show "mget st (as_name s) = Some s" by simp
  next
    assume "mget st (as_name s) = Some s"
    with gomap_mget_iff[OF g] have "(as_name s, s) \<in> set (rng st)" using range_ok_set[OF assms(2), of st] by simp
    then have "snd (as_name s, s) \<in> snd ` set (rng st)" by (rule imageI)
    then show "s \<in> set res" by (simp add: res)
  qed
  have "(\<exists>s \<in> set res. as_name s = a) \<longleftrightarrow> mget st a \<noteq> None"
  proof
    assume "mget st a \<noteq> None"
    then obtain s where s: "mget st a = Some s" by auto
    from key[OF s] s mem[of s] show "\<exists>s \<in> set res. as_name s = a" by auto
  qed (use mem in auto)
  moreover have "as_status s = Running \<longleftrightarrow>
       (\<forall>d \<in> set ds. countsFor (deployInfo B) K ns c (as_name s) d \<longrightarrow> complete (deployInfo B) K B ns c d)"
    if "s \<in> set res" for s
  proof -
    have m: "mget st (as_name s) = Some s" using that mem by simp
    then have "statusIn st (as_name s) = as_status s" by (simp add: statusIn_def)
    moreover have "as_status s \<in> {Running, Pending, Unknown}"
      using inv m unfolding collectInv_def by blast
    then have "as_status s \<in> {NoStatus, Running} \<longleftrightarrow> as_status s = Running" by auto
    ultimately show ?thesis using spec[of "as_name s"] by (simp add: statusIn_def)
  qed
  ultimately show ?thesis using spec[of a] by simp
qed

text \<open>A job of the namespace that leaves its completions open makes the collection panic.\<close>

lemma open_job_panics:
  assumes "api_list (cl_jobs K) ns [] c = Ok (j # js)" and "jb_completions (ob_body j) = None"
  shows "\<not> is_ok (collectJobStats K B rng ns c) \<and> (\<exists>p. collectJobStats K B rng ns c = Panic p)"
  using assms by (simp add: collectJobStats_def collectEach_def jobInfo_def)

section \<open>Witnesses\<close>

definition plain_collect :: collect_lib where
  "plain_collect = \<lparr>cb_add = (\<lambda>a b. a @ ''+'' @ b), cb_workload = (\<lambda>_. ''deployment''), cb_merge = (\<lambda>a b. Ok (a @ b))\<rparr>"

definition other_pod :: "pod kobj" where
  "other_pod = objectMeta ''other-1'' ''ns'' [(AppName, ''other'')]
     \<lparr>pd_phase = Running, pd_reason = [], pd_ip = [], pd_node = ''n'', pd_initStatuses = [], pd_statuses = []\<rparr>"

definition pod_cluster :: kube_state where
  "pod_cluster = busy_cluster\<lparr>mk_pods := [((''ns'', ''other-1''), other_pod)]\<rparr>"

definition other_info :: kube_app_info where
  "other_info = \<lparr>ka_name = ''other'', ka_version = [], ka_type = ''deployment'', ka_replicas = 1,
     ka_set = [(AppName, ''other'')]\<rparr>"

lemma other_deployInfo: "deployInfo plain_collect other_deploy = Ok other_info"
  by (simp add: deployInfo_def other_deploy_def other_info_def labelOf_def objectMeta_def plain_collect_def AppName_def AppVersion_def)

lemma pod_deploys: "api_list (cl_deploys mem_cluster) ''ns'' [] pod_cluster = Ok [other_deploy]"
  by (simp add: mem_cluster_def mem_api_def pod_cluster_def busy_cluster_def selects_def other_deploy_def objectMeta_def)

lemma other_pods: "podsOf mem_cluster ''ns'' pod_cluster other_info = [other_pod]"
  by (simp add: podsOf_def mem_cluster_def mem_api_def pod_cluster_def busy_cluster_def selects_def other_pod_def
      objectMeta_def other_info_def)

lemma other_collected: "is_ok (collectDeploymentStats mem_cluster plain_collect (\<lambda>m. m) ''ns'' pod_cluster)"
  by code_simp

theorem deployments_reported_witness:
  "\<exists>res s. collectDeploymentStats mem_cluster plain_collect (\<lambda>m. m) ''ns'' pod_cluster = Ok res \<and>
     s \<in> set res \<and> as_name s = ''other'' \<and> as_status s = Running"
proof -
  obtain res where res: "collectDeploymentStats mem_cluster plain_collect (\<lambda>m. m) ''ns'' pod_cluster = Ok res"
    using other_collected by (metis is_ok.elims(2))
  note rep = deployments_reported[OF res range_ok_id pod_deploys]
  have c: "countsFor (deployInfo plain_collect) mem_cluster ''ns'' pod_cluster ''other'' other_deploy"
    unfolding countsFor_def other_deployInfo using other_pods by (simp add: other_info_def)
  have "kube_getAppStatus NoStatus (ka_replicas other_info)
      (instancesOf mem_cluster plain_collect ''ns'' (ka_name other_info) pod_cluster [other_pod] []) = Running"
    by code_simp
  then have "complete (deployInfo plain_collect) mem_cluster plain_collect ''ns'' pod_cluster other_deploy"
    unfolding complete_def other_deployInfo using other_pods by auto
  with rep[of "''other''"] c obtain s where "s \<in> set res" "as_name s = ''other''" "as_status s = Running" by auto
  with res show ?thesis by blast
qed

theorem kube_running_exact_witness:
  "kube_getAppStatus NoStatus 1 [(''p'', zero_instance_stats\<lparr>is_status := Running\<rparr>)] = Running"
  using kube_running_exact[of "[(''p'', zero_instance_stats\<lparr>is_status := Running\<rparr>)]" 1] by (simp add: up_def)

end
