(* ===== verification/Kube_Helm.thy ===== *)
theory Kube_Helm
  imports Kube_Collect
begin

text \<open>
  Helm releases (\<^verbatim>\<open>ami/kube/kube_helm.go\<close>): installing, upgrading and removing the release of an
  application and observing the pods of releases. The Helm library, the chart loader and the YAML
  parser are the argument \<open>helm_lib\<close>; \<open>helm_ok\<close> is what their documentation promises.
\<close>

record release =
  rl_name :: string
  rl_namespace :: string
  rl_labels :: "(string, string) gomap"
  rl_status :: string

type_synonym chart_values = "(string \<times> json) list"

record ('c, 'x) helm_lib =
  hl_init :: "string \<Rightarrow> unit result"                                  \<comment> \<open>Configuration.Init\<close>
  hl_list :: "'c \<Rightarrow> release list result"
  hl_get :: "string \<Rightarrow> string \<Rightarrow> 'c \<Rightarrow> release result"
  hl_install :: "string \<Rightarrow> string \<Rightarrow> (string, string) gomap \<Rightarrow> 'x \<Rightarrow> chart_values \<Rightarrow> 'c \<Rightarrow> unit result \<times> 'c"
  hl_upgrade :: "string \<Rightarrow> string \<Rightarrow> (string, string) gomap \<Rightarrow> 'x \<Rightarrow> chart_values \<Rightarrow> 'c \<Rightarrow> unit result \<times> 'c"
  hl_uninstall :: "string \<Rightarrow> string \<Rightarrow> 'c \<Rightarrow> unit result \<times> 'c"
  hl_load :: "string \<Rightarrow> 'x result"                                     \<comment> \<open>loader.Load\<close>
  hl_yaml :: "string \<Rightarrow> chart_values result"                           \<comment> \<open>yaml.Unmarshal\<close>

definition BaetylHelmVersion :: string where
  "BaetylHelmVersion = ''baetyl-version''"

definition ErrNotHelmApp :: string where
  "ErrNotHelmApp = ''not a helm app''"

definition index_panic :: string where
  "index_panic = ''index out of range''"

section \<open>Charts and their values\<close>

definition chartDir :: "host_path \<Rightarrow> service \<Rightarrow> string" where
  "chartDir h svc = hp_path h @ ''/'' @ svc_image svc"

definition chartValues :: "('c, 'x) helm_lib \<Rightarrow> service \<Rightarrow> (string, configuration) gomap \<Rightarrow> string \<Rightarrow> obj_ref option \<Rightarrow>
    (string \<times> chart_values) result" where
  "chartValues L svc cfgs dir ref =
     (case ref of
        None \<Rightarrow> Err ''no value has been selected''
      | Some r \<Rightarrow>
          case mget cfgs (ref_name r) of
            None \<Rightarrow> Err ''config not exist''
          | Some cfg \<Rightarrow>
              case mget (cfg_data cfg) (svc_runtime svc) of
                None \<Rightarrow> Err ''config not exist''
              | Some data \<Rightarrow> rmap (\<lambda>vals. (dir, vals)) (hl_yaml L data))"

definition setChartValues :: "('c, 'x) helm_lib \<Rightarrow> application \<Rightarrow> (string, configuration) gomap \<Rightarrow>
    (string \<times> chart_values) result" where
  "setChartValues L app cfgs =
     (case (app_services app, app_volumes app) of
        (svc # _, source1 # rest) \<Rightarrow>
          if svc_runtime svc = []
          then case vol_hostPath source1 of
                 Some h \<Rightarrow> Ok (chartDir h svc, [])
               | None \<Rightarrow> Err ''no chart tar has been selected''
          else (case rest of
                 [] \<Rightarrow> Panic index_panic
               | source2 # _ \<Rightarrow>
                   (case vol_hostPath source1 of
                      Some h \<Rightarrow> chartValues L svc cfgs (chartDir h svc) (vol_config source2)
                    | None \<Rightarrow>
                        case vol_hostPath source2 of
                          Some h \<Rightarrow> chartValues L svc cfgs (chartDir h svc) (vol_config source1)
                        | None \<Rightarrow> Err ''no value has been selected''))
      | _ \<Rightarrow> Panic index_panic)"

text \<open>The guards before a chart is read, and the reading of it.\<close>

definition readChart :: "('c, 'x) helm_lib \<Rightarrow> application \<Rightarrow> (string, configuration) gomap \<Rightarrow> ('x \<times> chart_values) result" where
  "readChart L app cfgs =
     (if length (app_services app) \<noteq> 1 \<or> length (app_volumes app) < 1
      then Err ''helm chart only support one service''
      else if svc_runtime (hd (app_services app)) \<noteq> [] \<and> length (app_volumes app) < 2
      then Err ''no value has been selected''
      else rbind (setChartValues L app cfgs) (\<lambda>(dir, vals).
           rbind (hl_load L dir) (\<lambda>chart. Ok (chart, vals))))"

section \<open>Applying and deleting releases\<close>

definition UpdateHelm :: "('c, 'x) helm_lib \<Rightarrow> string \<Rightarrow> application \<Rightarrow> (string, configuration) gomap \<Rightarrow> release \<Rightarrow>
    'c \<Rightarrow> unit result \<times> 'c" where
  "UpdateHelm L ns app cfgs old c =
     sbind (readChart L app cfgs, c) (\<lambda>(chart, vals) c.
       hl_upgrade L ns (app_name app) (mput BaetylHelmVersion (app_version app) (rl_labels old)) chart vals c)"

definition installHelm :: "('c, 'x) helm_lib \<Rightarrow> string \<Rightarrow> application \<Rightarrow> (string, configuration) gomap \<Rightarrow>
    'c \<Rightarrow> unit result \<times> 'c" where
  "installHelm L ns app cfgs c =
     sbind (readChart L app cfgs, c) (\<lambda>(chart, vals) c.
       hl_install L ns (app_name app) [(BaetylHelmVersion, app_version app)] chart vals c)"

definition helmNs :: "env \<Rightarrow> application \<Rightarrow> string" where
  "helmNs E app =
     (case mget (app_labels app) (e_customNs E) of
        Some ns \<Rightarrow> if ns = [] then ''default'' else ns
      | None \<Rightarrow> ''default'')"

definition ApplyHelm :: "env \<Rightarrow> ('c, 'x) helm_lib \<Rightarrow> application \<Rightarrow> (string, configuration) gomap \<Rightarrow>
    'c \<Rightarrow> unit result \<times> 'c" where
  "ApplyHelm E L app cfgs c =
     (let ns = helmNs E app
      in sbind (hl_init L ns, c) (\<lambda>_ c.
         case hl_get L ns (app_name app) c of
           Ok old \<Rightarrow>
             (case mget (rl_labels old) BaetylHelmVersion of
                None \<Rightarrow> (Ok (), c)
              | Some version \<Rightarrow>
                  if version = app_version app then (Ok (), c)
                  else if app_preserveUpdates app then UpdateHelm L ns app cfgs old c
                  else sbind (hl_uninstall L ns (app_name app) c) (\<lambda>_ c. installHelm L ns app cfgs c))
         | Err _ \<Rightarrow> installHelm L ns app cfgs c
         | Panic p \<Rightarrow> (Panic p, c)))"

definition DeleteHelm :: "('c, 'x) helm_lib \<Rightarrow> string \<Rightarrow> 'c \<Rightarrow> unit result \<times> 'c" where
  "DeleteHelm L app c =
     (case hl_list L c of
        Ok helms \<Rightarrow>
          let ns = fold (\<lambda>h ns. if rl_name h = app then rl_namespace h else ns) helms []
          in if ns = [] then (Err ErrNotHelmApp, c)
             else sbind (hl_init L ns, c) (\<lambda>_ c. hl_uninstall L ns app c)
      | Err _ \<Rightarrow> (Err ErrNotHelmApp, c)
      | Panic p \<Rightarrow> (Panic p, c))"

section \<open>Observing releases\<close>

definition transStatus :: "string \<Rightarrow> status" where
  "transStatus s =
     (if s = ''unknown'' then Unknown else if s = ''deployed'' then Running
      else if s = ''failed'' then Failed else Pending)"

definition checkHelm :: "(string, string) gomap \<Rightarrow> (string, string) gomap \<Rightarrow> string list \<Rightarrow> string" where
  "checkHelm labels annotations apps =
     (let named = (\<lambda>v. case v of Some n \<Rightarrow> n \<in> set apps | None \<Rightarrow> False);
          l = mget labels ''app.kubernetes.io/instance'';
          a = mget annotations ''meta.helm.sh/release-name''
      in if named l then the l else if named a then the a else [])"

text \<open>The names of the workloads of each release; their types are not used further.\<close>

definition noteWorkload :: "string list \<Rightarrow> 'b kobj \<Rightarrow> (string, string list) gomap \<Rightarrow> (string, string list) gomap" where
  "noteWorkload apps ob m =
     (let app = checkHelm (ob_labels ob) (ob_annotations ob) apps
      in if app = [] then m
         else mput app ((case mget m app of Some ns \<Rightarrow> ns | None \<Rightarrow> []) @ [ob_name ob]) m)"

definition collectPodNames :: "'c cluster \<Rightarrow> string \<Rightarrow> string list \<Rightarrow> 'c \<Rightarrow> (string, string list) gomap result" where
  "collectPodNames K ns apps c =
     rbind (api_list (cl_deploys K) ns [] c) (\<lambda>ds.
     rbind (api_list (cl_daemons K) ns [] c) (\<lambda>ms.
     rbind (api_list (cl_stateful K) ns [] c) (\<lambda>ss.
     rbind (api_list (cl_jobs K) ns [] c) (\<lambda>js.
     Ok (fold (noteWorkload apps) js (fold (noteWorkload apps) ss (fold (noteWorkload apps) ms
         (fold (noteWorkload apps) ds (map (\<lambda>a. (a, [])) (remdups apps)))))))))) "

definition ofRelease :: "string list \<Rightarrow> pod kobj \<Rightarrow> bool" where
  "ofRelease names p \<longleftrightarrow> (\<exists>n \<in> set names. contains (ob_name p) n)"

definition releaseStats :: "'c cluster \<Rightarrow> collect_lib \<Rightarrow> string \<Rightarrow> 'c \<Rightarrow> pod kobj list \<Rightarrow> (string, string list) gomap \<Rightarrow>
    string \<Rightarrow> (string, app_stats) gomap \<Rightarrow> (string, app_stats) gomap" where
  "releaseStats K B ns c pods podNames app appStats =
     (let stats = (case mget appStats app of Some s \<Rightarrow> s | None \<Rightarrow> zero_app_stats);
          old = (case as_instances stats of Some m \<Rightarrow> m | None \<Rightarrow> []);
          names = (case mget podNames app of Some ns \<Rightarrow> ns | None \<Rightarrow> [])
      in mput app (stats\<lparr>as_instances := Some (instancesOf K B ns app c (filter (ofRelease names) pods) old)\<rparr>) appStats)"

definition collectHelmStats :: "'c cluster \<Rightarrow> collect_lib \<Rightarrow> string \<Rightarrow> string list \<Rightarrow> 'c \<Rightarrow>
    (string, app_stats) gomap \<Rightarrow> (string, app_stats) gomap result" where
  "collectHelmStats K B ns apps c appStats =
     rbind (api_list (cl_pods K) ns [] c) (\<lambda>pods.
       if pods = [] then Ok appStats
       else rbind (collectPodNames K ns apps c) (\<lambda>podNames.
              Ok (fold (releaseStats K B ns c pods podNames) apps appStats)))"

definition versioned :: "release \<Rightarrow> bool" where
  "versioned h \<longleftrightarrow> (case mget (rl_labels h) BaetylHelmVersion of Some v \<Rightarrow> v \<noteq> [] | None \<Rightarrow> False)"

definition noteRelease :: "collect_lib \<Rightarrow> release \<Rightarrow> (string, app_stats) gomap \<times> (string, string list) gomap \<Rightarrow>
    (string, app_stats) gomap \<times> (string, string list) gomap" where
  "noteRelease B h acc =
     (if \<not> versioned h then acc
      else (mput (rl_name h) (zero_app_stats\<lparr>as_name := rl_name h,
                as_version := (case mget (rl_labels h) BaetylHelmVersion of Some v \<Rightarrow> v | None \<Rightarrow> []),
                as_status := transStatus (rl_status h), as_deployType := cb_workload B WorkloadCustom\<rparr>) (fst acc),
            mput (rl_namespace h) ((case mget (snd acc) (rl_namespace h) of Some ns \<Rightarrow> ns | None \<Rightarrow> []) @ [rl_name h])
              (snd acc)))"

definition StatsHelm :: "'c cluster \<Rightarrow> collect_lib \<Rightarrow> ('c, 'x) helm_lib \<Rightarrow>
    ((string, string list) gomap \<Rightarrow> (string, string list) gomap) \<Rightarrow>
    ((string, app_stats) gomap \<Rightarrow> (string, app_stats) gomap) \<Rightarrow> 'c \<Rightarrow> app_stats list result" where
  "StatsHelm K B L rngN rng c =
     rbind (hl_list L c) (\<lambda>helms.
       let (appStats, nsMap) = fold (noteRelease B) helms ([], [])
       in rmap (\<lambda>st. map snd (rng st))
            (rfor (\<lambda>na st. case collectHelmStats K B (fst na) (snd na) c st of
                             Err _ \<Rightarrow> Ok st | r \<Rightarrow> r) (rngN nsMap) appStats))"

section \<open>A release follows its application\<close>

text \<open>
  An installed release is what a later read finds, with the labels it was given. An upgrade finds a
  release and merges the labels given with those it has; a label given as \<^verbatim>\<open>null\<close> is removed.
\<close>

definition mergedLabel :: "(string, string) gomap \<Rightarrow> (string, string) gomap \<Rightarrow> string \<Rightarrow> string option" where
  "mergedLabel old new k =
     (case (case mget new k of Some v \<Rightarrow> Some v | None \<Rightarrow> mget old k) of
        Some v \<Rightarrow> if v = ''null'' then None else Some v
      | None \<Rightarrow> None)"

definition helm_ok :: "('c, 'x) helm_lib \<Rightarrow> bool" where
  "helm_ok L \<longleftrightarrow>
     (\<forall>ns n ls ch v c t. hl_install L ns n ls ch v c = (Ok (), t) \<longrightarrow> (\<exists>r. hl_get L ns n t = Ok r \<and> rl_labels r = ls)) \<and>
     (\<forall>ns n ls ch v c t. hl_upgrade L ns n ls ch v c = (Ok (), t) \<longrightarrow>
        (\<exists>old r. hl_get L ns n c = Ok old \<and> hl_get L ns n t = Ok r \<and>
          (\<forall>k. mget (rl_labels r) k = mergedLabel (rl_labels old) ls k)))"

definition atVersion :: "('c, 'x) helm_lib \<Rightarrow> string \<Rightarrow> application \<Rightarrow> 'c \<Rightarrow> bool" where
  "atVersion L ns app c \<longleftrightarrow>
     (\<exists>r. hl_get L ns (app_name app) c = Ok r \<and> mget (rl_labels r) BaetylHelmVersion = Some (app_version app))"

lemma installHelm_version:
  "helm_ok L \<Longrightarrow> installHelm L ns app cfgs c = (Ok u, t) \<Longrightarrow> atVersion L ns app t"
  unfolding installHelm_def helm_ok_def atVersion_def sbind_Ok_iff by fastforce

lemma UpdateHelm_version:
  assumes "helm_ok L" and "UpdateHelm L ns app cfgs old c = (Ok u, t)" and "app_version app \<noteq> ''null''"
  shows "atVersion L ns app t"
proof -
  from assms(2) obtain chart vals s where up: "hl_upgrade L ns (app_name app)
      (mput BaetylHelmVersion (app_version app) (rl_labels old)) chart vals s = (Ok (), t)"
    by (auto simp: UpdateHelm_def sbind_Ok_iff)
  from assms(1)[unfolded helm_ok_def, THEN conjunct2, rule_format, OF up] obtain old' r :: release where "hl_get L ns (app_name app) t = Ok r"
      "\<forall>k. mget (rl_labels r) k = mergedLabel (rl_labels old') (mput BaetylHelmVersion (app_version app) (rl_labels old)) k"
    by blast
  with assms(3) show ?thesis by (simp add: atVersion_def mergedLabel_def map_simps)
qed

text \<open>
  C29. A Helm application converges: unless a release of that name without a version label is already
  there (then nothing happens, lemma \<open>foreign_release_blocks\<close>) or the version is the text \<^verbatim>\<open>null\<close>, which
  Helm takes for the removal of a label, a successful apply leaves a release labelled with the version of
  the application, and applying the same application again changes nothing.
\<close>

theorem helm_converges:
  assumes "helm_ok L" and "ApplyHelm E L app cfgs c = (Ok u, t)"
    and "\<And>r. hl_get L (helmNs E app) (app_name app) c = Ok r \<Longrightarrow> mget (rl_labels r) BaetylHelmVersion \<noteq> None"
    and "app_version app \<noteq> ''null''"
  shows "atVersion L (helmNs E app) app t \<and> ApplyHelm E L app cfgs t = (Ok (), t)"
proof -
  let ?ns = "helmNs E app"
  obtain v where i: "hl_init L ?ns = Ok v" and r: "(case hl_get L ?ns (app_name app) c of
           Ok old \<Rightarrow>
             (case mget (rl_labels old) BaetylHelmVersion of
                None \<Rightarrow> (Ok (), c)
              | Some version \<Rightarrow>
                  if version = app_version app then (Ok (), c)
                  else if app_preserveUpdates app then UpdateHelm L ?ns app cfgs old c
                  else sbind (hl_uninstall L ?ns (app_name app) c) (\<lambda>_ c. installHelm L ?ns app cfgs c))
         | Err _ \<Rightarrow> installHelm L ?ns app cfgs c
         | Panic p \<Rightarrow> (Panic p, c)) = (Ok u, t)"
    using assms(2) by (auto simp: ApplyHelm_def Let_def sbind_Ok_iff)
  have "atVersion L ?ns app t"
  proof (cases "hl_get L ?ns (app_name app) c")
    case (Ok old)
    with assms(3) obtain w where w: "mget (rl_labels old) BaetylHelmVersion = Some w" by fastforce
    show ?thesis
    proof (cases "w = app_version app")
      case True
      with Ok w r show ?thesis by (auto simp: atVersion_def)
    next
      case False
      with Ok w r installHelm_version[OF assms(1)] UpdateHelm_version[OF assms(1) _ assms(4)] show ?thesis
        by (auto simp: sbind_Ok_iff split: if_splits)
    qed
  qed (use r installHelm_version[OF assms(1)] in auto)
  moreover from this have "ApplyHelm E L app cfgs t = (Ok (), t)"
    using i by (auto simp: ApplyHelm_def Let_def atVersion_def)
  ultimately show ?thesis by simp
qed

text \<open>A release that somebody else installed under the name of the application blocks it silently.\<close>

lemma foreign_release_blocks:
  assumes "hl_init L (helmNs E app) = Ok ()" and "hl_get L (helmNs E app) (app_name app) c = Ok r"
    and "mget (rl_labels r) BaetylHelmVersion = None"
  shows "ApplyHelm E L app cfgs c = (Ok (), c)"
  using assms by (simp add: ApplyHelm_def Let_def)

text \<open>Pods are matched by substring: the pod of release \<open>shop\<close> counts for release \<open>hop\<close>.\<close>

lemma pod_of_other_release: "ob_name p = ''shop-0'' \<Longrightarrow> ofRelease [''hop''] p"
  by (simp add: ofRelease_def)

section \<open>Witness\<close>

definition mem_release :: "string \<Rightarrow> string \<Rightarrow> (string, string) gomap \<Rightarrow> release" where
  "mem_release ns n ls = \<lparr>rl_name = n, rl_namespace = ns, rl_labels = ls, rl_status = ''deployed''\<rparr>"

definition mergeLabels :: "(string, string) gomap \<Rightarrow> (string, string) gomap \<Rightarrow> (string, string) gomap" where
  "mergeLabels old new = concat (map (\<lambda>k. case mergedLabel old new k of Some v \<Rightarrow> [(k, v)] | None \<Rightarrow> []) (map fst (new @ old)))"

lemma mergeLabels_mget: "mget (mergeLabels old new) k = mergedLabel old new k"
proof -
  have one: "mget (concat (map (\<lambda>k. case f k of Some v \<Rightarrow> [(k, v)] | None \<Rightarrow> []) ks)) k = (if k \<in> set ks then f k else None)"
    for f :: "string \<Rightarrow> string option" and ks
    by (induction ks) (auto split: option.split)
  have "mergedLabel old new k = None" if "k \<notin> set (map fst (new @ old))"
    using that by (simp add: mergedLabel_def flip: map_of_eq_None_iff)
  then show ?thesis unfolding mergeLabels_def one by simp
qed

definition mem_helm :: "((string \<times> string, release) gomap, string) helm_lib" where
  "mem_helm = \<lparr>hl_init = (\<lambda>_. Ok ()), hl_list = (\<lambda>c. Ok (map snd c)),
     hl_get = (\<lambda>ns n c. case mget c (ns, n) of Some r \<Rightarrow> Ok r | None \<Rightarrow> Err ''release: not found''),
     hl_install = (\<lambda>ns n ls ch v c. (Ok (), mput (ns, n) (mem_release ns n ls) c)),
     hl_upgrade = (\<lambda>ns n ls ch v c. case mget c (ns, n) of
       None \<Rightarrow> (Err ''has no deployed releases'', c)
     | Some r \<Rightarrow> (Ok (), mput (ns, n) (mem_release ns n (mergeLabels (rl_labels r) ls)) c)),
     hl_uninstall = (\<lambda>ns n c. (Ok (), mdel (ns, n) c)),
     hl_load = (\<lambda>d. Ok d), hl_yaml = (\<lambda>_. Ok [])\<rparr>"

lemma mem_helm_ok: "helm_ok mem_helm"
  by (auto simp: helm_ok_def mem_helm_def mem_release_def map_simps mergeLabels_mget split: option.splits)

definition chart_app :: application where
  "chart_app = zero_application\<lparr>app_name := ''db'', app_version := ''2'', app_type := AppTypeHelm,
     app_services := [zero_service\<lparr>svc_name := ''db'', svc_image := ''db.tgz''\<rparr>],
     app_volumes := [zero_volume\<lparr>vol_name := ''chart'', vol_hostPath := Some \<lparr>hp_path = ''/charts'', hp_type = []\<rparr>\<rparr>]\<rparr>"

definition old_releases :: "(string \<times> string, release) gomap" where
  "old_releases = [((''default'', ''db''), mem_release ''default'' ''db'' [(BaetylHelmVersion, ''1'')])]"

definition new_releases :: "(string \<times> string, release) gomap" where
  "new_releases = [((''default'', ''db''), mem_release ''default'' ''db'' [(BaetylHelmVersion, ''2'')])]"

lemma chart_ns: "helmNs sample_env chart_app = ''default''"
  by (simp add: helmNs_def chart_app_def zero_application_def)

lemma chart_applied: "ApplyHelm sample_env mem_helm chart_app [] old_releases = (Ok (), new_releases)"
  unfolding ApplyHelm_def Let_def chart_ns
  by (simp add: mem_helm_def mem_release_def chart_app_def old_releases_def new_releases_def BaetylHelmVersion_def
      installHelm_def readChart_def setChartValues_def chartDir_def zero_application_def zero_service_def zero_volume_def)

theorem helm_converges_witness:
  "atVersion mem_helm ''default'' chart_app new_releases \<and>
   ApplyHelm sample_env mem_helm chart_app [] new_releases = (Ok (), new_releases)"
proof -
  have "mget (rl_labels r) BaetylHelmVersion \<noteq> None"
    if "hl_get mem_helm (helmNs sample_env chart_app) (app_name chart_app) old_releases = Ok r" for r
    using that by (auto simp: mem_helm_def old_releases_def mem_release_def split: if_splits)
  from helm_converges[OF mem_helm_ok chart_applied this] show ?thesis unfolding chart_ns by (simp add: chart_app_def)
qed

end
