(* ===== verification/Kube_Yaml.thy ===== *)
theory Kube_Yaml
  imports Kube_Helm Engine_Core
begin

text \<open>
  Applications given as Kubernetes YAML (\<^verbatim>\<open>ami/kube/kube_yaml.go\<close>): the documents of their
  configurations are split, decoded and handed to the dynamic client. Decoding, the conversion to
  unstructured objects, discovery and the dynamic client are the argument \<open>yaml_lib\<close>.
\<close>

section \<open>Documents\<close>

text \<open>\<^verbatim>\<open>strings.Split(s, sep)\<close> for a separator of any length.\<close>

fun splitOn :: "string \<Rightarrow> string \<Rightarrow> string \<Rightarrow> string list" where
  "splitOn sep acc [] = [rev acc]"
| "splitOn sep acc (c # s) =
     (if hasPrefix (c # s) sep then rev acc # splitOn sep [] (drop (length sep - 1) s)
      else splitOn sep (c # acc) s)"

definition isSpace :: "char \<Rightarrow> bool" where
  "isSpace c \<longleftrightarrow> c \<in> {CHR '' '', CHR 0x09, CHR 0x0A, CHR 0x0B, CHR 0x0C, CHR 0x0D}"

record yaml_obj =
  yo_group :: string
  yo_version :: string
  yo_kind :: string
  yo_name :: "string option"                 \<comment> \<open>none: the object has no metadata\<close>
  yo_namespace :: string
  yo_body :: json

type_synonym resource = "string \<times> string \<times> string"

record 'c yaml_lib =
  yl_decode :: "string \<Rightarrow> yaml_obj option"                          \<comment> \<open>none: an error\<close>
  yl_convert :: "yaml_obj \<Rightarrow> json result"                             \<comment> \<open>ToUnstructured\<close>
  yl_resources :: "string \<Rightarrow> 'c \<Rightarrow> (string \<times> string) list result"     \<comment> \<open>kind and resource name\<close>
  yl_apply :: "resource \<Rightarrow> string \<Rightarrow> string \<Rightarrow> json \<Rightarrow> 'c \<Rightarrow> unit result \<times> 'c"
  yl_delete :: "resource \<Rightarrow> string \<Rightarrow> string \<Rightarrow> 'c \<Rightarrow> unit result \<times> 'c"

text \<open>Blanks are the ASCII ones; a document that cannot be decoded is skipped.\<close>

definition decodeDoc :: "'c yaml_lib \<Rightarrow> string \<Rightarrow> yaml_obj list" where
  "decodeDoc Y f =
     (if list_all isSpace f then []
      else case yl_decode Y f of Some ob \<Rightarrow> [ob] | None \<Rightarrow> [])"

definition parseK8SYaml :: "'c yaml_lib \<Rightarrow> string \<Rightarrow> yaml_obj list" where
  "parseK8SYaml Y f = concat (map (decodeDoc Y) (splitOn ''---'' [] f))"

definition groupVersion :: "yaml_obj \<Rightarrow> string" where
  "groupVersion ob = (if yo_group ob = [] then yo_version ob else yo_group ob @ ''/'' @ yo_version ob)"

definition getResourceMapping :: "'c yaml_lib \<Rightarrow> yaml_obj \<Rightarrow> 'c \<Rightarrow> resource option" where
  "getResourceMapping Y ob c =
     (case yl_resources Y (groupVersion ob) c of
        Ok rs \<Rightarrow> map_option (\<lambda>kn. (yo_group ob, yo_version ob, snd kn)) (find (\<lambda>kn. fst kn = yo_kind ob) rs)
      | _ \<Rightarrow> None)"

section \<open>Applying and deleting\<close>

definition isYamlName :: "string \<Rightarrow> bool" where
  "isYamlName n \<longleftrightarrow> contains n ''yaml'' \<or> contains n ''yml''"

text \<open>Every failure of an object is only logged.\<close>

definition applyObject :: "'c yaml_lib \<Rightarrow> string \<Rightarrow> yaml_obj \<Rightarrow> 'c \<Rightarrow> unit result \<times> 'c" where
  "applyObject Y ns ob c =
     (case yo_name ob of
        None \<Rightarrow> (Ok (), c)
      | Some n \<Rightarrow>
          case yl_convert Y (ob\<lparr>yo_namespace := ns\<rparr>) of
            Ok u \<Rightarrow>
              (case getResourceMapping Y ob c of
                 None \<Rightarrow> (Ok (), c)
               | Some rsc \<Rightarrow> slog (yl_apply Y rsc ns n u c) (\<lambda>c. (Ok (), c)))
          | Err _ \<Rightarrow> (Ok (), c)
          | Panic p \<Rightarrow> (Panic p, c))"

definition deleteObject :: "'c yaml_lib \<Rightarrow> string \<Rightarrow> yaml_obj \<Rightarrow> 'c \<Rightarrow> unit result \<times> 'c" where
  "deleteObject Y ns ob c =
     (case yo_name ob of
        None \<Rightarrow> (Ok (), c)
      | Some n \<Rightarrow>
          case getResourceMapping Y ob c of
            None \<Rightarrow> (Ok (), c)
          | Some rsc \<Rightarrow> slog (yl_delete Y rsc ns n c) (\<lambda>c. (Ok (), c)))"

text \<open>The loops over configurations, their data and the documents, common to both.\<close>

definition eachObject :: "'c yaml_lib \<Rightarrow> (yaml_obj \<Rightarrow> 'c \<Rightarrow> unit result \<times> 'c) \<Rightarrow> (string, configuration) gomap \<Rightarrow>
    'c \<Rightarrow> unit result \<times> 'c" where
  "eachObject Y act cfgs c =
     sfor (\<lambda>kcfg. sfor (\<lambda>nd. if isYamlName (fst nd) then sfor act (parseK8SYaml Y (snd nd)) else (\<lambda>c. (Ok (), c)))
       (cfg_data (snd kcfg))) cfgs c"

definition applyYamlApp :: "'c yaml_lib \<Rightarrow> string \<Rightarrow> (string, configuration) gomap \<Rightarrow> 'c \<Rightarrow> unit result \<times> 'c" where
  "applyYamlApp Y ns cfgs c = eachObject Y (applyObject Y ns) cfgs c"

definition deleteYamlApp :: "'c yaml_lib \<Rightarrow> string \<Rightarrow> (string, configuration) gomap \<Rightarrow> 'c \<Rightarrow> unit result \<times> 'c" where
  "deleteYamlApp Y ns cfgs c = eachObject Y (deleteObject Y ns) cfgs c"

definition customNsLabel :: "env \<Rightarrow> application \<Rightarrow> string option" where
  "customNsLabel E app =
     (case mget (app_labels app) (e_customNs E) of
        Some ns \<Rightarrow> if ns \<noteq> [] then Some ns else None
      | None \<Rightarrow> None)"

definition ApplyYaml :: "env \<Rightarrow> 'c yaml_lib \<Rightarrow> application \<Rightarrow> (string, configuration) gomap \<Rightarrow> 'c \<Rightarrow> unit result \<times> 'c" where
  "ApplyYaml E Y app cfgs c =
     (case customNsLabel E app of
        None \<Rightarrow> (Ok (), c)
      | Some ns \<Rightarrow>
          sbind (if app_preserveUpdates app then (Ok (), c) else deleteYamlApp Y ns cfgs c) (\<lambda>_ c.
          applyYamlApp Y ns cfgs c))"

text \<open>Deleting reads the configurations from the store and forgets the recorded namespace first.\<close>

definition yamlConfig :: "env \<Rightarrow> 's store_ops \<Rightarrow> 's \<Rightarrow> volume \<Rightarrow> (string, configuration) gomap \<Rightarrow>
    (string, configuration) gomap result" where
  "yamlConfig E S s v cfgs =
     (case vol_config v of
        None \<Rightarrow> Ok cfgs
      | Some r \<Rightarrow>
          let key = MakeKey (e_kind E KindConfiguration) (ref_name r) (ref_version r)
          in if key = [] then Err ''failed to get config''
             else rbind (b_get (st_cfg S) s key) (\<lambda>cfg. Ok (mput (cfg_name cfg) cfg cfgs)))"

definition forgetCustom :: "'s engine_store \<Rightarrow> string \<Rightarrow> 's \<Rightarrow> unit result \<times> 's" where
  "forgetCustom N n s =
     (case en_getCustom N s of
        Ok ci \<Rightarrow> en_putCustom N (mdel n ci) s
      | Err _ \<Rightarrow> (Ok (), s)
      | Panic p \<Rightarrow> (Panic p, s))"

definition DeleteYaml :: "env \<Rightarrow> 's engine_store \<Rightarrow> 'c yaml_lib \<Rightarrow> application \<Rightarrow> 'c \<times> 's \<Rightarrow> unit result \<times> ('c \<times> 's)" where
  "DeleteYaml E N Y app w =
     sbind (rfor (yamlConfig E (en_ops N) (snd w)) (app_volumes app) [], w) (\<lambda>cfgs w.
     sbind (let (r, s) = forgetCustom N (app_name app) (snd w) in (r, (fst w, s))) (\<lambda>_ w.
     case customNsLabel E app of
       None \<Rightarrow> (Ok (), w)
     | Some ns \<Rightarrow> let (r, c) = deleteYamlApp Y ns cfgs (fst w) in (r, (c, snd w))))"

section \<open>Statistics\<close>

definition collectCustomStats :: "'c cluster \<Rightarrow> collect_lib \<Rightarrow> string \<Rightarrow> app_info \<times> string \<Rightarrow> 'c \<Rightarrow> app_stats result" where
  "collectCustomStats K B n info c =
     (let stats = zero_app_stats\<lparr>as_name := ai_name (fst info), as_version := ai_version (fst info),
            as_deployType := cb_workload B WorkloadCustom\<rparr>
      in rmap (\<lambda>pods.
           if pods = [] then stats\<lparr>as_status := Running\<rparr>
           else let ins = instancesOf K B (snd info) n c pods []
                in stats\<lparr>as_instances := Some ins,
                     as_status := kube_getAppStatus (as_status stats) (word_of_nat (length pods)) ins\<rparr>)
           (api_list (cl_pods K) (snd info) [] c))"

definition StatsYaml :: "'s engine_store \<Rightarrow> 'c cluster \<Rightarrow> collect_lib \<Rightarrow> (custom_info \<Rightarrow> custom_info) \<Rightarrow> 'c \<times> 's \<Rightarrow>
    app_stats list result" where
  "StatsYaml N K B rng w =
     (case en_getCustom N (snd w) of
        Ok ci \<Rightarrow> rmapM (\<lambda>ni. collectCustomStats K B (fst ni) (snd ni) (fst w)) (rng ci)
      | Err _ \<Rightarrow> Ok []
      | Panic p \<Rightarrow> Panic p)"

section \<open>Splitting documents\<close>

lemma splitOn_free:
  "\<not> contains s sep \<Longrightarrow> sep \<noteq> [] \<Longrightarrow> splitOn sep acc s = [rev acc @ s]"
proof (induction s arbitrary: acc)
  case Nil
  then show ?case by simp
next
  case (Cons c s)
  then show ?case by (auto simp: hasPrefix_iff)
qed

text \<open>A text without the separator that does not end in a dash runs up to the separator.\<close>

lemma splitOn_step:
  assumes "\<not> contains d ''---''" and "d = [] \<or> last d \<noteq> CHR ''-''"
  shows "splitOn ''---'' acc (d @ ''---'' @ s) = (rev acc @ d) # splitOn ''---'' [] s"
  using assms
proof (induction d arbitrary: acc)
  case Nil
  then show ?case by (simp add: hasPrefix_def)
next
  case (Cons c d)
  have "\<not> hasPrefix (c # d @ ''---'' @ s) ''---''"
  proof
    assume h: "hasPrefix (c # d @ ''---'' @ s) ''---''"
    then have c: "c = CHR ''-''" by (simp add: hasPrefix_def)
    with Cons.prems(2) have "d \<noteq> []" by auto
    then obtain x d' where d: "d = x # d'" by (cases d) auto
    with h have x: "x = CHR ''-''" by (simp add: hasPrefix_def)
    with Cons.prems(2) d have "d' \<noteq> []" by auto
    then obtain y d'' where d': "d' = y # d''" by (cases d') auto
    with h d have "y = CHR ''-''" by (simp add: hasPrefix_def)
    with c x d d' Cons.prems(1) show False by simp
  qed
  moreover from Cons.prems have "splitOn ''---'' (c # acc) (d @ ''---'' @ s) = (rev (c # acc) @ d) # splitOn ''---'' [] s"
    by (intro Cons.IH) auto
  ultimately show ?case by simp
qed

lemma splitOn_join:
  assumes "\<And>d. d \<in> set ds \<Longrightarrow> \<not> contains d ''---'' \<and> (d = [] \<or> last d \<noteq> CHR ''-'')" and "ds \<noteq> []"
  shows "splitOn ''---'' [] (join ''---'' ds) = ds"
  using assms
proof (induction ds rule: induct_list012)
  case 1
  then show ?case by simp
next
  case (2 d)
  then show ?case by (simp add: splitOn_free)
next
  case (3 d e ds)
  then show ?case using splitOn_step[of d "[]" "join ''---'' (e # ds)"] by simp
qed

text \<open>
  C39. A YAML text gives the objects of its documents: join documents of which none contains the
  separator or ends in a dash (a certificate in a document contains it, lemma \<open>pem_torn\<close>), some of which
  the decoder reads as an object and others are blank or cannot be decoded. Then \<^verbatim>\<open>parseK8SYaml\<close> gives
  exactly the objects of the former, in order, and skips the latter.
\<close>

theorem yaml_documents:
  assumes "\<And>d. d \<in> set (map fst docs) \<Longrightarrow> \<not> contains d ''---'' \<and> (d = [] \<or> last d \<noteq> CHR ''-'')" and "docs \<noteq> []"
    and "\<And>d ob. (d, Some ob) \<in> set docs \<Longrightarrow> (\<exists>c \<in> set d. \<not> isSpace c) \<and> yl_decode Y d = Some ob"
    and "\<And>d. (d, None) \<in> set docs \<Longrightarrow> (\<forall>c \<in> set d. isSpace c) \<or> yl_decode Y d = None"
  shows "parseK8SYaml Y (join ''---'' (map fst docs)) = [ob. (d, Some ob) \<leftarrow> docs]"
proof -
  have "splitOn ''---'' [] (join ''---'' (map fst docs)) = map fst docs"
    by (rule splitOn_join[OF assms(1)]) (use assms(2) in simp_all)
  moreover have "decodeDoc Y (fst dx) = (case snd dx of Some ob \<Rightarrow> [ob] | None \<Rightarrow> [])" if "dx \<in> set docs" for dx
  proof (cases "snd dx")
    case None
    with that have "(fst dx, None) \<in> set docs" by (metis prod.collapse)
    from assms(4)[OF this] None show ?thesis by (auto simp: decodeDoc_def list_all_iff)
  next
    case (Some ob)
    with that have "(fst dx, Some ob) \<in> set docs" by (metis prod.collapse)
    from assms(3)[OF this] Some show ?thesis by (auto simp: decodeDoc_def list_all_iff)
  qed
  ultimately show ?thesis
    by (auto simp: parseK8SYaml_def comp_def intro!: arg_cong[where f = concat] split: option.split)
qed

definition plain_yaml :: "unit yaml_lib" where
  "plain_yaml = \<lparr>
     yl_decode = (\<lambda>f. Some \<lparr>yo_group = [], yo_version = ''v1'', yo_kind = ''Pod'', yo_name = Some f,
                            yo_namespace = [], yo_body = JNull\<rparr>),
     yl_convert = (\<lambda>ob. Ok (yo_body ob)), yl_resources = (\<lambda>_ _. Ok [(''Pod'', ''pods'')]),
     yl_apply = (\<lambda>_ _ _ _ c. (Ok (), c)), yl_delete = (\<lambda>_ _ _ c. (Ok (), c))\<rparr>"

lemma plain_decode: "yl_decode plain_yaml f = Some \<lparr>yo_group = [], yo_version = ''v1'', yo_kind = ''Pod'', yo_name = Some f,
    yo_namespace = [], yo_body = JNull\<rparr>"
  by (simp add: plain_yaml_def)

theorem yaml_documents_witness:
  "map yo_name (parseK8SYaml plain_yaml ''a: 1--- ---b: 2'') = [Some ''a: 1'', Some ''b: 2'']"
proof -
  define x where "x = yl_decode plain_yaml ''a: 1''"
  define y where "y = yl_decode plain_yaml ''b: 2''"
  let ?docs = "[(''a: 1'', x), ('' '', None), (''b: 2'', y)]"
  have xy: "\<exists>o1 o2. x = Some o1 \<and> y = Some o2 \<and> yo_name o1 = Some ''a: 1'' \<and> yo_name o2 = Some ''b: 2''"
    by (simp add: x_def y_def plain_decode)
  have dash: "\<not> contains d ''---'' \<and> (d = [] \<or> last d \<noteq> CHR ''-'')" if "d \<in> set (map fst ?docs)" for d
    using that by auto
  have some: "(\<exists>c \<in> set d. \<not> isSpace c) \<and> yl_decode plain_yaml d = Some ob" if "(d, Some ob) \<in> set ?docs" for d ob
  proof -
    from that have "d = ''a: 1'' \<and> x = Some ob \<or> d = ''b: 2'' \<and> y = Some ob" by simp blast
    then show ?thesis by (elim disjE conjE) (simp_all add: x_def y_def isSpace_def)
  qed
  have none: "(\<forall>c \<in> set d. isSpace c) \<or> yl_decode plain_yaml d = None" if "(d, None) \<in> set ?docs" for d
  proof -
    from that xy have "d = '' ''" by auto
    then show ?thesis by (simp add: isSpace_def)
  qed
  have "parseK8SYaml plain_yaml (join ''---'' (map fst ?docs)) = [ob. (d, Some ob) \<leftarrow> ?docs]"
    by (rule yaml_documents[OF dash _ some none]) simp_all
  with xy show ?thesis by auto
qed

text \<open>The marker of a PEM block contains the separator: a document with a certificate is torn apart.\<close>

lemma pem_torn: "splitOn ''---'' [] ''crt: -----BEGIN'' = [''crt: '', ''--BEGIN'']"
  by code_simp

text \<open>Whatever the server refuses, applying reports success.\<close>

definition no_panic :: "'c yaml_lib \<Rightarrow> bool" where
  "no_panic Y \<longleftrightarrow>
     (\<forall>ob p. yl_convert Y ob \<noteq> Panic p) \<and>
     (\<forall>r ns n u c p. fst (yl_apply Y r ns n u c) \<noteq> Panic p) \<and> (\<forall>r ns n c p. fst (yl_delete Y r ns n c) \<noteq> Panic p)"

lemma slog_Ok: "(\<forall>p. fst m \<noteq> Panic p) \<Longrightarrow> fst (slog m (\<lambda>c. (Ok (), c))) = Ok ()"
  by (cases m; cases "fst m") auto

lemma sfor_Ok: "(\<And>x s. x \<in> set xs \<Longrightarrow> fst (f x s) = Ok ()) \<Longrightarrow> fst (sfor f xs s) = Ok ()"
proof (induction xs arbitrary: s)
  case Nil
  then show ?case by simp
next
  case (Cons x xs)
  obtain s' where "f x s = (Ok (), s')" using Cons.prems[of x s] by (metis list.set_intros(1) prod.collapse)
  with Cons show ?case by simp
qed

lemma eachObject_Ok:
  assumes "\<And>ob c. fst (act ob c) = Ok ()"
  shows "fst (eachObject Y act cfgs c) = Ok ()"
  unfolding eachObject_def by (intro sfor_Ok) (simp add: assms sfor_Ok)

lemma objects_Ok:
  assumes "no_panic Y"
  shows "fst (applyObject Y ns ob c) = Ok ()" and "fst (deleteObject Y ns ob c) = Ok ()"
proof -
  have pa: "\<forall>p. fst (yl_apply Y rsc ns n u c) \<noteq> Panic p" and pd: "\<forall>p. fst (yl_delete Y rsc ns n c) \<noteq> Panic p" for rsc n u
    using assms unfolding no_panic_def by (simp_all del: split_paired_All)
  note a = slog_Ok[OF pa] and d = slog_Ok[OF pd]
  show "fst (applyObject Y ns ob c) = Ok ()" "fst (deleteObject Y ns ob c) = Ok ()"
    using assms by (auto simp: applyObject_def deleteObject_def no_panic_def a d split: option.split result.split)
qed

lemma apply_yaml_never_fails:
  assumes "no_panic Y"
  shows "fst (ApplyYaml E Y app cfgs c) = Ok ()"
proof (cases "customNsLabel E app")
  case (Some ns)
  have "fst (deleteYamlApp Y ns cfgs c) = Ok ()" "fst (applyYamlApp Y ns cfgs t) = Ok ()" for t
    unfolding deleteYamlApp_def applyYamlApp_def by (rule eachObject_Ok, rule objects_Ok[OF assms])+
  then show ?thesis
    unfolding ApplyYaml_def Some by (cases "deleteYamlApp Y ns cfgs c") auto
qed (simp add: ApplyYaml_def)

section \<open>Forgetting a deleted application\<close>

text \<open>The record of namespaces is stored like any other record.\<close>

definition custom_ok :: "'s engine_store \<Rightarrow> bool" where
  "custom_ok N \<longleftrightarrow> (\<forall>ci s t. en_putCustom N ci s = (Ok (), t) \<longrightarrow> en_getCustom N t = Ok ci)"

text \<open>
  A deleted YAML application is forgotten: after a successful deletion the recorded namespaces
  no longer name it and name every other application as before, so that its pods are not reported.
\<close>

theorem deleted_yaml_forgotten:
  assumes "custom_ok N" and "DeleteYaml E N Y app w = (Ok u, w')" and "en_getCustom N (snd w) = Ok ci"
  shows "\<exists>ci'. en_getCustom N (snd w') = Ok ci' \<and> mget ci' = (mget ci)(app_name app := None)"
proof -
  obtain r s where f: "forgetCustom N (app_name app) (snd w) = (r, s)" by (rule prod.exhaust)
  from assms(2) obtain v cfgs where "r = Ok v" and r: "(case customNsLabel E app of None \<Rightarrow> (Ok (), (fst w, s))
       | Some ns \<Rightarrow> let (r, c) = deleteYamlApp Y ns cfgs (fst (fst w, s)) in (r, (c, snd (fst w, s)))) = (Ok u, w')"
    by (auto simp: DeleteYaml_def sbind_Ok_iff f simp del: split_paired_Ex split: prod.splits)
  with f have s: "forgetCustom N (app_name app) (snd w) = (Ok (), s)" by simp
  from r have "snd w' = s" by (auto simp: case_prod_beta' Let_def split: option.splits)
  moreover from s assms(3) have "en_putCustom N (mdel (app_name app) ci) (snd w) = (Ok (), s)"
    by (simp add: forgetCustom_def)
  ultimately have "en_getCustom N (snd w') = Ok (mdel (app_name app) ci)"
    using assms(1) unfolding custom_ok_def by blast
  then show ?thesis by (auto simp: map_simps)
qed

definition no_bucket :: "('s, 'v) bucket_ops" where
  "no_bucket = \<lparr>b_get = (\<lambda>_ _. Err ''not found''), b_upsert = (\<lambda>_ _ s. (Err ''read only'', s)),
     b_delete = (\<lambda>_ s. (Err ''read only'', s)), b_all = (\<lambda>_. Ok [])\<rparr>"

definition custom_store :: "custom_info engine_store" where
  "custom_store = \<lparr>en_ops = \<lparr>st_app = no_bucket, st_cfg = no_bucket, st_sec = no_bucket\<rparr>,
     en_getCustom = (\<lambda>s. Ok s), en_putCustom = (\<lambda>ci _. (Ok (), ci))\<rparr>"

theorem deleted_yaml_forgotten_witness:
  "\<exists>ci'. en_getCustom custom_store (snd (snd (DeleteYaml sample_env custom_store plain_yaml
      (zero_application\<lparr>app_name := ''y''\<rparr>) ((), [(''y'', \<lparr>ai_name = ''y'', ai_version = ''1''\<rparr>, ''ns'')])))) = Ok ci' \<and>
    mget ci' ''y'' = None"
proof -
  let ?ci = "[(''y'', \<lparr>ai_name = ''y'', ai_version = ''1''\<rparr>, ''ns'')]" and ?app = "zero_application\<lparr>app_name := ''y''\<rparr>"
  have ok: "custom_ok custom_store" by (simp add: custom_ok_def custom_store_def)
  have del: "DeleteYaml sample_env custom_store plain_yaml ?app ((), ?ci) = (Ok (), ((), []))"
    by (simp add: DeleteYaml_def zero_application_def forgetCustom_def custom_store_def customNsLabel_def)
  have "en_getCustom custom_store (snd ((), ?ci)) = Ok ?ci" by (simp add: custom_store_def)
  from deleted_yaml_forgotten[OF ok del this] show ?thesis by (simp add: del)
qed

end
