(* ===== verification/Kube.thy ===== *)
theory Kube
  imports Kube_Yaml
begin

text \<open>
  The Kubernetes platform (\<^verbatim>\<open>ami/kube/kube.go\<close>) over its parts: applying, deleting and observing an
  application by its type, and the small operations of \<^verbatim>\<open>kube_log.go\<close>, \<^verbatim>\<open>kube_describe.go\<close> and
  \<^verbatim>\<open>kube_exec.go\<close>.
\<close>

section \<open>Applying\<close>

definition registryNames :: "'c kube \<Rightarrow> (string, secret) gomap \<Rightarrow> string list" where
  "registryNames KP secs = map fst (filter (\<lambda>ns. isRegistrySecret KP (snd ns)) secs)"

definition applyContainers :: "'c kube \<Rightarrow> string \<Rightarrow> application \<Rightarrow> (string, configuration) gomap \<Rightarrow>
    (string, secret) gomap \<Rightarrow> 'c \<Rightarrow> unit result \<times> 'c" where
  "applyContainers KP ns app cfgs secs c =
     sbind (applyConfigurations KP ns cfgs c) (\<lambda>_ c.
     sbind (applySecrets KP ns secs c) (\<lambda>_ c.
     sbind (if app_preserveUpdates app then (Ok (), c)
            else deleteApplication (kp_cluster KP) ns (app_name app) c) (\<lambda>_ c.
     applyApplication KP ns app (registryNames KP secs) c)))"

definition kube_ApplyApp :: "'c kube \<Rightarrow> ('c, 'x) helm_lib \<Rightarrow> 'c yaml_lib \<Rightarrow> string \<Rightarrow> application \<Rightarrow>
    (string, configuration) gomap \<Rightarrow> (string, secret) gomap \<Rightarrow> 'c \<Rightarrow> unit result \<times> 'c" where
  "kube_ApplyApp KP L Y ns0 app cfgs secs c =
     (let E = kp_env KP; yaml = (app_type app = AppTypeYaml);
          ns = (if yaml then (case mget (app_labels app) (e_customNs E) of Some n \<Rightarrow> n | None \<Rightarrow> []) else ns0)
      in if app_type app = AppTypeHelm then ApplyHelm E L app cfgs c
         else sbind (checkAndCreateNamespace (kp_cluster KP) ns c) (\<lambda>_ c.
              if yaml then ApplyYaml E Y app cfgs c else applyContainers KP ns app cfgs secs c))"

section \<open>Deleting\<close>

definition kube_DeleteApp :: "'c kube \<Rightarrow> ('c, 'x) helm_lib \<Rightarrow> 'c yaml_lib \<Rightarrow> 's engine_store \<Rightarrow> (string \<Rightarrow> bool) \<Rightarrow>
    string \<Rightarrow> app_info \<Rightarrow> 'c \<times> 's \<Rightarrow> unit result \<times> ('c \<times> 's)" where
  "kube_DeleteApp KP L Y N notFound ns app w =
     (let E = kp_env KP;
          rest = (\<lambda>w. case b_get (st_app (en_ops N)) (snd w)
                        (MakeKey (e_kind E KindApplication) (ai_name app) (ai_version app)) of
              Ok delApp \<Rightarrow>
                if app_type delApp = AppTypeYaml then DeleteYaml E N Y delApp w
                else (let (r, c) = deleteApplication (kp_cluster KP) ns (ai_name app) (fst w) in (r, (c, snd w)))
            | Err e \<Rightarrow>
                if notFound e
                then (let (r, c) = deleteApplication (kp_cluster KP) ns (ai_name app) (fst w) in (r, (c, snd w)))
                else (Err e, w)
            | Panic p \<Rightarrow> (Panic p, w))
      in if ns = e_edgeNs E
         then let (r, c) = DeleteHelm L (ai_name app) (fst w)
              in if r = Err ErrNotHelmApp then rest (c, snd w) else (r, (c, snd w))
         else rest w)"

section \<open>Observing\<close>

text \<open>What has been collected is answered beside the error when the charts or the yaml applications fail.\<close>

definition kube_StatsApps :: "'c kube \<Rightarrow> collect_lib \<Rightarrow> ('c, 'x) helm_lib \<Rightarrow> 's engine_store \<Rightarrow>
    ((string, app_stats) gomap \<Rightarrow> (string, app_stats) gomap) \<Rightarrow>
    ((string, string list) gomap \<Rightarrow> (string, string list) gomap) \<Rightarrow> (custom_info \<Rightarrow> custom_info) \<Rightarrow>
    string \<Rightarrow> 'c \<times> 's \<Rightarrow> app_stats list \<times> unit result" where
  "kube_StatsApps KP B L N rng rngN rngC ns w =
     (let K = kp_cluster KP; c = fst w
      in case rbind (collectDeploymentStats K B rng ns c) (\<lambda>dps.
              rbind (collectDaemonSetStats K B rng ns c) (\<lambda>dss.
              rbind (collectJobStats K B rng ns c) (\<lambda>js. Ok (dps @ dss @ js)))) of
           Err e \<Rightarrow> ([], Err e)
         | Panic p \<Rightarrow> ([], Panic p)
         | Ok res \<Rightarrow>
             if ns = e_edgeNs (kp_env KP)
             then (case StatsHelm K B L rngN rng c of
                     Err e \<Rightarrow> (res, Err e)
                   | Panic p \<Rightarrow> (res, Panic p)
                   | Ok hs \<Rightarrow> (case StatsYaml N K B rngC w of
                       Err e \<Rightarrow> (res @ hs, Err e)
                     | Panic p \<Rightarrow> (res @ hs, Panic p)
                     | Ok ys \<Rightarrow> (res @ hs @ ys, Ok ())))
             else (res, Ok ()))"

section \<open>Logs, descriptions, labels\<close>

record log_config =
  lc_follow :: bool
  lc_previous :: bool
  lc_timestamps :: bool

record log_options =
  lo_container :: string
  lo_follow :: bool
  lo_previous :: bool
  lo_timestamps :: bool
  lo_tailLines :: "int option"
  lo_sinceSeconds :: "int option"

definition toLogOptions :: "log_config \<Rightarrow> string \<Rightarrow> int \<Rightarrow> int \<Rightarrow> log_options" where
  "toLogOptions C cont tailLines sinceSeconds =
     \<lparr>lo_container = cont, lo_follow = lc_follow C, lo_previous = lc_previous C,
      lo_timestamps = lc_timestamps C,
      lo_tailLines = (if tailLines > 0 then Some tailLines else None),
      lo_sinceSeconds = (if sinceSeconds > 0 then Some sinceSeconds else None)\<rparr>"

definition kube_FetchLog :: "(string \<Rightarrow> string \<Rightarrow> log_options \<Rightarrow> 'c \<Rightarrow> string result) \<Rightarrow> log_config \<Rightarrow> string \<Rightarrow> string \<Rightarrow>
    string \<Rightarrow> int \<Rightarrow> int \<Rightarrow> 'c \<Rightarrow> string result" where
  "kube_FetchLog getLogs C ns podName cont tailLines sinceSeconds c =
     getLogs ns podName (toLogOptions C cont tailLines sinceSeconds) c"

definition trimSpace :: "string \<Rightarrow> string" where
  "trimSpace s = rev (dropWhile isSpace (rev (dropWhile isSpace s)))"

definition describeKind :: "string \<Rightarrow> (string \<times> string) result" where
  "describeKind tp =
     (let t = trimSpace (toLower tp)
      in if t \<in> {''pod'', ''pods'', ''po''} then Ok ('''', ''Pod'')
         else if t \<in> {''deploy'', ''deployment'', ''deployments''} then Ok (''apps'', ''Deployment'')
         else if t \<in> {''sts'', ''statefulsets'', ''statefulset''} then Ok (''apps'', ''StatefulSet'')
         else if t \<in> {''ds'', ''daemonsets'', ''daemonset''} then Ok (''apps'', ''DaemonSet'')
         else if t \<in> {''cm'', ''configmap'', ''configmaps''} then Ok ('''', ''ConfigMap'')
         else if t \<in> {''secrets'', ''secret''} then Ok ('''', ''Secret'')
         else if t \<in> {''svc'', ''services'', ''service''} then Ok ('''', ''Service'')
         else if t \<in> {''job'', ''jobs''} then Ok (''batch'', ''Job'')
         else if t \<in> {''cronjobs'', ''cronjob''} then Ok (''batch'', ''CronJob'')
         else if t \<in> {''no'', ''nodes'', ''node''} then Ok ('''', ''Node'')
         else Err ''describe schema type not support'')"

definition RemoteDescribe :: "(string \<times> string \<Rightarrow> (string \<Rightarrow> string \<Rightarrow> string result) option) \<Rightarrow> string \<Rightarrow> string \<Rightarrow> string \<Rightarrow> string result" where
  "RemoteDescribe describer tp ns n =
     rbind (describeKind tp) (\<lambda>gk.
       case describer gk of Some d \<Rightarrow> d ns n | None \<Rightarrow> Err ''describe type not support'')"

definition UpdateNodeLabels :: "'c cluster \<Rightarrow> string \<Rightarrow> (string, string) gomap \<Rightarrow> 'c \<Rightarrow> unit result \<times> 'c" where
  "UpdateNodeLabels K n labels c =
     sbind (api_get (cl_nodes K) [] n c, c) (\<lambda>node c. api_update (cl_nodes K) [] (node\<lparr>ob_labels := labels\<rparr>) c)"

section \<open>One workload per application\<close>

text \<open>Creating a namespace touches no object.\<close>

definition namespaces_apart :: "'c cluster \<Rightarrow> bool" where
  "namespaces_apart K \<longleftrightarrow> (\<forall>ns c k. sees K k c (snd (cl_nsCreate K ns c)))"

lemma checkAndCreateNamespace_sees:
  "namespaces_apart K \<Longrightarrow> sees K k c (snd (checkAndCreateNamespace K ns c))"
  unfolding checkAndCreateNamespace_def namespaces_apart_def
  by (auto simp: sees_refl split: result.split)

lemma place_read_steps:
  "(steps A)\<^sup>*\<^sup>* c s \<Longrightarrow> (steps A)\<^sup>*\<^sup>* c (snd (sbind (m, s) (\<lambda>x s. replaceOrCreate A ns (f x) s)))"
  by (cases m) (auto intro: rtranclp_trans plain.place_steps)

lemma applyConfigurations_acts: "(acts (kp_cluster KP) RConfig)\<^sup>*\<^sup>* c (snd (applyConfigurations KP ns cfgs c))"
  unfolding applyConfigurations_def acts.simps
  by (rule sfor_inv[where I = "(steps (cl_configs (kp_cluster KP)))\<^sup>*\<^sup>* c"]) (auto intro: place_read_steps)

lemma applySecrets_acts: "(acts (kp_cluster KP) RSecret)\<^sup>*\<^sup>* c (snd (applySecrets KP ns secs c))"
  unfolding applySecrets_def acts.simps
  by (rule sfor_inv[where I = "(steps (cl_secrets (kp_cluster KP)))\<^sup>*\<^sup>* c"]) (auto intro: place_read_steps)

text \<open>The object \<open>n\<close> is there and carries the label of application \<open>a\<close>.\<close>

definition carries :: "('c, 'b) api \<Rightarrow> string \<Rightarrow> string \<Rightarrow> 'c \<Rightarrow> string \<Rightarrow> bool" where
  "carries A ns a c n \<longleftrightarrow> (\<exists>ob. api_get A ns n c = Ok ob \<and> mget (ob_labels ob) AppName = Some a)"

lemma absent_carries: "absent A ns [(AppName, a)] c \<Longrightarrow> \<not> carries A ns a c n"
  by (auto simp: absent_def carries_def selects_def)

lemma container_apply:
  assumes "app_type app \<noteq> AppTypeHelm" and "app_type app \<noteq> AppTypeYaml"
  shows "kube_ApplyApp KP L Y ns app cfgs secs c =
    sbind (checkAndCreateNamespace (kp_cluster KP) ns c) (\<lambda>_ c. applyContainers KP ns app cfgs secs c)"
  using assms by (simp add: kube_ApplyApp_def Let_def)

text \<open>
  C7. Applying replaces: after a successful apply of a container application that does not ask to
  keep its objects, the only workload of the namespace that carries its label is the one of its
  current kind under its name; deployments, daemon sets and jobs of earlier versions are gone.
\<close>

theorem apply_replaces:
  assumes "cluster_ok D (kp_cluster KP)" and "app_type app \<noteq> AppTypeHelm" and "app_type app \<noteq> AppTypeYaml"
    and "\<not> app_preserveUpdates app" and "kube_ApplyApp KP L Y ns app cfgs secs c = (Ok u, t)"
    and "w = app_workload (readied (registryNames KP secs) app)"
  shows "(\<forall>n. carries (cl_deploys (kp_cluster KP)) ns (app_name app) t n \<longrightarrow> n = app_name app \<and> w = WorkloadDeployment) \<and>
    (\<forall>n. carries (cl_daemons (kp_cluster KP)) ns (app_name app) t n \<longrightarrow> n = app_name app \<and> w = WorkloadDaemonSet) \<and>
    (\<forall>n. carries (cl_jobs (kp_cluster KP)) ns (app_name app) t n \<longrightarrow> n = app_name app \<and> w = WorkloadJob)"
proof -
  let ?K = "kp_cluster KP" and ?pull = "registryNames KP secs"
  from assms(5) obtain v1 c1 v2 c2 v3 c3 v4 c4 where
      "deleteApplication ?K ns (app_name app) c3 = (Ok v4, c4)" and ap: "applyApplication KP ns app ?pull c4 = (Ok u, t)"
    unfolding container_apply[OF assms(2,3)] applyContainers_def sbind_Ok_iff using assms(4)
    by (elim exE conjE) simp
  from delete_absent[OF assms(1) this(1)] have
    abs: "absent (cl_deploys ?K) ns [(AppName, app_name app)] c4" "absent (cl_daemons ?K) ns [(AppName, app_name app)] c4"
      "absent (cl_jobs ?K) ns [(AppName, app_name app)] c4" by simp_all
  note t = application_touches[OF assms(1), of ns _ ns app ?pull c4, unfolded ap snd_conv]
  have "\<not> carries (cl_deploys ?K) ns (app_name app) t n" if "(ns, n) \<noteq> (ns, app_name app) \<or> w \<noteq> WorkloadDeployment" for n
    using absent_carries[OF abs(1), of n] unfolding carries_def t(1)[OF that[unfolded assms(6)]] .
  moreover have "\<not> carries (cl_daemons ?K) ns (app_name app) t n" if "(ns, n) \<noteq> (ns, app_name app) \<or> w \<noteq> WorkloadDaemonSet" for n
    using absent_carries[OF abs(2), of n] unfolding carries_def t(2)[OF that[unfolded assms(6)]] .
  moreover have "\<not> carries (cl_jobs ?K) ns (app_name app) t n" if "(ns, n) \<noteq> (ns, app_name app) \<or> w \<noteq> WorkloadJob" for n
    using absent_carries[OF abs(3), of n] unfolding carries_def t(3)[OF that[unfolded assms(6)]] .
  ultimately show ?thesis by auto
qed

text \<open>
  C8. Applying an application of container type (neither a chart nor yaml) leaves the workloads of the
  others alone: whatever fails on the way, a deployment, daemon set or job that has another name and
  another application label, or lives in another namespace, is left as it was.
\<close>

theorem apply_spares_others:
  assumes "cluster_ok D (kp_cluster KP)" and "namespaces_apart (kp_cluster KP)"
    and "app_type app \<noteq> AppTypeHelm" and "app_type app \<noteq> AppTypeYaml"
    and "kube_ApplyApp KP L Y ns app cfgs secs c = (r, t)" and "ns' \<noteq> ns \<or> n \<noteq> app_name app"
  shows "(\<forall>ob. api_get (cl_deploys (kp_cluster KP)) ns' n c = Ok ob \<longrightarrow>
        ns' \<noteq> ns \<or> mget (ob_labels ob) AppName \<noteq> Some (app_name app) \<longrightarrow> api_get (cl_deploys (kp_cluster KP)) ns' n t = Ok ob) \<and>
    (\<forall>ob. api_get (cl_daemons (kp_cluster KP)) ns' n c = Ok ob \<longrightarrow>
        ns' \<noteq> ns \<or> mget (ob_labels ob) AppName \<noteq> Some (app_name app) \<longrightarrow> api_get (cl_daemons (kp_cluster KP)) ns' n t = Ok ob) \<and>
    (\<forall>ob. api_get (cl_jobs (kp_cluster KP)) ns' n c = Ok ob \<longrightarrow>
        ns' \<noteq> ns \<or> mget (ob_labels ob) AppName \<noteq> Some (app_name app) \<longrightarrow> api_get (cl_jobs (kp_cluster KP)) ns' n t = Ok ob)"
proof -
  let ?K = "kp_cluster KP" and ?sel = "[(AppName, app_name app)]"
  have sel: "selects ?sel l \<longleftrightarrow> mget l AppName = Some (app_name app)" for l by (simp add: selects_def)
  have nm: "(ns', n) \<noteq> (ns, app_name app)" using assms(6) by auto
  define I where "I s \<longleftrightarrow>
      (\<forall>ob. api_get (cl_deploys ?K) ns' n c = Ok ob \<longrightarrow> ns' \<noteq> ns \<or> \<not> selects ?sel (ob_labels ob) \<longrightarrow> api_get (cl_deploys ?K) ns' n s = Ok ob) \<and>
      (\<forall>ob. api_get (cl_daemons ?K) ns' n c = Ok ob \<longrightarrow> ns' \<noteq> ns \<or> \<not> selects ?sel (ob_labels ob) \<longrightarrow> api_get (cl_daemons ?K) ns' n s = Ok ob) \<and>
      (\<forall>ob. api_get (cl_jobs ?K) ns' n c = Ok ob \<longrightarrow> ns' \<noteq> ns \<or> \<not> selects ?sel (ob_labels ob) \<longrightarrow> api_get (cl_jobs ?K) ns' n s = Ok ob)" for s
  have agree: "I s'" if "I s" "agree (cl_deploys ?K) s s'" "agree (cl_daemons ?K) s s'" "agree (cl_jobs ?K) s s'" for s s'
    using that unfolding I_def agree_def by simp
  have ns: "I (snd (checkAndCreateNamespace ?K ns s))" if "I s" for s
    using checkAndCreateNamespace_sees[OF assms(2), of RDeploy s ns]
      checkAndCreateNamespace_sees[OF assms(2), of RDaemon s ns]
      checkAndCreateNamespace_sees[OF assms(2), of RJob s ns]
    by (intro agree[OF that]) simp_all
  have cfg: "I (snd (applyConfigurations KP ns cfgs s))" if "I s" for s
    using acts_frame[OF assms(1) _ applyConfigurations_acts, of RDeploy s ns cfgs]
      acts_frame[OF assms(1) _ applyConfigurations_acts, of RDaemon s ns cfgs]
      acts_frame[OF assms(1) _ applyConfigurations_acts, of RJob s ns cfgs]
    by (intro agree[OF that]) simp_all
  have sec: "I (snd (applySecrets KP ns secs s))" if "I s" for s
    using acts_frame[OF assms(1) _ applySecrets_acts, of RDeploy s ns secs]
      acts_frame[OF assms(1) _ applySecrets_acts, of RDaemon s ns secs]
      acts_frame[OF assms(1) _ applySecrets_acts, of RJob s ns secs]
    by (intro agree[OF that]) simp_all
  have del: "I (snd (deleteApplication ?K ns (app_name app) s))" if "I s" for s
  proof -
    obtain r t where d: "deleteApplication ?K ns (app_name app) s = (r, t)" by (rule prod.exhaust)
    with delete_spares_others[OF assms(1) d] that show ?thesis unfolding I_def spares_def d by simp
  qed
  have apl: "I (snd (applyApplication KP ns app pull s))" if "I s" for s pull
    using application_touches[OF assms(1), of ns' n ns app pull s] nm that unfolding I_def by simp
  have "I (snd (kube_ApplyApp KP L Y ns app cfgs secs c))"
    unfolding container_apply[OF assms(3,4)] applyContainers_def
    by (rule sbind_inv[where I = I], rule ns, simp add: I_def, rule sbind_inv[where I = I], erule cfg,
        rule sbind_inv[where I = I], erule sec, rule sbind_inv[where I = I], simp add: del, erule apl)
  then show ?thesis unfolding I_def assms(5) sel by simp
qed

section \<open>What goes wrong\<close>

text \<open>The old application is deleted before the new one is prepared: a malformed one takes it down.\<close>

lemma failed_apply_takes_down:
  assumes "app_type app \<noteq> AppTypeHelm" and "app_type app \<noteq> AppTypeYaml" and "\<not> app_preserveUpdates app"
    and "checkAndCreateNamespace (kp_cluster KP) ns c = (Ok v, c)"
    and "deleteApplication (kp_cluster KP) ns (app_name app) c = (Ok v', t)"
    and "prepareWorkload KP ns (readied [] app) [] = Err e"
  shows "kube_ApplyApp KP L Y ns app [] [] c = (Err e, t)"
  unfolding container_apply[OF assms(1,2)] assms(4) applyContainers_def using assms(3,5,6)
  by (simp add: applyConfigurations_def applySecrets_def registryNames_def applyApplication_def Let_def)

text \<open>When releases cannot be listed, deleting a Helm application reports success and leaves its release.\<close>

lemma unlisted_release_kept:
  assumes "hl_list L c = Err e" and "ns = e_edgeNs (kp_env KP)"
    and "b_get (st_app (en_ops N)) s (MakeKey (e_kind (kp_env KP) KindApplication) (ai_name info) (ai_version info)) = Ok app"
    and "app_type app = AppTypeHelm" and "deleteApplication (kp_cluster KP) ns (ai_name info) c = (Ok u, t)"
  shows "kube_DeleteApp KP L Y N nf ns info (c, s) = (Ok u, (t, s))"
  using assms by (simp add: kube_DeleteApp_def DeleteHelm_def)

section \<open>Witnesses\<close>

definition no_helm :: "(kube_state, unit) helm_lib" where
  "no_helm = \<lparr>hl_init = (\<lambda>_. Ok ()), hl_list = (\<lambda>_. Ok []), hl_get = (\<lambda>_ _ _. Err ''release: not found''),
     hl_install = (\<lambda>_ _ _ _ _ c. (Ok (), c)), hl_upgrade = (\<lambda>_ _ _ _ _ c. (Ok (), c)),
     hl_uninstall = (\<lambda>_ _ c. (Ok (), c)), hl_load = (\<lambda>_. Ok ()), hl_yaml = (\<lambda>_. Ok [])\<rparr>"

definition no_yaml :: "kube_state yaml_lib" where
  "no_yaml = \<lparr>yl_decode = (\<lambda>_. None), yl_convert = (\<lambda>_. Ok JNull), yl_resources = (\<lambda>_ _. Ok []),
     yl_apply = (\<lambda>_ _ _ _ c. (Ok (), c)), yl_delete = (\<lambda>_ _ _ c. (Ok (), c))\<rparr>"

lemma busy_applied: "fst (kube_ApplyApp mem_kube no_helm no_yaml ''ns'' web_app [] [] busy_cluster) = Ok ()"
  by code_simp

lemma mem_namespaces: "namespaces_apart mem_cluster"
proof -
  have "sees mem_cluster k c (snd (cl_nsCreate mem_cluster ns c))" for ns c k
    by (cases k) (simp_all add: mem_cluster_def agree_def mem_api_def)
  then show ?thesis by (simp add: namespaces_apart_def)
qed

lemma busy_run:
  obtains t where "kube_ApplyApp mem_kube no_helm no_yaml ''ns'' web_app [] [] busy_cluster = (Ok (), t)"
  using busy_applied by (metis prod.collapse)

lemma mem_kube_ok: "cluster_ok same_bodies (kp_cluster mem_kube)"
  using mem_cluster_ok by (simp add: mem_kube_def)

lemma web_type: "app_type web_app \<noteq> AppTypeHelm" "app_type web_app \<noteq> AppTypeYaml" "\<not> app_preserveUpdates web_app"
  by (simp_all add: web_app_def zero_application_def)

theorem apply_replaces_witness:
  "\<nexists>n. carries (cl_daemons (kp_cluster mem_kube)) ''ns'' (app_name web_app)
     (snd (kube_ApplyApp mem_kube no_helm no_yaml ''ns'' web_app [] [] busy_cluster)) n"
proof -
  obtain t where t: "kube_ApplyApp mem_kube no_helm no_yaml ''ns'' web_app [] [] busy_cluster = (Ok (), t)"
    by (rule busy_run)
  have "WorkloadDeployment = app_workload (readied (registryNames mem_kube []) web_app)" by code_simp
  from apply_replaces[OF mem_kube_ok web_type t this] show ?thesis by (simp add: t)
qed

theorem apply_spares_others_witness:
  "api_get (cl_deploys (kp_cluster mem_kube)) ''ns'' ''other''
     (snd (kube_ApplyApp mem_kube no_helm no_yaml ''ns'' web_app [] [] busy_cluster)) = Ok other_deploy"
proof -
  obtain t where t: "kube_ApplyApp mem_kube no_helm no_yaml ''ns'' web_app [] [] busy_cluster = (Ok (), t)"
    by (rule busy_run)
  have apart: "namespaces_apart (kp_cluster mem_kube)" using mem_namespaces by (simp add: mem_kube_def)
  have "''ns'' \<noteq> ''ns'' \<or> ''other'' \<noteq> app_name web_app" by (simp add: web_fields)
  note spares = apply_spares_others[OF mem_kube_ok apart web_type(1,2) t this, unfolded web_fields]
  have "kp_cluster mem_kube = mem_cluster" by (simp add: mem_kube_def)
  moreover have "mget (ob_labels other_deploy) AppName \<noteq> Some ''shop''"
    by (simp add: other_deploy_def objectMeta_def)
  ultimately show ?thesis using spares busy_other by (simp only: t snd_conv) blast
qed

end
