(* ===== verification/Initz.thy ===== *)
theory Initz
  imports Engine_Core Kube_Collect
begin

text \<open>
  The activation of a node (\<^verbatim>\<open>initz/activate.go\<close>, \<^verbatim>\<open>activate_collector.go\<close>, \<^verbatim>\<open>activate_server.go\<close>)
  and the identity read back from its certificate (\<^verbatim>\<open>utils/parse.go\<close>). The HTTP client, JSON, the
  templates and the certificate parser are arguments; blanks are the ASCII ones. The server's routes and the ticker are not
  modelled; the signal channel is a counter of sends.
\<close>

section \<open>State and parameters\<close>

record batch =
  bt_name :: string
  bt_namespace :: string
  bt_securityType :: string
  bt_securityKey :: string
  bt_mode :: string

record certificate =
  ct_ca :: string
  ct_cert :: string
  ct_key :: string

text \<open>A fingerprint of the configuration: what proves the identity, and where its value comes from.\<close>

datatype proof_kind = ProofInput | ProofSN | ProofHostName | ProofMachineID | ProofSystemUUID | ProofBootID
  | OtherProof

record fingerprint =
  fp_proof :: proof_kind
  fp_value :: string

record attribute =
  at_name :: string
  at_label :: string
  at_value :: string
  at_desc :: string

record activate_cfg =
  av_fingerprints :: "fingerprint list"
  av_attributes :: "attribute list"
  av_nodeInfo :: "attribute list"
  av_serial :: "attribute list"
  av_url :: string
  av_node :: certificate                     \<comment> \<open>paths of the node's certificate files\<close>
  av_mqttLink :: bool                        \<comment> \<open>Plugin.Link is mqttlink\<close>
  av_mqtt :: certificate

record activate_state =
  ac_batch :: batch
  ac_attrs :: "(string, string) gomap"
  ac_address :: string
  ac_env :: "(string, string) gomap"
  ac_fs :: fs
  ac_sent :: nat

record active_request =
  aq_batchName :: string
  aq_namespace :: string
  aq_securityType :: string
  aq_securityValue :: string
  aq_mode :: string
  aq_penetrateData :: "(string, string) gomap"
  aq_fingerprint :: string

record active_response =
  ar_certificate :: certificate
  ar_mqttCert :: certificate
  ar_syncAddr :: string

text \<open>
  An error of the activation: with the code of \<^verbatim>\<open>comctx.Error\<close>, or one without a code. The answer of
  \<^verbatim>\<open>http.HandleResponse\<close> is the body and possibly such an error.
\<close>

datatype act_err = Coded string | Uncoded

definition ErrUnknown :: string where
  "ErrUnknown = ''UnknownError''"

definition ErrRequestParamInvalid :: string where
  "ErrRequestParamInvalid = ''RequestParamInvalid''"

definition ErrIO :: string where
  "ErrIO = ''IOError''"

record activate_lib =
  al_os :: os_env
  al_mode :: string                          \<comment> \<open>os.Getenv(context.KeyRunMode)\<close>
  al_kubeNode :: string
  al_host :: "string result"                 \<comment> \<open>host.Info\<close>
  al_nodes :: "(string, node_info option) gomap result"   \<comment> \<open>none: not a *NodeInfo\<close>
  al_post :: "string \<Rightarrow> active_request \<Rightarrow> (string \<times> act_err option) result"
  al_code :: "string \<Rightarrow> string result"       \<comment> \<open>the code in an error body\<close>
  al_parse :: "string \<Rightarrow> active_response result"

text \<open>The state \<^verbatim>\<open>NewActivate\<close> starts from; its HTTP client and AMI are in \<open>activate_lib\<close>.\<close>

definition NewActivate :: "activate_cfg \<Rightarrow> batch \<Rightarrow> string \<Rightarrow> (string, string) gomap \<Rightarrow> fs \<Rightarrow> activate_state" where
  "NewActivate C b address envs files =
     \<lparr>ac_batch = b, ac_attrs = fold (\<lambda>a. mput (at_name a) (at_value a)) (av_attributes C) [],
      ac_address = address, ac_env = envs, ac_fs = files, ac_sent = 0\<rparr>"

section \<open>Fingerprints\<close>

definition trimBlanks :: "string \<Rightarrow> string" where
  "trimBlanks s = (let ws = {CHR '' '', CHR 0x09, CHR 0x0A, CHR 0x0B, CHR 0x0C, CHR 0x0D}
     in rev (dropWhile (\<lambda>c. c \<in> ws) (rev (dropWhile (\<lambda>c. c \<in> ws) s))))"

definition masterInfo :: "activate_lib \<Rightarrow> (string, node_info option) gomap \<Rightarrow> node_info result" where
  "masterInfo L infos =
     (let pick = (\<lambda>n. case mget infos n of Some (Some i) \<Rightarrow> Ok i | _ \<Rightarrow> Err ''failed to get master node info'')
      in if al_mode L = ''kube'' then pick (al_kubeNode L)
         else if al_mode L = ''native''
         then (case al_host L of Ok h \<Rightarrow> pick h | Err _ \<Rightarrow> Err [] | Panic p \<Rightarrow> Panic p)
         else Err ''failed to get master node info'')"

definition proofValue :: "activate_lib \<Rightarrow> activate_state \<Rightarrow> node_info \<Rightarrow> fingerprint \<Rightarrow> string result" where
  "proofValue L st i f =
     (case fp_proof f of
        ProofInput \<Rightarrow>
          (case mget (ac_attrs st) (fp_value f) of
             Some v \<Rightarrow> if v \<noteq> [] then Ok v else Ok (ni_systemUUID i)
           | None \<Rightarrow> Ok (ni_systemUUID i))
      | ProofSN \<Rightarrow> rmap trimBlanks (ReadFile (al_os L) (Join [''var/lib/baetyl/sn'', fp_value f]) (ac_fs st))
      | ProofHostName \<Rightarrow> Ok (ni_hostname i)
      | ProofMachineID \<Rightarrow> Ok (ni_machineID i)
      | ProofSystemUUID \<Rightarrow> Ok (ni_systemUUID i)
      | ProofBootID \<Rightarrow> Ok (ni_bootID i)
      | OtherProof \<Rightarrow> Err ''the proof type is not supported'')"

text \<open>
  An unreadable host returns the (nil) error of the call before: the value is empty and no error.
\<close>

definition activate_collect :: "activate_cfg \<Rightarrow> activate_lib \<Rightarrow> activate_state \<Rightarrow> string result" where
  "activate_collect C L st =
     (case av_fingerprints C of
        [] \<Rightarrow> Ok []
      | f # _ \<Rightarrow>
          rbind (al_nodes L) (\<lambda>infos.
          if al_mode L = ''native'' \<and> \<not> is_ok (al_host L) then Ok []
          else rbind (masterInfo L infos) (\<lambda>i. proofValue L st i f)))"

section \<open>Activating\<close>

definition genCert :: "os_env \<Rightarrow> certificate \<Rightarrow> certificate \<Rightarrow> fs \<Rightarrow> unit result \<times> fs" where
  "genCert osys path c fs =
     sbind (CreateWriteFile osys (ct_ca path) (ct_ca c) fs) (\<lambda>_ fs.
     sbind (CreateWriteFile osys (ct_cert path) (ct_cert c) fs) (\<lambda>_ fs.
     CreateWriteFile osys (ct_key path) (ct_key c) fs))"

definition requestOf :: "activate_state \<Rightarrow> string \<Rightarrow> active_request" where
  "requestOf st fv =
     \<lparr>aq_batchName = bt_name (ac_batch st), aq_namespace = bt_namespace (ac_batch st),
      aq_securityType = bt_securityType (ac_batch st), aq_securityValue = bt_securityKey (ac_batch st),
      aq_mode = bt_mode (ac_batch st), aq_penetrateData = ac_attrs st, aq_fingerprint = fv\<rparr>"

definition KeyBaetylSyncAddr :: string where
  "KeyBaetylSyncAddr = ''BAETYL_SYNC_ADDR''"

text \<open>Storing an answer: certificates, the address to synchronise with, and the signal.\<close>

definition accept :: "activate_cfg \<Rightarrow> activate_lib \<Rightarrow> active_response \<Rightarrow> activate_state \<Rightarrow> act_err option \<times> activate_state" where
  "accept C L res st =
     (let (r, fs) = genCert (al_os L) (av_node C) (ar_certificate res) (ac_fs st);
          st = st\<lparr>ac_fs := fs\<rparr>
      in if \<not> is_ok r then (Some (Coded ErrUnknown), st)
         else
           let (r, fs) = (if av_mqttLink C then genCert (al_os L) (av_mqtt C) (ar_mqttCert res) (ac_fs st) else (Ok (), ac_fs st));
               st = st\<lparr>ac_fs := fs\<rparr>
           in if \<not> is_ok r then (Some (Coded ErrUnknown), st)
              else (None, st\<lparr>ac_env := (if ar_syncAddr res \<noteq> [] then mput KeyBaetylSyncAddr (ar_syncAddr res) (ac_env st)
                                        else ac_env st),
                             ac_sent := ac_sent st + 1\<rparr>))"

definition activate :: "activate_cfg \<Rightarrow> activate_lib \<Rightarrow> activate_state \<Rightarrow> act_err option \<times> activate_state" where
  "activate C L st =
     (case activate_collect C L st of
        Ok fv \<Rightarrow>
          if fv = [] then (Some (Coded ErrUnknown), st)
          else (case al_post L (ac_address st @ av_url C) (requestOf st fv) of
                  Ok (data, None) \<Rightarrow>
                    (case al_parse L data of
                       Ok res \<Rightarrow> accept C L res st
                     | _ \<Rightarrow> (Some (Coded ErrUnknown), st))
                | Ok (data, Some e) \<Rightarrow>
                    (case al_code L data of Ok code \<Rightarrow> (Some (Coded code), st) | _ \<Rightarrow> (Some e, st))
                | _ \<Rightarrow> (Some (Coded ErrIO), st))
      | _ \<Rightarrow> (Some (Coded ErrUnknown), st))"

section \<open>The activation server\<close>

text \<open>A request: its method and its form, or a form that does not parse.\<close>

record act_request =
  rq_method :: string
  rq_form :: "(string, string) gomap option"

definition formGet :: "(string, string) gomap \<Rightarrow> string \<Rightarrow> string" where
  "formGet form k = (case mget form k of Some v \<Rightarrow> v | None \<Rightarrow> [])"

definition formAttrs :: "activate_cfg \<Rightarrow> (string, string) gomap \<Rightarrow> (string, string) gomap" where
  "formAttrs C form =
     (let m = fold (\<lambda>a. mput (at_name a) (if formGet form (at_name a) = [] then at_value a else formGet form (at_name a)))
                (av_attributes C) [];
          m = fold (\<lambda>a. mput (at_name a) (formGet form (at_name a))) (av_nodeInfo C) m
      in fold (\<lambda>a. mput (at_name a) (formGet form (at_name a))) (av_serial C) m)"

definition orElse :: "'a option \<Rightarrow> 'a \<Rightarrow> 'a" where
  "orElse v d = (case v of Some x \<Rightarrow> x | None \<Rightarrow> d)"

definition handleActiveImpl :: "activate_cfg \<Rightarrow> activate_lib \<Rightarrow> act_request \<Rightarrow> activate_state \<Rightarrow> act_err option \<times> activate_state" where
  "handleActiveImpl C L req st =
     (case rq_form req of
        None \<Rightarrow> (Some (Coded ErrRequestParamInvalid), st)
      | Some form \<Rightarrow>
          let attrs = formAttrs C form;
              b = ac_batch st;
              b = b\<lparr>bt_name := orElse (mget attrs ''batch'') (bt_name b),
                    bt_namespace := orElse (mget attrs ''namespace'') (bt_namespace b)\<rparr>
          in activate C L (st\<lparr>ac_attrs := attrs, ac_batch := b,
               ac_address := orElse (mget attrs ''initAddr'') (ac_address st),
               ac_env := (case mget attrs ''syncAddr'' of Some a \<Rightarrow> mput KeyBaetylSyncAddr a (ac_env st) | None \<Rightarrow> ac_env st)\<rparr>))"

text \<open>The answer as written: once the status is sent, later headers are lost.\<close>

record answer =
  an_status :: "int option"
  an_contentType :: string
  an_body :: string

definition no_answer :: answer where
  "no_answer = \<lparr>an_status = None, an_contentType = [], an_body = []\<rparr>"

definition setContentType :: "string \<Rightarrow> answer \<Rightarrow> answer" where
  "setContentType t w = (if an_status w = None then w\<lparr>an_contentType := t\<rparr> else w)"

definition writeHeader :: "int \<Rightarrow> answer \<Rightarrow> answer" where
  "writeHeader n w = (if an_status w = None then w\<lparr>an_status := Some n\<rparr> else w)"

definition writeBody :: "string \<Rightarrow> answer \<Rightarrow> answer" where
  "writeBody s w = (writeHeader 200 w)\<lparr>an_body := an_body w @ s\<rparr>"

record server_lib =
  sl_toStatus :: "string \<Rightarrow> int"                   \<comment> \<open>comctx.Code.ToHTTPStatus\<close>
  sl_json :: "string \<Rightarrow> string"                    \<comment> \<open>the error body with this code\<close>
  sl_template :: "string \<Rightarrow> string result"         \<comment> \<open>a parsed and executed template\<close>
  sl_pages :: string

definition codeOf :: "act_err \<Rightarrow> string" where
  "codeOf e = (case e of Coded c \<Rightarrow> c | Uncoded \<Rightarrow> ErrUnknown)"

definition populateFailedResponse :: "server_lib \<Rightarrow> act_err \<Rightarrow> answer \<Rightarrow> answer" where
  "populateFailedResponse S e w =
     writeBody (sl_json S (codeOf e)) (setContentType ''application/json; charset=utf-8''
       (writeHeader (sl_toStatus S (codeOf e)) w))"

text \<open>
  A handler returns an error or nil, or panics. \<open>handleUpdate\<close> asserts that the error has a code
  before it looks whether there is one.
\<close>

type_synonym handler = "activate_state \<times> answer \<Rightarrow> act_err option result \<times> (activate_state \<times> answer)"

definition handleUpdate :: "activate_cfg \<Rightarrow> activate_lib \<Rightarrow> server_lib \<Rightarrow> act_request \<Rightarrow> handler" where
  "handleUpdate C L S req sw =
     (let (err, st) = handleActiveImpl C L req (fst sw); w = snd sw
      in case err of
           None \<Rightarrow> (Panic ''interface conversion'', (st, w))
         | Some Uncoded \<Rightarrow> (Panic ''interface conversion'', (st, w))
         | Some (Coded c) \<Rightarrow>
             if c = ErrRequestParamInvalid then (Ok (Some (Coded c)), (st, w))
             else let page = (if \<not> isFile (mget (ac_fs st) (ct_cert (av_node C))) then ''/failed.html.template''
                              else ''/success.html.template'')
                  in case sl_template S (sl_pages S @ page) of
                       Ok html \<Rightarrow> (Ok None, (st, writeBody html w))
                     | _ \<Rightarrow> (Ok (Some (Coded ErrUnknown)), (st, w)))"

definition handleActive :: "activate_cfg \<Rightarrow> activate_lib \<Rightarrow> act_request \<Rightarrow> handler" where
  "handleActive C L req sw =
     (let (err, st) = handleActiveImpl C L req (fst sw)
      in case err of
           Some e \<Rightarrow> (Ok (Some e), (st, snd sw))
         | None \<Rightarrow> (Ok None, (st, writeBody ''active success'' (snd sw))))"

definition httpError :: "string \<Rightarrow> int \<Rightarrow> answer \<Rightarrow> answer" where
  "httpError msg n w = writeBody msg (writeHeader n (setContentType ''text/plain; charset=utf-8'' w))"

definition handleView :: "server_lib \<Rightarrow> answer" where
  "handleView S =
     (case sl_template S (sl_pages S @ ''/active.html.template'') of
        Ok html \<Rightarrow> writeBody html no_answer
      | Err m \<Rightarrow> httpError m 500 no_answer
      | Panic m \<Rightarrow> no_answer)"

definition handleWrapper :: "server_lib \<Rightarrow> string \<Rightarrow> handler \<Rightarrow> act_request \<Rightarrow> activate_state \<Rightarrow> answer \<times> activate_state" where
  "handleWrapper S method h req st =
     (if rq_method req \<noteq> method then (httpError ''method not allowed'' 405 no_answer, st)
      else case h (st, no_answer) of
             (Ok None, (st, w)) \<Rightarrow> (w, st)
           | (Ok (Some e), (st, w)) \<Rightarrow> (populateFailedResponse S e w, st)
           | (_, (st, w)) \<Rightarrow> (populateFailedResponse S Uncoded w, st))"

text \<open>The routes of the server: a path that no other route has gets the page.\<close>

definition activation_route :: "activate_cfg \<Rightarrow> activate_lib \<Rightarrow> server_lib \<Rightarrow> string \<Rightarrow> act_request \<Rightarrow> activate_state \<Rightarrow>
    answer \<times> activate_state" where
  "activation_route C L S path req st =
     (if path = ''/update'' then handleWrapper S ''POST'' (handleUpdate C L S req) req st
      else if path = ''/active'' then handleWrapper S ''POST'' (handleActive C L req) req st
      else (handleView S, st))"

section \<open>The identity in a certificate\<close>

text \<open>\<^verbatim>\<open>strings.SplitN(s, ".", 2)\<close>.\<close>

definition splitDot :: "string \<Rightarrow> string list" where
  "splitDot s = (let a = takeWhile (\<lambda>c. c \<noteq> CHR ''.'') s in if a = s then [s] else [a, drop (length a + 1) s])"

text \<open>
  The certificate as the TLS library loads it: no single certificate, or one with a common name or
  one that does not parse.
\<close>

definition ExtractNodeInfo :: "string result option result \<Rightarrow> (string, string) gomap \<Rightarrow> unit result \<times> (string, string) gomap" where
  "ExtractNodeInfo tls envs =
     sbind (tls, envs) (\<lambda>single envs.
     case single of
       None \<Rightarrow> (Ok (), envs)
     | Some (Ok cn) \<Rightarrow>
         (case splitDot cn of
            [a, b] \<Rightarrow> if a = [] \<or> b = [] then (Err ''failed to parse node name from cert'', envs)
                      else (Ok (), mput ''BAETYL_NODE_NAMESPACE'' a (mput ''BAETYL_NODE_NAME'' b envs))
          | _ \<Rightarrow> (Err ''failed to parse node name from cert'', envs))
     | Some _ \<Rightarrow> (Err ''certificate format error'', envs))"

text \<open>\<^verbatim>\<open>NewInitialize\<close> activates only while the node's certificate file is missing.\<close>

definition needsActivation :: "activate_cfg \<Rightarrow> fs \<Rightarrow> bool" where
  "needsActivation C fs \<longleftrightarrow> \<not> isFile (mget fs (ct_cert (av_node C)))"

section \<open>What an activation does\<close>

lemma CreateWriteFile_Ok:
  assumes "CreateWriteFile osys p s fs = (Ok u, fs')"
  shows "mget fs' p = Some (File s) \<and> (\<forall>q t. q \<noteq> p \<longrightarrow> mget fs q = Some (File t) \<longrightarrow> mget fs' q = Some (File t))"
proof -
  obtain v fs1 where d: "(if mget fs (pathDir p) = Some Dir then (Ok (), fs) else MkdirAll osys (pathDir p) fs) = (Ok v, fs1)"
    and w: "WriteFile osys p s fs1 = (Ok u, fs')"
    using assms by (auto simp: CreateWriteFile_def Let_def sbind_Ok_iff)
  have keep: "mget fs q = Some (File t) \<Longrightarrow> mget fs1 q = Some (File t)" for q t
    using d MkdirAll_file[of osys "pathDir p" fs fs1 q t] by (auto split: if_splits)
  with w show ?thesis by (auto simp: WriteFile_def map_simps split: if_splits)
qed

definition installed :: "certificate \<Rightarrow> certificate \<Rightarrow> fs \<Rightarrow> bool" where
  "installed path c fs \<longleftrightarrow>
     mget fs (ct_ca path) = Some (File (ct_ca c)) \<and> mget fs (ct_cert path) = Some (File (ct_cert c)) \<and>
     mget fs (ct_key path) = Some (File (ct_key c))"

definition certPaths :: "certificate \<Rightarrow> string list" where
  "certPaths c = [ct_ca c, ct_cert c, ct_key c]"

lemma genCert_Ok:
  assumes "genCert osys path c fs = (Ok u, fs')" and "distinct (certPaths path)"
  shows "installed path c fs' \<and>
    (\<forall>q t. q \<notin> set (certPaths path) \<longrightarrow> mget fs q = Some (File t) \<longrightarrow> mget fs' q = Some (File t))"
proof -
  from assms(1) obtain u1 f1 u2 f2 where
    w: "CreateWriteFile osys (ct_ca path) (ct_ca c) fs = (Ok u1, f1)"
    "CreateWriteFile osys (ct_cert path) (ct_cert c) f1 = (Ok u2, f2)"
    "CreateWriteFile osys (ct_key path) (ct_key c) f2 = (Ok u, fs')"
    unfolding genCert_def sbind_Ok_iff by blast
  from CreateWriteFile_Ok[OF w(1)] CreateWriteFile_Ok[OF w(2)] CreateWriteFile_Ok[OF w(3)] assms(2)
  show ?thesis by (simp add: installed_def certPaths_def)
qed

lemma installed_activated: "installed (av_node C) c fs \<Longrightarrow> \<not> needsActivation C fs"
  by (simp add: installed_def needsActivation_def isFile_def)

lemma accept_installs:
  assumes "accept C L res st = (None, st')"
    and "distinct (certPaths (av_node C) @ (if av_mqttLink C then certPaths (av_mqtt C) else []))"
  shows "installed (av_node C) (ar_certificate res) (ac_fs st') \<and>
    (av_mqttLink C \<longrightarrow> installed (av_mqtt C) (ar_mqttCert res) (ac_fs st')) \<and> ac_sent st' = ac_sent st + 1"
proof -
  obtain r1 f1 where g1: "genCert (al_os L) (av_node C) (ar_certificate res) (ac_fs st) = (r1, f1)" by (rule prod.exhaust)
  with assms(1) have "is_ok r1" by (auto simp: accept_def Let_def split: if_splits)
  with g1 obtain u1 where "genCert (al_os L) (av_node C) (ar_certificate res) (ac_fs st) = (Ok u1, f1)" by (cases r1) auto
  with assms(2) have i1: "installed (av_node C) (ar_certificate res) f1"
    by (auto dest!: genCert_Ok split: if_splits)
  show ?thesis
  proof (cases "av_mqttLink C")
    case False
    with assms(1) g1 \<open>is_ok r1\<close> i1 show ?thesis by (auto simp: accept_def Let_def)
  next
    case True
    obtain r2 f2 where g2: "genCert (al_os L) (av_mqtt C) (ar_mqttCert res) f1 = (r2, f2)" by (rule prod.exhaust)
    with assms(1) g1 True \<open>is_ok r1\<close> have "is_ok r2" by (auto simp: accept_def Let_def split: if_splits)
    with g2 obtain u2 where "genCert (al_os L) (av_mqtt C) (ar_mqttCert res) f1 = (Ok u2, f2)" by (cases r2) auto
    note i2 = genCert_Ok[OF this]
    have "installed (av_node C) (ar_certificate res) f2"
      using i1 i2 assms(2) True by (auto simp: installed_def certPaths_def)
    with i2 assms(1,2) g1 g2 True \<open>is_ok r1\<close> \<open>is_ok r2\<close> show ?thesis by (auto simp: accept_def Let_def)
  qed
qed

lemma activate_None:
  assumes "activate C L st = (None, st')"
    and "distinct (certPaths (av_node C) @ (if av_mqttLink C then certPaths (av_mqtt C) else []))"
  shows "\<exists>fv data res. activate_collect C L st = Ok fv \<and> fv \<noteq> [] \<and>
    al_post L (ac_address st @ av_url C) (requestOf st fv) = Ok (data, None) \<and> al_parse L data = Ok res \<and>
    installed (av_node C) (ar_certificate res) (ac_fs st') \<and>
    (av_mqttLink C \<longrightarrow> installed (av_mqtt C) (ar_mqttCert res) (ac_fs st')) \<and> ac_sent st' = ac_sent st + 1 \<and>
    \<not> needsActivation C (ac_fs st')"
proof -
  from assms(1) obtain fv data res where r: "activate_collect C L st = Ok fv" "fv \<noteq> []"
      "al_post L (ac_address st @ av_url C) (requestOf st fv) = Ok (data, None)" "al_parse L data = Ok res"
      "accept C L res st = (None, st')"
    by (auto simp: activate_def split: result.splits if_splits option.splits)
  from accept_installs[OF r(5) assms(2)] r(1-4) show ?thesis
    using installed_activated by blast
qed

text \<open>
  C21. A successful activation installs the node: it sent the batch, the attributes and a fingerprint
  that is not empty to the configured address, the answer parsed, and the certificates of the answer
  are the contents of the configured files, those of the MQTT link included where it is used. The
  node is then not activated again.
\<close>

theorem activation_installs:
  assumes "activate C L st = (None, st')"
    and "distinct (certPaths (av_node C) @ (if av_mqttLink C then certPaths (av_mqtt C) else []))"
  shows "\<exists>fv data res. activate_collect C L st = Ok fv \<and> fv \<noteq> [] \<and>
    al_post L (ac_address st @ av_url C) (requestOf st fv) = Ok (data, None) \<and> al_parse L data = Ok res \<and>
    installed (av_node C) (ar_certificate res) (ac_fs st') \<and>
    (av_mqttLink C \<longrightarrow> installed (av_mqtt C) (ar_mqttCert res) (ac_fs st')) \<and> ac_sent st' = ac_sent st + 1 \<and>
    \<not> needsActivation C (ac_fs st')"
  by (rule activate_None[OF assms])

text \<open>A node that asks for its identity with the fingerprint of its machine.\<close>

definition edge_cfg :: activate_cfg where
  "edge_cfg = \<lparr>av_fingerprints = [\<lparr>fp_proof = ProofMachineID, fp_value = []\<rparr>],
     av_attributes = [], av_nodeInfo = [], av_serial = [], av_url = ''/v1/active'',
     av_node = \<lparr>ct_ca = ''/c/ca'', ct_cert = ''/c/crt'', ct_key = ''/c/key''\<rparr>, av_mqttLink = False,
     av_mqtt = \<lparr>ct_ca = [], ct_cert = [], ct_key = []\<rparr>\<rparr>"

definition edge_info :: node_info where
  "edge_info = \<lparr>ni_arch = [], ni_variant = [], ni_kernel = [], ni_os = [], ni_runtime = [], ni_machineID = ''m1'', ni_osImage = [],
     ni_bootID = [], ni_systemUUID = [], ni_hostname = ''edge'', ni_address = [], ni_role = [], ni_labels = []\<rparr>"

definition edge_response :: active_response where
  "edge_response = \<lparr>ar_certificate = \<lparr>ct_ca = ''CA'', ct_cert = ''CRT'', ct_key = ''KEY''\<rparr>,
     ar_mqttCert = \<lparr>ct_ca = [], ct_cert = [], ct_key = []\<rparr>, ar_syncAddr = ''https://sync''\<rparr>"

definition edge_lib :: activate_lib where
  "edge_lib = \<lparr>al_os = good_os, al_mode = ''native'', al_kubeNode = [], al_host = Ok ''edge'',
     al_nodes = Ok [(''edge'', Some edge_info)],
     al_post = (\<lambda>url req. if aq_fingerprint req = ''m1'' then Ok (''ok'', None) else Ok (''no'', Some Uncoded)),
     al_code = (\<lambda>_. Ok ''Denied''), al_parse = (\<lambda>_. Ok edge_response)\<rparr>"

definition edge_start :: activate_state where
  "edge_start = NewActivate edge_cfg \<lparr>bt_name = ''b'', bt_namespace = ''ns'', bt_securityType = [], bt_securityKey = [], bt_mode = []\<rparr>
     ''https://init'' [] []"

theorem activation_installs_witness:
  "needsActivation edge_cfg (ac_fs edge_start) \<and>
   \<not> needsActivation edge_cfg (ac_fs (snd (activate edge_cfg edge_lib edge_start)))"
proof -
  have run: "fst (activate edge_cfg edge_lib edge_start) = None"
    and dis: "distinct (certPaths (av_node edge_cfg) @ (if av_mqttLink edge_cfg then certPaths (av_mqtt edge_cfg) else []))"
    and before: "needsActivation edge_cfg (ac_fs edge_start)"
    by code_simp+
  from run have "activate edge_cfg edge_lib edge_start = (None, snd (activate edge_cfg edge_lib edge_start))"
    by (metis prod.collapse)
  from activation_installs[OF this dis] before show ?thesis by blast
qed

lemma activate_failed:
  assumes "activate C L st = (Some e, st')"
  shows "ac_sent st' = ac_sent st \<and> ac_env st' = ac_env st \<and> ac_attrs st' = ac_attrs st \<and> ac_batch st' = ac_batch st \<and>
    (ac_fs st' = ac_fs st \<or> e = Coded ErrUnknown \<and> (\<exists>fv data res. activate_collect C L st = Ok fv \<and>
       al_post L (ac_address st @ av_url C) (requestOf st fv) = Ok (data, None) \<and> al_parse L data = Ok res))"
proof -
  have acc: "ac_sent st' = ac_sent st \<and> ac_env st' = ac_env st \<and> ac_attrs st' = ac_attrs st \<and> ac_batch st' = ac_batch st \<and>
      e = Coded ErrUnknown" if "accept C L res st = (Some e, st')" for res
    using that by (auto simp: accept_def Let_def split: prod.splits if_splits)
  from assms show ?thesis
    by (auto simp: activate_def dest!: acc split: result.splits if_splits option.splits)
qed

text \<open>
  A failed activation leaves no trace but files: it sends no signal and changes neither the
  environment nor the attributes, and it touches a file only after the server answered with a
  certificate that could not be written.
\<close>

theorem failed_activation:
  assumes "activate C L st = (Some e, st')"
  shows "ac_sent st' = ac_sent st \<and> ac_env st' = ac_env st \<and> ac_attrs st' = ac_attrs st \<and> ac_batch st' = ac_batch st \<and>
    (ac_fs st' = ac_fs st \<or> e = Coded ErrUnknown \<and> (\<exists>fv data res. activate_collect C L st = Ok fv \<and>
       al_post L (ac_address st @ av_url C) (requestOf st fv) = Ok (data, None) \<and> al_parse L data = Ok res))"
  by (rule activate_failed[OF assms])

theorem failed_activation_witness:
  "activate edge_cfg (edge_lib\<lparr>al_post := (\<lambda>_ _. Ok (''no'', Some Uncoded))\<rparr>) edge_start =
     (Some (Coded ''Denied''), snd (activate edge_cfg (edge_lib\<lparr>al_post := (\<lambda>_ _. Ok (''no'', Some Uncoded))\<rparr>) edge_start)) \<and>
   ac_sent (snd (activate edge_cfg (edge_lib\<lparr>al_post := (\<lambda>_ _. Ok (''no'', Some Uncoded))\<rparr>) edge_start)) = ac_sent edge_start"
proof -
  have run: "fst (activate edge_cfg (edge_lib\<lparr>al_post := (\<lambda>_ _. Ok (''no'', Some Uncoded))\<rparr>) edge_start) = Some (Coded ''Denied'')"
    by code_simp
  then have "activate edge_cfg (edge_lib\<lparr>al_post := (\<lambda>_ _. Ok (''no'', Some Uncoded))\<rparr>) edge_start =
     (Some (Coded ''Denied''), snd (activate edge_cfg (edge_lib\<lparr>al_post := (\<lambda>_ _. Ok (''no'', Some Uncoded))\<rparr>) edge_start))"
    by (metis prod.collapse)
  from this failed_activation[OF this] show ?thesis by blast
qed

section \<open>What the server answers\<close>

text \<open>
  A successful activation over \<^verbatim>\<open>/update\<close> is answered as a failure: the handler asserts a code on a
  nil error, panics, and the wrapper turns the panic into an error response.
\<close>

lemma update_success_answers_failure:
  assumes "rq_method req = ''POST''" and "handleActiveImpl C L req st = (None, st')"
  shows "handleWrapper S ''POST'' (handleUpdate C L S req) req st = (populateFailedResponse S Uncoded no_answer, st')"
  using assms by (simp add: handleWrapper_def handleUpdate_def Let_def)

text \<open>The content type is set after the status is sent and is lost.\<close>

lemma failure_without_content_type: "an_contentType (populateFailedResponse S e no_answer) = []"
  by (simp add: populateFailedResponse_def setContentType_def writeHeader_def writeBody_def no_answer_def)

text \<open>Only the first fingerprint of the configuration is ever consulted.\<close>

lemma only_first_fingerprint:
  "av_fingerprints C = f # fs \<Longrightarrow> activate_collect C L st = activate_collect (C\<lparr>av_fingerprints := [f]\<rparr>) L st"
  by (simp add: activate_collect_def)

text \<open>
  An activation whose key cannot be written leaves its certificate behind: the next start takes the
  node for activated.
\<close>

lemma half_activation_sticks:
  assumes "genCert (al_os L) (av_node C) c fs = (Err e, fs')" and "ct_cert (av_node C) \<noteq> ct_key (av_node C)"
    and "CreateWriteFile (al_os L) (ct_ca (av_node C)) (ct_ca c) fs = (Ok u, f1)"
    and "CreateWriteFile (al_os L) (ct_cert (av_node C)) (ct_cert c) f1 = (Ok v, f2)"
    and "mget f2 (pathDir (ct_key (av_node C))) = Some Dir"
  shows "\<not> needsActivation C fs'"
proof -
  have "CreateWriteFile (al_os L) (ct_key (av_node C)) (ct_key c) f2 = (Err e, fs')"
    using assms(1,3,4) by (simp add: genCert_def)
  with assms(5) have "fs' = f2" by (auto simp: CreateWriteFile_def Let_def WriteFile_def split: if_splits)
  with CreateWriteFile_Ok[OF assms(4)] show ?thesis by (simp add: needsActivation_def isFile_def)
qed

section \<open>The name of a node\<close>

lemma ExtractNodeInfo_reads:
  assumes "CHR ''.'' \<notin> set ns" and "ns \<noteq> []" and "n \<noteq> []"
  shows "\<exists>envs'. ExtractNodeInfo (Ok (Some (Ok (ns @ ''.'' @ n)))) envs = (Ok (), envs') \<and>
    mget envs' ''BAETYL_NODE_NAMESPACE'' = Some ns \<and> mget envs' ''BAETYL_NODE_NAME'' = Some n"
proof -
  have "takeWhile (\<lambda>c. c \<noteq> CHR ''.'') (ns @ ''.'' @ n) = ns"
    using assms(1) by (subst takeWhile_append2) auto
  then have "splitDot (ns @ ''.'' @ n) = [ns, n]" by (simp add: splitDot_def Let_def)
  then show ?thesis using assms(2,3) by (simp add: ExtractNodeInfo_def map_simps)
qed

text \<open>
  The common name carries the identity: from a certificate whose common name is the namespace, a
  dot and the name, the namespace and the name are read back, provided the namespace has no dot; the
  name may have some.
\<close>

theorem node_identity:
  assumes "CHR ''.'' \<notin> set ns" and "ns \<noteq> []" and "n \<noteq> []"
  shows "\<exists>envs'. ExtractNodeInfo (Ok (Some (Ok (ns @ ''.'' @ n)))) envs = (Ok (), envs') \<and>
    mget envs' ''BAETYL_NODE_NAMESPACE'' = Some ns \<and> mget envs' ''BAETYL_NODE_NAME'' = Some n"
  by (rule ExtractNodeInfo_reads[OF assms])

theorem node_identity_witness:
  "\<exists>envs'. ExtractNodeInfo (Ok (Some (Ok ''default.edge.1''))) [] = (Ok (), envs') \<and>
    mget envs' ''BAETYL_NODE_NAMESPACE'' = Some ''default'' \<and> mget envs' ''BAETYL_NODE_NAME'' = Some ''edge.1''"
  using node_identity[of "''default''" "''edge.1''" "[]"] by simp

end
