(* ===== verification/Security.thy ===== *)
theory Security
  imports Prelude
begin

text \<open>
  The node's own certificate authority (\<^verbatim>\<open>security/pki.go\<close>). The PKI library, the certificate parser
  and the store of certificates (bolthold) are arguments; \<open>cert_store_ok\<close> states the behaviour of the
  store. The validity periods, whole days in the calls of the library, are numbers of the
  configuration. IP addresses and URIs are their texts.
\<close>

section \<open>Data and parameters\<close>

record cert_pem =
  cp_crt :: string
  cp_key :: string

record alt_names =
  an_dns :: "string list"
  an_ips :: "string list"
  an_emails :: "string list"
  an_uris :: "string list"

record csr =
  cr_subject :: "(string \<times> string) list"     \<comment> \<open>the fixed part of the subject\<close>
  cr_cn :: string
  cr_alt :: alt_names

record cert_info =
  ci_cn :: string
  ci_alt :: alt_names

text \<open>The PKI library makes keys at random: its calls change a state \<open>'w\<close> of the world.\<close>

record ('s, 'w) pki_env =
  pe_get :: "'s \<Rightarrow> string \<Rightarrow> cert_pem result"
  pe_insert :: "string \<Rightarrow> cert_pem \<Rightarrow> 's \<Rightarrow> unit result \<times> 's"
  pe_delete :: "string \<Rightarrow> 's \<Rightarrow> unit result \<times> 's"
  pe_root :: "csr \<Rightarrow> int \<Rightarrow> 'w \<Rightarrow> cert_pem result \<times> 'w"
  pe_sub :: "csr \<Rightarrow> int \<Rightarrow> cert_pem \<Rightarrow> 'w \<Rightarrow> cert_pem result \<times> 'w"
  pe_parse :: "string \<Rightarrow> cert_info list result"
  pe_namespace :: string                     \<comment> \<open>os.Getenv(sync.EnvKeyNodeNamespace)\<close>
  pe_node :: string
  pe_rootDays :: int
  pe_subDays :: int

definition ErrCertExists :: string where
  "ErrCertExists = ''This Key already exists in this bolthold for this type''"

text \<open>
  bolthold: an insert of a stored key fails with \<^verbatim>\<open>ErrKeyExists\<close>, a delete of a key that is not
  stored fails; a write changes its key only, and nothing when it fails.
\<close>

definition cert_store_ok :: "('s, 'w) pki_env \<Rightarrow> bool" where
  "cert_store_ok P \<longleftrightarrow>
     (\<forall>k v s s' r. pe_insert P k v s = (r, s') \<longrightarrow>
        (is_ok r \<longrightarrow> \<not> is_ok (pe_get P s k) \<and> pe_get P s' k = Ok v) \<and>
        (r = Err ErrCertExists \<longrightarrow> is_ok (pe_get P s k)) \<and>
        (\<not> is_ok r \<longrightarrow> s' = s) \<and> (\<forall>k'. k' \<noteq> k \<longrightarrow> pe_get P s' k' = pe_get P s k')) \<and>
     (\<forall>k s s' r. pe_delete P k s = (r, s') \<longrightarrow>
        (is_ok r \<longrightarrow> is_ok (pe_get P s k) \<and> \<not> is_ok (pe_get P s' k)) \<and>
        (\<not> is_ok r \<longrightarrow> s' = s) \<and> (\<forall>k'. k' \<noteq> k \<longrightarrow> pe_get P s' k' = pe_get P s k'))"

section \<open>Operations\<close>

definition genStoKey :: "string \<Rightarrow> string" where
  "genStoKey cn = ''baetyl-cert-'' @ cn"

definition genCsr :: "string \<Rightarrow> alt_names \<Rightarrow> csr" where
  "genCsr cn alt =
     \<lparr>cr_subject = [(''C'', ''CN''), (''O'', ''Linux Foundation Edge''), (''OU'', ''BAETYL''),
        (''L'', ''Haidian District''), (''ST'', ''Beijing''), (''STREET'', ''Baidu Campus''),
        (''POSTALCODE'', ''100093'')],
      cr_cn = cn, cr_alt = alt\<rparr>"

definition caName :: "('s, 'w) pki_env \<Rightarrow> string" where
  "caName P = pe_namespace P @ ''.'' @ pe_node P"

definition getCA :: "('s, 'w) pki_env \<Rightarrow> 's \<times> 'w \<Rightarrow> cert_pem result" where
  "getCA P sw = pe_get P (fst sw) (genStoKey (caName P))"

definition GetCA :: "('s, 'w) pki_env \<Rightarrow> 's \<times> 'w \<Rightarrow> string result" where
  "GetCA P sw = rmap cp_crt (getCA P sw)"

definition putCert :: "('s, 'w) pki_env \<Rightarrow> string \<Rightarrow> cert_pem \<Rightarrow> 's \<times> 'w \<Rightarrow> unit result \<times> ('s \<times> 'w)" where
  "putCert P key cert sw =
     (let (r, s) = pe_insert P key cert (fst sw); sw = (s, snd sw)
      in if r = Err ErrCertExists then (Ok (), sw) else (r, sw))"

definition genSelfSignedCACertificate :: "('s, 'w) pki_env \<Rightarrow> 's \<times> 'w \<Rightarrow> unit result \<times> ('s \<times> 'w)" where
  "genSelfSignedCACertificate P sw =
     (let csr = genCsr (caName P)
            \<lparr>an_dns = [], an_ips = [''0.0.0.0'', ''127.0.0.1''], an_emails = [], an_uris = [''https://localhost'']\<rparr>;
          (r, w) = pe_root P csr (pe_rootDays P) (snd sw)
      in sbind (r, (fst sw, w)) (\<lambda>cert sw. putCert P (genStoKey (caName P)) cert sw))"

text \<open>\<^verbatim>\<open>NewPKI\<close>, after the library's client was made.\<close>

definition NewPKI :: "('s, 'w) pki_env \<Rightarrow> 's \<times> 'w \<Rightarrow> unit result \<times> ('s \<times> 'w)" where
  "NewPKI P sw = genSelfSignedCACertificate P sw"

definition IssueCertificate :: "('s, 'w) pki_env \<Rightarrow> string \<Rightarrow> alt_names \<Rightarrow> 's \<times> 'w \<Rightarrow> cert_pem result \<times> ('s \<times> 'w)" where
  "IssueCertificate P cn alt sw =
     sbind (getCA P sw, sw) (\<lambda>ca sw.
       let (r, w) = pe_sub P (genCsr cn alt) (pe_subDays P) ca (snd sw) in (r, (fst sw, w)))"

definition RevokeCertificate :: "('s, 'w) pki_env \<Rightarrow> string \<Rightarrow> 's \<times> 'w \<Rightarrow> unit result \<times> ('s \<times> 'w)" where
  "RevokeCertificate P cn sw = (let (r, s) = pe_delete P (genStoKey cn) (fst sw) in (r, (s, snd sw)))"

definition RotateCertificate :: "('s, 'w) pki_env \<Rightarrow> string \<Rightarrow> 's \<times> 'w \<Rightarrow> cert_pem result \<times> ('s \<times> 'w)" where
  "RotateCertificate P cn sw =
     sbind (pe_get P (fst sw) (genStoKey cn), sw) (\<lambda>cert sw.
     sbind (RevokeCertificate P cn sw) (\<lambda>_ sw.
     sbind (pe_parse P (cp_crt cert), sw) (\<lambda>infos sw.
       case infos of
         [i] \<Rightarrow> IssueCertificate P (ci_cn i) (ci_alt i) sw
       | _ \<Rightarrow> (Err ''rotate certificate error'', sw))))"

section \<open>One operation\<close>

lemma genStoKey_inject [simp]: "genStoKey a = genStoKey b \<longleftrightarrow> a = b"
  by (simp add: genStoKey_def)

lemma insert_cases:
  assumes "cert_store_ok P" and "pe_insert P k v s = (r, s')"
  shows "(is_ok r \<longrightarrow> \<not> is_ok (pe_get P s k) \<and> pe_get P s' k = Ok v) \<and>
    (r = Err ErrCertExists \<longrightarrow> is_ok (pe_get P s k)) \<and>
    (\<not> is_ok r \<longrightarrow> s' = s) \<and> (\<forall>k'. k' \<noteq> k \<longrightarrow> pe_get P s' k' = pe_get P s k')"
  using assms unfolding cert_store_ok_def by blast

lemma delete_cases:
  assumes "cert_store_ok P" and "pe_delete P k s = (r, s')"
  shows "(is_ok r \<longrightarrow> is_ok (pe_get P s k) \<and> \<not> is_ok (pe_get P s' k)) \<and>
    (\<not> is_ok r \<longrightarrow> s' = s) \<and> (\<forall>k'. k' \<noteq> k \<longrightarrow> pe_get P s' k' = pe_get P s k')"
  using assms unfolding cert_store_ok_def by blast

lemma NewPKI_cases:
  assumes ok: "cert_store_ok P" and run: "NewPKI P sw = (r, sw')"
  shows "(\<exists>cert. is_ok r \<and> \<not> is_ok (getCA P sw) \<and> getCA P sw' = Ok cert) \<or>
     fst sw' = fst sw \<and> (is_ok r \<longrightarrow> is_ok (getCA P sw))"
    and "k \<noteq> genStoKey (caName P) \<Longrightarrow> pe_get P (fst sw') k = pe_get P (fst sw) k"
proof -
  define csr where "csr = genCsr (caName P)
     \<lparr>an_dns = [], an_ips = [''0.0.0.0'', ''127.0.0.1''], an_emails = [], an_uris = [''https://localhost'']\<rparr>"
  obtain rc w where g: "pe_root P csr (pe_rootDays P) (snd sw) = (rc, w)" by (rule prod.exhaust)
  have *: "((\<exists>cert. is_ok r \<and> \<not> is_ok (getCA P sw) \<and> getCA P sw' = Ok cert) \<or>
     fst sw' = fst sw \<and> (is_ok r \<longrightarrow> is_ok (getCA P sw))) \<and>
     (k \<noteq> genStoKey (caName P) \<longrightarrow> pe_get P (fst sw') k = pe_get P (fst sw) k)"
  proof (cases rc)
    case (Ok cert)
    obtain ri s where i: "pe_insert P (genStoKey (caName P)) cert (fst sw) = (ri, s)" by (rule prod.exhaust)
    from run g Ok i have "sw' = (s, w)" "r = (if ri = Err ErrCertExists then Ok () else ri)"
      by (auto simp: NewPKI_def genSelfSignedCACertificate_def csr_def[symmetric] putCert_def Let_def split: if_splits)
    with insert_cases[OF ok i] show ?thesis by (cases ri) (auto simp: getCA_def)
  qed (use run g in \<open>auto simp: NewPKI_def genSelfSignedCACertificate_def csr_def[symmetric] Let_def\<close>)
  then show "(\<exists>cert. is_ok r \<and> \<not> is_ok (getCA P sw) \<and> getCA P sw' = Ok cert) \<or>
     fst sw' = fst sw \<and> (is_ok r \<longrightarrow> is_ok (getCA P sw))" by blast
  from * show "k \<noteq> genStoKey (caName P) \<Longrightarrow> pe_get P (fst sw') k = pe_get P (fst sw) k" by blast
qed

lemma Issue_store: "fst (snd (IssueCertificate P cn alt sw)) = fst sw"
proof (cases "getCA P sw")
  case (Ok ca)
  then show ?thesis
    by (cases "pe_sub P (genCsr cn alt) (pe_subDays P) ca (snd sw)") (simp add: IssueCertificate_def)
qed (simp_all add: IssueCertificate_def)

text \<open>
  Rotating reads, deletes and issues: nothing is issued once the certificate of the authority is the
  one deleted.
\<close>

lemma Rotate_cases:
  assumes ok: "cert_store_ok P" and run: "RotateCertificate P cn sw = (r, sw')"
  shows "fst sw' = fst sw \<and> \<not> is_ok r \<or>
    is_ok (pe_get P (fst sw) (genStoKey cn)) \<and> pe_delete P (genStoKey cn) (fst sw) = (Ok (), fst sw') \<and>
    (is_ok r \<longrightarrow> is_ok (getCA P sw'))"
proof (cases "pe_get P (fst sw) (genStoKey cn)")
  case (Ok cert)
  obtain rd s where d: "pe_delete P (genStoKey cn) (fst sw) = (rd, s)" by (rule prod.exhaust)
  show ?thesis
  proof (cases rd)
    case (Ok u)
    have issue: "fst (snd (IssueCertificate P c a (s, snd sw))) = s \<and>
        (is_ok (fst (IssueCertificate P c a (s, snd sw))) \<longrightarrow> is_ok (getCA P (s, x)))" for c a x
      using Issue_store[of P c a "(s, snd sw)"]
      by (cases "pe_get P s (genStoKey (caName P))") (simp_all add: IssueCertificate_def getCA_def)
    define k where "k = (\<lambda>infos :: cert_info list. case infos of
         [i] \<Rightarrow> IssueCertificate P (ci_cn i) (ci_alt i) (s, snd sw)
       | _ \<Rightarrow> (Err ''rotate certificate error'', (s, snd sw)))"
    have kk: "fst (snd (k infos)) = s \<and> (is_ok (fst (k infos)) \<longrightarrow> is_ok (getCA P (s, x)))" for infos x
      using issue by (auto simp: k_def split: list.split)
    have eq: "RotateCertificate P cn sw = sbind (pe_parse P (cp_crt cert), (s, snd sw)) (\<lambda>infos _. k infos)"
      using \<open>pe_get P (fst sw) (genStoKey cn) = Ok cert\<close> d Ok
      by (cases "pe_parse P (cp_crt cert)") (simp_all add: RotateCertificate_def RevokeCertificate_def k_def)
    have "fst sw' = s \<and> (is_ok r \<longrightarrow> is_ok (getCA P (s, snd sw')))"
    proof (cases "pe_parse P (cp_crt cert)")
      case (Ok infos)
      with eq run have "k infos = (r, sw')" by simp
      with kk[of infos "snd sw'"] show ?thesis by simp
    qed (use eq run in auto)
    moreover from this have "(s, snd sw') = sw'" by (cases sw') simp
    ultimately show ?thesis using d Ok \<open>pe_get P (fst sw) (genStoKey cn) = Ok cert\<close> by simp
  next
    case (Err e)
    with run d Ok delete_cases[OF ok d] show ?thesis
      by (auto simp: RotateCertificate_def RevokeCertificate_def)
  next
    case (Panic p)
    with run d Ok delete_cases[OF ok d] show ?thesis
      by (auto simp: RotateCertificate_def RevokeCertificate_def)
  qed
next
  case (Err e)
  then have "RotateCertificate P cn sw = (Err e, sw)" by (simp add: RotateCertificate_def)
  with run show ?thesis by auto
next
  case (Panic p)
  then have "RotateCertificate P cn sw = (Panic p, sw)" by (simp add: RotateCertificate_def)
  with run show ?thesis by auto
qed

section \<open>The life of the authority\<close>

text \<open>
  A node is started under the namespace and name the environment has at that time; the store is the one
  it had before.
\<close>

definition asNode :: "('s, 'w) pki_env \<Rightarrow> string \<times> string \<Rightarrow> ('s, 'w) pki_env" where
  "asNode P i = P\<lparr>pe_namespace := fst i, pe_node := snd i\<rparr>"

lemma asNode_simps [simp]:
  "pe_get (asNode P i) = pe_get P" "pe_delete (asNode P i) = pe_delete P" "cert_store_ok (asNode P i) = cert_store_ok P"
  "caName (asNode P i) = fst i @ ''.'' @ snd i"
  by (simp_all add: asNode_def cert_store_ok_def caName_def)

text \<open>
  What can happen to the store: restarts, under the same identity or another one, and the calls of the
  interface, which revoke and rotate any name but \<open>cn\<close>. Every call may fail.
\<close>

inductive pki_step :: "('s, 'w) pki_env \<Rightarrow> string \<Rightarrow> (string \<times> string) \<times> ('s \<times> 'w) \<Rightarrow> (string \<times> string) \<times> ('s \<times> 'w) \<Rightarrow> bool"
  for P cn where
  pki_restart: "pki_step P cn (i, sw) (j, snd (NewPKI (asNode P j) sw))"
| pki_issue: "pki_step P cn (i, sw) (i, snd (IssueCertificate (asNode P i) c alt sw))"
| pki_revoke: "c \<noteq> cn \<Longrightarrow> pki_step P cn (i, sw) (i, snd (RevokeCertificate (asNode P i) c sw))"
| pki_rotate: "c \<noteq> cn \<Longrightarrow> pki_step P cn (i, sw) (i, snd (RotateCertificate (asNode P i) c sw))"

text \<open>
  The authority survives a restart: where one is stored, \<^verbatim>\<open>NewPKI\<close> keeps it although it made a
  new one; where none is stored, a successful \<^verbatim>\<open>NewPKI\<close> stores one. In both cases \<^verbatim>\<open>GetCA\<close> works
  afterwards.
\<close>

theorem authority_survives_restart:
  assumes "cert_store_ok P" and "NewPKI P sw = (Ok (), sw')"
  shows "is_ok (GetCA P sw') \<and> (is_ok (GetCA P sw) \<longrightarrow> fst sw' = fst sw \<and> GetCA P sw' = GetCA P sw)"
proof -
  have same: "fst sw' = fst sw \<Longrightarrow> getCA P sw' = getCA P sw" by (simp add: getCA_def)
  have ok: "is_ok (GetCA P x) \<longleftrightarrow> is_ok (getCA P x)" for x by (cases "getCA P x") (simp_all add: GetCA_def)
  from NewPKI_cases(1)[OF assms] same show ?thesis unfolding ok by (auto simp: GetCA_def)
qed

text \<open>A restart leaves every stored certificate, that of the authority and any other.\<close>

lemma NewPKI_keeps:
  assumes "cert_store_ok P" and "pe_get P (fst sw) k = Ok ca"
  shows "pe_get P (fst (snd (NewPKI P sw))) k = Ok ca"
proof -
  obtain r sw' where n: "NewPKI P sw = (r, sw')" by (rule prod.exhaust)
  show ?thesis
  proof (cases "k = genStoKey (caName P)")
    case True
    with NewPKI_cases(1)[OF assms(1) n] assms(2) n show ?thesis by (auto simp: getCA_def)
  next
    case False
    with NewPKI_cases(2)[OF assms(1) n False] assms(2) n show ?thesis by simp
  qed
qed

lemma delete_keeps:
  assumes "cert_store_ok P" and "k \<noteq> k'"
  shows "pe_get P (snd (pe_delete P k' s)) k = pe_get P s k"
proof -
  obtain r s' where d: "pe_delete P k' s = (r, s')" by (rule prod.exhaust)
  from delete_cases[OF assms(1) d] assms(2) d show ?thesis by simp
qed

lemma Rotate_keeps:
  assumes "cert_store_ok P" and "c \<noteq> cn"
  shows "pe_get P (fst (snd (RotateCertificate P c sw))) (genStoKey cn) = pe_get P (fst sw) (genStoKey cn)"
proof -
  obtain r sw' where r: "RotateCertificate P c sw = (r, sw')" by (rule prod.exhaust)
  from Rotate_cases[OF assms(1) r] show ?thesis
  proof
    assume "fst sw' = fst sw \<and> \<not> is_ok r"
    with r show ?thesis by simp
  next
    assume "is_ok (pe_get P (fst sw) (genStoKey c)) \<and> pe_delete P (genStoKey c) (fst sw) = (Ok (), fst sw') \<and>
      (is_ok r \<longrightarrow> is_ok (getCA P sw'))"
    with delete_keeps[OF assms(1), of "genStoKey cn" "genStoKey c" "fst sw"] assms(2) r show ?thesis by simp
  qed
qed

lemma pki_step_keeps:
  assumes "cert_store_ok P" and "pki_step P cn x y" and "pe_get P (fst (snd x)) (genStoKey cn) = Ok ca"
  shows "pe_get P (fst (snd y)) (genStoKey cn) = Ok ca"
  using assms(2)
proof cases
  case (pki_restart i' sw' j')
  with NewPKI_keeps[of "asNode P j'" sw' "genStoKey cn" ca] assms(1,3) show ?thesis by simp
next
  case (pki_issue i sw c alt)
  with assms(3) show ?thesis by (simp add: Issue_store)
next
  case (pki_revoke c i sw)
  with delete_keeps[OF assms(1), of "genStoKey cn" "genStoKey c" "fst sw"] assms(3) show ?thesis
    by (simp add: RevokeCertificate_def split_beta)
next
  case (pki_rotate c i sw)
  with Rotate_keeps[of "asNode P i" c cn sw] assms(1,3) show ?thesis by simp
qed

text \<open>
  C25. The authority of a node survives: once its certificate is stored, it stays the same over any
  restarts, under the node's own identity or another one, over any certificates issued and any others
  revoked or rotated, whether these calls succeed or fail; and when the node is started successfully
  under its identity again, \<^verbatim>\<open>GetCA\<close> gives that certificate, although the start made a new one.
\<close>

theorem authority_survives:
  assumes "cert_store_ok P" and "(pki_step P (ns @ ''.'' @ n))\<^sup>*\<^sup>* (i, sw) (j, sw')"
    and "pe_get P (fst sw) (genStoKey (ns @ ''.'' @ n)) = Ok ca" and "NewPKI (asNode P (ns, n)) sw' = (Ok (), sw'')"
  shows "pe_get P (fst sw') (genStoKey (ns @ ''.'' @ n)) = Ok ca \<and> fst sw'' = fst sw' \<and>
    GetCA (asNode P (ns, n)) sw'' = Ok (cp_crt ca)"
proof -
  have kept: "pe_get P (fst (snd y)) (genStoKey (ns @ ''.'' @ n)) = Ok ca" if "(pki_step P (ns @ ''.'' @ n))\<^sup>*\<^sup>* (i, sw) y" for y
    using that
  proof (induction rule: rtranclp_induct)
    case (step y z)
    from pki_step_keeps[OF assms(1) step.hyps(2) step.IH] show ?case .
  qed (use assms(3) in simp)
  note k = kept[OF assms(2), unfolded snd_conv]
  then have ca: "GetCA (asNode P (ns, n)) sw' = Ok (cp_crt ca)" by (simp add: GetCA_def getCA_def)
  with authority_survives_restart[OF _ assms(4)] assms(1) k show ?thesis by simp
qed

section \<open>What cannot be rotated\<close>

text \<open>
  Issuing does not store the certificate: neither rotating nor revoking finds a name that was not stored
  before.
\<close>

lemma rotate_misses_issued:
  assumes "\<not> is_ok (pe_get P (fst sw) (genStoKey cn))"
  shows "RotateCertificate P cn (snd (IssueCertificate P cn alt sw)) = (r, sw') \<Longrightarrow> \<not> is_ok r"
  using assms by (cases "pe_get P (fst sw) (genStoKey cn)") (auto simp: RotateCertificate_def Issue_store)

lemma revoke_misses_issued:
  assumes "cert_store_ok P" and "\<not> is_ok (pe_get P (fst sw) (genStoKey cn))"
  shows "\<not> is_ok (fst (RevokeCertificate P cn (snd (IssueCertificate P cn alt sw))))"
proof -
  obtain r s where d: "pe_delete P (genStoKey cn) (fst sw) = (r, s)" by (rule prod.exhaust)
  from delete_cases[OF assms(1) d] assms(2) d show ?thesis by (simp add: RevokeCertificate_def Issue_store)
qed

section \<open>A store in memory\<close>

definition mem_pki :: "((string, cert_pem) gomap, nat) pki_env" where
  "mem_pki =
     \<lparr>pe_get = (\<lambda>s k. case mget s k of Some v \<Rightarrow> Ok v | None \<Rightarrow> Err ''No data found for this key''),
      pe_insert = (\<lambda>k v s. if mget s k = None then (Ok (), mput k v s) else (Err ErrCertExists, s)),
      pe_delete = (\<lambda>k s. if mget s k = None then (Err ''No data found for this key'', s) else (Ok (), mdel k s)),
      pe_root = (\<lambda>c d n. (Ok \<lparr>cp_crt = cr_cn c, cp_key = dec_nat n\<rparr>, n + 1)),
      pe_sub = (\<lambda>c d ca n. (Ok \<lparr>cp_crt = cr_cn c, cp_key = dec_nat n\<rparr>, n + 1)),
      pe_parse = (\<lambda>s. Ok [\<lparr>ci_cn = s, ci_alt = \<lparr>an_dns = [], an_ips = [], an_emails = [], an_uris = []\<rparr>\<rparr>]),
      pe_namespace = ''default'', pe_node = ''edge'', pe_rootDays = 18250, pe_subDays = 7300\<rparr>"

lemma mem_pki_ok: "cert_store_ok mem_pki"
  unfolding cert_store_ok_def mem_pki_def
  by (auto simp: map_simps ErrCertExists_def split: option.splits if_splits)

theorem authority_survives_restart_witness:
  "\<exists>sw1 sw2. NewPKI mem_pki ([], 0) = (Ok (), sw1) \<and> NewPKI mem_pki sw1 = (Ok (), sw2) \<and>
     snd sw2 = 2 \<and> GetCA mem_pki sw2 = Ok ''default.edge''"
proof -
  obtain sw1 where a: "NewPKI mem_pki ([], 0) = (Ok (), sw1)" and one: "GetCA mem_pki sw1 = Ok ''default.edge''"
    by (simp add: NewPKI_def genSelfSignedCACertificate_def putCert_def GetCA_def getCA_def mem_pki_def Let_def
      genCsr_def caName_def genStoKey_def)
  have "fst (NewPKI mem_pki (snd (NewPKI mem_pki ([], 0)))) = Ok ()" and
    two: "snd (snd (NewPKI mem_pki (snd (NewPKI mem_pki ([], 0))))) = 2" by code_simp+
  then obtain sw2 where b: "NewPKI mem_pki sw1 = (Ok (), sw2)" using a by (metis prod.collapse snd_conv)
  have "GetCA mem_pki sw2 = Ok ''default.edge''" using authority_survives_restart[OF mem_pki_ok b] one by simp
  with a b two show ?thesis by (intro exI[of _ sw1] exI[of _ sw2]) simp
qed

theorem authority_survives_witness:
  "GetCA mem_pki (snd (NewPKI mem_pki (snd (RevokeCertificate (asNode mem_pki (''default'', ''other'')) ''app''
     (snd (NewPKI (asNode mem_pki (''default'', ''other'')) (snd (NewPKI mem_pki ([], 0))))))))) = Ok ''default.edge''"
proof -
  let ?Q = "asNode mem_pki (''default'', ''other'')" and ?cn = "''default'' @ ''.'' @ ''edge''"
  define sw where "sw = snd (NewPKI mem_pki ([], 0))"
  define sw2 where "sw2 = snd (NewPKI ?Q sw)"
  define sw3 where "sw3 = snd (RevokeCertificate ?Q ''app'' sw2)"
  have same: "asNode mem_pki (''default'', ''edge'') = mem_pki" by (simp add: asNode_def mem_pki_def)
  have "pki_step mem_pki ?cn ((''default'', ''edge''), sw) ((''default'', ''other''), sw2)"
    unfolding sw2_def by (rule pki_restart)
  moreover have "pki_step mem_pki ?cn ((''default'', ''other''), sw2) ((''default'', ''other''), sw3)"
    unfolding sw3_def by (rule pki_revoke) simp
  ultimately have run: "(pki_step mem_pki ?cn)\<^sup>*\<^sup>* ((''default'', ''edge''), sw) ((''default'', ''other''), sw3)"
    by (meson converse_rtranclp_into_rtranclp rtranclp.rtrancl_refl)
  have stored: "pe_get mem_pki (fst sw) (genStoKey ?cn) = Ok \<lparr>cp_crt = ''default.edge'', cp_key = ''0''\<rparr>"
    unfolding sw_def by code_simp
  have "fst (NewPKI mem_pki sw3) = Ok ()" unfolding sw3_def sw2_def sw_def by code_simp
  then have start: "NewPKI (asNode mem_pki (''default'', ''edge'')) sw3 = (Ok (), snd (NewPKI mem_pki sw3))"
    unfolding same by (metis prod.collapse)
  from authority_survives[OF mem_pki_ok run stored start] show ?thesis unfolding same sw3_def sw2_def sw_def by simp
qed

text \<open>Rotating the authority under its own identity destroys it.\<close>

lemma rotate_destroys_authority:
  "\<not> is_ok (GetCA mem_pki (snd (RotateCertificate mem_pki ''default.edge'' (snd (NewPKI mem_pki ([], 0))))))"
  by code_simp

end
