(* ===== verification/Link.thy ===== *)
theory Link
  imports Sync_Report
begin

text \<open>
  The link to the cloud over HTTP (\<^verbatim>\<open>plugin/httplink/http.go\<close>), a provider of the \<open>link_ops\<close> the sync
  component uses. The HTTP client, JSON and \<^verbatim>\<open>utils.ParseEnv\<close> are arguments, as are the names of the
  message kinds of baetyl-go.
\<close>

section \<open>The link\<close>

record 'n http_env =
  hl_post :: "string \<Rightarrow> string \<Rightarrow> string \<Rightarrow> (string, string) gomap \<Rightarrow> 'n \<Rightarrow> string result \<times> 'n"
    \<comment> \<open>\<^verbatim>\<open>PostJSON\<close>: address, path, body, headers\<close>
  hl_marshal :: "payload \<Rightarrow> string result"
  hl_parseEnv :: "string \<Rightarrow> string result"
  hl_kind :: "msg_kind \<Rightarrow> string"
  hl_reportKinds :: "string list"            \<comment> \<open>MessageDeviceReport, MessageDeviceLifecycleReport\<close>
  hl_desireKinds :: "string list"            \<comment> \<open>MessageDeviceDesire, MessageMultipleDeviceDesire\<close>
  hl_addrs :: "string list"
  hl_reportURL :: string
  hl_desireURL :: string

text \<open>The addresses \<^verbatim>\<open>New\<close> chooses: those of the environment variable win.\<close>

definition linkAddrs :: "string \<Rightarrow> string \<Rightarrow> string list" where
  "linkAddrs address addrEnv = (if addrEnv \<noteq> [] then split (CHR '','') addrEnv else split (CHR '','') address)"

text \<open>
  The construction: the certificate of the node replaces that of the link, and without TLS there is no
  link. \<open>options\<close> are the client options, of which only the presence of a TLS configuration is used.
\<close>

record link_config =
  lc_address :: string
  lc_cert :: "string \<times> string \<times> string"        \<comment> \<open>CA, key, certificate\<close>
  lc_nodeCert :: "string \<times> string \<times> string"

definition link_New :: "link_config result \<Rightarrow> (link_config \<Rightarrow> bool result) \<Rightarrow> string \<Rightarrow> (link_config \<times> string list) result" where
  "link_New load options addrEnv =
     rbind load (\<lambda>cfg.
     let cfg = cfg\<lparr>lc_cert := lc_nodeCert cfg\<rparr>
     in rbind (options cfg) (\<lambda>tls.
        if \<not> tls then Err ''certificate bidirectional authentication is required for connection with cloud''
        else Ok (cfg, linkAddrs (lc_address cfg) addrEnv)))"

fun postEach :: "('n \<Rightarrow> string result \<times> 'n) list \<Rightarrow> string list \<Rightarrow> 'n \<Rightarrow> string result \<times> 'n" where
  "postEach [] errs n = (Err (join '';'' errs), n)"
| "postEach (f # fs) errs n =
     (case f n of
        (Ok d, n) \<Rightarrow> (Ok d, n)
      | (Err e, n) \<Rightarrow> postEach fs (errs @ [e]) n
      | (Panic p, n) \<Rightarrow> (Panic p, n))"

definition link_post :: "'n http_env \<Rightarrow> string \<Rightarrow> string \<Rightarrow> (string, string) gomap \<Rightarrow> 'n \<Rightarrow> string result \<times> 'n" where
  "link_post H url pld headers n = postEach (map (\<lambda>a. hl_post H a url pld headers) (hl_addrs H)) [] n"

text \<open>The path a kind of message is posted to; other kinds are not supported.\<close>

definition kindURL :: "'n http_env \<Rightarrow> msg_kind \<Rightarrow> string option" where
  "kindURL H k =
     (case k of
        MessageReport \<Rightarrow> Some (hl_reportURL H)
      | MessageDesire \<Rightarrow> Some (hl_desireURL H)
      | MessageOther s \<Rightarrow>
          if s \<in> set (hl_reportKinds H) then Some (hl_reportURL H)
          else if s \<in> set (hl_desireKinds H) then Some (hl_desireURL H) else None
      | _ \<Rightarrow> None)"

text \<open>The kind is added to the metadata, which become the headers.\<close>

definition link_Request :: "'n http_env \<Rightarrow> message \<Rightarrow> 'n \<Rightarrow> message result \<times> 'n" where
  "link_Request H msg n =
     sbind (hl_marshal H (m_content msg), n) (\<lambda>pld n.
     case kindURL H (m_kind msg) of
       None \<Rightarrow> (Err ''unsupported message kind'', n)
     | Some url \<Rightarrow>
         sbind (link_post H url pld (mput ''kind'' (hl_kind H (m_kind msg)) (m_meta msg)) n) (\<lambda>data n.
         sbind (hl_parseEnv H data, n) (\<lambda>data n.
         (Ok \<lparr>m_kind = m_kind msg, m_meta = [], m_content = Wire data\<rparr>, n))))"

definition link_Send :: "message \<Rightarrow> 'n \<Rightarrow> unit result \<times> 'n" where
  "link_Send msg n = (Ok (), n)"

text \<open>The link as the sync component sees it; the decoders and the bus are not the link's.\<close>

definition http_link :: "'n http_env \<Rightarrow> (payload \<Rightarrow> resource_value list result) \<Rightarrow> (payload \<Rightarrow> doc result) \<Rightarrow>
    (string \<Rightarrow> message \<Rightarrow> 'n \<Rightarrow> unit result \<times> 'n) \<Rightarrow> 'n link_ops" where
  "http_link H values docOf pub =
     \<lparr>lk_request = link_Request H, lk_send = link_Send, lk_async = False, lk_values = values,
      lk_desire = docOf, lk_publish = pub\<rparr>"

section \<open>Failing over\<close>

text \<open>
  The specification: ask in order, skip those that fail. \<open>allFail\<close> says that the calls all fail, and
  with which errors.
\<close>

inductive allFail :: "('n \<Rightarrow> string result \<times> 'n) list \<Rightarrow> 'n \<Rightarrow> string list \<Rightarrow> 'n \<Rightarrow> bool" where
  "allFail [] n [] n"
| "f n = (Err e, n1) \<Longrightarrow> allFail fs n1 es n2 \<Longrightarrow> allFail (f # fs) n (e # es) n2"

inductive_cases allFail_NilE: "allFail [] n es n'"
inductive_cases allFail_ConsE: "allFail (f # fs) n es n'"

inductive_simps allFail_simps: "allFail [] n es n'" "allFail (f # fs) n es n'"

lemma postEach_Ok:
  "postEach fs errs n = (Ok d, n') \<longleftrightarrow>
     (\<exists>pre f suf es n1. fs = pre @ f # suf \<and> allFail pre n es n1 \<and> f n1 = (Ok d, n'))"
proof (induction fs arbitrary: errs n)
  case Nil
  then show ?case by simp
next
  case (Cons f fs)
  obtain r m where r: "f n = (r, m)" by (rule prod.exhaust)
  have split: "(\<exists>pre g suf es n1. f # fs = pre @ g # suf \<and> allFail pre n es n1 \<and> g n1 = (Ok d, n')) \<longleftrightarrow>
     f n = (Ok d, n') \<or>
     (\<exists>e m. f n = (Err e, m) \<and> (\<exists>pre g suf es n1. fs = pre @ g # suf \<and> allFail pre m es n1 \<and> g n1 = (Ok d, n')))"
    (is "?L \<longleftrightarrow> ?R")
  proof
    assume ?L
    then obtain pre g suf es n1 where l: "f # fs = pre @ g # suf" "allFail pre n es n1" "g n1 = (Ok d, n')"
      by blast
    show ?R
    proof (cases pre)
      case Nil
      with l show ?thesis by (auto elim: allFail_NilE)
    next
      case (Cons h pre')
      with l obtain e m es' where "f n = (Err e, m)" "allFail pre' m es' n1" "fs = pre' @ g # suf"
        by (auto simp: allFail_simps)
      with l(3) show ?thesis by blast
    qed
  next
    assume ?R
    then show ?L
    proof
      assume "f n = (Ok d, n')"
      then show ?L by (intro exI[of _ "[]"] exI[of _ f] exI[of _ fs] exI[of _ "[]"] exI[of _ n])
        (simp add: allFail_simps)
    next
      assume "\<exists>e m. f n = (Err e, m) \<and> (\<exists>pre g suf es n1. fs = pre @ g # suf \<and> allFail pre m es n1 \<and> g n1 = (Ok d, n'))"
      then obtain e m pre g suf es n1 where "f n = (Err e, m)" "fs = pre @ g # suf" "allFail pre m es n1" "g n1 = (Ok d, n')"
        by blast
      then show ?L by (intro exI[of _ "f # pre"] exI[of _ g] exI[of _ suf] exI[of _ "e # es"] exI[of _ n1])
        (auto simp: allFail_simps)
    qed
  qed
  show ?case unfolding split by (cases r) (auto simp: r Cons.IH)
qed

lemma postEach_Err:
  "allFail fs n es n' \<Longrightarrow> postEach fs errs n = (Err (join '';'' (errs @ es)), n')"
  by (induction arbitrary: errs rule: allFail.induct) simp_all

text \<open>
  A request over HTTP fails over: it is answered exactly when some address answers after all the
  addresses before it failed, with that answer, and later addresses are not asked. When every address
  fails, the error lists each of theirs.
\<close>

theorem link_fails_over:
  "(link_post H url pld hs n = (Ok d, n') \<longleftrightarrow>
     (\<exists>pre a suf es n1. hl_addrs H = pre @ a # suf \<and> allFail (map (\<lambda>a. hl_post H a url pld hs) pre) n es n1 \<and>
        hl_post H a url pld hs n1 = (Ok d, n'))) \<and>
   (\<forall>es n'. allFail (map (\<lambda>a. hl_post H a url pld hs) (hl_addrs H)) n es n' \<longrightarrow>
     link_post H url pld hs n = (Err (join '';'' es), n'))"
  (is "?A \<and> ?B")
proof
  let ?f = "\<lambda>a. hl_post H a url pld hs"
  have "(\<exists>pre f suf es n1. map ?f (hl_addrs H) = pre @ f # suf \<and> allFail pre n es n1 \<and> f n1 = (Ok d, n')) \<longleftrightarrow>
     (\<exists>pre a suf es n1. hl_addrs H = pre @ a # suf \<and> allFail (map ?f pre) n es n1 \<and> ?f a n1 = (Ok d, n'))"
    by (auto simp: map_eq_append_conv Cons_eq_map_conv map_eq_Cons_conv) blast+
  then show ?A by (simp add: link_post_def postEach_Ok)
  show ?B by (simp add: link_post_def postEach_Err)
qed

text \<open>A round of the sync component over this link: the report is posted to the report path.\<close>

lemma link_reports:
  assumes "hl_marshal H (ReportOf r) = Ok pld"
    and "link_post H (hl_reportURL H) pld (mput ''kind'' (hl_kind H MessageReport) [(''source'', e_svcName E)]) n = (Ok d, n')"
    and "hl_parseEnv H d = Ok d'"
  shows "sync_Report E (http_link H values docOf pub) r n = (docOf (Wire d'), n')"
  using assms by (simp add: sync_Report_def http_link_def link_Request_def kindURL_def reportMessage_def)

lemma linkAddrs_nonempty: "linkAddrs a b \<noteq> []"
  by (simp add: linkAddrs_def)

section \<open>An address that is down\<close>

definition two_addrs :: "nat http_env" where
  "two_addrs =
     \<lparr>hl_post = (\<lambda>a url pld hs n. (if a = ''b'' then Ok (url @ pld) else Err ''down'', n + 1)),
      hl_marshal = (\<lambda>_. Ok ''x''), hl_parseEnv = Ok, hl_kind = (\<lambda>_. ''report''), hl_reportKinds = [],
      hl_desireKinds = [], hl_addrs = linkAddrs ''a,b,c'' [], hl_reportURL = ''/r'', hl_desireURL = ''/d''\<rparr>"

theorem link_fails_over_witness: "link_post two_addrs ''/r'' ''x'' [] 0 = (Ok ''/rx'', 2)"
proof -
  have "hl_addrs two_addrs = [''a''] @ ''b'' # [''c'']" by code_simp
  moreover have "allFail (map (\<lambda>a. hl_post two_addrs a ''/r'' ''x'' []) [''a'']) 0 [''down''] 1"
    by (simp add: allFail_simps two_addrs_def)
  moreover have "hl_post two_addrs ''b'' ''/r'' ''x'' [] 1 = (Ok ''/rx'', 2)" by (simp add: two_addrs_def)
  ultimately show ?thesis using link_fails_over[of two_addrs "''/r''" "''x''" "[]" 0 "''/rx''" 2] by blast
qed

end
