(* ===== verification/Eventx.thy ===== *)
theory Eventx
  imports Sync_Report
begin

text \<open>
  Forwarding of events to the system's MQTT broker (\<^verbatim>\<open>eventx/handler.go\<close>): the consumer of what
  \<^verbatim>\<open>sync\<close> publishes on the topic of events. The MQTT client, JSON and the command names of baetyl-go
  are arguments.
\<close>

section \<open>The handler\<close>

record mqtt_request =
  mr_qos :: int
  mr_topic :: string
  mr_content :: "json option"

record 'n event_env =
  ev_delta :: "payload \<Rightarrow> doc result"          \<comment> \<open>\<^verbatim>\<open>Content.Unmarshal\<close> into a delta\<close>
  ev_request :: "payload \<Rightarrow> mqtt_request result"
  ev_marshal :: "doc \<Rightarrow> string result"
  ev_print :: "json \<Rightarrow> string"               \<comment> \<open>the format \<^verbatim>\<open>%v\<close>\<close>
  ev_publish :: "int \<Rightarrow> string \<Rightarrow> string \<Rightarrow> 'n \<Rightarrow> unit result \<times> 'n"
  ev_qos :: int
  ev_topic :: string
  ev_rpcMqtt :: string                       \<comment> \<open>\<^verbatim>\<open>v1.MessageRPCMqtt\<close>\<close>

text \<open>A message of another type than \<^verbatim>\<open>*v1.Message\<close> is a nil pointer here.\<close>

definition event_OnMessage :: "'n event_env \<Rightarrow> message option \<Rightarrow> 'n \<Rightarrow> unit result \<times> 'n" where
  "event_OnMessage V msg n =
     (case msg of
        None \<Rightarrow> (Panic ''nil pointer dereference'', n)
      | Some m \<Rightarrow>
          (case m_kind m of
             MessageNodeProps \<Rightarrow>
               sbind (ev_delta V (m_content m), n) (\<lambda>delta n.
               if delta = [] then (Ok (), n)
               else sbind (ev_marshal V delta, n) (\<lambda>pld n. ev_publish V (ev_qos V) (ev_topic V) pld n))
           | MessageCMD \<Rightarrow>
               if mget (m_meta m) ''cmd'' = Some (ev_rpcMqtt V) \<or> mget (m_meta m) ''cmd'' = None \<and> ev_rpcMqtt V = []
               then sbind (ev_request V (m_content m), n) (\<lambda>req n.
                      ev_publish V (mr_qos req) (mr_topic req)
                        (case mr_content req of Some c \<Rightarrow> ev_print V c | None \<Rightarrow> []) n)
               else (Ok (), n)
           | _ \<Rightarrow> (Ok (), n)))"

section \<open>From the cloud to the broker\<close>

text \<open>
  A delta read back from the message it was put into, as JSON does.
\<close>

definition event_codec_ok :: "'n event_env \<Rightarrow> bool" where
  "event_codec_ok V \<longleftrightarrow> (\<forall>d. ev_delta V (Value (JObj d)) = Ok d)"

text \<open>
  Property changes reach the broker: the event \<^verbatim>\<open>sync\<close> publishes for a delta with node properties
  is forwarded to the configured topic with exactly those properties; for a delta without any there is
  no event.
\<close>

theorem event_forwards_properties:
  assumes "event_codec_ok V" and "ev_marshal V props = Ok pld"
  shows "(propsOfDelta E delta = Some props \<longrightarrow>
      sendEvent E lk True delta (d, n) = publish lk TopicEvent (propsMessage props) (d, n) \<and>
      event_OnMessage V (Some (propsMessage props)) n' = ev_publish V (ev_qos V) (ev_topic V) pld n') \<and>
    (propsOfDelta E delta = None \<longrightarrow> sendEvent E lk True delta (d, n) = (Ok (), (d, n)))"
proof -
  have "propsOfDelta E delta = Some props \<Longrightarrow> props \<noteq> []"
    by (auto simp: propsOfDelta_def split: option.splits json.splits if_splits)
  then show ?thesis using assms
    by (simp add: sendEvent_def event_OnMessage_def propsMessage_def event_codec_ok_def)
qed

definition plain_events :: "(string \<times> string) list event_env" where
  "plain_events =
     \<lparr>ev_delta = (\<lambda>p. case p of Value (JObj d) \<Rightarrow> Ok d | _ \<Rightarrow> Err ''not an object''),
      ev_request = (\<lambda>_. Err ''no request''), ev_marshal = (\<lambda>d. Ok (concat (map fst d))), ev_print = (\<lambda>_. []),
      ev_publish = (\<lambda>q t p n. (Ok (), (t, p) # n)), ev_qos = 1, ev_topic = ''props'', ev_rpcMqtt = ''rpcMqtt''\<rparr>"

theorem event_forwards_properties_witness:
  "event_OnMessage plain_events (Some (propsMessage [(''k'', JStr ''v'')])) [] = (Ok (), [(''props'', ''k'')])"
proof -
  have "event_codec_ok plain_events" "ev_marshal plain_events [(''k'', JStr ''v'')] = Ok ''k''"
    by (simp_all add: event_codec_ok_def plain_events_def)
  note fw = event_forwards_properties[OF this, of "sample_env" "[(e_keyNodeProps sample_env, JObj [(''k'', JStr ''v'')])]"]
  have "propsOfDelta sample_env [(e_keyNodeProps sample_env, JObj [(''k'', JStr ''v'')])] = Some [(''k'', JStr ''v'')]"
    by (simp add: propsOfDelta_def)
  then have "event_OnMessage plain_events (Some (propsMessage [(''k'', JStr ''v'')])) [] =
      ev_publish plain_events (ev_qos plain_events) (ev_topic plain_events) ''k'' []"
    by (rule conjunct2[OF mp[OF conjunct1[OF fw]]])
  then show ?thesis by (simp add: plain_events_def)
qed

end
