(* ===== verification/Ami_Registry.thy ===== *)
theory Ami_Registry
  imports Prelude
begin

text \<open>
  The registry of platforms (\<^verbatim>\<open>ami/ami.go\<close>): constructors by mode, and the instances made so far. The
  lock makes the two functions atomic. \<open>'c\<close> is the configuration, \<open>'s\<close> the store and \<open>'i\<close> an
  instance; a nil store is \<open>None\<close>.
\<close>

record ('c, 's, 'i) registry =
  rg_news :: "(string, 'c \<Rightarrow> 's option \<Rightarrow> 'i result) gomap"
  rg_impls :: "(string, 'i) gomap"

definition NewAMI :: "string \<Rightarrow> 'c \<Rightarrow> 's option \<Rightarrow> ('c, 's, 'i) registry \<Rightarrow> 'i result \<times> ('c, 's, 'i) registry" where
  "NewAMI mode cfg sto R =
     (case mget (rg_impls R) mode of
        Some ami \<Rightarrow> (Ok ami, R)
      | None \<Rightarrow>
          (case mget (rg_news R) mode of
             None \<Rightarrow> (Err ''invalid argument'', R)
           | Some amiNew \<Rightarrow>
               sbind (amiNew cfg sto, R) (\<lambda>ami R. (Ok ami, R\<lparr>rg_impls := mput mode ami (rg_impls R)\<rparr>))))"

definition Register :: "string \<Rightarrow> ('c \<Rightarrow> 's option \<Rightarrow> 'i result) \<Rightarrow> ('c, 's, 'i) registry \<Rightarrow> ('c, 's, 'i) registry" where
  "Register name n R = (if mget (rg_news R) name \<noteq> None then R else R\<lparr>rg_news := mput name n (rg_news R)\<rparr>)"

text \<open>The calls of a process, in any order.\<close>

inductive registry_step :: "('c, 's, 'i) registry \<Rightarrow> ('c, 's, 'i) registry \<Rightarrow> bool" where
  step_new: "registry_step R (snd (NewAMI mode cfg sto R))"
| step_register: "registry_step R (Register name n R)"

lemma NewAMI_impls:
  "mget (rg_impls R) m = Some i \<Longrightarrow> mget (rg_impls (snd (NewAMI mode cfg sto R))) m = Some i"
  "mget (rg_news R) m = Some f \<Longrightarrow> mget (rg_news (snd (NewAMI mode cfg sto R))) m = Some f"
proof -
  have "\<exists>R'. snd (NewAMI mode cfg sto R) = R' \<and> rg_news R' = rg_news R \<and>
      (rg_impls R' = rg_impls R \<or> mget (rg_impls R) mode = None \<and> (\<exists>i. rg_impls R' = mput mode i (rg_impls R)))"
  proof (cases "mget (rg_impls R) mode")
    case None
    show ?thesis
    proof (cases "mget (rg_news R) mode")
      case (Some amiNew)
      with None show ?thesis by (cases "amiNew cfg sto") (auto simp: NewAMI_def)
    qed (use None in \<open>simp add: NewAMI_def\<close>)
  qed (simp add: NewAMI_def)
  then show "mget (rg_impls R) m = Some i \<Longrightarrow> mget (rg_impls (snd (NewAMI mode cfg sto R))) m = Some i"
    "mget (rg_news R) m = Some f \<Longrightarrow> mget (rg_news (snd (NewAMI mode cfg sto R))) m = Some f"
    by (auto simp: map_simps)
qed

lemma steps_keep:
  assumes "registry_step\<^sup>*\<^sup>* R R'"
  shows "(mget (rg_impls R) m = Some i \<longrightarrow> mget (rg_impls R') m = Some i) \<and>
    (mget (rg_news R) m = Some f \<longrightarrow> mget (rg_news R') m = Some f)"
  using assms
proof (induction rule: rtranclp_induct)
  case base
  then show ?case by simp
next
  case (step R1 R2)
  from step.hyps(2) have "(mget (rg_impls R1) m = Some i \<longrightarrow> mget (rg_impls R2) m = Some i) \<and>
      (mget (rg_news R1) m = Some f \<longrightarrow> mget (rg_news R2) m = Some f)"
    by cases (auto simp: Register_def map_simps intro: NewAMI_impls)
  with step.IH show ?case by blast
qed

text \<open>
  There is one platform per mode: once \<^verbatim>\<open>NewAMI\<close> has returned an instance, whatever is registered
  or asked for afterwards, every later call for that mode returns the same instance, with whatever
  configuration and store.
\<close>

theorem one_platform_per_mode:
  assumes "NewAMI mode cfg sto R = (Ok i, R1)" and "registry_step\<^sup>*\<^sup>* R1 R2"
  shows "NewAMI mode cfg' sto' R2 = (Ok i, R2)"
proof -
  have "mget (rg_impls R1) mode = Some i"
  proof (cases "mget (rg_impls R) mode")
    case None
    with assms(1) show ?thesis
      by (auto simp: NewAMI_def map_simps sbind_Ok_iff split: option.splits)
  qed (use assms(1) in \<open>simp add: NewAMI_def\<close>)
  with steps_keep[OF assms(2), of mode i] show ?thesis by (simp add: NewAMI_def)
qed

text \<open>A platform that remembers the store it was made with.\<close>

definition store_registry :: "(unit, nat, nat option) registry" where
  "store_registry = \<lparr>rg_news = [(''kube'', \<lambda>_ sto. Ok sto)], rg_impls = []\<rparr>"

theorem one_platform_per_mode_witness:
  "\<exists>R1. NewAMI ''kube'' () None store_registry = (Ok None, R1) \<and> NewAMI ''kube'' () (Some 1) R1 = (Ok None, R1)"
proof -
  obtain R1 where "NewAMI ''kube'' () None store_registry = (Ok None, R1)"
    by (simp add: NewAMI_def store_registry_def)
  from this one_platform_per_mode[OF this rtranclp.rtrancl_refl] show ?thesis by blast
qed

text \<open>
  The activation asks for the platform with a nil store, and the engine of the same process then gets
  that instance instead of one with its store.
\<close>

lemma activation_keeps_nil_store:
  assumes "NewAMI mode cfg None R = (Ok i, R1)"
  shows "NewAMI mode cfg (Some sto) R1 = (Ok i, R1)"
proof (cases "mget (rg_impls R) mode")
  case None
  with assms show ?thesis
    by (auto simp: NewAMI_def map_simps sbind_Ok_iff split: option.splits)
qed (use assms in \<open>auto simp: NewAMI_def\<close>)

end
