(* ===== verification/Core_Server.thy ===== *)
theory Core_Server
  imports Engine_Core
begin

text \<open>
  The HTTP interface of the core: the wrapper of the handlers (\<^verbatim>\<open>utils/http.go\<close>) and the routes of
  \<^verbatim>\<open>core/core.go\<close>, over the handlers of the node and the engine. The server and the router of
  fasthttp are not modelled: a request is its method and path.
\<close>

section \<open>The wrapper\<close>

text \<open>
  What running a handler comes to: an answer as bytes or as a value to be encoded, an error, or a
  panic, whose value is an error (as of every run-time panic) or not.
\<close>

datatype outcome = Bytes string | Encoded string | Failed string | PanicError string | PanicOther

record web_answer =
  ha_status :: int
  ha_code :: string
  ha_body :: string

definition respondMsg :: "int \<Rightarrow> string \<Rightarrow> string \<Rightarrow> web_answer" where
  "respondMsg n code msg = \<lparr>ha_status = n, ha_code = code, ha_body = msg\<rparr>"

text \<open>
  The recovery of a panic that is no error calls \<^verbatim>\<open>err.Error()\<close> on the nil error it has: a new panic.
\<close>

definition Wrapper :: "outcome \<Rightarrow> web_answer result" where
  "Wrapper out =
     (case out of
        PanicError e \<Rightarrow> Ok (respondMsg 500 ''UnknownError'' e)
      | PanicOther \<Rightarrow> Panic ''nil pointer dereference''
      | Failed e \<Rightarrow> Ok (respondMsg 500 ''UnknownError'' e)
      | Bytes body \<Rightarrow> Ok (respondMsg 200 [] body)
      | Encoded body \<Rightarrow> Ok (respondMsg 200 [] body))"

text \<open>The handlers of the model panic with run-time errors only; \<open>toJson\<close> encodes their value.\<close>

definition outcomeOf :: "('v \<Rightarrow> string) \<Rightarrow> 'v result \<Rightarrow> outcome" where
  "outcomeOf toJson r = (case r of Ok v \<Rightarrow> Encoded (toJson v) | Err e \<Rightarrow> Failed e | Panic p \<Rightarrow> PanicError p)"

section \<open>The routes\<close>

record ('d, 'v) route_env =
  re_view :: "node_doc \<Rightarrow> 'v result"
  re_viewJson :: "'v \<Rightarrow> string"
  re_json :: "json \<Rightarrow> string"
  re_decode :: "string \<Rightarrow> doc result"         \<comment> \<open>\<^verbatim>\<open>json.Unmarshal\<close> of a request body\<close>
  re_props :: string                          \<comment> \<open>the key of the node's properties\<close>

record http_request =
  hq_method :: string
  hq_path :: "string list"
  hq_query :: "(string, string) gomap"
  hq_body :: string

definition queryArg :: "http_request \<Rightarrow> string \<Rightarrow> string" where
  "queryArg q k = (case mget (hq_query q) k of Some v \<Rightarrow> v | None \<Rightarrow> [])"

text \<open>The route \<^verbatim>\<open>/services/<service>/log\<close>.\<close>

definition logService :: "http_request \<Rightarrow> string option" where
  "logService q =
     (case hq_path q of
        [s, name, l] \<Rightarrow> if hq_method q = ''GET'' \<and> s = ''services'' \<and> l = ''log'' then Some name else None
      | _ \<Rightarrow> None)"

text \<open>A request without a route is \<open>None\<close>.\<close>

definition core_route :: "env \<Rightarrow> 'd bolt_ops \<Rightarrow> spec_ops \<Rightarrow> 'a ami_ops \<Rightarrow> ('d, 'v) route_env \<Rightarrow> http_request \<Rightarrow>
    'd \<times> 'a \<Rightarrow> web_answer result option \<times> ('d \<times> 'a)" where
  "core_route E B L A R q da =
     (let d = fst da; a = snd da
      in if hq_method q = ''GET'' \<and> hq_path q = [''node'', ''stats''] then
           (Some (Wrapper (outcomeOf (re_viewJson R) (GetStats B L E (re_view R) d))), da)
         else if hq_method q = ''GET'' \<and> hq_path q = [''node'', ''properties''] then
           (Some (Wrapper (outcomeOf (re_json R) (GetNodeProperties B L (re_props R) d))), da)
         else if hq_method q = ''PUT'' \<and> hq_path q = [''node'', ''properties''] then
           let (r, d) = UpdateNodeProperties B L (re_props R) (re_decode R (hq_body q)) d
           in (Some (Wrapper (outcomeOf (\<lambda>v. re_json R (JObj v)) r)), (d, a))
         else
           (case logService q of
              Some name \<Rightarrow>
                (Some (rmap (\<lambda>(n, code, body). respondMsg n code body)
                   (GetServiceLog E A name (queryArg q ''container'') (queryArg q ''tailLines'')
                      (queryArg q ''sinceSeconds'') a)), da)
            | None \<Rightarrow> (None, da)))"

section \<open>Requests\<close>

lemma Wrapper_outcomeOf: "\<exists>ans. Wrapper (outcomeOf f r) = Ok ans \<and> (ha_status ans = 200 \<longleftrightarrow> is_ok r) \<and>
    (ha_status ans = 200 \<or> ha_status ans = 500)"
  by (cases r) (simp_all add: Wrapper_def outcomeOf_def respondMsg_def)

lemma logs_answered:
  assumes "\<And>ns svc c t n m. am_log A ns svc c t n a \<noteq> Panic m"
  shows "\<exists>n code body. GetServiceLog E A s c t n' a = Ok (n, code, body) \<and> n \<in> {200, 400, 500}"
proof -
  have one: "validOne w x \<noteq> Panic m" for w x m
    by (cases "ParseInt64 x") (auto simp: validOne_def ParseInt64_def Let_def split: if_splits option.splits prod.splits)
  then have "validParam t n' \<noteq> Panic m" for m
    by (cases "validOne ''tailLines'' t"; cases "validOne ''sinceSeconds'' n'") (auto simp: validParam_def)
  then show ?thesis using assms
    by (cases "validParam t n'") (auto simp: GetServiceLog_def Let_def split: result.split)
qed

text \<open>
  C30. Every request with a route is answered with success, a bad request or a server error, provided
  the platform does not panic while it reads a log; no request changes the platform, and only an
  update of the properties that is answered with success changes the node.
\<close>

theorem requests_answered:
  assumes "core_route E B L A R q (d, a) = (Some res, (d', a'))"
    and "\<And>ns svc c t n m. am_log A ns svc c t n a \<noteq> Panic m"
  shows "\<exists>ans. res = Ok ans \<and> ha_status ans \<in> {200, 400, 500} \<and> a' = a \<and>
    (d' = d \<or> hq_method q = ''PUT'' \<and> hq_path q = [''node'', ''properties''] \<and> ha_status ans = 200)"
proof (cases "hq_method q = ''PUT'' \<and> hq_path q = [''node'', ''properties'']")
  case True
  obtain r d1 where u: "UpdateNodeProperties B L (re_props R) (re_decode R (hq_body q)) d = (r, d1)" by (rule prod.exhaust)
  obtain ans where ans: "Wrapper (outcomeOf (\<lambda>v. re_json R (JObj v)) r) = Ok ans" "ha_status ans = 200 \<longleftrightarrow> is_ok r"
    "ha_status ans = 200 \<or> ha_status ans = 500" using Wrapper_outcomeOf by blast
  from assms(1) True u ans(1) have "res = Ok ans" "d' = d1" "a' = a"
    by (simp_all add: core_route_def Let_def)
  with ans UpdateNodeProperties_atomic[of B L "re_props R" "re_decode R (hq_body q)" d] u True show ?thesis by auto
next
  case put: False
  show ?thesis
  proof (cases "hq_method q = ''GET'' \<and> (hq_path q = [''node'', ''stats''] \<or> hq_path q = [''node'', ''properties''])")
    case True
    obtain a1 where a1: "Wrapper (outcomeOf (re_viewJson R) (GetStats B L E (re_view R) d)) = Ok a1"
      "ha_status a1 = 200 \<or> ha_status a1 = 500" using Wrapper_outcomeOf by blast
    obtain a2 where a2: "Wrapper (outcomeOf (re_json R) (GetNodeProperties B L (re_props R) d)) = Ok a2"
      "ha_status a2 = 200 \<or> ha_status a2 = 500" using Wrapper_outcomeOf by blast
    from True assms(1) have "(res = Ok a1 \<or> res = Ok a2) \<and> d' = d \<and> a' = a"
      by (auto simp: core_route_def Let_def a1(1) a2(1))
    with a1(2) a2(2) show ?thesis by auto
  next
    case False
    then have no: "\<not> (hq_method q = ''GET'' \<and> hq_path q = [''node'', ''stats''])"
      "\<not> (hq_method q = ''GET'' \<and> hq_path q = [''node'', ''properties''])" by blast+
    have "core_route E B L A R q (d, a) = (case logService q of
        Some name \<Rightarrow> (Some (rmap (\<lambda>(n, code, body). respondMsg n code body)
          (GetServiceLog E A name (queryArg q ''container'') (queryArg q ''tailLines'') (queryArg q ''sinceSeconds'') a)), (d, a))
      | None \<Rightarrow> (None, (d, a)))"
      by (simp only: core_route_def Let_def fst_conv snd_conv no put if_False)
    note run = assms(1)[unfolded this]
    obtain name where "res = rmap (\<lambda>(n, code, body). respondMsg n code body)
        (GetServiceLog E A name (queryArg q ''container'') (queryArg q ''tailLines'') (queryArg q ''sinceSeconds'') a)"
      "d' = d" "a' = a"
    proof (cases "logService q")
      case None
      with run show ?thesis by simp
    next
      case (Some name)
      with run show ?thesis by (intro that[of name]) auto
    qed
    with logs_answered[OF assms(2), of E name "queryArg q ''container''" "queryArg q ''tailLines''" "queryArg q ''sinceSeconds''"]
    show ?thesis by (auto simp: respondMsg_def)
  qed
qed

definition log_request :: http_request where
  "log_request = \<lparr>hq_method = ''GET'', hq_path = [''services'', ''web'', ''log''], hq_query = [(''tailLines'', ''x'')], hq_body = []\<rparr>"

definition no_routes :: "(string option, unit) route_env" where
  "no_routes = \<lparr>re_view = (\<lambda>_. Ok ()), re_viewJson = (\<lambda>_. []), re_json = (\<lambda>_. []), re_decode = (\<lambda>_. Ok []), re_props = ''p''\<rparr>"

theorem requests_answered_witness:
  "\<exists>ans. core_route sample_env mem_bolt unary_codec list_ami no_routes log_request (None, []) = (Some (Ok ans), (None, [])) \<and>
     ha_status ans = 400"
proof -
  define res where "res = the (fst (core_route sample_env mem_bolt unary_codec list_ami no_routes log_request (None, [])))"
  have run: "core_route sample_env mem_bolt unary_codec list_ami no_routes log_request (None, []) = (Some res, (None, []))"
    by (simp add: res_def core_route_def log_request_def logService_def)
  have "am_log list_ami ns svc c t n [] \<noteq> Panic m" for ns svc c t n m by (simp add: list_ami_def)
  from requests_answered[OF run this] obtain ans where ans: "res = Ok ans" by blast
  have "validParam ''x'' [] = Err ''invalid syntax''" by code_simp
  then have "ha_status ans = 400"
    using ans unfolding res_def by (auto simp: core_route_def log_request_def logService_def GetServiceLog_def queryArg_def respondMsg_def)
  with run ans show ?thesis by blast
qed

text \<open>A panic that is no error leaves the wrapper.\<close>

lemma wrapper_panics: "Wrapper PanicOther = Panic ''nil pointer dereference''"
  by (simp add: Wrapper_def)

end
