(* ===== verification/System.thy ===== *)
theory System
  imports Core_Server
begin

text \<open>
  The components together: the rounds of the engine, the HTTP interface, the cleaning of objects, the
  report rounds of the sync component and the messages of the cloud are steps on one state, in any
  order. Each handler is one step; the operations of a handler on the store and on the node document
  are transactions, but two handlers that overlap are only covered where their operations do not
  interleave. The locale \<open>round_invariant\<close> is what a property of the store and the document must be
  kept by for the engine to keep it, \<open>system_invariant\<close> extends it to the whole program.
\<close>

section \<open>Steps\<close>

definition onDbNet :: "('d \<times> 'n \<Rightarrow> 'r result \<times> ('d \<times> 'n)) \<Rightarrow> ('s, 'd, 'n, 'a) engine_state \<Rightarrow>
    'r result \<times> ('s, 'd, 'n, 'a) engine_state" where
  "onDbNet f st =
     (let (r, (d, n)) = f (es_db st, ss_net (es_sync st))
      in (r, st\<lparr>es_db := d, es_sync := es_sync st\<lparr>ss_net := n\<rparr>\<rparr>))"

text \<open>What \<^verbatim>\<open>cleaning\<close> does at a tick.\<close>

definition cleanStep :: "('s, 'd, 'n, 'a) engine_params \<Rightarrow> (nat \<Rightarrow> (string, application) gomap \<Rightarrow> (string, application) gomap) \<Rightarrow>
    ((string, configuration) gomap \<Rightarrow> (string, configuration) gomap) \<Rightarrow> ('s \<Rightarrow> application list) \<Rightarrow> node_view result \<Rightarrow>
    ('s, 'd, 'n, 'a) engine_state \<Rightarrow> nat result \<times> ('s, 'd, 'n, 'a) engine_state" where
  "cleanStep P rng rngD seen nod st =
     (let y = es_sync st;
          (r, (s, fs)) = cleanObjectStorage (ep_env P) (ep_os P) (en_ops (ep_store P)) (ep_download P) rng rngD seen nod
            (ss_store y, ss_fs y)
      in (r, st\<lparr>es_sync := y\<lparr>ss_store := s, ss_fs := fs\<rparr>\<rparr>))"

text \<open>The steps the node takes by itself, and those that bring something from the cloud.\<close>

inductive local_step :: "('s, 'd, 'n, 'a) engine_params \<Rightarrow> ('s, 'd, 'n, 'a) engine_state \<Rightarrow>
    ('s, 'd, 'n, 'a) engine_state \<Rightarrow> bool" for P where
  engine_round: "local_step P st (snd (reportAndDesireAsync P decS decI view rng desireOf delete st))"
| put_properties: "local_step P st (snd (onDb (UpdateNodeProperties (ep_bolt P) (ep_spec P) key body) st))"
| clean_objects: "local_step P st (snd (cleanStep P rngC rngD seen nod st))"

inductive system_step :: "('s, 'd, 'n, 'a) engine_params \<Rightarrow> ('s, 'd, 'n, 'a) engine_state \<Rightarrow>
    ('s, 'd, 'n, 'a) engine_state \<Rightarrow> bool" for P where
  by_itself: "local_step P st st' \<Longrightarrow> system_step P st st'"
| report_round: "system_step P st (snd (onDbNet (reportAndDesire (ep_env P) (ep_bolt P) (ep_spec P) (ep_link P) notify) st))"
| cloud_message: "system_step P st (snd (onDbNet (dispatch (ep_env P) (ep_bolt P) (ep_spec P) (ep_link P) notify msg) st))"

section \<open>Properties the engine keeps\<close>

text \<open>A property of the store and the database, as one of the whole state.\<close>

definition holdsFor :: "('s \<Rightarrow> 'd \<Rightarrow> bool) \<Rightarrow> ('s, 'd, 'n, 'a) engine_state \<Rightarrow> bool" where
  "holdsFor J st \<longleftrightarrow> J (storeOf st) (es_db st)"

locale round_invariant =
  fixes good :: bool
    and P :: "('s, 'd, 'n, 'a) engine_params"
    and J :: "'s \<Rightarrow> 'd \<Rightarrow> bool"
  assumes sync_J: "good \<Longrightarrow> J (ss_store y) d \<Longrightarrow>
      J (ss_store (snd (SyncResource (ep_env P) (ep_os P) (ep_dl P) (ep_link P) (en_ops (ep_store P)) (ep_download P)
        (ep_rngI P) (ep_rngA P) info y))) d"
    and custom_J: "good \<Longrightarrow> J s d \<Longrightarrow> J (snd (recordCustom (ep_store P) info cns s)) d"
    and report_J: "good \<Longrightarrow> J s d \<Longrightarrow> J s (snd (node_Report (ep_bolt P) (ep_spec P) r ov d))"
    and delete_J: "good \<Longrightarrow> J s d \<Longrightarrow> J (snd (b_delete (st_cfg (en_ops (ep_store P))) k s)) d"
begin

lemma onAmi_holds: "holdsFor J (snd (onAmi f st)) = holdsFor J st"
  by (simp add: holdsFor_def onAmi_def split_beta)

lemma applyApp_holds:
  assumes "good" and "holdsFor J st"
  shows "holdsFor J (snd (applyApp P ns info st))"
proof -
  have sync: "holdsFor J (snd (onSync (SyncResource (ep_env P) (ep_os P) (ep_dl P) (ep_link P) (en_ops (ep_store P)) (ep_download P)
      (ep_rngI P) (ep_rngA P) info) s))" if "holdsFor J s" for s
    using that sync_J[OF assms(1)] by (simp add: holdsFor_def onSync_def split_beta)
  have custom: "holdsFor J (snd (case customNsOf E app of None \<Rightarrow> (Ok (), s)
      | Some cns \<Rightarrow> onSync (onStore (recordCustom (ep_store P) info cns)) s))" if "holdsFor J s" for E app s
    using that custom_J[OF assms(1)] by (simp add: holdsFor_def onSync_def onStore_def split_beta split: option.split)
  have prep: "holdsFor J (snd (prepareFor P app cfgs s))" if "holdsFor J s" for app cfgs s
    using that by (simp add: holdsFor_def prepareFor_def split_beta)
  show ?thesis unfolding applyApp_def Let_def
    by (intro sbind_inv[where I = "holdsFor J"] sync custom prep) (use assms(2) in \<open>simp_all add: onAmi_holds\<close>)
qed

lemma applyApps_holds:
  assumes "good" and "holdsFor J (snd w)"
  shows "holdsFor J (snd (snd (applyApps P ns infos w)))"
  unfolding applyApps_def
proof (rule sfor_inv[where I = "\<lambda>w. holdsFor J (snd w)"])
  fix kv and w :: "stats_map \<times> ('s, 'd, 'n, 'a) engine_state"
  assume "holdsFor J (snd w)"
  with applyApp_holds[OF assms(1)] show "holdsFor J (snd (snd (applyOne P ns (snd kv) w)))"
    by (simp add: applyOne_def Let_def split_beta split: result.split)
qed (rule assms(2))

lemma reportNode_holds: "good \<Longrightarrow> holdsFor J st \<Longrightarrow> holdsFor J (snd (reportNode P r st))"
  using report_J by (simp add: holdsFor_def reportNode_def onDb_def split_beta)

lemma reportStats_holds:
  assumes "good" and "holdsFor J st"
  shows "holdsFor J (snd (reportAppStatsIfNeed P isSys c stats st))"
proof (cases "stats = []")
  case False
  have "holdsFor J (snd (sbind (reportNode P (reportOf P isSys c (map named (ep_rngS P stats))) st) (\<lambda>_ st. (Ok (), st))))"
    by (intro sbind_inv[where I = "holdsFor J"] reportNode_holds assms) simp
  with False show ?thesis by (simp add: reportAppStatsIfNeed_def)
qed (simp add: reportAppStatsIfNeed_def assms(2))

lemma carryOut_holds:
  assumes "good" and "holdsFor J st"
  shows "holdsFor J (snd (carryOut P isSys delete ns c dapps rapps st))"
proof -
  obtain del update where p: "getDeleteAndUpdate dapps rapps = (del, update)" by (rule prod.exhaust)
  have del: "holdsFor J (snd (if delete then deleteApps P ns del s else (Ok (), s)))" if "holdsFor J s" for s
    using that by (simp add: deleteApps_def sfor_inv[where I = "holdsFor J"] onAmi_holds)
  have applied: "holdsFor J (snd (case applyApps P ns u (stats, s) of
           (Ok _, (stats, st)) \<Rightarrow> reportAppStatsIfNeed P isSys c stats st
         | (Err e, (_, st)) \<Rightarrow> (Err e, st) | (Panic p, (_, st)) \<Rightarrow> (Panic p, st)))" if "holdsFor J s" for u stats s
    using applyApps_holds[OF assms(1), of "(stats, s)" ns u] that reportStats_holds[OF assms(1)]
    by (auto split: prod.split result.split)
  have sync: "holdsFor J (snd (syncApps P dapps s)) = holdsFor J s" for s
    by (simp add: holdsFor_def syncApps_def onSync_def onNet_def split_beta)
  show ?thesis unfolding carryOut_def Let_def p prod.case
    by (intro sbind_inv[where I = "holdsFor J"])
      (use assms del applied reportStats_holds[OF assms(1)] in
        \<open>auto simp: sync split: prod.split intro!: sbind_inv[where I = "holdsFor J"]\<close>)
qed

lemma reportAndApply_holds:
  assumes "good" and "holdsFor J st"
  shows "holdsFor J (snd (reportAndApply P isSys delete desire st))"
  unfolding reportAndApply_def Let_def
  by (intro sbind_inv[where I = "holdsFor J"] reportNode_holds assms)
    (use carryOut_holds[OF assms(1)] assms(2) in \<open>simp_all split: option.split\<close>)

lemma cleanOne_holds:
  "good \<Longrightarrow> J (fst w) d \<Longrightarrow> J (fst (snd (cleanOne (ep_os P) (en_ops (ep_store P)) path kv w))) d"
  using delete_J by (simp add: cleanOne_store)

lemma recycleOne_holds:
  "good \<Longrightarrow> J (fst w) d \<Longrightarrow> J (fst (snd (recycleOne (ep_os P) (en_ops (ep_store P)) path kv w))) d"
  using delete_J by (simp add: recycleOne_store)

lemma recycle_holds:
  assumes "good" and "J (fst w) d"
  shows "J (fst (snd (recycle (ep_env P) (ep_os P) (en_ops (ep_store P)) path rng nod w))) d"
  unfolding recycle_def
  by (intro sbind_inv[where I = "\<lambda>w. J (fst w) d"] sfor_inv[where I = "\<lambda>w. J (fst w) d"]
      recycleOne_holds assms(1)) (use assms(2) in simp_all)

lemma recycleIfNeed_holds:
  assumes "good" and "holdsFor J st"
  shows "holdsFor J (snd (recycleIfNeed P decS decI view rng nod st))"
proof -
  define y where "y = es_sync st"
  have "holdsFor J (snd (let (r, (s, fs)) = recycle (ep_env P) (ep_os P) (en_ops (ep_store P)) (ep_download P) rng
        (rmap view (node_Get (ep_bolt P) (ep_spec P) (es_db st))) (ss_store y, ss_fs y)
      in (r, st\<lparr>es_sync := y\<lparr>ss_store := s, ss_fs := fs\<rparr>\<rparr>)))"
    using recycle_holds[OF assms(1), of "(ss_store y, ss_fs y)" "es_db st"] assms(2)
    by (simp add: holdsFor_def split_beta y_def)
  then show ?thesis unfolding recycleIfNeed_def y_def
    by (intro sbind_inv[where I = "holdsFor J"]) (use assms(2) in \<open>simp_all add: Let_def\<close>)
qed

lemma slog_holds: "holdsFor J (snd m) \<Longrightarrow> (\<And>s. holdsFor J s \<Longrightarrow> holdsFor J (snd (k s))) \<Longrightarrow> holdsFor J (snd (slog m k))"
  by (cases m; cases "fst m") auto

lemma engine_round_holds:
  assumes "good" and "holdsFor J st"
  shows "holdsFor J (snd (reportAndDesireAsync P decS decI view rng desireOf delete st))"
  unfolding reportAndDesireAsync_def
  by (intro sbind_inv[where I = "holdsFor J"] slog_holds recycleIfNeed_holds reportAndApply_holds assms(1))
    (use assms(2) in simp_all)

lemma cleanStep_holds:
  assumes "good" and "holdsFor J st"
  shows "holdsFor J (snd (cleanStep P rngC rngD seen nod st))"
proof -
  have "J (fst (snd (cleanObjectStorage (ep_env P) (ep_os P) (en_ops (ep_store P)) (ep_download P) rngC rngD seen nod w))) d"
    if "J (fst w) d" for w d
    unfolding cleanObjectStorage_def Let_def
    by (intro sbind_inv[where I = "\<lambda>w. J (fst w) d"] sfor_inv[where I = "\<lambda>w. J (fst w) d"]
        cleanOne_holds assms(1)) (use that in simp_all)
  with assms(2) show ?thesis by (simp add: holdsFor_def cleanStep_def Let_def split_beta)
qed

lemma putProperties_holds:
  assumes "good" and "holdsFor J st"
  shows "holdsFor J (snd (onDb (UpdateNodeProperties (ep_bolt P) (ep_spec P) key body) st))"
proof -
  have "J s (snd (UpdateNodeProperties (ep_bolt P) (ep_spec P) key body d))" if "J s d" for s d
    unfolding UpdateNodeProperties_def
    by (intro sbind_inv[where I = "J s"])
      (use that report_J[OF assms(1)] in \<open>auto simp: patchProps_def Let_def intro!: sbind_inv[where I = "J s"]\<close>)
  with assms(2) show ?thesis by (simp add: holdsFor_def onDb_def split_beta)
qed

lemma local_step_holds: "local_step P st st' \<Longrightarrow> good \<Longrightarrow> holdsFor J st \<Longrightarrow> holdsFor J st'"
  by (cases rule: local_step.cases) (auto intro: engine_round_holds cleanStep_holds putProperties_holds)

lemma local_steps_hold: "(local_step P)\<^sup>*\<^sup>* st st' \<Longrightarrow> good \<Longrightarrow> holdsFor J st \<Longrightarrow> holdsFor J st'"
  by (induction rule: rtranclp_induct) (auto intro: local_step_holds)

end

section \<open>Properties the whole program keeps\<close>

locale system_invariant = round_invariant +
  assumes desire_J: "good \<Longrightarrow> J s d \<Longrightarrow> J s (snd (node_Desire (ep_bolt P) (ep_spec P) r ov d))"
begin

lemma nodeDesire_holds: "good \<Longrightarrow> J s (fst w) \<Longrightarrow> J s (fst (snd (nodeDesire (ep_bolt P) (ep_spec P) desire w)))"
  using desire_J by (simp add: nodeDesire_def split_beta)

lemma dispatch_holds:
  assumes "good" and "J s (fst w)"
  shows "J s (fst (snd (dispatch E (ep_bolt P) (ep_spec P) lk notify msg w)))"
proof -
  note bind = sbind_inv[where I = "\<lambda>w. J s (fst w)"]
  show ?thesis unfolding dispatch_def
    by (cases "m_kind msg")
      (use assms nodeDesire_holds[OF assms(1)] in \<open>auto intro!: bind split: option.split if_split\<close>)
qed

lemma reportAndDesire_holds:
  assumes "good" and "J s (fst w)"
  shows "J s (fst (snd (reportAndDesire E (ep_bolt P) (ep_spec P) lk notify w)))"
proof -
  note bind = sbind_inv[where I = "\<lambda>w. J s (fst w)"]
  show ?thesis unfolding reportAndDesire_def Let_def
    by (intro bind)
      (use assms nodeDesire_holds[OF assms(1)] in \<open>auto intro!: bind split: option.split if_split prod.split\<close>)
qed

lemma system_step_holds: "system_step P st st' \<Longrightarrow> good \<Longrightarrow> holdsFor J st \<Longrightarrow> holdsFor J st'"
proof (induction rule: system_step.induct)
  case (report_round st notify)
  then show ?case
    using reportAndDesire_holds[of "storeOf st" "(es_db st, ss_net (es_sync st))" "ep_env P" "ep_link P" notify]
    by (simp add: holdsFor_def onDbNet_def split_beta)
next
  case (cloud_message st notify msg)
  then show ?case
    using dispatch_holds[of "storeOf st" "(es_db st, ss_net (es_sync st))" "ep_env P" "ep_link P" notify msg]
    by (simp add: holdsFor_def onDbNet_def split_beta)
qed (auto intro: local_step_holds)

lemma system_steps_hold: "(system_step P)\<^sup>*\<^sup>* st st' \<Longrightarrow> good \<Longrightarrow> holdsFor J st \<Longrightarrow> holdsFor J st'"
  by (induction rule: rtranclp_induct) (auto intro: system_step_holds)

end

section \<open>The store and the document over a whole run\<close>

text \<open>The record of custom namespaces is kept apart from the applications, configurations and secrets.\<close>

definition custom_apart :: "'s engine_store \<Rightarrow> bool" where
  "custom_apart N \<longleftrightarrow>
     (\<forall>ci s k. b_get (st_app (en_ops N)) (snd (en_putCustom N ci s)) k = b_get (st_app (en_ops N)) s k \<and>
        b_get (st_sec (en_ops N)) (snd (en_putCustom N ci s)) k = b_get (st_sec (en_ops N)) s k)"

lemma recordCustom_apart:
  assumes "custom_apart N"
  shows "b_get (st_app (en_ops N)) (snd (recordCustom N info cns s)) k = b_get (st_app (en_ops N)) s k"
    and "b_get (st_sec (en_ops N)) (snd (recordCustom N info cns s)) k = b_get (st_sec (en_ops N)) s k"
proof -
  have put: "b_get (st_app (en_ops N)) (snd (en_putCustom N ci s)) k = b_get (st_app (en_ops N)) s k \<and>
      b_get (st_sec (en_ops N)) (snd (en_putCustom N ci s)) k = b_get (st_sec (en_ops N)) s k" for ci s
    using assms by (simp add: custom_apart_def)
  define I where "I t \<longleftrightarrow> b_get (st_app (en_ops N)) t k = b_get (st_app (en_ops N)) s k \<and>
      b_get (st_sec (en_ops N)) t k = b_get (st_sec (en_ops N)) s k" for t
  have "I s" by (simp add: I_def)
  moreover have "I t \<Longrightarrow> I (snd (en_putCustom N ci t))" for ci t using put by (simp add: I_def)
  ultimately have "I (snd (recordCustom N info cns s))" unfolding recordCustom_def
    by (intro sbind_inv[where I = I]) (auto intro!: sbind_inv[where I = I] split: result.split)
  then show "b_get (st_app (en_ops N)) (snd (recordCustom N info cns s)) k = b_get (st_app (en_ops N)) s k"
    "b_get (st_sec (en_ops N)) (snd (recordCustom N info cns s)) k = b_get (st_sec (en_ops N)) s k"
    by (simp_all add: I_def)
qed

text \<open>An application or a secret that is stored stays stored, with its value.\<close>

interpretation stored_app: system_invariant
    "store_ok (en_ops (ep_store P)) \<and> custom_apart (ep_store P)" P
    "\<lambda>s d. b_get (st_app (en_ops (ep_store P))) s k = Ok v" for P k v
proof (unfold_locales, goal_cases)
  case (1 y d info)
  then show ?case
    using SyncResource_keeps[of "en_ops (ep_store P)" y] by (simp add: keeps_def)
qed (simp_all add: recordCustom_apart store_ok_def bucket_frame_def)

interpretation stored_secret: system_invariant
    "store_ok (en_ops (ep_store P)) \<and> custom_apart (ep_store P)" P
    "\<lambda>s d. b_get (st_sec (en_ops (ep_store P))) s k = Ok v" for P k v
proof (unfold_locales, goal_cases)
  case (1 y d info)
  then show ?case
    using SyncResource_keeps[of "en_ops (ep_store P)" y] by (simp add: keeps_def)
qed (simp_all add: recordCustom_apart store_ok_def bucket_frame_def)

lemma written_readable:
  assumes "bolt_ok B" and "codec_ok L" and "is_ok (node_Get B L d)" and "is_ok (fst w) \<or> snd w = d"
    and "\<And>x d'. w = (Ok x, d') \<Longrightarrow> \<exists>m. writeNode B L m d = (Ok x, d')"
  shows "is_ok (node_Get B L (snd w))"
proof (cases "is_ok (fst w)")
  case True
  then obtain x d' where w: "w = (Ok x, d')" by (cases w; cases "fst w") auto
  from assms(5)[OF this] obtain m where "writeNode B L m d = (Ok x, d')" by (elim exE)
  from writeNode_Ok[OF assms(1,2) this] w show ?thesis by auto
qed (use assms(3,4) in simp)

lemma update_readable:
  assumes "bolt_ok B" and "codec_ok L" and "is_ok (node_Get B L d)"
  shows "is_ok (node_Get B L (snd (node_Report B L r ov d)))" "is_ok (node_Get B L (snd (node_Desire B L r ov d)))"
proof -
  show "is_ok (node_Get B L (snd (node_Report B L r ov d)))"
  proof (rule written_readable[OF assms node_Report_atomic])
    fix x d'
    assume "node_Report B L r ov d = (Ok x, d')"
    from report_step[OF this] show "\<exists>m. writeNode B L m d = (Ok x, d')" by (elim exE conjE) (rule exI)
  qed
  have "is_ok (fst (node_Desire B L r ov d)) \<or> snd (node_Desire B L r ov d) = d"
    unfolding node_Desire_def by (rule boltUpdate_or)
  then show "is_ok (node_Get B L (snd (node_Desire B L r ov d)))"
  proof (rule written_readable[OF assms])
    fix x d'
    assume "node_Desire B L r ov d = (Ok x, d')"
    from desire_step[OF this] show "\<exists>m. writeNode B L m d = (Ok x, d')" by (elim exE conjE) (rule exI)
  qed
qed

text \<open>A document that can be read can always be read.\<close>

interpretation readable: system_invariant
    "bolt_ok (ep_bolt P) \<and> codec_ok (ep_spec P)" P
    "\<lambda>s d. is_ok (node_Get (ep_bolt P) (ep_spec P) d)" for P
  by unfold_locales (simp_all add: update_readable)

text \<open>The engine and the HTTP interface leave the desired entries alone.\<close>

lemma report_keeps_desire:
  assumes "bolt_ok B" and "codec_ok L" and "node_Get B L d = Ok m"
  shows "\<exists>n. node_Get B L (snd (node_Report B L r ov d)) = Ok n \<and> entries (nd_desire n) = entries (nd_desire m)"
proof (cases "is_ok (fst (node_Report B L r ov d))")
  case True
  then obtain x d' where rep: "node_Report B L r ov d = (Ok x, d')"
    by (cases "node_Report B L r ov d"; cases "fst (node_Report B L r ov d)") auto
  from report_step[OF rep] assms(3) obtain m' where m': "newReport L r ov m = Ok m'" "writeNode B L m' d = (Ok x, d')"
    by auto
  have "nd_desire m' = nd_desire m"
    using m'(1) by (cases "so_merge L (entries (nd_report m)) r") (auto simp: newReport_def split: if_splits)
  with writeNode_Ok[OF assms(1,2) m'(2)] rep show ?thesis by auto
next
  case False
  with node_Report_atomic[of B L r ov d] assms(3) show ?thesis by simp
qed

interpretation desired: round_invariant
    "bolt_ok (ep_bolt P) \<and> codec_ok (ep_spec P)" P
    "\<lambda>s d. \<exists>m. node_Get (ep_bolt P) (ep_spec P) d = Ok m \<and> entries (nd_desire m) = D" for P D
proof (unfold_locales, goal_cases)
  case (3 s d r ov)
  then obtain m where m: "node_Get (ep_bolt P) (ep_spec P) d = Ok m" "entries (nd_desire m) = D" by blast
  from 3 report_keeps_desire[OF _ _ m(1), of r ov] m(2) show ?case by simp
qed

text \<open>
  C5. Nothing that is stored is lost or changed, over any run of the program: whatever rounds, requests,
  cleanings and messages of the cloud follow each other in whatever order, and whichever of their
  calls fail, every application and every secret in the store keeps its value, and a document of the
  node that can be read can be read afterwards.
\<close>

theorem system_keeps:
  assumes "store_ok (en_ops (ep_store P))" and "custom_apart (ep_store P)" and "bolt_ok (ep_bolt P)"
    and "codec_ok (ep_spec P)" and "(system_step P)\<^sup>*\<^sup>* st st'"
  shows "(\<forall>k v. b_get (st_app (en_ops (ep_store P))) (storeOf st) k = Ok v \<longrightarrow>
        b_get (st_app (en_ops (ep_store P))) (storeOf st') k = Ok v) \<and>
    (\<forall>k v. b_get (st_sec (en_ops (ep_store P))) (storeOf st) k = Ok v \<longrightarrow>
        b_get (st_sec (en_ops (ep_store P))) (storeOf st') k = Ok v) \<and>
    (is_ok (node_Get (ep_bolt P) (ep_spec P) (es_db st)) \<longrightarrow> is_ok (node_Get (ep_bolt P) (ep_spec P) (es_db st')))"
  using stored_app.system_steps_hold[OF assms(5)] stored_secret.system_steps_hold[OF assms(5)]
    readable.system_steps_hold[OF assms(5)] assms(1-4)
  by (simp add: holdsFor_def)

text \<open>
  C14. Only the cloud desires: over any run of rounds of the engine, requests to the HTTP interface and
  cleanings, the desired entries of the node's document stay what they were.
\<close>

theorem only_cloud_desires:
  assumes "bolt_ok (ep_bolt P)" and "codec_ok (ep_spec P)" and "(local_step P)\<^sup>*\<^sup>* st st'"
    and "node_Get (ep_bolt P) (ep_spec P) (es_db st) = Ok m"
  shows "\<exists>m'. node_Get (ep_bolt P) (ep_spec P) (es_db st') = Ok m' \<and> entries (nd_desire m') = entries (nd_desire m)"
  using desired.local_steps_hold[OF assms(3)] assms(1,2,4) by (simp add: holdsFor_def)

section \<open>A run\<close>

definition run_start :: "(mem_store, string option, unit, string list) engine_state" where
  "run_start = \<lparr>es_sync = sync_end, es_db = stored sample_doc, es_ami = []\<rparr>"

text \<open>A round of the engine, an update of the properties over HTTP, and a message of the cloud.\<close>

definition run_round :: "(mem_store, string option, unit, string list) engine_state" where
  "run_round = snd (reportAndDesireAsync sample_params (\<lambda>_. Ok []) (\<lambda>_. Ok []) (\<lambda>_. sample_view) rev (\<lambda>_ _. None) True run_start)"

definition run_put :: "(mem_store, string option, unit, string list) engine_state" where
  "run_put = snd (onDb (UpdateNodeProperties (ep_bolt sample_params) (ep_spec sample_params) ''p'' (Ok [(''k'', JStr ''v'')])) run_round)"

definition run_end :: "(mem_store, string option, unit, string list) engine_state" where
  "run_end = snd (onDbNet (dispatch (ep_env sample_params) (ep_bolt sample_params) (ep_spec sample_params) (ep_link sample_params)
     True (propsMessage [(''k'', JStr ''w'')])) run_put)"

lemma run: "(system_step sample_params)\<^sup>*\<^sup>* run_start run_end"
proof -
  have "system_step sample_params run_start run_round" unfolding run_round_def by (rule by_itself, rule engine_round)
  moreover have "system_step sample_params run_round run_put" unfolding run_put_def by (rule by_itself, rule put_properties)
  moreover have "system_step sample_params run_put run_end" unfolding run_end_def by (rule cloud_message)
  ultimately show ?thesis by (meson rtranclp.rtrancl_into_rtrancl rtranclp.rtrancl_refl)
qed

lemma sample_params_ok:
  "store_ok (en_ops (ep_store sample_params))" "custom_apart (ep_store sample_params)"
  "bolt_ok (ep_bolt sample_params)" "codec_ok (ep_spec sample_params)"
  by (simp_all add: sample_params_def params_on_def mem_ops_ok mem_bolt_ok unary_codec_ok custom_apart_def)

theorem system_keeps_witness:
  "b_get (st_app mem_ops) (storeOf run_end) ''application-a-1'' = Ok sync_app"
proof -
  have "b_get (st_app (en_ops (ep_store sample_params))) (storeOf run_start) ''application-a-1'' = Ok sync_app"
    by (simp add: sample_params_simps run_start_def mem_simps sync_end_def)
  with system_keeps[OF sample_params_ok run] show ?thesis by (simp add: sample_params_simps)
qed

theorem only_cloud_desires_witness:
  "\<exists>m. node_Get mem_bolt unary_codec (snd (UpdateNodeProperties mem_bolt unary_codec ''p'' (Ok [(''k'', JStr ''v'')]) (stored sample_doc))) = Ok m \<and>
     entries (nd_desire m) = entries (nd_desire sample_doc)"
proof -
  have ep: "ep_bolt sample_params = mem_bolt" "ep_spec sample_params = unary_codec" by (simp_all add: sample_params_def params_on_def)
  have "(local_step sample_params)\<^sup>*\<^sup>* run_start
      (snd (onDb (UpdateNodeProperties (ep_bolt sample_params) (ep_spec sample_params) ''p'' (Ok [(''k'', JStr ''v'')])) run_start))"
    by (rule r_into_rtranclp, rule put_properties)
  moreover have "node_Get (ep_bolt sample_params) (ep_spec sample_params) (es_db run_start) = Ok sample_doc"
    by (simp add: ep run_start_def mem_get)
  ultimately show ?thesis
    using only_cloud_desires[OF sample_params_ok(3,4)] by (fastforce simp: ep onDb_def split_beta run_start_def)
qed

end
