(* ===== verification/Cmd.thy ===== *)
theory Cmd
  imports Engine_Core
begin

text \<open>
  The commands that run applications without a cloud (\<^verbatim>\<open>cmd/apply.go\<close>, \<^verbatim>\<open>cmd/delete.go\<close>). Flags and
  loggers are not modelled; the HTTP client, \<^verbatim>\<open>utils.ParseEnv\<close>, JSON, the default values of the
  configuration and the construction of the platform are arguments. State: the file system, the outside
  world and the platform.
\<close>

section \<open>apply\<close>

text \<open>
  The file is a URL or a path. \<open>lf_parseURI\<close> is \<^verbatim>\<open>url.ParseRequestURI\<close> and \<open>lf_parse\<close> \<^verbatim>\<open>url.Parse\<close> with the
  scheme and the host of the result.
\<close>

record load_lib =
  lf_parseURI :: "string \<Rightarrow> bool"
  lf_parse :: "string \<Rightarrow> (string \<times> string) option"
  lf_getJSON :: "string \<Rightarrow> string result"
  lf_parseEnv :: "string \<Rightarrow> string result"
  lf_unmarshal :: "string \<Rightarrow> resource_value list result"

definition isValidUrl :: "load_lib \<Rightarrow> string \<Rightarrow> bool" where
  "isValidUrl U urls \<longleftrightarrow> lf_parseURI U urls \<and>
     (case lf_parse U urls of Some (scheme, host) \<Rightarrow> scheme \<noteq> [] \<and> host \<noteq> [] | None \<Rightarrow> False)"

definition loadFile :: "load_lib \<Rightarrow> os_env \<Rightarrow> string \<Rightarrow> fs \<Rightarrow> resource_value list result" where
  "loadFile U osys name files =
     rbind (if isValidUrl U name then lf_getJSON U name else ReadFile osys name files) (\<lambda>data.
     rbind (lf_parseEnv U data) (lf_unmarshal U))"

record ('n, 'a) cmd_env =
  cm_env :: env
  cm_os :: os_env
  cm_dl :: "'n dl_env"
  cm_ami :: "'a ami_ops"
  cm_hostPathLib :: "string result"
  cm_load :: load_lib
  cm_setMode :: "string \<Rightarrow> unit result"         \<comment> \<open>\<^verbatim>\<open>os.Setenv\<close>\<close>
  cm_defaults :: "unit result"                 \<comment> \<open>\<^verbatim>\<open>utils.SetDefaults\<close>\<close>
  cm_open :: "string \<Rightarrow> unit result"            \<comment> \<open>\<^verbatim>\<open>ami.NewAMI\<close>\<close>
  cm_rngC :: "(string, configuration) gomap \<Rightarrow> (string, configuration) gomap"
  cm_rngA :: "(string, application) gomap \<Rightarrow> (string, application) gomap"

record ('n, 'a) cmd_state =
  cs_fs :: fs
  cs_net :: 'n
  cs_ami :: 'a

record loaded =
  ld_apps :: "(string, application) gomap"
  ld_configs :: "(string, configuration) gomap"
  ld_secrets :: "(string, secret) gomap"

definition validMode :: "string \<Rightarrow> bool" where
  "validMode m \<longleftrightarrow> m = ''kube'' \<or> m = ''native''"

definition addResource :: "resource_value \<Rightarrow> loaded \<Rightarrow> loaded" where
  "addResource r l =
     (case rv_app r of
        Some app \<Rightarrow> l\<lparr>ld_apps := mput (app_name app) app (ld_apps l)\<rparr>
      | None \<Rightarrow>
          (case rv_config r of
             Some conf \<Rightarrow> l\<lparr>ld_configs := mput (cfg_name conf) conf (ld_configs l)\<rparr>
           | None \<Rightarrow>
               (case rv_secret r of
                  Some secret \<Rightarrow> l\<lparr>ld_secrets := mput (sec_name secret) secret (ld_secrets l)\<rparr>
                | None \<Rightarrow> l)))"

definition loadResources :: "resource_value list \<Rightarrow> loaded" where
  "loadResources rs = fold addResource rs \<lparr>ld_apps = [], ld_configs = [], ld_secrets = []\<rparr>"

text \<open>
  \<^verbatim>\<open>FilterConfig\<close> deletes from the data map, which the copy of the loop shares with the configuration in
  \<^verbatim>\<open>configs\<close>: the later steps see the filtered data.
\<close>

definition filterConfigs :: "env \<Rightarrow> (string, configuration) gomap \<Rightarrow> (string, configuration) gomap" where
  "filterConfigs E cfgs = map (\<lambda>kc. (fst kc, FilterConfig E (snd kc))) cfgs"

definition downloadOne :: "('n, 'a) cmd_env \<Rightarrow> string \<Rightarrow> configuration \<Rightarrow> ('n, 'a) cmd_state \<Rightarrow> unit result \<times> ('n, 'a) cmd_state" where
  "downloadOne M objectPath cfg st =
     (let (r, (fs, n)) = DownloadConfig (cm_env M) (cm_os M) (cm_dl M) objectPath cfg (cs_fs st, cs_net st)
      in (r, st\<lparr>cs_fs := fs, cs_net := n\<rparr>))"

text \<open>The host paths of the file, as they are written there.\<close>

definition makeHostPath :: "('n, 'a) cmd_env \<Rightarrow> volume \<Rightarrow> ('n, 'a) cmd_state \<Rightarrow> unit result \<times> ('n, 'a) cmd_state" where
  "makeHostPath M v st =
     (case vol_hostPath v of
        None \<Rightarrow> (Ok (), st)
      | Some hp \<Rightarrow> let (r, fs) = MkdirAll (cm_os M) (hp_path hp) (cs_fs st) in (r, st\<lparr>cs_fs := fs\<rparr>))"

definition cmd_applyOne :: "('n, 'a) cmd_env \<Rightarrow> string \<Rightarrow> loaded \<Rightarrow> application \<Rightarrow> ('n, 'a) cmd_state \<Rightarrow>
    unit result \<times> ('n, 'a) cmd_state" where
  "cmd_applyOne M lib l app st =
     sbind (sfor (makeHostPath M) (app_volumes app) st) (\<lambda>_ st.
     let (r, (app', fs)) = PrepareApp (cm_env M) (cm_os M) (Join [lib, ''host'']) (Join [lib, ''object'']) (Some app)
           (ld_configs l) (cs_fs st);
         st = st\<lparr>cs_fs := fs\<rparr>
     in sbind (r, st) (\<lambda>_ st.
        let a = (case app' of Some a \<Rightarrow> a | None \<Rightarrow> app);
            (r, p) = am_apply (cm_ami M) (app_namespace a) a (ld_configs l) (ld_secrets l) (cs_ami st)
        in (r, st\<lparr>cs_ami := p\<rparr>)))"

definition cmd_apply :: "('n, 'a) cmd_env \<Rightarrow> string \<Rightarrow> string \<Rightarrow> ('n, 'a) cmd_state \<Rightarrow> unit result \<times> ('n, 'a) cmd_state" where
  "cmd_apply M mode name st =
     (if \<not> validMode mode then (Err ''The mode is invalid'', st)
      else sbind (cm_setMode M mode, st) (\<lambda>_ st.
           sbind (cm_hostPathLib M, st) (\<lambda>lib st.
           sbind (loadFile (cm_load M) (cm_os M) name (cs_fs st), st) (\<lambda>rs st.
           let l = loadResources rs;
               l = l\<lparr>ld_configs := filterConfigs (cm_env M) (ld_configs l)\<rparr>
           in sbind (sfor (\<lambda>kc. downloadOne M (Join [lib, ''object'']) (snd kc)) (cm_rngC M (ld_configs l)) st) (\<lambda>_ st.
              sbind (cm_defaults M, st) (\<lambda>_ st.
              sbind (cm_open M mode, st) (\<lambda>_ st.
              sfor (\<lambda>ka. cmd_applyOne M lib l (snd ka)) (cm_rngA M (ld_apps l)) st)))))))"

text \<open>One tick of the wait for the applications: whether the command ends; a nil report does not.\<close>

definition applied :: "app_stats list option \<Rightarrow> bool" where
  "applied allstats =
     (case allstats of
        None \<Rightarrow> False
      | Some ss \<Rightarrow> list_all (\<lambda>s. case as_instances s of None \<Rightarrow> True
          | Some ins \<Rightarrow> list_all (\<lambda>kv. is_status (snd kv) = Running) ins) ss)"

text \<open>
  The wait: a tick with the report of the system's applications, or a signal. \<open>None\<close>: it goes on.
\<close>

datatype wait_event = Stats "app_stats list option" | Signalled

fun applyWait :: "wait_event list \<Rightarrow> bool option" where
  "applyWait [] = None"
| "applyWait (Signalled # es) = Some False"
| "applyWait (Stats s # es) = (if applied s then Some True else applyWait es)"

section \<open>delete\<close>

text \<open>A failure is logged and the loop goes on; what is left as the error is that of the last deletion.\<close>

fun deleteEach :: "'a ami_ops \<Rightarrow> string \<Rightarrow> app_stats list \<Rightarrow> unit result \<Rightarrow> 'a \<Rightarrow> unit result \<times> 'a" where
  "deleteEach A ns [] err a = (err, a)"
| "deleteEach A ns (s # ss) err a =
     (case am_delete A ns \<lparr>ai_name = as_name s, ai_version = as_version s\<rparr> a of
        (Panic p, a) \<Rightarrow> (Panic p, a)
      | (r, a) \<Rightarrow> deleteEach A ns ss r a)"

text \<open>The report may come with an error (\<open>snd\<close>), which is only logged.\<close>

definition cmd_delete :: "('n, 'a) cmd_env \<Rightarrow> (string \<Rightarrow> 'a \<Rightarrow> app_stats list \<times> unit result) \<Rightarrow> string \<Rightarrow> string \<Rightarrow> 'a \<Rightarrow> unit result \<times> 'a" where
  "cmd_delete M stats mode ns a =
     (if \<not> validMode mode then (Err ''The parameter 'mode' is invalid'', a)
      else sbind (cm_setMode M mode, a) (\<lambda>_ a.
           sbind (cm_defaults M, a) (\<lambda>_ a.
           sbind (cm_open M mode, a) (\<lambda>_ a.
           case stats ns a of
             (_, Panic p) \<Rightarrow> (Panic p, a)
           | (ss, err) \<Rightarrow> deleteEach (cm_ami M) ns ss err a))))"

section \<open>What the commands achieve\<close>

lemma PrepareApp_name:
  assumes "PrepareApp E osys hp op (Some app) cfgs fs = (r, (Some a, fs'))"
  shows "app_name a = app_name app \<and> app_namespace a = app_namespace app"
proof -
  obtain r1 vols fs1 where "prepVolumes E osys hp op cfgs (app_volumes app) fs = (r1, (vols, fs1))"
    by (metis prod.exhaust)
  with assms show ?thesis by (auto simp: PrepareApp_def Let_def)
qed

lemma cmd_applyOne_Ok:
  assumes "cmd_applyOne M lib l app st = (Ok u, st')"
  shows "\<exists>a p p'. app_name a = app_name app \<and> app_namespace a = app_namespace app \<and>
    am_apply (cm_ami M) (app_namespace app) a (ld_configs l) (ld_secrets l) p = (Ok (), p')"
proof -
  from assms obtain v st1 where st1: "sfor (makeHostPath M) (app_volumes app) st = (Ok v, st1)"
    unfolding cmd_applyOne_def sbind_Ok_iff by blast
  obtain r app' fs where prep: "PrepareApp (cm_env M) (cm_os M) (Join [lib, ''host'']) (Join [lib, ''object'']) (Some app)
      (ld_configs l) (cs_fs st1) = (r, (app', fs))" by (metis prod.exhaust)
  define a where "a = (case app' of Some a \<Rightarrow> a | None \<Rightarrow> app)"
  have nm: "app_name a = app_name app \<and> app_namespace a = app_namespace app"
    using PrepareApp_name prep by (cases app') (auto simp: a_def)
  obtain ra p where ap: "am_apply (cm_ami M) (app_namespace a) a (ld_configs l) (ld_secrets l)
      (cs_ami (st1\<lparr>cs_fs := fs\<rparr>)) = (ra, p)" by (rule prod.exhaust)
  have "sbind (r, st1\<lparr>cs_fs := fs\<rparr>) (\<lambda>_ st. let (r, p) = am_apply (cm_ami M) (app_namespace a) a (ld_configs l)
      (ld_secrets l) (cs_ami st) in (r, st\<lparr>cs_ami := p\<rparr>)) = (Ok u, st')"
    using assms by (simp add: cmd_applyOne_def st1 prep a_def Let_def)
  then have "ra = Ok u" using ap by (cases r) simp_all
  with ap nm show ?thesis by auto
qed

lemma sfor_Ok_each:
  assumes "sfor f xs s = (Ok u, t)" and "x \<in> set xs"
  shows "\<exists>v s1 s2. f x s1 = (Ok v, s2)"
  using assms
proof (induction xs arbitrary: s)
  case (Cons y ys)
  from Cons.prems(1) obtain v s1 where "f y s = (Ok v, s1)" "sfor f ys s1 = (Ok u, t)"
    by (auto simp: sbind_Ok_iff)
  with Cons show ?case by auto
qed simp

text \<open>
  When \<^verbatim>\<open>baetyl apply\<close> succeeds, every application of the file, the last one of its name, was handed to
  the platform in its own namespace with the configurations and secrets of the file, and the platform
  took it.
\<close>

theorem cmd_apply_all:
  assumes "cmd_apply M mode name st = (Ok u, st')" and "range_ok (cm_rngA M)"
  shows "\<exists>rs. loadFile (cm_load M) (cm_os M) name (cs_fs st) = Ok rs \<and>
    (\<forall>n app. (n, app) \<in> set (ld_apps (loadResources rs)) \<longrightarrow>
      (\<exists>a p p'. app_name a = app_name app \<and> app_namespace a = app_namespace app \<and>
        am_apply (cm_ami M) (app_namespace app) a (filterConfigs (cm_env M) (ld_configs (loadResources rs)))
          (ld_secrets (loadResources rs)) p = (Ok (), p')))"
proof -
  from assms(1) have vm: "validMode mode" by (simp add: cmd_apply_def split: if_splits)
  with assms(1) obtain lib rs where ld: "cm_hostPathLib M = Ok lib" "loadFile (cm_load M) (cm_os M) name (cs_fs st) = Ok rs"
    by (auto simp: cmd_apply_def sbind_Ok_iff)
  define l where "l = (loadResources rs)\<lparr>ld_configs := filterConfigs (cm_env M) (ld_configs (loadResources rs))\<rparr>"
  have l: "ld_apps l = ld_apps (loadResources rs)" "ld_secrets l = ld_secrets (loadResources rs)"
    "ld_configs l = filterConfigs (cm_env M) (ld_configs (loadResources rs))" by (simp_all add: l_def)
  from assms(1) vm ld obtain v st1 where run: "sfor (\<lambda>ka. cmd_applyOne M lib l (snd ka)) (cm_rngA M (ld_apps l)) st1 = (Ok u, st')"
    by (auto simp: cmd_apply_def Let_def sbind_Ok_iff l l_def[symmetric])
  have "\<exists>a p p'. app_name a = app_name app \<and> app_namespace a = app_namespace app \<and>
      am_apply (cm_ami M) (app_namespace app) a (ld_configs l) (ld_secrets l) p = (Ok (), p')"
    if "(n, app) \<in> set (ld_apps l)" for n app
  proof -
    from that assms(2) have "(n, app) \<in> set (cm_rngA M (ld_apps l))" by (simp add: range_ok_set)
    from sfor_Ok_each[OF run this] cmd_applyOne_Ok show ?thesis by fastforce
  qed
  with ld(2) l show ?thesis by auto
qed

text \<open>\<^verbatim>\<open>baetyl delete\<close> asks for the deletion of every reported application, whichever fail.\<close>

lemma cmd_delete_tries_all:
  assumes "deleteEach A ns ss err a = (r, a')" and "\<forall>p. r \<noteq> Panic p" and "s \<in> set ss"
  shows "\<exists>q r' q'. am_delete A ns \<lparr>ai_name = as_name s, ai_version = as_version s\<rparr> q = (r', q') \<and> (\<forall>p. r' \<noteq> Panic p)"
  using assms(1,3)
proof (induction ss arbitrary: err a)
  case (Cons x ss)
  obtain rx ax where x: "am_delete A ns \<lparr>ai_name = as_name x, ai_version = as_version x\<rparr> a = (rx, ax)" by (rule prod.exhaust)
  with Cons.prems(1) assms(2) have np: "\<forall>p. rx \<noteq> Panic p" by auto
  with x Cons.prems(1) have rest: "deleteEach A ns ss rx ax = (r, a')" by (cases rx) auto
  show ?case
  proof (cases "s = x")
    case True
    with x np show ?thesis by blast
  next
    case False
    with Cons.prems(2) have "s \<in> set ss" by simp
    from Cons.IH[OF rest this] show ?thesis .
  qed
qed simp

text \<open>The wait ends with success exactly when a report before the first signal shows everything applied.\<close>

lemma applyWait_success:
  "applyWait es = Some True \<longleftrightarrow> (\<exists>as s bs. es = map Stats as @ Stats s # bs \<and> applied s \<and> (\<forall>a \<in> set as. \<not> applied a))"
proof (induction es rule: applyWait.induct)
  case (2 es)
  then show ?case by (auto simp: Cons_eq_append_conv)
next
  case (3 s es)
  show ?case
  proof (cases "applied s")
    case True
    then show ?thesis by (auto intro: exI[of _ "[]"])
  next
    case False
    have "(\<exists>as s' bs. Stats s # es = map Stats as @ Stats s' # bs \<and> applied s' \<and> (\<forall>a \<in> set as. \<not> applied a)) \<longleftrightarrow>
        (\<exists>as s' bs. es = map Stats as @ Stats s' # bs \<and> applied s' \<and> (\<forall>a \<in> set as. \<not> applied a))" (is "?l \<longleftrightarrow> ?r")
    proof
      assume ?l
      then obtain as s' bs where e: "Stats s # es = map Stats as @ Stats s' # bs" "applied s'" "\<forall>a \<in> set as. \<not> applied a" by blast
      with False obtain a as' where "as = a # as'" by (cases as) auto
      with e show ?r by auto
    next
      assume ?r
      then obtain as s' bs where "es = map Stats as @ Stats s' # bs" "applied s'" "\<forall>a \<in> set as. \<not> applied a" by blast
      with False have "Stats s # es = map Stats (s # as) @ Stats s' # bs" "\<forall>a \<in> set (s # as). \<not> applied a" by auto
      with \<open>applied s'\<close> show ?l by blast
    qed
    with 3 False show ?thesis by simp
  qed
qed simp

text \<open>A report without instances counts as applied: an application that has started nothing yet.\<close>

lemma nothing_started_counts: "applied (Some [zero_app_stats])"
  by (simp add: applied_def zero_app_stats_def)

end
