(* ===== verification/Native_Collect.thy ===== *)
theory Native_Collect
  imports Initz Native "HOL-Library.Word"
begin

text \<open>
  What the native platform tells of its one node (\<^verbatim>\<open>CollectNodeInfo\<close> and \<^verbatim>\<open>CollectNodeStats\<close> of
  \<^verbatim>\<open>ami/native/native.go\<close>), and what that means for the activation. The readings of gopsutil are
  arguments, as are the texts of floating point numbers; counters are words of 64 bits and cores words
  of 32.
\<close>

section \<open>The node\<close>

record interface_addr =
  ia_ipnet :: bool                           \<comment> \<open>a \<^verbatim>\<open>*net.IPNet\<close>\<close>
  ia_loopback :: bool
  ia_v4 :: bool
  ia_text :: string

record host_lib =
  hs_host :: "(string \<times> string) result"    \<comment> \<open>host name and host id\<close>
  hs_addrs :: "interface_addr list result"
  hs_arch :: string
  hs_os :: string
  hs_variant :: string

definition addressesOf :: "interface_addr list \<Rightarrow> string list" where
  "addressesOf ias = map ia_text (filter (\<lambda>a. ia_ipnet a \<and> \<not> ia_loopback a \<and> ia_v4 a) ias)"

definition native_CollectNodeInfo :: "host_lib \<Rightarrow> (string, node_info) gomap result" where
  "native_CollectNodeInfo H =
     rbind (hs_host H) (\<lambda>ho.
     rbind (hs_addrs H) (\<lambda>ias.
     Ok [(fst ho, \<lparr>ni_arch = hs_arch H, ni_variant = hs_variant H, ni_kernel = [], ni_os = hs_os H, ni_runtime = [],
       ni_machineID = [], ni_osImage = [], ni_bootID = [], ni_systemUUID = snd ho, ni_hostname = fst ho,
       ni_address = join '','' (addressesOf ias), ni_role = ''master'', ni_labels = []\<rparr>)]))"

section \<open>Its statistics\<close>

type_synonym uint64 = "64 word"

record usage_stat =
  us_total :: uint64
  us_used :: uint64

record net_counter =
  nc_sent :: uint64
  nc_recv :: uint64
  nc_packetsSent :: uint64
  nc_packetsRecv :: uint64

text \<open>\<open>'f\<close> are floating point readings. The two readings of the counters are a second apart.\<close>

record 'f stat_lib =
  sl_host :: "string result"
  sl_cores :: "32 word list result"
  sl_percent :: "'f list"
  sl_cpuUsage :: "32 word \<Rightarrow> 'f \<Rightarrow> string"
  sl_ratio :: "uint64 \<Rightarrow> uint64 \<Rightarrow> string"
  sl_mem :: "usage_stat result"
  sl_disk :: "string \<Rightarrow> usage_stat result"
  sl_partitions :: "string list result"
  sl_net :: "net_counter list result"
  sl_netLater :: "net_counter list result"
  sl_gpu :: stats_hook

record native_stats =
  ns_usage :: "(string, string) gomap"
  ns_capacity :: "(string, string) gomap"
  ns_percent :: "(string, string) gomap"
  ns_netIO :: "(string, string) gomap"
  ns_extension :: "(string \<times> json) list"

definition decU :: "uint64 \<Rightarrow> string" where
  "decU w = dec_nat (unat w)"

definition cpuStats :: "'f stat_lib \<Rightarrow> 32 word list \<Rightarrow> native_stats" where
  "cpuStats S infos =
     (let cores = sum_list infos
      in \<lparr>ns_usage = (case sl_percent S of p # _ \<Rightarrow> [(''cpu'', sl_cpuUsage S cores p)] | [] \<Rightarrow> []),
          ns_capacity = [(''cpu'', dec (sint cores))], ns_percent = [], ns_netIO = [], ns_extension = []\<rparr>)"

definition memStats :: "usage_stat \<Rightarrow> native_stats \<Rightarrow> native_stats" where
  "memStats u st = st\<lparr>ns_capacity := mput ''memory'' (decU (us_total u)) (ns_capacity st),
     ns_usage := mput ''memory'' (decU (us_used u)) (ns_usage st)\<rparr>"

definition diskStats :: "'f stat_lib \<Rightarrow> string \<Rightarrow> usage_stat \<Rightarrow> native_stats \<Rightarrow> native_stats" where
  "diskStats S key u st =
     st\<lparr>ns_capacity := mput key (decU (us_total u)) (ns_capacity st),
        ns_usage := mput key (decU (us_used u)) (ns_usage st),
        ns_percent := mput key (sl_ratio S (us_used u) (us_total u)) (ns_percent st)\<rparr>"

text \<open>The differences of the first counters of both readings; an empty list panics.\<close>

definition firstCounter :: "net_counter list \<Rightarrow> net_counter result" where
  "firstCounter cs = (case cs of c # _ \<Rightarrow> Ok c | [] \<Rightarrow> Panic ''index out of range'')"

definition netStats :: "net_counter \<Rightarrow> net_counter \<Rightarrow> native_stats \<Rightarrow> native_stats" where
  "netStats before later st =
     st\<lparr>ns_netIO := mputs [(''netBytesSent'', decU (nc_sent later - nc_sent before)),
        (''netBytesRecv'', decU (nc_recv later - nc_recv before)),
        (''netPacketsSent'', decU (nc_packetsSent later - nc_packetsSent before)),
        (''netPacketsRecv'', decU (nc_packetsRecv later - nc_packetsRecv before))] (ns_netIO st)\<rparr>"

definition native_CollectNodeStats :: "'f stat_lib \<Rightarrow> (string, native_stats) gomap result" where
  "native_CollectNodeStats S =
     rbind (sl_host S) (\<lambda>ho.
     rbind (sl_cores S) (\<lambda>infos.
     rbind (sl_mem S) (\<lambda>me.
     rbind (sl_disk S ''/'') (\<lambda>root.
     rbind (sl_partitions S) (\<lambda>parts.
     rbind (rfor (\<lambda>p st. rbind (sl_disk S p) (\<lambda>u. Ok (diskStats S (''disk_'' @ p) u st))) parts
              (diskStats S ''disk'' root (memStats me (cpuStats S infos)))) (\<lambda>st.
     rbind (sl_net S) (\<lambda>n1.
     rbind (sl_netLater S) (\<lambda>n2.
     rbind (firstCounter n2) (\<lambda>later.
     rbind (firstCounter n1) (\<lambda>before.
     rbind (case extOf (hookStats (sl_gpu S)) ho of Some e \<Rightarrow> asMap e | None \<Rightarrow> Ok []) (\<lambda>ext.
     Ok [(ho, (netStats before later st)\<lparr>ns_extension := ext\<rparr>)])))))))))))"

section \<open>The statistics of one process\<close>

text \<open>
  \<open>pl_scale\<close> and \<open>pl_core\<close> are the floating point expressions of the used memory and cores. The error of
  the CPU information is overwritten; only its length is looked at.
\<close>

record 'f proc_lib =
  pl_open :: "int \<Rightarrow> unit result"
  pl_mem :: "uint64 result"
  pl_memPercent :: "int \<Rightarrow> 'f result"
  pl_cpus :: "32 word list"
  pl_cpuPercent :: "int \<Rightarrow> 'f result"
  pl_scale :: "uint64 \<Rightarrow> 'f \<Rightarrow> uint64"
  pl_core :: "32 word \<Rightarrow> 'f \<Rightarrow> string"

definition getServiceInsStats :: "'f proc_lib \<Rightarrow> int \<Rightarrow> (string, string) gomap result" where
  "getServiceInsStats L pid =
     (let pid = toInt32 pid
      in rbind (pl_open L pid) (\<lambda>_.
         rbind (pl_mem L) (\<lambda>total.
         rbind (pl_memPercent L pid) (\<lambda>mp.
         case pl_cpus L of
           [] \<Rightarrow> Err ''failed to get cpu info''
         | c # _ \<Rightarrow>
             rbind (pl_cpuPercent L pid) (\<lambda>cp.
             Ok [(''memory'', decU (pl_scale L total mp)), (''cpu'', pl_core L c cp)])))))"

section \<open>The platform itself\<close>

text \<open>The directories and parts of a new platform; its operations that are not implemented.\<close>

record ('p, 'm, 's) native_impl =
  ni_logHostPath :: string
  ni_runHostPath :: string
  ni_hostPathLib :: string
  ni_mapping :: 'm
  ni_ports :: 'p
  ni_prober :: manager
  ni_store :: 's

definition newNativeImpl :: "string result \<Rightarrow> (int \<Rightarrow> int \<Rightarrow> 'p result) \<Rightarrow> 'm result \<Rightarrow> int \<Rightarrow> int \<Rightarrow> 's \<Rightarrow>
    ('p, 'm, 's) native_impl result" where
  "newNativeImpl hostPathLib allocator mapping start end sto =
     rbind hostPathLib (\<lambda>lib.
     rbind (allocator start end) (\<lambda>ports.
     rbind mapping (\<lambda>m.
     Ok \<lparr>ni_logHostPath = Join [lib, ''log''], ni_runHostPath = Join [lib, ''run''], ni_hostPathLib = lib,
         ni_mapping = m, ni_ports = ports, ni_prober = NewManager, ni_store = sto\<rparr>)))"

definition native_UpdateNodeLabels :: "string \<Rightarrow> (string, string) gomap \<Rightarrow> unit result" where
  "native_UpdateNodeLabels n labels = Err ''failed to update node label, function has not been implemented''"

definition native_RemoteDescribe :: "string \<Rightarrow> string \<Rightarrow> string \<Rightarrow> string result" where
  "native_RemoteDescribe tp ns n = Err ''failed to start remote describe pod, function has not been implemented''"

definition native_GetMasterNodeName :: "host_lib \<Rightarrow> string" where
  "native_GetMasterNodeName H = (case hs_host H of Ok ho \<Rightarrow> fst ho | _ \<Rightarrow> [])"

text \<open>The master of the platform is the one node it reports.\<close>

lemma master_is_reported:
  "native_CollectNodeInfo H = Ok infos \<Longrightarrow> map fst infos = [native_GetMasterNodeName H]"
  by (auto simp: native_CollectNodeInfo_def native_GetMasterNodeName_def rbind_Ok_iff)

section \<open>Counters\<close>

text \<open>The growth of a counter that may have started over once.\<close>

definition grown :: "uint64 \<Rightarrow> uint64 \<Rightarrow> nat" where
  "grown before later =
     (if unat before \<le> unat later then unat later - unat before else 2 ^ 64 - (unat before - unat later))"

lemma unat_grown: "unat (later - before) = grown before later"
proof (cases "unat before \<le> unat later")
  case True
  then show ?thesis by (simp add: grown_def unat_sub word_le_nat_alt)
next
  case False
  then show ?thesis by (simp add: grown_def unat_sub_if')
qed

text \<open>
  The traffic reported for a second is what each counter grew by: the difference is taken modulo
  \<open>2 ^ 64\<close>, exact when the later reading is not smaller, and otherwise the reading that is missing to a
  full turn of the counter; a counter that was reset shows up as nearly \<open>2 ^ 64\<close>.
\<close>

theorem traffic_grown:
  assumes "native_CollectNodeStats S = Ok [(ho, st)]" and "sl_net S = Ok (before # cs1)"
    and "sl_netLater S = Ok (later # cs2)"
  shows "mget (ns_netIO st) ''netBytesSent'' = Some (dec_nat (grown (nc_sent before) (nc_sent later))) \<and>
    mget (ns_netIO st) ''netBytesRecv'' = Some (dec_nat (grown (nc_recv before) (nc_recv later))) \<and>
    mget (ns_netIO st) ''netPacketsSent'' = Some (dec_nat (grown (nc_packetsSent before) (nc_packetsSent later))) \<and>
    mget (ns_netIO st) ''netPacketsRecv'' = Some (dec_nat (grown (nc_packetsRecv before) (nc_packetsRecv later)))"
proof -
  from assms obtain st0 ext where "st = (netStats before later st0)\<lparr>ns_extension := ext\<rparr>"
    by (auto simp: native_CollectNodeStats_def rbind_Ok_iff firstCounter_def)
  then show ?thesis by (simp add: netStats_def mputs_def decU_def unat_grown map_simps)
qed

definition idle_host :: "unit stat_lib" where
  "idle_host =
     \<lparr>sl_host = Ok ''edge'', sl_cores = Ok [4], sl_percent = [], sl_cpuUsage = (\<lambda>_ _. []), sl_ratio = (\<lambda>_ _. []),
      sl_mem = Ok \<lparr>us_total = 8, us_used = 2\<rparr>, sl_disk = (\<lambda>_. Ok \<lparr>us_total = 100, us_used = 1\<rparr>), sl_partitions = Ok [''/data''],
      sl_net = Ok [\<lparr>nc_sent = 5, nc_recv = 7, nc_packetsSent = 1, nc_packetsRecv = 1\<rparr>],
      sl_netLater = Ok [\<lparr>nc_sent = 5, nc_recv = 9, nc_packetsSent = 1, nc_packetsRecv = 0\<rparr>], sl_gpu = None\<rparr>"

theorem traffic_grown_witness:
  "\<exists>st. native_CollectNodeStats idle_host = Ok [(''edge'', st)] \<and> mget (ns_netIO st) ''netBytesRecv'' = Some ''2'' \<and>
     mget (ns_netIO st) ''netPacketsRecv'' = Some (dec_nat (2 ^ 64 - 1))"
proof -
  obtain st where st: "native_CollectNodeStats idle_host = Ok [(''edge'', st)]"
    by (simp add: native_CollectNodeStats_def idle_host_def firstCounter_def hookStats_def extOf_def)
  have net: "sl_net idle_host = Ok (\<lparr>nc_sent = 5, nc_recv = 7, nc_packetsSent = 1, nc_packetsRecv = 1\<rparr> # [])"
    "sl_netLater idle_host = Ok (\<lparr>nc_sent = 5, nc_recv = 9, nc_packetsSent = 1, nc_packetsRecv = 0\<rparr> # [])"
    by (simp_all add: idle_host_def)
  have "dec_nat 2 = ''2''" by code_simp
  with traffic_grown[OF st net] st show ?thesis by (simp add: grown_def)
qed

section \<open>The fingerprints of a native node\<close>

text \<open>The library of the activation on a native node.\<close>

definition native_activation :: "host_lib \<Rightarrow> activate_lib \<Rightarrow> activate_lib" where
  "native_activation H L =
     L\<lparr>al_mode := ''native'', al_host := rmap fst (hs_host H),
       al_nodes := rmap (map (\<lambda>ni. (fst ni, Some (snd ni)))) (native_CollectNodeInfo H)\<rparr>"

text \<open>
  The native platform fills in neither a machine id nor a boot id: a node configured with one of these
  fingerprints collects an empty one without an error, and is never activated.
\<close>

theorem native_proofs_empty:
  assumes "native_CollectNodeInfo H = Ok infos" and "fp_proof f \<in> {ProofMachineID, ProofBootID}"
    and "av_fingerprints C = f # fs"
  shows "activate_collect C (native_activation H L) st = Ok [] \<and> activate C (native_activation H L) st = (Some (Coded ErrUnknown), st)"
proof -
  from assms(1) obtain ho ias where h: "hs_host H = Ok ho" "hs_addrs H = Ok ias"
    by (auto simp: native_CollectNodeInfo_def rbind_Ok_iff)
  then have "activate_collect C (native_activation H L) st = Ok []"
    using assms(2,3)
    by (auto simp: activate_collect_def native_activation_def masterInfo_def native_CollectNodeInfo_def proofValue_def)
  then show ?thesis by (simp add: activate_def)
qed

text \<open>With the system's UUID or the host name as proof, it is the host's.\<close>

lemma native_proofs_given:
  assumes "hs_host H = Ok (name, uid)" and "hs_addrs H = Ok ias" and "av_fingerprints C = f # fs"
  shows "fp_proof f = ProofSystemUUID \<Longrightarrow> activate_collect C (native_activation H L) st = Ok uid"
    and "fp_proof f = ProofHostName \<Longrightarrow> activate_collect C (native_activation H L) st = Ok name"
  using assms
  by (auto simp: activate_collect_def native_activation_def masterInfo_def native_CollectNodeInfo_def proofValue_def)

end
