(* ===== verification/Startup.thy ===== *)
theory Startup
  imports Core_Server Initz Security Ami_Registry
begin

text \<open>
  Starting the two services: \<^verbatim>\<open>NewCore\<close> (\<^verbatim>\<open>core/core.go\<close>) and \<^verbatim>\<open>NewInitialize\<close>
  (\<^verbatim>\<open>initz/initialize.go\<close>) with \<^verbatim>\<open>NewEngine\<close> (\<^verbatim>\<open>engine/engine.go\<close>) and \<^verbatim>\<open>NewBoltHold\<close>, over the
  components they construct. The plugins, the opening of the database and the client options are
  results given by the environment; what \<^verbatim>\<open>Start\<close> sets going is not part of it.
\<close>

section \<open>State\<close>

text \<open>
  The process environment, the files, the database of the node, the certificates with the randomness
  of the PKI library, and the registry of platforms.
\<close>

record ('d, 'p, 'w, 'c, 's, 'i) boot_state =
  bs_env :: "(string, string) gomap"
  bs_fs :: fs
  bs_db :: 'd
  bs_pki :: "'p \<times> 'w"
  bs_reg :: "('c, 's, 'i) registry"

record ('d, 'p, 'w, 'c, 's) boot_env =
  be_env :: env
  be_os :: os_env
  be_pki :: "('p, 'w) pki_env"
  be_tls :: "fs \<Rightarrow> string result option result"   \<comment> \<open>the node's certificate, read from its files\<close>
  be_storePath :: string
  be_open :: "'s result"
  be_bolt :: "string \<Rightarrow> 'd bolt_ops"            \<comment> \<open>by the id of the node's document\<close>
  be_spec :: spec_ops
  be_coreInfo :: json
  be_link :: "unit result"
  be_pubsub :: "unit result"
  be_download :: "unit result"
  be_hostPathLib :: "string result"
  be_activeOptions :: "unit result"             \<comment> \<open>the client options of the activation\<close>
  be_activeCA :: string
  be_mode :: string
  be_ami :: 'c
  be_md5 :: "string \<Rightarrow> string"
  be_certPath :: string
  be_caFile :: string
  be_crtFile :: string
  be_keyFile :: string

definition getenv :: "(string, string) gomap \<Rightarrow> string \<Rightarrow> string" where
  "getenv m k = (case mget m k of Some v \<Rightarrow> v | None \<Rightarrow> [])"

text \<open>The document of the node is stored under its identity (\<^verbatim>\<open>node/node.go\<close>).\<close>

definition nodeId :: "(string, string) gomap \<Rightarrow> string" where
  "nodeId envs = getenv envs ''BAETYL_NODE_NAMESPACE'' @ ''.'' @ getenv envs ''BAETYL_NODE_NAME'' @ ''.baetyl-edge-node''"

text \<open>The authority is named after the identity in the process environment.\<close>

definition pkiOf :: "('d, 'p, 'w, 'c, 's) boot_env \<Rightarrow> (string, string) gomap \<Rightarrow> ('p, 'w) pki_env" where
  "pkiOf B envs = (be_pki B)\<lparr>pe_namespace := getenv envs ''BAETYL_NODE_NAMESPACE'', pe_node := getenv envs ''BAETYL_NODE_NAME''\<rparr>"

definition systemAlt :: "string list \<Rightarrow> alt_names" where
  "systemAlt dns = \<lparr>an_dns = dns, an_ips = [''0.0.0.0'', ''127.0.0.1''], an_emails = [], an_uris = []\<rparr>"

definition certOps :: "('d, 'p, 'w, 'c, 's) boot_env \<Rightarrow> ('p, 'w) pki_env \<Rightarrow> 'p \<times> 'w \<Rightarrow> cert_ops" where
  "certOps B P sw =
     \<lparr>ce_ca = GetCA P sw,
      ce_issue = (\<lambda>cn dns. rmap (\<lambda>c. (cp_crt c, cp_key c)) (fst (IssueCertificate P cn (systemAlt dns) sw))),
      ce_md5 = be_md5 B, ce_path = be_certPath B, ce_crt = be_crtFile B, ce_key = be_keyFile B, ce_caFile = be_caFile B\<rparr>"

section \<open>Construction\<close>

definition NewBoltHold :: "('d, 'p, 'w, 'c, 's) boot_env \<Rightarrow> fs \<Rightarrow> 's result \<times> fs" where
  "NewBoltHold B files = sbind (MkdirAll (be_os B) (pathDir (be_storePath B)) files) (\<lambda>_ files. (be_open B, files))"

text \<open>Calls of the parts lifted to the whole state.\<close>

definition onFiles :: "(fs \<Rightarrow> 'r result \<times> fs) \<Rightarrow> ('d, 'p, 'w, 'c, 's, 'i) boot_state \<Rightarrow> 'r result \<times> ('d, 'p, 'w, 'c, 's, 'i) boot_state" where
  "onFiles f st = (let (r, x) = f (bs_fs st) in (r, st\<lparr>bs_fs := x\<rparr>))"

definition onEnv :: "((string, string) gomap \<Rightarrow> 'r result \<times> (string, string) gomap) \<Rightarrow>
    ('d, 'p, 'w, 'c, 's, 'i) boot_state \<Rightarrow> 'r result \<times> ('d, 'p, 'w, 'c, 's, 'i) boot_state" where
  "onEnv f st = (let (r, x) = f (bs_env st) in (r, st\<lparr>bs_env := x\<rparr>))"

definition onNode :: "('d \<Rightarrow> 'r result \<times> 'd) \<Rightarrow> ('d, 'p, 'w, 'c, 's, 'i) boot_state \<Rightarrow> 'r result \<times> ('d, 'p, 'w, 'c, 's, 'i) boot_state" where
  "onNode f st = (let (r, x) = f (bs_db st) in (r, st\<lparr>bs_db := x\<rparr>))"

definition onPki :: "('p \<times> 'w \<Rightarrow> 'r result \<times> ('p \<times> 'w)) \<Rightarrow> ('d, 'p, 'w, 'c, 's, 'i) boot_state \<Rightarrow> 'r result \<times> ('d, 'p, 'w, 'c, 's, 'i) boot_state" where
  "onPki f st = (let (r, x) = f (bs_pki st) in (r, st\<lparr>bs_pki := x\<rparr>))"

definition onRegistry :: "(('c, 's, 'i) registry \<Rightarrow> 'r result \<times> ('c, 's, 'i) registry) \<Rightarrow>
    ('d, 'p, 'w, 'c, 's, 'i) boot_state \<Rightarrow> 'r result \<times> ('d, 'p, 'w, 'c, 's, 'i) boot_state" where
  "onRegistry f st = (let (r, x) = f (bs_reg st) in (r, st\<lparr>bs_reg := x\<rparr>))"

text \<open>The certificate of the process: issuing it advances the randomness only.\<close>

definition systemCert :: "('d, 'p, 'w, 'c, 's) boot_env \<Rightarrow> ('d, 'p, 'w, 'c, 's, 'i) boot_state \<Rightarrow>
    unit result \<times> ('d, 'p, 'w, 'c, 's, 'i) boot_state" where
  "systemCert B st =
     (let P = pkiOf B (bs_env st); E = be_env B; C = certOps B P (bs_pki st);
          (r, files) = genSystemCert E (be_os B) C (bs_fs st);
          sw = (if is_ok (GetCA P (bs_pki st))
                then snd (IssueCertificate P (e_appName E @ ''.'' @ e_svcName E)
                       (systemAlt [e_svcName E @ ''.'' @ e_systemNs E, e_svcName E, ''localhost'']) (bs_pki st))
                else bs_pki st)
      in (r, st\<lparr>bs_fs := files, bs_pki := sw\<rparr>))"

definition NewEngine :: "('d, 'p, 'w, 'c, 's) boot_env \<Rightarrow> 's \<Rightarrow> ('d, 'p, 'w, 'c, 's, 'i) boot_state \<Rightarrow>
    'i result \<times> ('d, 'p, 'w, 'c, 's, 'i) boot_state" where
  "NewEngine B sto st =
     sbind (be_hostPathLib B, st) (\<lambda>_ st.
     sbind (onRegistry (NewAMI (be_mode B) (be_ami B) (Some sto)) st) (\<lambda>am st.
     sbind (onPki (NewPKI (pkiOf B (bs_env st))) st) (\<lambda>_ st.
     sbind (systemCert B st) (\<lambda>_ st.
     sbind (be_pubsub B, st) (\<lambda>_ st. (Ok am, st))))))"

definition NewSync :: "('d, 'p, 'w, 'c, 's) boot_env \<Rightarrow> unit result" where
  "NewSync B = rbind (be_link B) (\<lambda>_. rbind (be_pubsub B) (\<lambda>_. be_download B))"

text \<open>What both services do after the node is activated; the engine's platform is the result.\<close>

definition construct :: "('d, 'p, 'w, 'c, 's) boot_env \<Rightarrow> ('d, 'p, 'w, 'c, 's, 'i) boot_state \<Rightarrow>
    'i result \<times> ('d, 'p, 'w, 'c, 's, 'i) boot_state" where
  "construct B st =
     sbind (onEnv (ExtractNodeInfo (be_tls B (bs_fs st))) st) (\<lambda>_ st.
     sbind (onFiles (NewBoltHold B) st) (\<lambda>sto st.
     sbind (onNode (NewNode (be_bolt B (nodeId (bs_env st))) (be_spec B) (be_coreInfo B)) st) (\<lambda>_ st.
     sbind (NewSync B, st) (\<lambda>_ st.
     NewEngine B sto st))))"

section \<open>Activation first\<close>

text \<open>
  \<^verbatim>\<open>activating\<close>: one attempt at once and one at every tick, until one succeeds and the service goes on;
  \<open>Ls\<close> is what the world answers at each attempt. \<open>None\<close>: no attempt succeeded.
\<close>

fun activating :: "activate_cfg \<Rightarrow> activate_lib list \<Rightarrow> activate_state \<Rightarrow> activate_state option" where
  "activating C [] st = None"
| "activating C (L # Ls) st =
     (case activate C L st of (None, st') \<Rightarrow> Some st' | (Some _, st') \<Rightarrow> activating C Ls st')"

text \<open>
  With a server the attempts are the requests to it: the service goes on after the first that sent the
  signal of a successful activation.
\<close>

record attempt =
  at_lib :: activate_lib
  at_server :: server_lib
  at_path :: string
  at_request :: act_request

fun serving :: "activate_cfg \<Rightarrow> attempt list \<Rightarrow> activate_state \<Rightarrow> activate_state option" where
  "serving C [] st = None"
| "serving C (a # as) st =
     (let st' = snd (activation_route C (at_lib a) (at_server a) (at_path a) (at_request a) st)
      in if ac_sent st' = ac_sent st then serving C as st' else Some st')"

text \<open>
  How the node is activated: by the loop, or by the server when one is configured. A server that
  cannot listen gets no request: its error is lost, and the service waits for ever.
\<close>

datatype activation = Attempts "activate_lib list" | Serving "attempt list"

definition awaitActivation :: "activate_cfg \<Rightarrow> activation \<Rightarrow> activate_state \<Rightarrow> activate_state option" where
  "awaitActivation C W st = (case W of Attempts Ls \<Rightarrow> activating C Ls st | Serving as \<Rightarrow> serving C as st)"

text \<open>
  The part of \<^verbatim>\<open>NewActivate\<close> that can fail: the client options, the file of the authority to trust, and the
  platform, asked of the registry with a nil store.
\<close>

definition openActivation :: "('d, 'p, 'w, 'c, 's) boot_env \<Rightarrow> ('d, 'p, 'w, 'c, 's, 'i) boot_state \<Rightarrow>
    'i result \<times> ('d, 'p, 'w, 'c, 's, 'i) boot_state" where
  "openActivation B st =
     sbind (be_activeOptions B, st) (\<lambda>_ st.
     sbind (ReadFile (be_os B) (be_activeCA B) (bs_fs st), st) (\<lambda>_ st.
     onRegistry (NewAMI (be_mode B) (be_ami B) None) st))"

text \<open>\<^verbatim>\<open>NewInitialize\<close>. \<open>None\<close>: the service waits for its activation.\<close>

definition NewInitialize :: "('d, 'p, 'w, 'c, 's) boot_env \<Rightarrow> activate_cfg \<Rightarrow> batch \<Rightarrow> string \<Rightarrow> activation \<Rightarrow>
    ('d, 'p, 'w, 'c, 's, 'i) boot_state \<Rightarrow> ('i result \<times> ('d, 'p, 'w, 'c, 's, 'i) boot_state) option" where
  "NewInitialize B C b address W st =
     (if needsActivation C (bs_fs st)
      then case openActivation B st of
             (Ok _, st) \<Rightarrow>
               (case awaitActivation C W (NewActivate C b address (bs_env st) (bs_fs st)) of
                  None \<Rightarrow> None
                | Some a \<Rightarrow> Some (construct B (st\<lparr>bs_env := ac_env a, bs_fs := ac_fs a\<rparr>)))
           | (Err e, st) \<Rightarrow> Some (Err e, st)
           | (Panic p, st) \<Rightarrow> Some (Panic p, st)
      else Some (construct B st))"

section \<open>A service that has started\<close>

lemma pkiOf_ok: "cert_store_ok (be_pki B) \<Longrightarrow> cert_store_ok (pkiOf B envs)"
  by (simp add: cert_store_ok_def pkiOf_def)

lemma genSystemCert_genCert:
  "genSystemCert E osys C files = sbind (ce_ca C, files) (\<lambda>ca files.
     sbind (ce_issue C (e_appName E @ ''.'' @ e_svcName E)
              [e_svcName E @ ''.'' @ e_systemNs E, e_svcName E, ''localhost''], files) (\<lambda>ck files.
     genCert osys \<lparr>ct_ca = Join [ce_path C, ce_caFile C], ct_cert = Join [ce_path C, ce_crt C], ct_key = Join [ce_path C, ce_key C]\<rparr>
       \<lparr>ct_ca = ca, ct_cert = fst ck, ct_key = snd ck\<rparr> files))"
  by (simp add: genSystemCert_def genCert_def)

definition systemPaths :: "('d, 'p, 'w, 'c, 's) boot_env \<Rightarrow> certificate" where
  "systemPaths B = \<lparr>ct_ca = Join [be_certPath B, be_caFile B], ct_cert = Join [be_certPath B, be_crtFile B],
     ct_key = Join [be_certPath B, be_keyFile B]\<rparr>"

lemma systemCert_Ok:
  assumes "systemCert B st = (Ok u, st')" and "distinct (certPaths (systemPaths B))"
  shows "\<exists>ca c. GetCA (pkiOf B (bs_env st)) (bs_pki st) = Ok ca \<and>
    fst (IssueCertificate (pkiOf B (bs_env st)) (e_appName (be_env B) @ ''.'' @ e_svcName (be_env B))
      (systemAlt [e_svcName (be_env B) @ ''.'' @ e_systemNs (be_env B), e_svcName (be_env B), ''localhost'']) (bs_pki st)) = Ok c \<and>
    installed (systemPaths B) \<lparr>ct_ca = ca, ct_cert = cp_crt c, ct_key = cp_key c\<rparr> (bs_fs st') \<and>
    fst (bs_pki st') = fst (bs_pki st) \<and> bs_env st' = bs_env st \<and> bs_db st' = bs_db st"
proof -
  define P where "P = pkiOf B (bs_env st)"
  define E where "E = be_env B"
  define alt where "alt = systemAlt [e_svcName E @ ''.'' @ e_systemNs E, e_svcName E, ''localhost'']"
  obtain files where g: "genSystemCert E (be_os B) (certOps B P (bs_pki st)) (bs_fs st) = (Ok u, files)"
    and f: "bs_fs st' = files" "bs_env st' = bs_env st" "bs_db st' = bs_db st"
    using assms(1) unfolding systemCert_def Let_def P_def[symmetric] E_def[symmetric]
    by (cases "genSystemCert E (be_os B) (certOps B P (bs_pki st)) (bs_fs st)") auto
  have sw: "fst (bs_pki st') = fst (bs_pki st)"
    using assms(1) unfolding systemCert_def Let_def P_def[symmetric] E_def[symmetric]
    by (auto simp: Issue_store split: prod.splits if_splits)
  from g obtain ca where ca: "GetCA P (bs_pki st) = Ok ca"
    unfolding genSystemCert_genCert sbind_Ok_iff by (auto simp: certOps_def)
  from g obtain c where c: "fst (IssueCertificate P (e_appName E @ ''.'' @ e_svcName E) alt (bs_pki st)) = Ok c"
    unfolding genSystemCert_genCert sbind_Ok_iff
    by (cases "fst (IssueCertificate P (e_appName E @ ''.'' @ e_svcName E) alt (bs_pki st))") (auto simp: certOps_def alt_def)
  from g have "genCert (be_os B) (systemPaths B) \<lparr>ct_ca = ca, ct_cert = cp_crt c, ct_key = cp_key c\<rparr> (bs_fs st) = (Ok u, files)"
    unfolding genSystemCert_genCert using ca c by (simp add: certOps_def alt_def systemPaths_def)
  from genCert_Ok[OF this assms(2)] ca c f sw show ?thesis by (auto simp: P_def E_def alt_def)
qed

lemma NewNode_readable:
  assumes "bolt_ok B" and "codec_ok L" and "NewNode B L core d = (Ok u, d')"
  shows "is_ok (node_Get B L d')"
proof -
  from assms(3) obtain d1 x where "node_Report B L [(''core'', core)] False d1 = (Ok x, d')"
    by (auto simp: NewNode_def Let_def sbind_Ok_iff split_beta)
  from report_step[OF this] obtain m' where "writeNode B L m' d1 = (Ok x, d')" by (elim exE conjE)
  from writeNode_Ok[OF assms(1,2) this] show ?thesis by auto
qed

text \<open>
  C23. A service that has started is ready: the document of the node can be read, \<^verbatim>\<open>NewPKI\<close> has run for
  the node's own name, and the files of the system certificate hold the certificate of the authority that
  is stored since then and a certificate and key which this authority issued for this service: they are
  the result of \<^verbatim>\<open>IssueCertificate\<close> in the very state \<^verbatim>\<open>NewPKI\<close> left.
\<close>

theorem construct_ready:
  assumes "construct B st = (Ok am, st')" and "\<And>n. bolt_ok (be_bolt B n)" and "codec_ok (be_spec B)"
    and "cert_store_ok (be_pki B)" and "distinct (certPaths (systemPaths B))"
  shows "is_ok (node_Get (be_bolt B (nodeId (bs_env st'))) (be_spec B) (bs_db st')) \<and>
    (\<exists>ca c sw. NewPKI (pkiOf B (bs_env st')) (bs_pki st) = (Ok (), sw) \<and>
       GetCA (pkiOf B (bs_env st')) sw = Ok ca \<and> GetCA (pkiOf B (bs_env st')) (bs_pki st') = Ok ca \<and>
       fst (IssueCertificate (pkiOf B (bs_env st')) (e_appName (be_env B) @ ''.'' @ e_svcName (be_env B))
         (systemAlt [e_svcName (be_env B) @ ''.'' @ e_systemNs (be_env B), e_svcName (be_env B), ''localhost'']) sw) = Ok c \<and>
       installed (systemPaths B) \<lparr>ct_ca = ca, ct_cert = cp_crt c, ct_key = cp_key c\<rparr> (bs_fs st'))"
proof -
  from assms(1) obtain u1 s1 sto s2 u3 s3 u4 s4 where
    s: "onEnv (ExtractNodeInfo (be_tls B (bs_fs st))) st = (Ok u1, s1)" "onFiles (NewBoltHold B) s1 = (Ok sto, s2)"
      "onNode (NewNode (be_bolt B (nodeId (bs_env s2))) (be_spec B) (be_coreInfo B)) s2 = (Ok u3, s3)"
      "(NewSync B, s3) = (Ok u4, s4)" "NewEngine B sto s4 = (Ok am, st')"
    unfolding construct_def sbind_Ok_iff by blast
  from s(3) have node: "is_ok (node_Get (be_bolt B (nodeId (bs_env s2))) (be_spec B) (bs_db s3))" "bs_env s3 = bs_env s2"
    using NewNode_readable[OF assms(2,3)] by (auto simp: onNode_def Let_def split: prod.splits)
  from s(5) obtain h s5 s6 u7 s7 u8 s8 u9 s9 where
    e: "(be_hostPathLib B, s4) = (Ok h, s5)" "onRegistry (NewAMI (be_mode B) (be_ami B) (Some sto)) s5 = (Ok am, s6)"
      "onPki (NewPKI (pkiOf B (bs_env s6))) s6 = (Ok u7, s7)" "systemCert B s7 = (Ok u8, s8)" "(be_pubsub B, s8) = (Ok u9, s9)"
      "st' = s9"
    unfolding NewEngine_def sbind_Ok_iff by auto
  have same: "bs_env s7 = bs_env s3" "bs_db s7 = bs_db s3" "bs_env s6 = bs_env s7"
    using s(4) e(1-3) by (auto simp: onRegistry_def onPki_def Let_def split: prod.splits)
  have "bs_pki s6 = bs_pki st"
    using s(1-4) e(1,2) by (auto simp: onEnv_def onFiles_def onNode_def onRegistry_def Let_def split: prod.splits)
  moreover have "NewPKI (pkiOf B (bs_env s6)) (bs_pki s6) = (Ok u7, bs_pki s7)"
    using e(3) by (auto simp: onPki_def Let_def split: prod.splits)
  ultimately have new: "NewPKI (pkiOf B (bs_env s7)) (bs_pki st) = (Ok (), bs_pki s7)" by (simp add: same(3))
  from systemCert_Ok[OF e(4) assms(5)] obtain ca c where
    c: "GetCA (pkiOf B (bs_env s7)) (bs_pki s7) = Ok ca"
      "fst (IssueCertificate (pkiOf B (bs_env s7)) (e_appName (be_env B) @ ''.'' @ e_svcName (be_env B))
        (systemAlt [e_svcName (be_env B) @ ''.'' @ e_systemNs (be_env B), e_svcName (be_env B), ''localhost'']) (bs_pki s7)) = Ok c"
      "installed (systemPaths B) \<lparr>ct_ca = ca, ct_cert = cp_crt c, ct_key = cp_key c\<rparr> (bs_fs s8)"
      "fst (bs_pki s8) = fst (bs_pki s7)" "bs_env s8 = bs_env s7" "bs_db s8 = bs_db s7"
    by blast
  have st': "st' = s8" using e(5,6) by simp
  have "GetCA (pkiOf B (bs_env s7)) (bs_pki s8) = Ok ca" using c(1,4) by (simp add: GetCA_def getCA_def)
  moreover have "is_ok (node_Get (be_bolt B (nodeId (bs_env s8))) (be_spec B) (bs_db s8))"
    using node same c(5,6) by simp
  ultimately show ?thesis using c(1-3) new unfolding st' c(5) by blast
qed

section \<open>A fresh node\<close>

lemma activating_Some:
  "activating C Ls a = Some a' \<Longrightarrow> \<exists>L \<in> set Ls. \<exists>a0. activate C L a0 = (None, a')"
  by (induction C Ls a rule: activating.induct) (auto split: prod.splits option.splits)

text \<open>A request that sent the signal was a successful activation.\<close>

lemma handleActiveImpl_attempt:
  "ac_sent (snd (handleActiveImpl C L req st)) = ac_sent st \<or>
   (\<exists>a0. activate C L a0 = (None, snd (handleActiveImpl C L req st)))"
proof (cases "rq_form req")
  case (Some form)
  have "\<exists>a0. handleActiveImpl C L req st = activate C L a0 \<and> ac_sent a0 = ac_sent st"
    unfolding handleActiveImpl_def Let_def Some option.case by (intro exI conjI, rule refl) simp
  then obtain a0 where a0: "handleActiveImpl C L req st = activate C L a0" "ac_sent a0 = ac_sent st" by blast
  obtain e st' where r: "activate C L a0 = (e, st')" by (rule prod.exhaust)
  show ?thesis
  proof (cases e)
    case None
    with a0 r show ?thesis by auto
  next
    case (Some x)
    with activate_failed[of C L a0 x st'] a0 r show ?thesis by simp
  qed
qed (simp add: handleActiveImpl_def)

lemma handleUpdate_state: "fst (snd (handleUpdate C L S req sw)) = snd (handleActiveImpl C L req (fst sw))"
proof -
  obtain e st where h: "handleActiveImpl C L req (fst sw) = (e, st)" by (rule prod.exhaust)
  show ?thesis
  proof (cases e)
    case (Some x)
    then show ?thesis by (cases x) (simp_all add: handleUpdate_def h Let_def split: result.split)
  qed (simp add: handleUpdate_def h Let_def)
qed

lemma handleActive_state: "fst (snd (handleActive C L req sw)) = snd (handleActiveImpl C L req (fst sw))"
  by (cases "handleActiveImpl C L req (fst sw)") (simp add: handleActive_def split: option.split)

lemma handleWrapper_state:
  "snd (handleWrapper S method h req st) = st \<or> snd (handleWrapper S method h req st) = fst (snd (h (st, no_answer)))"
proof -
  obtain r st' w where h: "h (st, no_answer) = (r, (st', w))" by (metis prod.exhaust)
  show ?thesis
  proof (cases r)
    case (Ok e)
    then show ?thesis by (cases e) (simp_all add: handleWrapper_def h)
  qed (simp_all add: handleWrapper_def h)
qed

lemma activation_route_state:
  "snd (activation_route C L S path req st) \<in> {st, snd (handleActiveImpl C L req st)}"
  using handleWrapper_state[of S "''POST''" "handleUpdate C L S req" req st]
    handleWrapper_state[of S "''POST''" "handleActive C L req" req st]
  unfolding activation_route_def handleUpdate_state handleActive_state by auto

lemma serving_Some:
  "serving C as st = Some st' \<Longrightarrow> \<exists>a \<in> set as. \<exists>a0. activate C (at_lib a) a0 = (None, st')"
proof (induction C as st rule: serving.induct)
  case (2 C a as st)
  define st1 where "st1 = snd (activation_route C (at_lib a) (at_server a) (at_path a) (at_request a) st)"
  show ?case
  proof (cases "ac_sent st1 = ac_sent st")
    case True
    with 2 show ?thesis by (auto simp: st1_def Let_def)
  next
    case False
    then have "st1 = snd (handleActiveImpl C (at_lib a) (at_request a) st)"
      using activation_route_state[of C "at_lib a" "at_server a" "at_path a" "at_request a" st] unfolding st1_def by auto
    with False handleActiveImpl_attempt[of C "at_lib a" "at_request a" st] 2(2) show ?thesis
      by (auto simp: st1_def Let_def)
  qed
qed simp

definition worlds :: "activation \<Rightarrow> activate_lib set" where
  "worlds W = (case W of Attempts Ls \<Rightarrow> set Ls | Serving as \<Rightarrow> at_lib ` set as)"

lemma awaitActivation_Some:
  "awaitActivation C W st = Some st' \<Longrightarrow> \<exists>L \<in> worlds W. \<exists>a0. activate C L a0 = (None, st')"
  by (auto simp: awaitActivation_def worlds_def dest: activating_Some serving_Some split: activation.splits)

lemma construct_keeps:
  assumes "construct B st = (Ok am, st')"
  shows "\<exists>u sto R. ExtractNodeInfo (be_tls B (bs_fs st)) (bs_env st) = (Ok u, bs_env st') \<and>
    NewAMI (be_mode B) (be_ami B) (Some sto) (bs_reg st) = (Ok am, R)"
proof -
  from assms obtain u1 s1 sto s2 u3 s3 u4 s4 where
    s: "onEnv (ExtractNodeInfo (be_tls B (bs_fs st))) st = (Ok u1, s1)" "onFiles (NewBoltHold B) s1 = (Ok sto, s2)"
      "onNode (NewNode (be_bolt B (nodeId (bs_env s2))) (be_spec B) (be_coreInfo B)) s2 = (Ok u3, s3)"
      "(NewSync B, s3) = (Ok u4, s4)" "NewEngine B sto s4 = (Ok am, st')"
    unfolding construct_def sbind_Ok_iff by blast
  from s(5) obtain h s5 s6 u7 s7 u8 s8 u9 s9 where
    e: "(be_hostPathLib B, s4) = (Ok h, s5)" "onRegistry (NewAMI (be_mode B) (be_ami B) (Some sto)) s5 = (Ok am, s6)"
      "onPki (NewPKI (pkiOf B (bs_env s6))) s6 = (Ok u7, s7)" "systemCert B s7 = (Ok u8, s8)" "(be_pubsub B, s8) = (Ok u9, s9)"
      "st' = s9"
    unfolding NewEngine_def sbind_Ok_iff by auto
  have env: "bs_env s8 = bs_env s7"
    using e(4) unfolding systemCert_def Let_def by (auto split: prod.splits)
  have "ExtractNodeInfo (be_tls B (bs_fs st)) (bs_env st) = (Ok u1, bs_env s1)" "bs_reg s1 = bs_reg st"
    using s(1) by (auto simp: onEnv_def Let_def split: prod.splits)
  moreover have "bs_env st' = bs_env s1" "bs_reg s5 = bs_reg s1"
    using s(2-4) e env by (auto simp: onFiles_def onNode_def onRegistry_def onPki_def Let_def split: prod.splits)
  moreover have "\<exists>R. NewAMI (be_mode B) (be_ami B) (Some sto) (bs_reg s5) = (Ok am, R)"
    using e(2) by (auto simp: onRegistry_def Let_def split: prod.splits)
  ultimately show ?thesis by auto
qed

text \<open>
  C22. A fresh node takes the identity the cloud gave it: when the certificate in the answers is one of
  the common name \<open>ns.n\<close>, a service that was activated and started has its authority and its document
  under that name. Its platform, though, is the one made for the activation, with a nil store.
\<close>

theorem fresh_node_identity:
  assumes "NewInitialize B C b address W st = Some (Ok am, st')" and "needsActivation C (bs_fs st)"
    and "distinct (certPaths (av_node C) @ (if av_mqttLink C then certPaths (av_mqtt C) else []))"
    and "\<And>L data res. L \<in> worlds W \<Longrightarrow> al_parse L data = Ok res \<Longrightarrow> ar_certificate res = cert"
    and "\<And>files. installed (av_node C) cert files \<Longrightarrow> be_tls B files = Ok (Some (Ok (ns @ ''.'' @ n)))"
    and "CHR ''.'' \<notin> set ns" and "ns \<noteq> []" and "n \<noteq> []"
  shows "caName (pkiOf B (bs_env st')) = ns @ ''.'' @ n \<and>
    nodeId (bs_env st') = ns @ ''.'' @ n @ ''.baetyl-edge-node'' \<and>
    (\<exists>R. NewAMI (be_mode B) (be_ami B) None (bs_reg st) = (Ok am, R))"
proof -
  obtain r st1 where am: "openActivation B st = (r, st1)" by (rule prod.exhaust)
  with assms(1,2) obtain i where r: "r = Ok i" by (cases r) (auto simp: NewInitialize_def)
  from am[unfolded r] obtain R where R: "NewAMI (be_mode B) (be_ami B) None (bs_reg st) = (Ok i, R)" "st1 = st\<lparr>bs_reg := R\<rparr>"
    by (auto simp: openActivation_def sbind_Ok_iff onRegistry_def Let_def split: prod.splits)
  from assms(1,2) am r obtain a where
    a: "awaitActivation C W (NewActivate C b address (bs_env st1) (bs_fs st1)) = Some a"
      "construct B (st1\<lparr>bs_env := ac_env a, bs_fs := ac_fs a\<rparr>) = (Ok am, st')"
    by (auto simp: NewInitialize_def split: option.splits)
  from awaitActivation_Some[OF a(1)] obtain L a0 where L: "L \<in> worlds W" "activate C L a0 = (None, a)" by blast
  from activate_None[OF L(2) assms(3)] obtain data res where "al_parse L data = Ok res"
    "installed (av_node C) (ar_certificate res) (ac_fs a)" by blast
  with assms(4)[OF L(1)] assms(5) have tls: "be_tls B (ac_fs a) = Ok (Some (Ok (ns @ ''.'' @ n)))" by metis
  from construct_keeps[OF a(2)] obtain u sto R' where
    k: "ExtractNodeInfo (be_tls B (ac_fs a)) (ac_env a) = (Ok u, bs_env st')"
      "NewAMI (be_mode B) (be_ami B) (Some sto) (bs_reg st1) = (Ok am, R')" by auto
  from ExtractNodeInfo_reads[OF assms(6-8), of "ac_env a"] k(1) tls
  have "getenv (bs_env st') ''BAETYL_NODE_NAMESPACE'' = ns" "getenv (bs_env st') ''BAETYL_NODE_NAME'' = n"
    by (auto simp: getenv_def)
  moreover have "am = i" using activation_keeps_nil_store[OF R(1), of sto] k(2) R(2) by simp
  ultimately show ?thesis using R(1) by (auto simp: caName_def pkiOf_def nodeId_def)
qed

section \<open>A node that starts\<close>

text \<open>A codec that knows one document, the one a fresh node starts with.\<close>

definition first_doc :: node_doc where
  "first_doc = \<lparr>nd_name = [], nd_desire = Some [], nd_report = Some [(''core'', JNull)]\<rparr>"

definition first_codec :: spec_ops where
  "first_codec =
     \<lparr>so_marshal = (\<lambda>n. if nd_desire n = Some [] \<and> nd_report n = Some [(''core'', JNull)] then Ok ''1'' else Err ''unknown''),
      so_unmarshal = (\<lambda>s. if s = ''1'' then Ok first_doc else Err ''unknown''),
      so_merge = (\<lambda>a b. Ok b), so_diff = (\<lambda>_ _. Ok []), so_patch = (\<lambda>a b. Ok b)\<rparr>"

lemma first_codec_ok: "codec_ok first_codec"
  by (auto simp: codec_ok_def first_codec_def first_doc_def)

definition edge_boot :: "(string option, (string, cert_pem) gomap, nat, unit, nat) boot_env" where
  "edge_boot =
     \<lparr>be_env = sample_env, be_os = good_os, be_pki = mem_pki,
      be_tls = (\<lambda>files. if mget files ''/c/crt'' = Some (File ''CRT'') then Ok (Some (Ok ''shop.edge'')) else Err ''no certificate''),
      be_storePath = ''/db/core.db'', be_open = Ok 7, be_bolt = (\<lambda>_. mem_bolt), be_spec = first_codec, be_coreInfo = JNull,
      be_link = Ok (), be_pubsub = Ok (), be_download = Ok (), be_hostPathLib = Ok ''/lib'',
      be_activeOptions = Ok (), be_activeCA = ''/c/root'', be_mode = ''kube'', be_ami = (),
      be_md5 = (\<lambda>s. s), be_certPath = ''/sys'', be_caFile = ''ca'', be_crtFile = ''crt'', be_keyFile = ''key''\<rparr>"

definition edge_blank :: "(string option, (string, cert_pem) gomap, nat, unit, nat, nat option) boot_state" where
  "edge_blank = \<lparr>bs_env = [], bs_fs = [(''/c/root'', File ''ROOT'')], bs_db = None, bs_pki = ([], 0), bs_reg = store_registry\<rparr>"

definition edge_batch :: batch where
  "edge_batch = \<lparr>bt_name = ''b'', bt_namespace = ''ns'', bt_securityType = [], bt_securityKey = [], bt_mode = []\<rparr>"

lemma edge_paths: "distinct (certPaths (systemPaths edge_boot))"
  by code_simp

lemma edge_activated: "fst (the (NewInitialize edge_boot edge_cfg edge_batch ''https://init'' (Attempts [edge_lib]) edge_blank)) = Ok None"
  by code_simp

lemma edge_boot_ok: "bolt_ok (be_bolt edge_boot n)" "codec_ok (be_spec edge_boot)" "cert_store_ok (be_pki edge_boot)"
  by (simp_all add: edge_boot_def mem_bolt_ok first_codec_ok mem_pki_ok)

definition edge_start_state :: "(string option, (string, cert_pem) gomap, nat, unit, nat, nat option) boot_state" where
  "edge_start_state = edge_blank\<lparr>bs_fs := [(''/c/crt'', File ''CRT'')]\<rparr>"

theorem construct_ready_witness:
  "\<exists>ca. GetCA (pkiOf edge_boot (bs_env (snd (construct edge_boot edge_start_state))))
       (bs_pki (snd (construct edge_boot edge_start_state))) = Ok ca \<and>
     mget (bs_fs (snd (construct edge_boot edge_start_state))) (Join [''/sys'', ''ca'']) = Some (File ca)"
proof -
  have "fst (construct edge_boot edge_start_state) = Ok (Some 7)" by code_simp
  then have "construct edge_boot edge_start_state = (Ok (Some 7), snd (construct edge_boot edge_start_state))"
    by (metis prod.collapse)
  from construct_ready[OF this edge_boot_ok edge_paths] obtain ca where
    "GetCA (pkiOf edge_boot (bs_env (snd (construct edge_boot edge_start_state))))
       (bs_pki (snd (construct edge_boot edge_start_state))) = Ok ca"
    "mget (bs_fs (snd (construct edge_boot edge_start_state))) (ct_ca (systemPaths edge_boot)) = Some (File ca)"
    unfolding installed_def by auto
  moreover have "ct_ca (systemPaths edge_boot) = Join [''/sys'', ''ca'']" by (simp add: systemPaths_def edge_boot_def)
  ultimately show ?thesis by auto
qed

theorem fresh_node_identity_witness:
  "\<exists>st'. NewInitialize edge_boot edge_cfg edge_batch ''https://init'' (Attempts [edge_lib]) edge_blank = Some (Ok None, st') \<and>
     caName (pkiOf edge_boot (bs_env st')) = ''shop.edge''"
proof -
  define run where "run = NewInitialize edge_boot edge_cfg edge_batch ''https://init'' (Attempts [edge_lib]) edge_blank"
  have "run \<noteq> None" unfolding run_def by code_simp
  moreover have "fst (the run) = Ok None" unfolding run_def by (rule edge_activated)
  ultimately obtain st' where st': "run = Some (Ok None, st')" by (cases run; cases "the run") auto
  have need: "needsActivation edge_cfg (bs_fs edge_blank)"
    and dis: "distinct (certPaths (av_node edge_cfg) @ (if av_mqttLink edge_cfg then certPaths (av_mqtt edge_cfg) else []))"
    by code_simp+
  have cert: "ar_certificate res = ar_certificate edge_response" if "L \<in> worlds (Attempts [edge_lib])" "al_parse L data = Ok res" for L data res
    using that by (simp add: worlds_def edge_lib_def)
  have tls: "be_tls edge_boot files = Ok (Some (Ok (''shop'' @ ''.'' @ ''edge'')))"
    if "installed (av_node edge_cfg) (ar_certificate edge_response) files" for files
    using that by (simp add: installed_def edge_boot_def edge_cfg_def edge_response_def)
  have "caName (pkiOf edge_boot (bs_env st')) = ''shop'' @ ''.'' @ ''edge''"
    using fresh_node_identity[OF st'[unfolded run_def] need dis cert tls] by simp
  with st' show ?thesis by (simp add: run_def)
qed

end
