(* ===== verification/Remote.thy ===== *)
theory Remote
  imports Kube Native Engine_Handler
begin

text \<open>
  The remote sessions of the platforms: the websocket session (\<^verbatim>\<open>ami/ami.go\<close>), the shell over ssh and
  the log of the native platform (\<^verbatim>\<open>ami/native/native.go\<close>, \<^verbatim>\<open>native_log.go\<close>), the exec, log stream and
  clients of the Kubernetes platform (\<^verbatim>\<open>ami/kube/kube_exec.go\<close>, \<^verbatim>\<open>kube_client.go\<close>), and calls to an
  application over HTTP (\<^verbatim>\<open>kube_rpc.go\<close>, \<^verbatim>\<open>native.go\<close>). Go's pipes are modelled by what their readers
  get; ssh, the websocket dialer, the commands and the API server are arguments.
\<close>

section \<open>Pipes\<close>

text \<open>
  \<^verbatim>\<open>io.Pipe\<close> of the standard library: a write is consumed by as many reads as it needs, at least by
  one; when the writer is closed, the reader gets an end of file.
\<close>

function chunks :: "nat \<Rightarrow> string \<Rightarrow> string list" where
  "chunks n b = (if n = 0 \<or> length b \<le> n then [b] else take n b # chunks n (drop n b))"
  by pat_completeness auto
termination by (relation "measure (\<lambda>(n, b). length b)") auto

declare chunks.simps [simp del]

definition pipeReads :: "nat \<Rightarrow> string list \<Rightarrow> bool \<Rightarrow> string result list" where
  "pipeReads n ws closed = map Ok (concat (map (chunks n) ws)) @ (if closed then [Err ''EOF''] else [])"

lemma chunks_small: "length b \<le> n \<Longrightarrow> chunks n b = [b]"
  by (subst chunks.simps) simp

lemma concat_chunks: "concat (chunks n b) = b"
proof (induction n b rule: chunks.induct)
  case (1 n b)
  then show ?case by (subst chunks.simps) simp
qed

lemma chunks_length: "0 < n \<Longrightarrow> c \<in> set (chunks n b) \<Longrightarrow> length c \<le> n"
proof (induction n b rule: chunks.induct)
  case (1 n b)
  from "1.prems" have "if length b \<le> n then c = b else c = take n b \<or> c \<in> set (chunks n (drop n b))"
    by (subst (asm) chunks.simps) (simp split: if_splits)
  with 1 show ?case by (simp split: if_splits) (metis length_take min.cobounded2 not_le)
qed

lemma concat_pipe: "concat (concat (map (chunks n) ws)) = concat ws"
  by (induction ws) (simp_all add: concat_chunks)

text \<open>\<^verbatim>\<open>utils.ReadBuff\<close>\<close>

definition ReadBuff :: nat where
  "ReadBuff = 100 * 1024"

section \<open>Websocket sessions\<close>

text \<open>
  \<open>wl_dial\<close> gets host and path, \<open>wl_write\<close> the messages written before. A frame read from the
  websocket is an error, a close message or data.
\<close>

record ws_lib =
  wl_dial :: "string \<Rightarrow> string \<Rightarrow> string option"
  wl_write :: "string list \<Rightarrow> string \<Rightarrow> string option"

datatype ws_frame = WsError string | WsClose | WsData string

text \<open>The goroutine that reads the websocket: what it writes into the session's output.\<close>

fun wsReceive :: "(string list \<Rightarrow> string \<Rightarrow> string option) \<Rightarrow> ws_frame list \<Rightarrow> string list \<Rightarrow> string list" where
  "wsReceive write [] ws = ws"
| "wsReceive write (WsError _ # fs) ws = ws"
| "wsReceive write (WsClose # fs) ws = ws"
| "wsReceive write (WsData r # fs) ws =
     (case write ws r of Some _ \<Rightarrow> ws | None \<Rightarrow> wsReceive write fs (ws @ [r]))"

text \<open>The loop over the session's input. \<open>None\<close>: it waits for more.\<close>

fun wsSend :: "ws_lib \<Rightarrow> string result list \<Rightarrow> string list \<Rightarrow> unit result option \<times> string list" where
  "wsSend L [] sent = (None, sent)"
| "wsSend L (Ok dt # rs) sent =
     (case wl_write L sent dt of None \<Rightarrow> wsSend L rs (sent @ [dt]) | Some _ \<Rightarrow> wsSend L rs sent)"
| "wsSend L (Err _ # rs) sent = (Some (Ok ()), sent)"
| "wsSend L (Panic p # rs) sent = (Some (Panic p), sent)"

text \<open>The messages sent, and those received and written to the output.\<close>

definition RemoteWebsocket :: "ws_lib \<Rightarrow> (string list \<Rightarrow> string \<Rightarrow> string option) \<Rightarrow> chain \<Rightarrow> ws_frame list \<Rightarrow>
    string result list \<Rightarrow> unit result option \<times> string list \<times> string list" where
  "RemoteWebsocket L write c frames rs =
     (case wl_dial L (ch_host c) (ch_path c) of
        Some e \<Rightarrow> (Some (Err e), [], [])
      | None \<Rightarrow> let (r, sent) = wsSend L rs [] in (r, sent, wsReceive write frames []))"

section \<open>Shell sessions over ssh\<close>

datatype ssh_event = OpenConn string | OpenSession | RequestPty | StartShell | WaitShell | CloseSession | CloseConn

record ssh_lib =
  sh_dial :: "string \<Rightarrow> string \<Rightarrow> string \<Rightarrow> string option"    \<comment> \<open>user, password, address\<close>
  sh_session :: "string option"
  sh_pty :: "string option"
  sh_shell :: "string option"
  sh_wait :: "string option"

text \<open>One call of the ssh library: recorded when it succeeds.\<close>

definition sshCall :: "string option \<Rightarrow> ssh_event \<Rightarrow> ssh_event list \<Rightarrow> unit result \<times> ssh_event list" where
  "sshCall answer e tr = (case answer of None \<Rightarrow> (Ok (), tr @ [e]) | Some err \<Rightarrow> (Err err, tr))"

text \<open>\<^verbatim>\<open>defer x.Close()\<close>\<close>

definition closing :: "ssh_event \<Rightarrow> unit result \<times> ssh_event list \<Rightarrow> unit result \<times> ssh_event list" where
  "closing e rt = (fst rt, snd rt @ [e])"

definition native_RemoteCommand :: "ssh_lib \<Rightarrow> chain \<Rightarrow> string \<Rightarrow> ssh_event list \<Rightarrow> unit result \<times> ssh_event list" where
  "native_RemoteCommand L c ip tr =
     (let server = ip @ '':'' @ ch_port c
      in sbind (sshCall (sh_dial L (ch_user c) (ch_password c) server) (OpenConn server) tr) (\<lambda>_ tr. closing CloseConn (
         sbind (sshCall (sh_session L) OpenSession tr) (\<lambda>_ tr. closing CloseSession (
         sbind (sshCall (sh_pty L) RequestPty tr) (\<lambda>_ tr.
         sbind (sshCall (sh_shell L) StartShell tr) (\<lambda>_ tr.
         (Ok (), snd (sshCall (sh_wait L) WaitShell tr)))))))))"

section \<open>Logs of the native platform\<close>

record tail_lib =
  tl_pipe :: "string option"
  tl_start :: "string list \<Rightarrow> string option"
  tl_copy :: "string option"
  tl_wait :: "string option"

definition CmdKillErr :: string where "CmdKillErr = ''signal: killed''"

definition tailArgs :: "int \<Rightarrow> string \<Rightarrow> string list" where
  "tailArgs n path = [''-n'', dec n, ''-f'', path]"

definition followTail :: "tail_lib \<Rightarrow> int \<Rightarrow> string \<Rightarrow> unit result" where
  "followTail L n path =
     (case tl_pipe L of Some e \<Rightarrow> Err e | None \<Rightarrow>
      case tl_start L (tailArgs n path) of Some e \<Rightarrow> Err e | None \<Rightarrow>
      case tl_copy L of Some e \<Rightarrow> Err e | None \<Rightarrow>
      case tl_wait L of Some e \<Rightarrow> if e = CmdKillErr then Ok () else Err e | None \<Rightarrow> Ok ())"

text \<open>The file of the log on Windows, followed line by line: each event is what the loop meets next.\<close>

datatype follow_event = Cancelled | NoLine | Line string

fun followLines :: "(string list \<Rightarrow> string \<Rightarrow> string option) \<Rightarrow> follow_event list \<Rightarrow> string list \<Rightarrow>
    unit result option \<times> string list" where
  "followLines write [] ws = (None, ws)"
| "followLines write (Cancelled # es) ws = (Some (Ok ()), ws)"
| "followLines write (NoLine # es) ws = followLines write es ws"
| "followLines write (Line d # es) ws =
     (case write ws (d @ [char_of (10::nat)]) of
        Some e \<Rightarrow> (Some (Err e), ws) | None \<Rightarrow> followLines write es (ws @ [d @ [char_of (10::nat)]]))"

text \<open>\<open>lines\<close> are the events after seeking to an offset of the file; \<open>None\<close>: it cannot be opened.\<close>

definition getLogForWindows :: "(string \<Rightarrow> string option) \<Rightarrow> (nat \<Rightarrow> follow_event list) \<Rightarrow>
    (string list \<Rightarrow> string \<Rightarrow> string option) \<Rightarrow> string \<Rightarrow> int \<Rightarrow> unit result option \<times> string list" where
  "getLogForWindows open lines write path n =
     (case open path of
        None \<Rightarrow> (Some (Err ''open''), [])
      | Some content \<Rightarrow> followLines write (lines (seekLastN content n)) [])"

text \<open>
  The log on Windows: one read of a buffer of 10240 bytes after seeking, and the whole buffer is the
  answer, the bytes that were not read being zero.
\<close>

definition fetchLogForWindows :: "(string \<Rightarrow> string option) \<Rightarrow> string \<Rightarrow> int \<Rightarrow> string result" where
  "fetchLogForWindows open path n =
     (case open path of
        None \<Rightarrow> Err ''open''
      | Some content \<Rightarrow>
          let rest = drop (seekLastN content n) content
          in if rest = [] then Err ''EOF'' else Ok (take 10240 rest @ replicate (10240 - length rest) (char_of (0::nat))))"

text \<open>The answer always has the size of the buffer: padded, or without the newest lines.\<close>

lemma windows_log_size: "fetchLogForWindows open path n = Ok s \<Longrightarrow> length s = 10240"
  by (auto simp: fetchLogForWindows_def Let_def split: option.splits if_splits)

record logs_request =
  lr_namespace :: string
  lr_name :: string
  lr_container :: string
  lr_sinceSeconds :: "int option"
  lr_tailLines :: "int option"
  lr_limitBytes :: "int option"
  lr_follow :: bool
  lr_previous :: bool
  lr_timestamps :: bool

definition native_RemoteLogs :: "native_env \<Rightarrow> tail_lib \<Rightarrow> (string \<Rightarrow> int \<Rightarrow> unit result option) \<Rightarrow> logs_request \<Rightarrow>
    unit result option" where
  "native_RemoteLogs NE L win req =
     (case native_logPath NE (lr_name req) of
        Ok path \<Rightarrow>
          let n = (case lr_tailLines req of Some n \<Rightarrow> n | None \<Rightarrow> 200)
          in if ne_windows NE then win path n else Some (followTail L n path)
      | Err e \<Rightarrow> Some (Err e)
      | Panic p \<Rightarrow> Some (Panic p))"

section \<open>Sessions on Kubernetes\<close>

record exec_options =
  eo_command :: "string list"
  eo_stdin :: bool
  eo_stdout :: bool
  eo_stderr :: bool
  eo_tty :: bool
  eo_container :: string

record exec_lib =
  el_new :: "string \<Rightarrow> string \<Rightarrow> exec_options \<Rightarrow> string option"      \<comment> \<open>namespace, pod\<close>
  el_stream :: "string option"
  el_logs :: "string \<Rightarrow> string \<Rightarrow> log_options \<Rightarrow> int option \<Rightarrow> string option"
  el_copy :: "string option"

text \<open>The command of a chain, and whether its pipe has both ends.\<close>

definition shellCommand :: "string list" where
  "shellCommand = [''sh'', ''-c'', ''/bin/sh'']"

definition kube_RemoteCommand :: "exec_lib \<Rightarrow> chain \<Rightarrow> bool \<Rightarrow> bool \<Rightarrow> unit result" where
  "kube_RemoteCommand L c reader writer =
     (let opt = \<lparr>eo_command = shellCommand, eo_stdin = reader, eo_stdout = writer, eo_stderr = writer, eo_tty = True,
        eo_container = (if ch_container c \<noteq> [] then ch_container c else [])\<rparr>
      in case el_new L (ch_namespace c) (ch_name c) opt of Some e \<Rightarrow> Err e | None \<Rightarrow>
         case el_stream L of Some e \<Rightarrow> Err e | None \<Rightarrow> Ok ())"

definition podLogOptions :: "logs_request \<Rightarrow> log_options \<times> int option" where
  "podLogOptions req =
     (\<lparr>lo_container = (if lr_container req \<noteq> [] then lr_container req else []), lo_follow = lr_follow req,
       lo_previous = lr_previous req, lo_timestamps = lr_timestamps req, lo_tailLines = lr_tailLines req,
       lo_sinceSeconds = lr_sinceSeconds req\<rparr>,
      (case lr_limitBytes req of Some n \<Rightarrow> if 0 < n then Some n else None | None \<Rightarrow> None))"

definition kube_RemoteLogs :: "exec_lib \<Rightarrow> logs_request \<Rightarrow> unit result" where
  "kube_RemoteLogs L req =
     (let (opt, limit) = podLogOptions req
      in case el_logs L (lr_namespace req) (lr_name req) opt limit of Some e \<Rightarrow> Err e | None \<Rightarrow>
         case el_copy L of Some e \<Rightarrow> Err e | None \<Rightarrow> Ok ())"

text \<open>The clients of the platform: a failing dynamic client is a panic.\<close>

record 'k client_lib =
  cb_inCluster :: "'k result"
  cb_fromFile :: "string \<Rightarrow> 'k result"
  cb_kube :: "'k \<Rightarrow> unit result"
  cb_metrics :: "'k \<Rightarrow> unit result"
  cb_dynamic :: "'k \<Rightarrow> unit result"
  cb_helm :: "string \<Rightarrow> unit result"

definition newClient :: "'k client_lib \<Rightarrow> bool \<Rightarrow> string \<Rightarrow> 'k result" where
  "newClient L outCluster confPath =
     rbind (if \<not> outCluster then cb_inCluster L else cb_fromFile L confPath) (\<lambda>cfg.
     rbind (cb_kube L cfg) (\<lambda>_.
     rbind (cb_metrics L cfg) (\<lambda>_.
     case cb_dynamic L cfg of Ok _ \<Rightarrow> Ok cfg | Err e \<Rightarrow> Panic e | Panic p \<Rightarrow> Panic p)))"

definition newKubeImpl :: "'k client_lib \<Rightarrow> bool \<Rightarrow> string \<Rightarrow> (string, string) gomap \<Rightarrow> 's \<Rightarrow> ('k \<times> string \<times> 's) result" where
  "newKubeImpl L outCluster confPath envs sto =
     rbind (newClient L outCluster confPath) (\<lambda>cli.
     rbind (cb_helm L (case mget envs ''HELM_DRIVER'' of Some d \<Rightarrow> d | None \<Rightarrow> [])) (\<lambda>_.
     Ok (cli, (case mget envs ''KUBE_NODE_NAME'' of Some n \<Rightarrow> n | None \<Rightarrow> []), sto)))"

section \<open>Calls to an application\<close>

definition toUpper :: "string \<Rightarrow> string" where
  "toUpper s = map (\<lambda>c. if CHR ''a'' \<le> c \<and> c \<le> CHR ''z'' then char_of (of_char c - 32 :: nat) else c) s"

record rpc_call =
  rc_method :: string
  rc_params :: string
  rc_body :: "json option"
  rc_header :: "(string, string) gomap"

record rpc_response =
  rs_status :: nat
  rs_header :: "(string, string) gomap"
  rs_body :: string

text \<open>\<open>rl_send\<close> is the HTTP client, the body of its response already handled; \<open>rl_text\<close> formats a body.\<close>

record rpc_lib =
  rl_send :: "string \<Rightarrow> string \<Rightarrow> string \<Rightarrow> (string, string) gomap \<Rightarrow> (nat \<times> (string, string) gomap \<times> string result) result"
  rl_text :: "json \<Rightarrow> string"

definition kube_RPCApp :: "rpc_lib \<Rightarrow> string \<Rightarrow> rpc_call \<Rightarrow> rpc_response result" where
  "kube_RPCApp R url req =
     (let buf = (case rc_body req of Some b \<Rightarrow> rl_text R b | None \<Rightarrow> [])
      in rbind (rl_send R (toUpper (rc_method req)) url buf (rc_header req)) (\<lambda>(code, header, body).
         rbind body (\<lambda>b. Ok \<lparr>rs_status = code, rs_header = header, rs_body = b\<rparr>)))"

definition native_RPCApp :: "rpc_lib \<Rightarrow> string \<Rightarrow> rpc_call \<Rightarrow> rpc_response result" where
  "native_RPCApp R url req =
     (let url = rpcUrl url (rc_params req);
          buf = (case rc_body req of Some b \<Rightarrow> rl_text R b | None \<Rightarrow> [])
      in rbind (rl_send R (toUpper (rc_method req)) url buf (rc_header req)) (\<lambda>(code, header, body).
         rbind body (\<lambda>b. Ok \<lparr>rs_status = code, rs_header = header, rs_body = b\<rparr>)))"

text \<open>
  The two platforms differ in the address only; the parameters follow the local address directly, so
  ones that start with an at sign turn it into a user name and the call leaves the node.
\<close>

lemma native_rpc_is_kube: "native_RPCApp R url req = kube_RPCApp R (rpcUrl url (rc_params req)) req"
  by (simp add: native_RPCApp_def kube_RPCApp_def Let_def)

lemma native_rpc_leaves_host: "rpcUrl ''http://app'' (CHR ''@'' # h) = ''http://0.0.0.0@'' @ h"
  by (simp add: rpcUrl_def hasPrefix_def)

section \<open>What is opened is closed\<close>

text \<open>A trace in which every open resource is closed in the reverse order, and nothing is used unopened.\<close>

fun balanced :: "ssh_event list \<Rightarrow> ssh_event list \<Rightarrow> bool" where
  "balanced open [] \<longleftrightarrow> open = []"
| "balanced open (OpenConn s # tr) \<longleftrightarrow> balanced (CloseConn # open) tr"
| "balanced open (OpenSession # tr) \<longleftrightarrow> open = [CloseConn] \<and> balanced (CloseSession # open) tr"
| "balanced open (CloseConn # tr) \<longleftrightarrow> open \<noteq> [] \<and> hd open = CloseConn \<and> balanced (tl open) tr"
| "balanced open (CloseSession # tr) \<longleftrightarrow> open \<noteq> [] \<and> hd open = CloseSession \<and> balanced (tl open) tr"
| "balanced open (_ # tr) \<longleftrightarrow> open \<noteq> [] \<and> hd open = CloseSession \<and> balanced open tr"

text \<open>
  C33. A shell session of the native platform leaves nothing open: whatever call of the ssh library
  fails, the session and the connection that were opened are closed, the session first, and none is
  used after that; the session succeeds exactly when it could be set up, however it ended.
\<close>

theorem ssh_session_closed:
  "balanced [] (snd (native_RemoteCommand L c ip [])) \<and>
   is_ok (fst (native_RemoteCommand L c ip [])) =
     (sh_dial L (ch_user c) (ch_password c) (ip @ '':'' @ ch_port c) = None \<and> sh_session L = None \<and> sh_pty L = None \<and>
      sh_shell L = None)"
  by (cases "sh_dial L (ch_user c) (ch_password c) (ip @ '':'' @ ch_port c)"; cases "sh_session L"; cases "sh_pty L";
      cases "sh_shell L"; cases "sh_wait L")
    (simp_all add: native_RemoteCommand_def sshCall_def closing_def)

text \<open>
  The call that serves a websocket ends with the input of the session, not with the websocket: when
  the other side closes it, the call goes on waiting.
\<close>

lemma wsSend_waits: "(\<And>x. x \<in> set rs \<Longrightarrow> is_ok x) \<Longrightarrow> fst (wsSend L rs sent) = None"
proof (induction L rs sent rule: wsSend.induct)
  case (2 L dt rs sent)
  then show ?case by (cases "wl_write L sent dt") auto
next
  case (3 L e rs sent)
  then show ?case by (metis is_ok.simps(2) list.set_intros(1))
next
  case (4 L p rs sent)
  then show ?case by (metis is_ok.simps(3) list.set_intros(1))
qed simp

lemma websocket_outlives_peer:
  assumes "wl_dial L (ch_host c) (ch_path c) = None"
  shows "fst (RemoteWebsocket L write c (frames @ [WsClose]) (pipeReads ReadBuff ws False)) = None"
proof -
  have "fst (wsSend L (pipeReads ReadBuff ws False) []) = None"
    by (rule wsSend_waits) (auto simp: pipeReads_def)
  then show ?thesis using assms by (simp add: RemoteWebsocket_def split_beta Let_def)
qed

end
