(* ===== verification/Session.thy ===== *)
theory Session
  imports Remote
begin

text \<open>
  The goroutines of a remote session (\<^verbatim>\<open>chain/debug.go\<close>, \<^verbatim>\<open>view_logs.go\<close> and the reading loop of
  \<^verbatim>\<open>chain.go\<close>) beside the downside handler: they read the session's output, and end with the call of
  the platform that serves the session.
\<close>

section \<open>The goroutines\<close>

definition outputMsg :: "chain \<Rightarrow> string \<Rightarrow> message" where
  "outputMsg c dt = \<lparr>m_kind = MessageData, m_meta = [(''success'', ''true''), (''msg'', ''ok''), (''token'', ch_token c)],
     m_content = Wire dt\<rparr>"

text \<open>The loop over the session's output. \<open>None\<close>: it waits for more.\<close>

fun chainReading :: "handler_ops \<Rightarrow> chain \<Rightarrow> string result list \<Rightarrow> handler_state \<Rightarrow> unit result option \<times> handler_state" where
  "chainReading H c [] st = (None, st)"
| "chainReading H c (Ok dt # rs) st = chainReading H c rs (pubLogged H TopicUpside (outputMsg c dt) st)"
| "chainReading H c (Err e # rs) st = (Some (Err e), st)"
| "chainReading H c (Panic p # rs) st = (Some (Panic p), st)"

text \<open>What the calls of the platform that serve a session return.\<close>

record remote_ops =
  ro_websocket :: "chain \<Rightarrow> unit result"
  ro_command :: "chain \<Rightarrow> unit result"
  ro_logs :: "logs_request \<Rightarrow> unit result"

definition disconnected :: "chain \<Rightarrow> message" where
  "disconnected c = \<lparr>m_kind = MessageCMD, m_meta = [(''success'', ''false''), (''msg'', ''disconnect''), (''token'', ch_token c)],
     m_content = NoContent\<rparr>"

definition connecting :: "handler_ops \<Rightarrow> remote_ops \<Rightarrow> chain \<Rightarrow> handler_state \<Rightarrow> unit result \<times> handler_state" where
  "connecting H R c st =
     (let r = (if ch_host c \<noteq> [] then ro_websocket R c else ro_command R c);
          st = (case r of Err e \<Rightarrow> snd (chain_Close H c st) | _ \<Rightarrow> st)
      in (r, pubLogged H TopicUpside (disconnected c) st))"

definition logging :: "remote_ops \<Rightarrow> logs_request \<Rightarrow> chain \<Rightarrow> handler_state \<Rightarrow> unit result \<times> handler_state" where
  "logging R opt c st =
     (ro_logs R (opt\<lparr>lr_name := ch_name c, lr_namespace := ch_namespace c, lr_container := ch_container c\<rparr>), st)"

section \<open>The relay\<close>

text \<open>The data of a session that was published to the cloud.\<close>

definition contentOf :: "message \<Rightarrow> string" where
  "contentOf m = (case m_content m of Wire w \<Rightarrow> w | _ \<Rightarrow> [])"

definition debugTexts :: "string \<Rightarrow> (string \<times> message) list \<Rightarrow> string list" where
  "debugTexts token out = map (contentOf \<circ> snd)
     (filter (\<lambda>tm. fst tm = TopicUpside \<and> m_kind (snd tm) = MessageData \<and> mget (m_meta (snd tm)) ''success'' = Some ''true'' \<and>
        mget (m_meta (snd tm)) ''token'' = Some token) out)"

lemma debugTexts_append [simp]: "debugTexts t (xs @ ys) = debugTexts t xs @ debugTexts t ys"
  by (simp add: debugTexts_def)

lemma debugTexts_output [simp]: "debugTexts (ch_token c) [(TopicUpside, outputMsg c dt)] = [dt]"
  by (simp add: debugTexts_def outputMsg_def contentOf_def)

lemma chainReading_publishes:
  "chainReading H c (map Ok ds @ [Err e]) st =
     (Some (Err e), snd (chainReading H c (map Ok ds @ [Err e]) st)) \<and>
   hs_out (snd (chainReading H c (map Ok ds @ [Err e]) st)) = hs_out st @ map (\<lambda>d. (TopicUpside, outputMsg c d)) ds"
  by (induction ds arbitrary: st) (simp_all add: pubLogged_def pubMsg_def)

lemma debugTexts_outputs: "debugTexts (ch_token c) (map (\<lambda>d. (TopicUpside, outputMsg c d)) ds) = ds"
  by (induction ds) (simp_all add: debugTexts_def outputMsg_def contentOf_def)

lemma wsSend_all:
  "(\<And>ws d. wl_write L ws d = None) \<Longrightarrow> wsSend L (map Ok ds @ [Err e]) sent = (Some (Ok ()), sent @ ds)"
  by (induction ds arbitrary: sent) simp_all

lemma wsReceive_all: "wsReceive (\<lambda>_ _. None) (map WsData fs) ws = ws @ fs"
  by (induction fs arbitrary: ws) simp_all

text \<open>
  C32. A websocket session relays both ways, complete and in order: while the websocket accepts what is
  sent, what the cloud wrote into the session is what the websocket gets, in messages of at most 100
  KiB, and what the websocket sent is what is published to the cloud under the session's token, after
  what was published before.
\<close>

theorem websocket_relays:
  assumes "wl_dial L (ch_host c) (ch_path c) = None" and "\<And>ws d. wl_write L ws d = None"
    and "RemoteWebsocket L (\<lambda>_ _. None) c (map WsData fs) (pipeReads ReadBuff ins True) = (r, sent, received)"
  shows "r = Some (Ok ()) \<and> concat sent = concat ins \<and> (\<forall>d \<in> set sent. length d \<le> ReadBuff) \<and>
    (\<exists>ds. debugTexts (ch_token c) (hs_out (snd (chainReading H c (pipeReads ReadBuff received True) st))) =
       debugTexts (ch_token c) (hs_out st) @ ds \<and> concat ds = concat fs \<and> (\<forall>d \<in> set ds. length d \<le> ReadBuff))"
proof -
  have run: "r = Some (Ok ())" "sent = concat (map (chunks ReadBuff) ins)" "received = fs"
    using assms(1,3) by (simp_all add: RemoteWebsocket_def pipeReads_def wsSend_all[OF assms(2)] wsReceive_all)
  have small: "length d \<le> ReadBuff" if "d \<in> set (concat (map (chunks ReadBuff) ws))" for d ws
    using that by (auto intro: chunks_length simp: ReadBuff_def)
  show ?thesis
    using run small chainReading_publishes[of H c "concat (map (chunks ReadBuff) fs)" "''EOF''" st]
    by (auto simp: pipeReads_def debugTexts_outputs concat_pipe)
qed

section \<open>Sessions that end beside the handler\<close>

definition reported :: "handler_state \<Rightarrow> chain set" where
  "reported st = {c. (TopicUpside, disconnected c) \<in> set (hs_out st)}"

text \<open>
  The steps of the handler, of the loops that read output, and the end of a session of the table that
  has not ended before: by the call of the platform, or by the timeout of its messages.
\<close>

inductive session_step :: "env \<Rightarrow> handler_ops \<Rightarrow> handler_state \<Rightarrow> handler_state \<Rightarrow> bool" for E H where
  message: "session_step E H st (snd (handler_OnMessage E H m st))"
| timeout: "session_step E H st (snd (handler_OnTimeout H st))"
| reading: "session_step E H st (snd (chainReading H c rs st))"
| ended: "mget (hs_chains st) k = Some c \<Longrightarrow> ch_downside c \<in> set (hs_subs st) \<Longrightarrow>
    session_step E H st (snd (connecting H R c st))"
| idle: "mget (hs_chains st) k = Some c \<Longrightarrow> session_step E H st (snd (chain_OnTimeout H c st))"

text \<open>Nothing handed to the bus is taken back.\<close>

definition keepsOut :: "handler_state \<Rightarrow> handler_state \<Rightarrow> bool" where
  "keepsOut st st' \<longleftrightarrow> set (hs_out st) \<subseteq> set (hs_out st')"

lemma keepsOut_refl [simp]: "keepsOut st st"
  by (simp add: keepsOut_def)

lemma keepsOut_trans: "keepsOut st st1 \<Longrightarrow> keepsOut st1 st2 \<Longrightarrow> keepsOut st st2"
  by (auto simp: keepsOut_def)

lemma keepsOut_pub [simp]:
  "keepsOut st (snd (pubMsg H t m st))" "keepsOut st (pubLogged H t m st)" "keepsOut st (snd (failReply H e r m st))"
  "keepsOut st (publishSuccessMsg H m st)" "keepsOut st (sendExit H k st)"
  by (auto simp: keepsOut_def pubMsg_def pubLogged_def failReply_def publishFailedMsg_def publishSuccessMsg_def sendExit_def)

lemma keepsOut_tables [simp]:
  "keepsOut st (st'\<lparr>hs_chains := cs\<rparr>) = keepsOut st st'" "keepsOut st (st'\<lparr>hs_subs := ss\<rparr>) = keepsOut st st'"
  by (simp_all add: keepsOut_def)

lemma keepsOut_close [simp]: "keepsOut st (snd (chain_Close H c st))" "keepsOut st (closeOld H key st)"
  by (simp_all add: chain_Close_def closeOld_def Let_def split: option.split)

lemma keepsOut_orFail:
  assumes "\<And>x. r = Ok x \<Longrightarrow> keepsOut st (snd (k x st))"
  shows "keepsOut st (snd (orFail H m r st k))"
  using assms by (cases r) simp_all

lemma keepsOut_open [simp]: "keepsOut st (snd (openChain E H key m b st))"
proof -
  have new: "keepsOut st (snd (NewChain E H (m_meta m) b st))"
    by (cases "chainOf E (m_meta m) b") (simp_all add: NewChain_def split: option.split)
  show ?thesis
    using new keepsOut_trans[OF new keepsOut_pub(3)]
    by (auto simp: openChain_def split: prod.splits result.split option.split)
qed

lemma keepsOut_disconnect: "keepsOut st (snd (disconnect H key m st))"
  using keepsOut_trans[OF keepsOut_pub(5) keepsOut_close(1)]
  by (auto simp: disconnect_def chain_Close_def Let_def split: option.split)

lemma keepsOut_command: "keepsOut st (snd (runCommand E H cmd m st))"
proof (cases cmd)
  case Connect
  then show ?thesis using keepsOut_trans[OF keepsOut_close(2) keepsOut_open] by (simp add: runCommand_def connect_def)
next
  case Logs
  have "keepsOut (closeOld H (msgKey m) st) (snd (viewLogs E H (msgKey m) m st))"
    unfolding viewLogs_def Let_def by (rule keepsOut_orFail) simp
  with Logs show ?thesis using keepsOut_trans[OF keepsOut_close(2)] by (simp add: runCommand_def)
next
  case Disconnect
  then show ?thesis by (simp add: runCommand_def keepsOut_disconnect)
next
  case RPCMqtt
  have "keepsOut st (snd (rpcMqtt H m st))"
    unfolding rpcMqtt_def split_beta Let_def by (rule keepsOut_trans[OF keepsOut_pub(1) keepsOut_orFail]) simp
  with RPCMqtt show ?thesis by (simp add: runCommand_def)
next
  case MultiNodeLabels
  then show ?thesis by (cases "ho_multiLabels H (m_content m)") (simp_all add: runCommand_def labelMultiNodes_def Let_def)
qed (simp_all add: runCommand_def nodeLabel_def rpc_def agentControl_def describe_def keepsOut_orFail split: option.split)

lemma keepsOut_handler: "keepsOut st (snd (handler_OnMessage E H m st))"
  using keepsOut_command[of st E H _ m]
  by (auto simp: handler_OnMessage_def pubMsg_def failReply_def publishFailedMsg_def pubLogged_def keepsOut_def subset_iff
      split: msg_kind.split option.split)

lemma keepsOut_reading: "keepsOut st (snd (chainReading H c rs st)) \<and> hs_chains (snd (chainReading H c rs st)) = hs_chains st \<and>
    hs_subs (snd (chainReading H c rs st)) = hs_subs st"
proof (induction H c rs st rule: chainReading.induct)
  case (2 H c dt rs st)
  then show ?case by (auto intro: keepsOut_trans[OF keepsOut_pub(2)])
qed simp_all

lemma reported_mono: "keepsOut st st' \<Longrightarrow> reported st \<subseteq> reported st'"
  by (auto simp: reported_def keepsOut_def)

lemma session_step_inv:
  assumes "session_step E H st st'" and "tableInv (reported st) st"
  shows "tableInv (reported st') st'"
  using assms(1)
proof cases
  case (message m)
  with reported_mono[OF keepsOut_handler] show ?thesis
    using tableInv_mono[OF handler_inv[OF assms(2)]] by simp
next
  case timeout
  then show ?thesis using assms(2) tableInv_mono[OF _ reported_mono[OF keepsOut_pub(1)]]
    by (simp add: handler_OnTimeout_def tableInv_def)
next
  case (reading c rs)
  then show ?thesis using assms(2) reported_mono[of st st'] keepsOut_reading[of st H c rs] by (auto simp: tableInv_def)
next
  case (ended k c R)
  have out: "(TopicUpside, disconnected c) \<in> set (hs_out st')" "keepsOut st st'" "hs_chains st' = hs_chains st"
    and subs: "\<And>t. t \<noteq> ch_downside c \<Longrightarrow> t \<in> set (hs_subs st) \<Longrightarrow> t \<in> set (hs_subs st')"
    using ended(1) by (auto simp: connecting_def chain_Close_def Let_def pubLogged_def pubMsg_def keepsOut_def
        split: result.split option.split)
  show ?thesis
    unfolding tableInv_def
  proof (intro allI impI)
    fix k' c' assume e: "mget (hs_chains st') k' = Some c'"
    show "ch_downside c' = downTopic k' \<and> (downTopic k' \<in> set (hs_subs st') \<or> c' \<in> reported st')"
    proof (cases "k' = k")
      case True
      with e ended(2) out(1,3) tableInvD[OF assms(2)] show ?thesis by (auto simp: reported_def)
    next
      case False
      moreover have "ch_downside c = downTopic k" using tableInvD[OF assms(2) ended(2)] by simp
      ultimately show ?thesis
        using tableInvD[OF assms(2), of k' c'] e out(3) subs[of "downTopic k'"] reported_mono[OF out(2)] by auto
    qed
  qed
next
  case (idle k c)
  then show ?thesis using assms(2) by (auto simp: chain_OnTimeout_def tableInv_def reported_def pubLogged_def pubMsg_def)
qed

lemma session_steps_inv:
  assumes "(session_step E H)\<^sup>*\<^sup>* st st'" and "hs_chains st = []"
  shows "tableInv (reported st') st'"
proof -
  have "tableInv (reported st) st" using assms(2) by (simp add: tableInv_def)
  with assms(1) show ?thesis by (induction rule: rtranclp_induct) (auto intro: session_step_inv)
qed

text \<open>
  C11. Whatever order the messages of the cloud, the output of sessions, their ends and their timeouts
  come in: every chain of the table listens on its topic, or the cloud was told with its token that it
  is disconnected.
\<close>

theorem sessions_listen_or_reported:
  assumes "(session_step E H)\<^sup>*\<^sup>* st st'" and "hs_chains st = []" and "mget (hs_chains st') k = Some c"
  shows "ch_downside c = downTopic k \<and>
    (downTopic k \<in> set (hs_subs st') \<or> (TopicUpside, disconnected c) \<in> set (hs_out st'))"
  using tableInvD[OF session_steps_inv[OF assms(1,2)] assms(3)] by (simp add: reported_def)

text \<open>
  C10. Whatever order the messages of the cloud, the output of sessions, their ends and their timeouts
  come in: a data message for a chain of the table that the bus takes is published to exactly the topic
  that chain subscribed to when it was created. The subscription is still there, unless the chain's
  session has ended and the message of its end was handed to the bus before.
\<close>

theorem data_reaches_chain:
  assumes "(session_step E H)\<^sup>*\<^sup>* st0 st" and "hs_chains st0 = []"
    and "e_svcName E = e_core E" and "m_kind m = MessageData" and "mget (hs_chains st) (msgKey m) = Some c"
    and "ho_publish H (hs_out st) (ch_downside c) m = None"
  shows "handler_OnMessage E H m st = (Ok (), st\<lparr>hs_out := hs_out st @ [(ch_downside c, m)]\<rparr>) \<and>
    (ch_downside c \<in> set (hs_subs st) \<or> (TopicUpside, disconnected c) \<in> set (hs_out st))"
proof -
  have "ch_downside c = downTopic (msgKey m)"
    "downTopic (msgKey m) \<in> set (hs_subs st) \<or> (TopicUpside, disconnected c) \<in> set (hs_out st)"
    using tableInvD[OF session_steps_inv[OF assms(1,2)] assms(5)] by (simp_all add: reported_def)
  with assms(3-6) show ?thesis by (simp add: handler_OnMessage_def pubMsg_def)
qed

section \<open>What a session's end means\<close>

text \<open>The cloud is told of every end of a debug session; a log view that fails ends silently.\<close>

lemma session_end_told: "hs_out (snd (connecting H R c st)) = hs_out st @ [(TopicUpside, disconnected c)]"
  by (simp add: connecting_def chain_Close_def Let_def pubLogged_def pubMsg_def split: result.split option.split)

lemma failed_logs_silent: "snd (logging R opt c st) = st"
  by (simp add: logging_def)

text \<open>
  A session that failed stays in the table although its topic is gone: data for it is published to
  nobody, without an answer.
\<close>

lemma ended_session_swallows:
  assumes "ch_host c = []" and "ro_command R c = Err e" and "ho_unsubscribe H (ch_downside c) = None"
    and "mget (hs_chains st) (msgKey m) = Some c" and "distinct (hs_subs st)" and "e_svcName E = e_core E"
    and "m_kind m = MessageData" and "\<And>out. ho_publish H out (downTopic (msgKey m)) m = None"
  shows "handler_OnMessage E H m (snd (connecting H R c st)) =
     (Ok (), (snd (connecting H R c st))\<lparr>hs_out := hs_out st @ [(TopicUpside, disconnected c), (downTopic (msgKey m), m)]\<rparr>) \<and>
     ch_downside c \<notin> set (hs_subs (snd (connecting H R c st)))"
  using assms
  by (simp add: connecting_def chain_Close_def handler_OnMessage_def Let_def pubLogged_def pubMsg_def)

section \<open>Witnesses\<close>

definition echo_ws :: ws_lib where
  "echo_ws = \<lparr>wl_dial = (\<lambda>_ _. None), wl_write = (\<lambda>_ _. None)\<rparr>"

theorem websocket_relays_witness:
  "\<exists>ds. debugTexts ''t'' (hs_out (snd (chainReading sample_ops sample_chain (pipeReads ReadBuff [''ab'', ''c''] True) no_chains))) = ds \<and>
     concat ds = ''abc''"
proof -
  have "wl_dial echo_ws (ch_host sample_chain) (ch_path sample_chain) = None" "\<And>ws d. wl_write echo_ws ws d = None"
    by (simp_all add: echo_ws_def)
  moreover have "RemoteWebsocket echo_ws (\<lambda>_ _. None) sample_chain (map WsData [''ab'', ''c'']) (pipeReads ReadBuff [''ls''] True) =
      (Some (Ok ()), [''ls''], [''ab'', ''c''])"
    by (simp add: RemoteWebsocket_def pipeReads_def chunks_small ReadBuff_def echo_ws_def)
  ultimately have "\<exists>ds. debugTexts (ch_token sample_chain)
        (hs_out (snd (chainReading sample_ops sample_chain (pipeReads ReadBuff [''ab'', ''c''] True) no_chains))) =
      debugTexts (ch_token sample_chain) (hs_out no_chains) @ ds \<and> concat ds = concat [''ab'', ''c'']"
    using websocket_relays[of echo_ws sample_chain "[''ab'', ''c'']" "[''ls'']" "Some (Ok ())" "[''ls'']" "[''ab'', ''c'']"
        sample_ops no_chains] by blast
  moreover have "ch_token sample_chain = ''t''" "debugTexts ''t'' (hs_out no_chains) = []"
    by (simp_all add: sample_chain_def no_chains_def debugTexts_def)
  ultimately show ?thesis by simp
qed

definition broken_remote :: remote_ops where
  "broken_remote = \<lparr>ro_websocket = (\<lambda>_. Err ''dial''), ro_command = (\<lambda>_. Err ''dial''), ro_logs = (\<lambda>_. Ok ())\<rparr>"

definition opened :: handler_state where
  "opened = snd (handler_OnMessage sample_env sample_ops (sample_msg MessageCMD) no_chains)"

definition broken :: handler_state where
  "broken = snd (connecting sample_ops broken_remote sample_chain opened)"

lemma opened_step: "session_step sample_env sample_ops no_chains opened"
  unfolding opened_def by (rule session_step.message)

theorem sessions_listen_or_reported_witness:
  "mget (hs_chains broken) ''ns_pod__t'' = Some sample_chain \<and> downTopic ''ns_pod__t'' \<notin> set (hs_subs broken) \<and>
   (TopicUpside, disconnected sample_chain) \<in> set (hs_out broken)"
proof -
  have c: "mget (hs_chains opened) ''ns_pod__t'' = Some sample_chain" "ch_downside sample_chain \<in> set (hs_subs opened)"
    "mget (hs_chains broken) ''ns_pod__t'' = Some sample_chain" "downTopic ''ns_pod__t'' \<notin> set (hs_subs broken)"
    "hs_chains no_chains = []"
    by code_simp+
  note opened_step
  moreover have "session_step sample_env sample_ops opened broken" unfolding broken_def by (rule session_step.ended[OF c(1,2)])
  ultimately have "(session_step sample_env sample_ops)\<^sup>*\<^sup>* no_chains broken"
    by (meson converse_rtranclp_into_rtranclp rtranclp.rtrancl_refl)
  from sessions_listen_or_reported[OF this c(5) c(3)] c(3,4) show ?thesis by simp
qed

theorem data_reaches_chain_witness:
  "handler_OnMessage sample_env sample_ops (sample_msg MessageData) opened =
     (Ok (), opened\<lparr>hs_out := hs_out opened @ [(''ns_pod__t_down'', sample_msg MessageData)]\<rparr>) \<and>
   ''ns_pod__t_down'' \<in> set (hs_subs opened)"
proof -
  have o: "opened = \<lparr>hs_chains = [(''ns_pod__t'', sample_chain)], hs_out = [], hs_subs = [''ns_pod__t_down'']\<rparr>"
    by (simp add: opened_def sample_connect)
  have c: "mget (hs_chains opened) (msgKey (sample_msg MessageData)) = Some sample_chain" "hs_chains no_chains = []"
    by (simp_all add: o sample_key no_chains_def)
  have "(session_step sample_env sample_ops)\<^sup>*\<^sup>* no_chains opened" using opened_step by blast
  from data_reaches_chain[OF this c(2) _ _ c(1)] show ?thesis
    by (simp add: sample_core sample_msg_def sample_ops_def sample_chain_def o)
qed

end
