(* ===== verification/Lifecycle.thy ===== *)
theory Lifecycle
  imports System Startup Engine_Handler
begin

text \<open>
  What runs while a service is up: the loops of the engine and the sync component over their ticks
  (\<^verbatim>\<open>engine/engine.go\<close>, \<^verbatim>\<open>engine/clean.go\<close>, \<^verbatim>\<open>sync/sync.go\<close>), and which goroutines and subscriptions are
  started and ended by \<^verbatim>\<open>Start\<close> and \<^verbatim>\<open>Close\<close> of the engine, the sync component, the event forwarding
  (\<^verbatim>\<open>eventx/eventx.go\<close>), the core and the init service.
\<close>

section \<open>Loops\<close>

text \<open>
  What a loop meets: a tick, with whatever the environment answers in that round, or the end of its
  tomb. \<open>None\<close>: the loop waits. Errors of a round are logged; a panic ends the process.
\<close>

datatype 'i loop_event = Tick 'i | Dying

fun ticking :: "('i \<Rightarrow> 's \<Rightarrow> 'r result \<times> 's) \<Rightarrow> 'i loop_event list \<Rightarrow> 's \<Rightarrow> unit result option \<times> 's" where
  "ticking f [] st = (None, st)"
| "ticking f (Dying # es) st = (Some (Ok ()), st)"
| "ticking f (Tick i # es) st =
     (case f i st of (Panic p, st') \<Rightarrow> (Some (Panic p), st') | (_, st') \<Rightarrow> ticking f es st')"

text \<open>How a round of the engine reads the node document, as arguments of the loop.\<close>

definition engine_reporting :: "('s, 'd, 'n, 'a) engine_params \<Rightarrow> (json \<Rightarrow> (string, bool) gomap result) \<Rightarrow>
    (json \<Rightarrow> (string, string) gomap result) \<Rightarrow> (node_doc \<Rightarrow> node_view) \<Rightarrow>
    (node_doc \<Rightarrow> bool \<Rightarrow> app_info list option) \<Rightarrow>
    ((string, configuration) gomap \<Rightarrow> (string, configuration) gomap) loop_event list \<Rightarrow>
    ('s, 'd, 'n, 'a) engine_state \<Rightarrow> unit result option \<times> ('s, 'd, 'n, 'a) engine_state" where
  "engine_reporting P decS decI view desireOf =
     ticking (\<lambda>rng. reportAndDesireAsync P decS decI view rng desireOf True)"

definition engine_cleaning :: "('s, 'd, 'n, 'a) engine_params \<Rightarrow> (nat \<Rightarrow> (string, application) gomap \<Rightarrow> (string, application) gomap) \<Rightarrow>
    ((string, configuration) gomap \<Rightarrow> (string, configuration) gomap) \<Rightarrow>
    (('s \<Rightarrow> application list) \<times> node_view result) loop_event list \<Rightarrow>
    ('s, 'd, 'n, 'a) engine_state \<Rightarrow> unit result option \<times> ('s, 'd, 'n, 'a) engine_state" where
  "engine_cleaning P rng rngD = ticking (\<lambda>(seen, nod). cleanStep P rng rngD seen nod)"

definition syncRound :: "('s, 'd, 'n, 'a) engine_params \<Rightarrow> bool \<Rightarrow> ('s, 'd, 'n, 'a) engine_state \<Rightarrow>
    unit result \<times> ('s, 'd, 'n, 'a) engine_state" where
  "syncRound P notify = onDbNet (reportAndDesire (ep_env P) (ep_bolt P) (ep_spec P) (ep_link P) notify)"

text \<open>The report loop of the sync component: one round at once, then one at every tick.\<close>

definition sync_reporting :: "('s, 'd, 'n, 'a) engine_params \<Rightarrow> bool \<Rightarrow> unit loop_event list \<Rightarrow>
    ('s, 'd, 'n, 'a) engine_state \<Rightarrow> unit result option \<times> ('s, 'd, 'n, 'a) engine_state" where
  "sync_reporting P notify es st = ticking (\<lambda>_. syncRound P notify) (Tick () # es) st"

text \<open>The receiving loop: a message of the cloud, or an error of the link (\<open>None\<close>), which is logged.\<close>

definition receiveOne :: "('s, 'd, 'n, 'a) engine_params \<Rightarrow> bool \<Rightarrow> message option \<Rightarrow> ('s, 'd, 'n, 'a) engine_state \<Rightarrow>
    unit result \<times> ('s, 'd, 'n, 'a) engine_state" where
  "receiveOne P notify m st =
     (case m of Some msg \<Rightarrow> onDbNet (dispatch (ep_env P) (ep_bolt P) (ep_spec P) (ep_link P) notify msg) st
      | None \<Rightarrow> (Ok (), st))"

definition sync_receiving :: "('s, 'd, 'n, 'a) engine_params \<Rightarrow> bool \<Rightarrow> message option loop_event list \<Rightarrow>
    ('s, 'd, 'n, 'a) engine_state \<Rightarrow> unit result option \<times> ('s, 'd, 'n, 'a) engine_state" where
  "sync_receiving P notify = ticking (receiveOne P notify)"

text \<open>Each loop takes steps of the system only.\<close>

lemma ticking_steps:
  assumes "\<And>i st. R\<^sup>*\<^sup>* st (snd (f i st))"
  shows "R\<^sup>*\<^sup>* st (snd (ticking f es st))"
proof (induction es arbitrary: st)
  case (Cons e es)
  show ?case
  proof (cases e)
    case (Tick i)
    obtain r st1 where f: "f i st = (r, st1)" by (rule prod.exhaust)
    with assms[of st i] have one: "R\<^sup>*\<^sup>* st st1" by simp
    from rtranclp_trans[OF this Cons.IH] have "R\<^sup>*\<^sup>* st (snd (ticking f es st1))" .
    with one Tick f show ?thesis by (cases r) simp_all
  qed simp
qed simp

lemma engine_reporting_local: "(local_step P)\<^sup>*\<^sup>* st (snd (engine_reporting P decS decI view desireOf es st))"
  unfolding engine_reporting_def by (rule ticking_steps) (auto intro: local_step.engine_round)

lemma engine_cleaning_local: "(local_step P)\<^sup>*\<^sup>* st (snd (engine_cleaning P rng rngD es st))"
  unfolding engine_cleaning_def by (rule ticking_steps) (auto intro: local_step.clean_objects)

lemma sync_reporting_system: "(system_step P)\<^sup>*\<^sup>* st (snd (sync_reporting P notify es st))"
  unfolding sync_reporting_def syncRound_def by (rule ticking_steps) (auto intro: system_step.report_round)

lemma sync_receiving_system: "(system_step P)\<^sup>*\<^sup>* st (snd (sync_receiving P notify es st))"
  unfolding sync_receiving_def
proof (rule ticking_steps)
  show "(system_step P)\<^sup>*\<^sup>* st (snd (receiveOne P notify m st))" for m st
    by (cases m) (auto simp: receiveOne_def intro: system_step.cloud_message)
qed

text \<open>\<^verbatim>\<open>tomb.Go\<close>, \<^verbatim>\<open>Subscribe\<close> and the other calls of the libraries may fail.\<close>

section \<open>Tasks and subscriptions\<close>

text \<open>
  The tasks of the components, and beside them what their work starts: the goroutines of the sessions of
  the downside handler, by their keys, and the workers of the native platform's probes, by their services.
\<close>

datatype task = EngineReporting | EngineCleaning | DownsideProcessor | SyncReporting | SyncReceiving
  | UpsideProcessor | HttpServer | MqttClient | EventProcessor | Activating | ActivationServer

instantiation task :: enum
begin

definition "enum_task = [EngineReporting, EngineCleaning, DownsideProcessor, SyncReporting, SyncReceiving,
  UpsideProcessor, HttpServer, MqttClient, EventProcessor, Activating, ActivationServer]"

definition "enum_all_task P \<longleftrightarrow> list_all P (enum_class.enum :: task list)"

definition "enum_ex_task P \<longleftrightarrow> list_ex P (enum_class.enum :: task list)"

instance
proof
  have all: "(UNIV :: task set) = set enum_class.enum" by (auto simp: enum_task_def intro: task.exhaust)
  show "(UNIV :: task set) = set enum_class.enum" by (rule all)
  show "distinct (enum_class.enum :: task list)" by (simp add: enum_task_def)
  show "enum_class.enum_all P = Ball UNIV P" for P :: "task \<Rightarrow> bool"
    by (simp add: enum_all_task_def list_all_iff all)
  show "enum_class.enum_ex P = Bex UNIV P" for P :: "task \<Rightarrow> bool"
    by (simp add: enum_ex_task_def list_ex_iff all)
qed

end

record started =
  sv_tasks :: "task set"
  sv_sessions :: "string set"
  sv_workers :: "string set"
  sv_subs :: "string list"
  sv_storeOpen :: bool

record life_lib =
  ll_go :: "task \<Rightarrow> bool"                       \<comment> \<open>the goroutine could be started\<close>
  ll_subscribe :: "string \<Rightarrow> string option"
  ll_unsubscribe :: "string \<Rightarrow> string option"
  ll_pubsub :: "unit result"                    \<comment> \<open>the plugin of the bus\<close>
  ll_mqtt :: "unit result"                      \<comment> \<open>\<^verbatim>\<open>NewSystemBrokerClient\<close>\<close>

definition goTask :: "life_lib \<Rightarrow> task \<Rightarrow> started \<Rightarrow> started" where
  "goTask L t s = (if ll_go L t then s\<lparr>sv_tasks := insert t (sv_tasks s)\<rparr> else s)"

definition endTasks :: "task set \<Rightarrow> started \<Rightarrow> started" where
  "endTasks ts s = s\<lparr>sv_tasks := sv_tasks s - ts\<rparr>"

definition listen :: "life_lib \<Rightarrow> string \<Rightarrow> started \<Rightarrow> started" where
  "listen L topic s = (case ll_subscribe L topic of Some _ \<Rightarrow> s | None \<Rightarrow> s\<lparr>sv_subs := topic # sv_subs s\<rparr>)"

definition unlisten :: "life_lib \<Rightarrow> string \<Rightarrow> started \<Rightarrow> started" where
  "unlisten L topic s =
     (case ll_unsubscribe L topic of Some _ \<Rightarrow> s | None \<Rightarrow> s\<lparr>sv_subs := remove1 topic (sv_subs s)\<rparr>)"

text \<open>
  While the components run, messages open sessions, which subscribe to their topics, and rounds start probe
  workers; both end by themselves or are ended, a session with its subscription or without.
\<close>

inductive working :: "started \<Rightarrow> started \<Rightarrow> bool" where
  open_session: "DownsideProcessor \<in> sv_tasks s \<Longrightarrow>
    working s (s\<lparr>sv_sessions := insert k (sv_sessions s), sv_subs := downTopic k # sv_subs s\<rparr>)"
| end_session: "ts = sv_subs s \<or> ts = remove1 (downTopic k) (sv_subs s) \<Longrightarrow>
    working s (s\<lparr>sv_sessions := sv_sessions s - {k}, sv_subs := ts\<rparr>)"
| start_worker: "EngineReporting \<in> sv_tasks s \<Longrightarrow> working s (s\<lparr>sv_workers := insert k (sv_workers s)\<rparr>)"
| end_worker: "working s (s\<lparr>sv_workers := sv_workers s - {k}\<rparr>)"

text \<open>The processor of the downside messages is started even when the subscription failed.\<close>

definition engine_Start :: "env \<Rightarrow> life_lib \<Rightarrow> started \<Rightarrow> started" where
  "engine_Start E L s =
     (let s = goTask L EngineReporting s;
          s = (if e_svcName E = e_core E then goTask L EngineCleaning s else s);
          s = listen L TopicDownside s
      in s\<lparr>sv_tasks := insert DownsideProcessor (sv_tasks s)\<rparr>)"

definition engine_Close :: "life_lib \<Rightarrow> started \<Rightarrow> started" where
  "engine_Close L s =
     (let s = endTasks {EngineReporting, EngineCleaning} s;
          s = unlisten L TopicDownside s
      in endTasks {DownsideProcessor} s)"

text \<open>The receiving loop listens to the messages for the cloud while it runs.\<close>

definition startReceiving :: "life_lib \<Rightarrow> started \<Rightarrow> started" where
  "startReceiving L s =
     (if ll_go L SyncReceiving
      then (listen L TopicUpside s)\<lparr>sv_tasks := insert UpsideProcessor (insert SyncReceiving (sv_tasks s))\<rparr>
      else s)"

definition endReceiving :: "life_lib \<Rightarrow> started \<Rightarrow> started" where
  "endReceiving L s =
     (if SyncReceiving \<in> sv_tasks s then endTasks {SyncReceiving, UpsideProcessor} (unlisten L TopicUpside s) else s)"

definition sync_Start :: "life_lib \<Rightarrow> bool \<Rightarrow> started \<Rightarrow> started" where
  "sync_Start L async s = goTask L SyncReporting (if async then startReceiving L s else s)"

definition sync_Close :: "life_lib \<Rightarrow> started \<Rightarrow> started" where
  "sync_Close L s = endTasks {SyncReporting} (endReceiving L s)"

definition NewEventX :: "life_lib \<Rightarrow> started \<Rightarrow> unit result \<times> started" where
  "NewEventX L s =
     sbind (ll_pubsub L, s) (\<lambda>_ s.
     sbind (ll_mqtt L, s) (\<lambda>_ s.
       case ll_subscribe L TopicEvent of
         Some e \<Rightarrow> (Err e, s) | None \<Rightarrow> (Ok (), s\<lparr>sv_subs := TopicEvent # sv_subs s\<rparr>)))"

definition event_Start :: "life_lib \<Rightarrow> started \<Rightarrow> started" where
  "event_Start L s = (let s = goTask L MqttClient s in s\<lparr>sv_tasks := insert EventProcessor (sv_tasks s)\<rparr>)"

definition event_Close :: "started \<Rightarrow> started" where
  "event_Close s = endTasks {EventProcessor, MqttClient} s"

text \<open>The activation runs as a loop, or as a server where one is to listen.\<close>

definition activate_Start :: "life_lib \<Rightarrow> string \<Rightarrow> started \<Rightarrow> started" where
  "activate_Start L address s = goTask L (if address = [] then Activating else ActivationServer) s"

definition activate_Close :: "started \<Rightarrow> started" where
  "activate_Close s = endTasks {Activating, ActivationServer} s"

section \<open>The two services\<close>

text \<open>The end of \<^verbatim>\<open>NewCore\<close>, after the components are constructed.\<close>

definition core_Start :: "env \<Rightarrow> life_lib \<Rightarrow> bool \<Rightarrow> bool \<Rightarrow> started \<Rightarrow> unit result \<times> started" where
  "core_Start E L async notify s =
     (let s = sync_Start L async (engine_Start E L s);
          s = s\<lparr>sv_tasks := insert HttpServer (sv_tasks s)\<rparr>
      in if notify then sbind (NewEventX L s) (\<lambda>_ s. (Ok (), event_Start L s)) else (Ok (), s))"

text \<open>The states \<^verbatim>\<open>Close\<close> goes through; \<open>evt\<close>: there is an event forwarding.\<close>

definition core_closing :: "life_lib \<Rightarrow> bool \<Rightarrow> started \<Rightarrow> started list" where
  "core_closing L evt s =
     (let s1 = endTasks {HttpServer} s; s2 = engine_Close L s1; s3 = s2\<lparr>sv_storeOpen := False\<rparr>; s4 = sync_Close L s3;
          s5 = (if evt then event_Close s4 else s4)
      in [s1, s2, s3, s4, s5])"

definition core_Close :: "life_lib \<Rightarrow> bool \<Rightarrow> started \<Rightarrow> started" where
  "core_Close L evt s = last (core_closing L evt s)"

definition init_Start :: "env \<Rightarrow> life_lib \<Rightarrow> bool \<Rightarrow> started \<Rightarrow> started" where
  "init_Start E L async s = sync_Start L async (engine_Start E L s)"

definition init_Close :: "life_lib \<Rightarrow> started \<Rightarrow> started" where
  "init_Close L s = sync_Close L ((engine_Close L s)\<lparr>sv_storeOpen := False\<rparr>)"

text \<open>A service that was constructed and has not started anything; with an activation, nothing runs either.\<close>

definition constructed :: started where
  "constructed = \<lparr>sv_tasks = {}, sv_sessions = {}, sv_workers = {}, sv_subs = [], sv_storeOpen = True\<rparr>"

definition activated :: "life_lib \<Rightarrow> string \<Rightarrow> started" where
  "activated L address = (activate_Close (activate_Start L address (constructed\<lparr>sv_storeOpen := False\<rparr>)))\<lparr>sv_storeOpen := True\<rparr>"

text \<open>
  The two services from start to end: what was constructed, started and, when the process is told to
  end, closed. \<open>work\<close> is what happens in between, \<open>load\<close> the reading of the configuration. The last component is \<open>None\<close> when the construction
  failed: then nothing was started. The whole is \<open>None\<close> while the node waits for its activation.
\<close>

definition StartCoreService :: "unit result \<Rightarrow> ('d, 'p, 'w, 'c, 's) boot_env \<Rightarrow> life_lib \<Rightarrow> bool \<Rightarrow> bool \<Rightarrow>
    (started \<Rightarrow> started) \<Rightarrow> ('d, 'p, 'w, 'c, 's, 'i) boot_state \<Rightarrow> unit result \<times> ('d, 'p, 'w, 'c, 's, 'i) boot_state \<times> started option" where
  "StartCoreService load B L async notify work st =
     (case load of
        Ok _ \<Rightarrow>
          (case construct B st of
             (Ok _, st) \<Rightarrow>
               (case core_Start (be_env B) L async notify constructed of
                  (Ok _, s) \<Rightarrow> (Ok (), st, Some (core_Close L notify (work s)))
                | (r, s) \<Rightarrow> (r, st, Some s))
           | (r, st) \<Rightarrow> (rmap (\<lambda>_. ()) r, st, None))
      | r \<Rightarrow> (r, st, None))"

definition StartInitService :: "unit result \<Rightarrow> ('d, 'p, 'w, 'c, 's) boot_env \<Rightarrow> activate_cfg \<Rightarrow> batch \<Rightarrow> string \<Rightarrow> string \<Rightarrow>
    life_lib \<Rightarrow> bool \<Rightarrow> (started \<Rightarrow> started) \<Rightarrow> activation \<Rightarrow> ('d, 'p, 'w, 'c, 's, 'i) boot_state \<Rightarrow>
    (unit result \<times> ('d, 'p, 'w, 'c, 's, 'i) boot_state \<times> started option) option" where
  "StartInitService load B C b address listening L async work W st =
     (case load of
        Ok _ \<Rightarrow>
          map_option (\<lambda>(r, st').
            case r of
              Ok _ \<Rightarrow> (Ok (), st', Some (init_Close L (work (init_Start (be_env B) L async
                 (if needsActivation C (bs_fs st) then activated L listening else constructed)))))
            | r \<Rightarrow> (rmap (\<lambda>_. ()) r, st', None)) (NewInitialize B C b address W st)
      | r \<Rightarrow> Some (r, st, None))"

lemmas life_defs = engine_Start_def engine_Close_def sync_Start_def sync_Close_def startReceiving_def endReceiving_def
  NewEventX_def event_Start_def event_Close_def goTask_def endTasks_def listen_def unlisten_def constructed_def

lemma topics_apart: "TopicDownside \<noteq> TopicUpside" "TopicUpside \<noteq> TopicEvent" "TopicDownside \<noteq> TopicEvent"
  by (simp_all add: TopicDownside_def TopicUpside_def TopicEvent_def)

text \<open>What the operations do to each part of the state.\<close>

lemma service_parts [simp]:
  "sv_tasks (goTask L t s) = (if ll_go L t then insert t (sv_tasks s) else sv_tasks s)"
  "sv_subs (goTask L t s) = sv_subs s" "sv_storeOpen (goTask L t s) = sv_storeOpen s"
  "sv_tasks (endTasks ts s) = sv_tasks s - ts" "sv_subs (endTasks ts s) = sv_subs s" "sv_storeOpen (endTasks ts s) = sv_storeOpen s"
  "sv_tasks (listen L k s) = sv_tasks s" "sv_storeOpen (listen L k s) = sv_storeOpen s"
  "sv_subs (listen L k s) = (if ll_subscribe L k = None then [k] else []) @ sv_subs s"
  "sv_tasks (unlisten L k s) = sv_tasks s" "sv_storeOpen (unlisten L k s) = sv_storeOpen s"
  "sv_subs (unlisten L k s) = (if ll_unsubscribe L k = None then remove1 k (sv_subs s) else sv_subs s)"
  by (simp_all add: goTask_def endTasks_def listen_def unlisten_def split: option.split)

lemma runtime_parts [simp]:
  "sv_sessions (goTask L t s) = sv_sessions s" "sv_workers (goTask L t s) = sv_workers s"
  "sv_sessions (endTasks ts s) = sv_sessions s" "sv_workers (endTasks ts s) = sv_workers s"
  "sv_sessions (listen L k s) = sv_sessions s" "sv_workers (listen L k s) = sv_workers s"
  "sv_sessions (unlisten L k s) = sv_sessions s" "sv_workers (unlisten L k s) = sv_workers s"
  by (simp_all add: goTask_def endTasks_def listen_def unlisten_def split: option.split)

lemma close_runtime:
  "sv_sessions (core_Close L evt s) = sv_sessions s" "sv_workers (core_Close L evt s) = sv_workers s"
  by (simp_all add: core_Close_def core_closing_def engine_Close_def sync_Close_def endReceiving_def event_Close_def Let_def)

lemma engine_parts [simp]:
  "sv_tasks (engine_Start E L s) = insert DownsideProcessor ((if ll_go L EngineReporting then {EngineReporting} else {}) \<union>
     (if e_svcName E = e_core E \<and> ll_go L EngineCleaning then {EngineCleaning} else {}) \<union> sv_tasks s)"
  "sv_subs (engine_Start E L s) = (if ll_subscribe L TopicDownside = None then [TopicDownside] else []) @ sv_subs s"
  "sv_storeOpen (engine_Start E L s) = sv_storeOpen s"
  "sv_tasks (engine_Close L s) = sv_tasks s - {EngineReporting, EngineCleaning, DownsideProcessor}"
  "sv_subs (engine_Close L s) = (if ll_unsubscribe L TopicDownside = None then remove1 TopicDownside (sv_subs s) else sv_subs s)"
  "sv_storeOpen (engine_Close L s) = sv_storeOpen s"
  by (auto simp: engine_Start_def engine_Close_def Let_def)

lemma sync_parts [simp]:
  "sv_tasks (sync_Start L async s) = (if ll_go L SyncReporting then {SyncReporting} else {}) \<union>
     (if async \<and> ll_go L SyncReceiving then {SyncReceiving, UpsideProcessor} else {}) \<union> sv_tasks s"
  "sv_subs (sync_Start L async s) =
     (if async \<and> ll_go L SyncReceiving \<and> ll_subscribe L TopicUpside = None then [TopicUpside] else []) @ sv_subs s"
  "sv_storeOpen (sync_Start L async s) = sv_storeOpen s"
  "sv_tasks (sync_Close L s) = sv_tasks s - {SyncReporting} -
     (if SyncReceiving \<in> sv_tasks s then {SyncReceiving, UpsideProcessor} else {})"
  "sv_subs (sync_Close L s) =
     (if SyncReceiving \<in> sv_tasks s \<and> ll_unsubscribe L TopicUpside = None then remove1 TopicUpside (sv_subs s) else sv_subs s)"
  "sv_storeOpen (sync_Close L s) = sv_storeOpen s"
  by (auto simp: sync_Start_def sync_Close_def startReceiving_def endReceiving_def)

lemma NewEventX_Ok: "NewEventX L s = (Ok u, s') \<Longrightarrow> s' = s\<lparr>sv_subs := TopicEvent # sv_subs s\<rparr>"
  by (auto simp: NewEventX_def sbind_Ok_iff split: option.splits)

lemma event_parts:
  "sv_tasks (event_Start L s) = insert EventProcessor ((if ll_go L MqttClient then {MqttClient} else {}) \<union> sv_tasks s)"
  "sv_subs (event_Start L s) = sv_subs s" "sv_storeOpen (event_Start L s) = sv_storeOpen s"
  "sv_tasks (event_Close s) = sv_tasks s - {EventProcessor, MqttClient}"
  "sv_subs (event_Close s) = sv_subs s" "sv_storeOpen (event_Close s) = sv_storeOpen s"
  by (auto simp: event_Start_def event_Close_def Let_def)

lemma constructed_parts [simp]: "sv_tasks constructed = {}" "sv_subs constructed = []" "sv_storeOpen constructed"
  by (simp_all add: constructed_def)

lemma core_Close_parts:
  "sv_tasks (core_Close L evt s) = sv_tasks (sync_Close L (engine_Close L (endTasks {HttpServer} s))) -
     (if evt then {EventProcessor, MqttClient} else {})"
  "sv_subs (core_Close L evt s) = sv_subs (sync_Close L (engine_Close L s))"
  "\<not> sv_storeOpen (core_Close L evt s)"
  by (simp_all add: core_Close_def core_closing_def Let_def event_parts)

text \<open>The state of a core that has started.\<close>

lemma core_started:
  assumes "core_Start E L async notify constructed = (Ok (), s)"
  shows "sv_tasks s = {HttpServer} \<union> sv_tasks (sync_Start L async (engine_Start E L constructed)) \<union>
      (if notify then insert EventProcessor (if ll_go L MqttClient then {MqttClient} else {}) else {})"
    and "sv_subs s = (if notify then [TopicEvent] else []) @ sv_subs (sync_Start L async (engine_Start E L constructed))"
    and "sv_storeOpen s"
proof -
  define s0 where "s0 = (sync_Start L async (engine_Start E L constructed))
    \<lparr>sv_tasks := insert HttpServer (sv_tasks (sync_Start L async (engine_Start E L constructed)))\<rparr>"
  have "s = (if notify then event_Start L (s0\<lparr>sv_subs := TopicEvent # sv_subs s0\<rparr>) else s0)"
  proof (cases notify)
    case True
    with assms obtain s1 where "NewEventX L s0 = (Ok (), s1)" "s = event_Start L s1"
      by (auto simp: core_Start_def Let_def sbind_Ok_iff s0_def)
    with True NewEventX_Ok show ?thesis by simp
  next
    case False
    with assms show ?thesis by (simp add: core_Start_def Let_def s0_def)
  qed
  then show "sv_tasks s = {HttpServer} \<union> sv_tasks (sync_Start L async (engine_Start E L constructed)) \<union>
      (if notify then insert EventProcessor (if ll_go L MqttClient then {MqttClient} else {}) else {})"
    and "sv_subs s = (if notify then [TopicEvent] else []) @ sv_subs (sync_Start L async (engine_Start E L constructed))"
    and "sv_storeOpen s"
    by (auto simp: event_parts s0_def)
qed

text \<open>Working changes neither the tasks of the components nor their subscriptions.\<close>

lemma topics_of_sessions: "downTopic k \<noteq> TopicDownside" "downTopic k \<noteq> TopicUpside" "downTopic k \<noteq> TopicEvent"
proof -
  have "last (downTopic k) = CHR ''n''" by (simp add: downTopic_def)
  then show "downTopic k \<noteq> TopicDownside" "downTopic k \<noteq> TopicUpside" "downTopic k \<noteq> TopicEvent"
    by (auto simp: TopicDownside_def TopicUpside_def TopicEvent_def)
qed

lemma working_keeps:
  assumes "working\<^sup>*\<^sup>* s s'"
  shows "sv_tasks s' = sv_tasks s \<and> sv_storeOpen s' = sv_storeOpen s \<and>
    filter (\<lambda>t. \<not> (\<exists>k. t = downTopic k)) (sv_subs s') = filter (\<lambda>t. \<not> (\<exists>k. t = downTopic k)) (sv_subs s)"
  using assms
proof (induction rule: rtranclp_induct)
  case (step y z)
  have "sv_tasks z = sv_tasks y \<and> sv_storeOpen z = sv_storeOpen y \<and>
      filter (\<lambda>t. \<not> (\<exists>k. t = downTopic k)) (sv_subs z) = filter (\<lambda>t. \<not> (\<exists>k. t = downTopic k)) (sv_subs y)"
    using step.hyps(2)
  proof cases
    case (end_session ts k)
    then show ?thesis by (auto simp: filter_remove1 remove1_idem)
  qed auto
  with step.IH show ?case by simp
qed simp

text \<open>The subscriptions of the components are gone once they are removed, each was made at most once.\<close>

lemma gone:
  assumes "filter P ts = ts'" and "P t" and "count_list ts' t \<le> 1"
  shows "t \<notin> set (remove1 t ts)"
proof -
  from assms(1,2) have "count_list ts t = count_list ts' t" by (induction ts arbitrary: ts') auto
  with assms(3) have "count_list ts t \<le> 1" by simp
  then show ?thesis by (induction ts) (auto split: if_splits simp: count_list_0_iff)
qed

lemma core_closed_parts:
  assumes "core_Start E L async notify constructed = (Ok (), s)" and "working\<^sup>*\<^sup>* s s1" and "\<And>t. ll_unsubscribe L t = None"
  shows "sv_tasks (core_Close L notify s1) = {} \<and> \<not> sv_storeOpen (core_Close L notify s1) \<and>
    TopicDownside \<notin> set (sv_subs (core_Close L notify s1)) \<and> TopicUpside \<notin> set (sv_subs (core_Close L notify s1)) \<and>
    filter (\<lambda>t. t \<noteq> TopicDownside \<and> t \<noteq> TopicUpside) (sv_subs (core_Close L notify s1)) =
      filter (\<lambda>t. t \<noteq> TopicDownside \<and> t \<noteq> TopicUpside) (sv_subs s1) \<and>
    sv_sessions (core_Close L notify s1) = sv_sessions s1 \<and> sv_workers (core_Close L notify s1) = sv_workers s1"
proof -
  note st = core_started[OF assms(1)] and w = working_keeps[OF assms(2)]
  have tasks: "sv_tasks (core_Close L notify s1) = {}"
    using st(1) w by (auto simp: core_Close_parts split: if_splits)
  define ts where "ts = sv_subs s1"
  have free: "\<not> (\<exists>k. TopicDownside = downTopic k)" "\<not> (\<exists>k. TopicUpside = downTopic k)" "\<not> (\<exists>k. TopicEvent = downTopic k)"
    using topics_of_sessions by metis+
  have subs0: "set (sv_subs s) \<subseteq> {TopicDownside, TopicUpside, TopicEvent}"
    "count_list (sv_subs s) TopicDownside \<le> 1" "count_list (sv_subs s) TopicUpside \<le> 1"
    using topics_apart by (auto simp: st(2))
  have "filter (\<lambda>t. \<not> (\<exists>k. t = downTopic k)) (sv_subs s) = sv_subs s"
  proof (rule filter_True, rule ballI)
    fix x assume "x \<in> set (sv_subs s)"
    with subs0(1) have "x = TopicDownside \<or> x = TopicUpside \<or> x = TopicEvent" by blast
    then show "\<not> (\<exists>k. x = downTopic k)" by (elim disjE) (simp_all only: free not_False_eq_True)
  qed
  then have own: "filter (\<lambda>t. \<not> (\<exists>k. t = downTopic k)) ts = sv_subs s" using w by (simp add: ts_def)
  have down: "TopicDownside \<notin> set (remove1 TopicDownside ts)" and up: "TopicUpside \<notin> set (remove1 TopicUpside ts)"
    by (rule gone[OF own free(1) subs0(2)], rule gone[OF own free(2) subs0(3)])
  have upside: "TopicUpside \<notin> set ts" if "SyncReceiving \<notin> sv_tasks s1"
  proof -
    have "SyncReceiving \<in> sv_tasks s" if "async \<and> ll_go L SyncReceiving" using that by (simp add: st(1))
    with that w have "\<not> (async \<and> ll_go L SyncReceiving)" by blast
    with topics_apart have "TopicUpside \<notin> set (sv_subs s)" by (auto simp: st(2) dest: not_sym)
    then have "TopicUpside \<notin> set (filter (\<lambda>t. \<not> (\<exists>k. t = downTopic k)) ts)" unfolding own .
    with free(2) show ?thesis by simp
  qed
  have subs: "sv_subs (core_Close L notify s1) =
      (if SyncReceiving \<in> sv_tasks s1 then remove1 TopicUpside (remove1 TopicDownside ts) else remove1 TopicDownside ts)"
    using assms(3) by (simp add: core_Close_parts ts_def)
  have "TopicUpside \<notin> set (sv_subs (core_Close L notify s1))"
  proof (cases "SyncReceiving \<in> sv_tasks s1")
    case True
    with up notin_set_remove1[of TopicUpside "remove1 TopicUpside ts" TopicDownside] show ?thesis
      by (simp add: subs remove1_commute[of TopicUpside])
  next
    case False
    with upside[OF False] notin_set_remove1[of TopicUpside ts TopicDownside] show ?thesis by (simp add: subs)
  qed
  moreover have "TopicDownside \<notin> set (sv_subs (core_Close L notify s1))"
    using down notin_set_remove1[of TopicDownside "remove1 TopicDownside ts" TopicUpside] by (simp add: subs)
  moreover have "filter (\<lambda>t. t \<noteq> TopicDownside \<and> t \<noteq> TopicUpside) (sv_subs (core_Close L notify s1)) =
      filter (\<lambda>t. t \<noteq> TopicDownside \<and> t \<noteq> TopicUpside) ts"
    by (simp add: subs filter_remove1 remove1_idem)
  ultimately show ?thesis using tasks by (simp add: core_Close_parts(3) close_runtime ts_def)
qed

text \<open>
  C34. What closing the core ends and what it leaves: a core that was started, has worked and is closed has
  no task of its components running, whichever of them failed to start; the store is closed; and the
  subscriptions of the engine and the sync component are gone. It leaves everything else: the sessions
  that are open, the probe workers, and their and the events' subscriptions go on.
\<close>

theorem core_closed:
  assumes "core_Start E L async notify constructed = (Ok (), s)" and "working\<^sup>*\<^sup>* s s1" and "\<And>t. ll_unsubscribe L t = None"
  shows "sv_tasks (core_Close L notify s1) = {} \<and> \<not> sv_storeOpen (core_Close L notify s1) \<and>
    TopicDownside \<notin> set (sv_subs (core_Close L notify s1)) \<and> TopicUpside \<notin> set (sv_subs (core_Close L notify s1)) \<and>
    filter (\<lambda>t. t \<noteq> TopicDownside \<and> t \<noteq> TopicUpside) (sv_subs (core_Close L notify s1)) =
      filter (\<lambda>t. t \<noteq> TopicDownside \<and> t \<noteq> TopicUpside) (sv_subs s1) \<and>
    sv_sessions (core_Close L notify s1) = sv_sessions s1 \<and> sv_workers (core_Close L notify s1) = sv_workers s1"
  by (rule core_closed_parts[OF assms])

text \<open>While the core is closed, the store is closed before the loop that uses it is ended.\<close>

lemma store_closed_under_sync:
  assumes "core_Start E L async notify constructed = (Ok (), s)" and "ll_go L SyncReporting"
  shows "\<exists>x \<in> set (core_closing L notify s). \<not> sv_storeOpen x \<and> SyncReporting \<in> sv_tasks x"
  using core_started(1)[OF assms(1)] assms(2) by (auto simp: core_closing_def Let_def)

text \<open>A core whose event forwarding cannot be constructed fails, with its loops running.\<close>

lemma event_failure_leaks:
  assumes "ll_pubsub L = Ok ()" and "ll_mqtt L = Err e" and "ll_go L EngineReporting"
  shows "\<exists>s. core_Start E L async True constructed = (Err e, s) \<and> {HttpServer, EngineReporting} \<subseteq> sv_tasks s"
  using assms by (simp add: core_Start_def NewEventX_def Let_def)

text \<open>The init service, too, ends all it started.\<close>

lemma activated_constructed [simp]: "activated L address = constructed"
  by (simp add: activated_def activate_Start_def activate_Close_def goTask_def endTasks_def constructed_def)

lemma init_closed:
  assumes "working\<^sup>*\<^sup>* (init_Start E L async constructed) s"
  shows "sv_tasks (init_Close L s) = {} \<and> \<not> sv_storeOpen (init_Close L s)"
  using working_keeps[OF assms] by (auto simp: init_Start_def init_Close_def)

text \<open>A service that ends without an error leaves no task of its components and a closed store.\<close>

lemma core_service_ends:
  assumes "StartCoreService load B L async notify work st = (Ok (), st', s)" and "\<And>t. ll_unsubscribe L t = None"
    and "\<And>s. working\<^sup>*\<^sup>* s (work s)"
  shows "\<exists>s'. s = Some s' \<and> sv_tasks s' = {} \<and> \<not> sv_storeOpen s'"
proof -
  obtain rc stc where con: "construct B st = (rc, stc)" by (rule prod.exhaust)
  obtain r s0 where start: "core_Start (be_env B) L async notify constructed = (r, s0)" by (rule prod.exhaust)
  from assms(1) obtain u where "load = Ok u" unfolding StartCoreService_def by (cases load) auto
  with assms(1) con obtain am where am: "rc = Ok am" unfolding StartCoreService_def by (cases rc) simp_all
  with \<open>load = Ok u\<close> assms(1) con start have "r = Ok () \<and> s = Some (core_Close L notify (work s0))"
    unfolding StartCoreService_def by (cases r) simp_all
  with core_closed_parts[of "be_env B" L async notify s0 "work s0"] start assms(2,3) show ?thesis by auto
qed

lemma init_service_ends:
  assumes "StartInitService load B C b address listening L async work W st = Some (Ok (), st', s)"
    and "\<And>s. working\<^sup>*\<^sup>* s (work s)"
  shows "\<exists>s'. s = Some s' \<and> sv_tasks s' = {} \<and> \<not> sv_storeOpen s'"
proof -
  from assms(1) obtain u where "load = Ok u" unfolding StartInitService_def by (cases load) auto
  with assms(1) obtain r st1 where new: "NewInitialize B C b address W st = Some (r, st1)"
    unfolding StartInitService_def by (cases "NewInitialize B C b address W st") auto
  with \<open>load = Ok u\<close> assms(1) have "s = Some (init_Close L (work (init_Start (be_env B) L async constructed)))"
    unfolding StartInitService_def by (cases r; cases "needsActivation C (bs_fs st)") auto
  with init_closed[OF assms(2)] show ?thesis by simp
qed

definition calm_lib :: life_lib where
  "calm_lib = \<lparr>ll_go = (\<lambda>_. True), ll_subscribe = (\<lambda>_. None), ll_unsubscribe = (\<lambda>_. None), ll_pubsub = Ok (), ll_mqtt = Ok ()\<rparr>"

theorem core_closed_witness:
  "\<exists>s s1. core_Start sample_env calm_lib True True constructed = (Ok (), s) \<and> Finite_Set.card (sv_tasks s) = 9 \<and>
     working\<^sup>*\<^sup>* s s1 \<and> sv_tasks (core_Close calm_lib True s1) = {} \<and> sv_sessions (core_Close calm_lib True s1) = {''k''} \<and>
     {downTopic ''k'', TopicEvent} \<subseteq> set (sv_subs (core_Close calm_lib True s1))"
proof -
  define s where "s = snd (core_Start sample_env calm_lib True True constructed)"
  have s: "core_Start sample_env calm_lib True True constructed = (Ok (), s)"
    unfolding s_def by (simp add: core_Start_def NewEventX_def calm_lib_def Let_def)
  have lib: "ll_go calm_lib t" "ll_unsubscribe calm_lib k = None" for t k by (simp_all add: calm_lib_def)
  have tasks: "sv_tasks s = set [EngineReporting, EngineCleaning, DownsideProcessor, SyncReporting, SyncReceiving,
      UpsideProcessor, HttpServer, MqttClient, EventProcessor]"
    using core_started(1)[OF s] by (auto simp: lib sample_core)
  then have c: "card (sv_tasks s) = 9" by (simp only: distinct_card) simp
  have none: "sv_sessions s = {}"
    unfolding s_def by (simp add: core_Start_def NewEventX_def calm_lib_def Let_def event_Start_def sync_Start_def
        startReceiving_def engine_Start_def constructed_def)
  define s1 where "s1 = s\<lparr>sv_sessions := insert ''k'' (sv_sessions s), sv_subs := downTopic ''k'' # sv_subs s\<rparr>"
  have w: "working\<^sup>*\<^sup>* s s1" unfolding s1_def using tasks by (intro r_into_rtranclp open_session) simp
  note closed = core_closed[OF s w lib(2)]
  have "TopicEvent \<in> set (sv_subs s1)" using core_started(2)[OF s] by (simp add: s1_def)
  with topics_apart have "TopicEvent \<in> set (filter (\<lambda>t. t \<noteq> TopicDownside \<and> t \<noteq> TopicUpside) (sv_subs s1))" by auto
  moreover have "downTopic ''k'' \<in> set (filter (\<lambda>t. t \<noteq> TopicDownside \<and> t \<noteq> TopicUpside) (sv_subs s1))"
    using topics_of_sessions by (simp add: s1_def)
  ultimately have "{downTopic ''k'', TopicEvent} \<subseteq> set (sv_subs (core_Close calm_lib True s1))"
    using closed by (metis (no_types, lifting) empty_subsetI filter_is_subset insert_subset subset_iff)
  moreover have "sv_sessions (core_Close calm_lib True s1) = {''k''}" using closed none by (simp add: s1_def)
  ultimately show ?thesis using closed s c w by blast
qed

end
