(* ===== verification/Node_Concurrent.thy ===== *)
theory Node_Concurrent
  imports Node
begin

text \<open>
  Transactions on the node document that overlap: the engine reports, the sync component stores what
  the cloud desires, and the HTTP interface updates properties, each on its own goroutine. A report
  and a desire touch different parts and commute; an update of the properties reads in one transaction
  and writes in a later one (\<^verbatim>\<open>node/node.go\<close>), and what was reported in between is lost.
\<close>

section \<open>Reports and desires\<close>

lemma newDesire_True [simp]: "newDesire L des True m = Ok m' \<longleftrightarrow> m' = m\<lparr>nd_desire := Some des\<rparr>"
  by (auto simp: newDesire_def)

lemma newReport_desire: "newReport L r ov m = Ok m' \<Longrightarrow> nd_desire m' = nd_desire m"
  by (cases "so_merge L (entries (nd_report m)) r") (auto simp: newReport_def split: if_splits)

lemma newReport_cong:
  assumes "nd_report m = nd_report n"
  shows "rmap nd_report (newReport L r ov m) = rmap nd_report (newReport L r ov n)"
  using assms by (cases "so_merge L (entries (nd_report n)) r") (simp_all add: newReport_def)

lemma entries_nonempty: "entries d = entries d' \<Longrightarrow> entries d \<noteq> [] \<Longrightarrow> d = d'"
  by (auto simp: entries_def split: option.splits)

text \<open>
  C35. A report of the engine and a desire of the cloud commute: in whichever order the two
  transactions are carried out, on a document in which something is reported, the document holds the
  same desired and the same reported entries.
\<close>

theorem report_desire_commute:
  assumes "bolt_ok B" and "codec_ok L" and "node_Get B L d = Ok m" and "entries (nd_report m) \<noteq> []"
    and "node_Desire B L des True d = (Ok x1, d1)" and "node_Report B L r ov d1 = (Ok y1, d12)"
    and "node_Report B L r ov d = (Ok y2, d2)" and "node_Desire B L des True d2 = (Ok x2, d21)"
  shows "\<exists>n n'. node_Get B L d12 = Ok n \<and> node_Get B L d21 = Ok n' \<and>
    entries (nd_desire n) = entries (nd_desire n') \<and> entries (nd_report n) = entries (nd_report n')"
proof -
  from desire_stores[OF assms(1,2,5)] assms(3) obtain n1 where
    n1: "node_Get B L d1 = Ok n1" "entries (nd_desire n1) = des" "entries (nd_report n1) = entries (nd_report m)" by auto
  have same: "nd_report n1 = nd_report m" using entries_nonempty[OF n1(3)] n1(3) assms(4) by simp
  from report_step[OF assms(6)] n1(1) obtain m12 where
    m12: "newReport L r ov n1 = Ok m12" "writeNode B L m12 d1 = (Ok y1, d12)" by auto
  from report_step[OF assms(7)] assms(3) obtain m2 where
    m2: "newReport L r ov m = Ok m2" "writeNode B L m2 d = (Ok y2, d2)" by auto
  have reports: "nd_report m12 = nd_report m2" using newReport_cong[OF same, of L r ov] m12(1) m2(1) by simp
  from writeNode_Ok[OF assms(1,2) m12(2)] obtain n where
    n: "node_Get B L d12 = Ok n" "entries (nd_desire n) = entries (nd_desire m12)" "entries (nd_report n) = entries (nd_report m12)"
    by blast
  from writeNode_Ok[OF assms(1,2) m2(2)] obtain n2 where
    n2: "node_Get B L d2 = Ok n2" "entries (nd_report n2) = entries (nd_report m2)" by blast
  from desire_stores[OF assms(1,2,8)] n2(1) obtain n' where
    n': "node_Get B L d21 = Ok n'" "entries (nd_desire n') = des" "entries (nd_report n') = entries (nd_report n2)" by auto
  show ?thesis using n n' n2(2) reports newReport_desire[OF m12(1)] n1(2) by auto
qed

section \<open>Updates of the properties\<close>

text \<open>The update is a read, the checks of the request, and a write with what was read.\<close>

lemma update_two_phases:
  assumes "node_Get B L d = Ok node" and "body = Ok delta" and "list_all (\<lambda>kv. isStringOrNil (snd kv)) delta"
  shows "UpdateNodeProperties B L key body d = patchProps B L key node delta d"
  using assms by (simp add: UpdateNodeProperties_def)

text \<open>
  C36. The write of an update decides the whole report: whatever the document is by then, it holds
  the report that was read when the request came, with the new properties, while the desired entries
  are the current ones. A report the engine stored in between is lost, until it reports again.
\<close>

theorem update_overwrites_reports:
  assumes "bolt_ok B" and "codec_ok L" and "patchProps B L key node delta d = (Ok new, d')"
  shows "\<exists>m n. node_Get B L d = Ok m \<and> node_Get B L d' = Ok n \<and>
    entries (nd_report n) = mput key (JObj new) (entries (nd_report node)) \<and> entries (nd_desire n) = entries (nd_desire m)"
proof -
  from assms(3) obtain x where r: "node_Report B L (mput key (JObj new) (entries (nd_report node))) True d = (Ok x, d')"
    by (auto simp: patchProps_def Let_def sbind_Ok_iff)
  from report_step[OF r] obtain m m' where m: "node_Get B L d = Ok m"
    "newReport L (mput key (JObj new) (entries (nd_report node))) True m = Ok m'" "writeNode B L m' d = (Ok x, d')" by blast
  from m(2) have m': "m' = m\<lparr>nd_report := Some (mput key (JObj new) (entries (nd_report node)))\<rparr>" by (auto simp: newReport_def)
  from writeNode_Ok[OF assms(1,2) m(3)] m(1) show ?thesis by (auto simp: m' entries_def)
qed

section \<open>Witnesses\<close>

theorem report_desire_commute_witness:
  "\<exists>n n'. node_Get mem_bolt unary_codec (snd (node_Report mem_bolt unary_codec [(''node'', JStr ''new'')] True
        (snd (node_Desire mem_bolt unary_codec [(''apps'', JNull)] True (stored sample_doc))))) = Ok n \<and>
     node_Get mem_bolt unary_codec (snd (node_Desire mem_bolt unary_codec [(''apps'', JNull)] True
        (snd (node_Report mem_bolt unary_codec [(''node'', JStr ''new'')] True (stored sample_doc))))) = Ok n' \<and>
     entries (nd_desire n) = entries (nd_desire n') \<and> entries (nd_report n) = entries (nd_report n')"
proof -
  have "entries (nd_report sample_doc) \<noteq> []" by (simp add: sample_doc_def entries_def)
  from report_desire_commute[OF mem_bolt_ok unary_codec_ok mem_get this mem_desire mem_report mem_report mem_desire]
  show ?thesis by (simp add: mem_desire mem_report)
qed

text \<open>The engine reports between the read and the write of an update.\<close>

theorem update_overwrites_reports_witness:
  "\<exists>n. node_Get mem_bolt unary_codec (snd (patchProps mem_bolt unary_codec ''p'' sample_doc [(''k'', JStr ''v'')]
        (snd (node_Report mem_bolt unary_codec [(''node'', JStr ''new'')] True (stored sample_doc))))) = Ok n \<and>
     mget (entries (nd_report n)) ''node'' = Some (JStr ''old'')"
proof -
  define d where "d = stored (sample_doc\<lparr>nd_report := Some [(''node'', JStr ''new'')]\<rparr>)"
  have p: "so_patch unary_codec [] [(''k'', JStr ''v'')] = Ok [(''k'', JStr ''v'')]"
    by (simp add: unary_codec_def)
  have old: "entries (nd_report sample_doc) = [(''node'', JStr ''old'')]" by (simp add: sample_doc_def entries_def)
  have "\<exists>d'. patchProps mem_bolt unary_codec ''p'' sample_doc [(''k'', JStr ''v'')] d = (Ok [(''k'', JStr ''v'')], d')"
    unfolding d_def by (simp add: patchProps_def propsOf_def p mem_report old)
  then obtain d' where w: "patchProps mem_bolt unary_codec ''p'' sample_doc [(''k'', JStr ''v'')] d = (Ok [(''k'', JStr ''v'')], d')"
    by blast
  from update_overwrites_reports[OF mem_bolt_ok unary_codec_ok w] w show ?thesis
    by (auto simp: mem_report old d_def[symmetric])
qed

end
