(* ===== verification/Services.thy ===== *)
theory Services
  imports Ami_Registry Native
begin

text \<open>
  The system services of the node: the commands that control them (\<^verbatim>\<open>cmd/service.go\<close>) and the program
  that each service runs (\<^verbatim>\<open>program/program.go\<close>, \<^verbatim>\<open>program/run.go\<close>). The service manager, the executable
  search and the operating system's processes are arguments.
\<close>

section \<open>Controlling services\<close>

text \<open>
  \<open>sc_new\<close> and \<open>sc_control\<close> are the service library with the state of the service manager; the action
  is start, stop or restart, or the one given on the command line.
\<close>

record 'x service_lib =
  sc_new :: "string \<Rightarrow> 'x \<Rightarrow> unit result"
  sc_control :: "string \<Rightarrow> string \<Rightarrow> 'x \<Rightarrow> unit result \<times> 'x"

definition controlService :: "'x service_lib \<Rightarrow> string \<Rightarrow> string \<Rightarrow> 'x \<Rightarrow> unit result \<times> 'x" where
  "controlService L action name x = sbind (sc_new L name x, x) (\<lambda>_ x. sc_control L action name x)"

text \<open>The exit status of the process: an error is printed and exits with 1.\<close>

definition exitStatus :: "'r result \<times> 'x \<Rightarrow> nat \<times> 'x" where
  "exitStatus rx = (case fst rx of Ok _ \<Rightarrow> 0 | Err _ \<Rightarrow> 1 | Panic _ \<Rightarrow> 2, snd rx)"

definition checkServiceName :: "string list \<Rightarrow> unit result" where
  "checkServiceName args = (if args = [] then Err ''requires service name, please input service name'' else Ok ())"

text \<open>Of the first two arguments of the command itself; \<^verbatim>\<open>MinimumNArgs(2)\<close> has checked their number.\<close>

definition serviceCmd :: "'x service_lib \<Rightarrow> string list \<Rightarrow> 'x \<Rightarrow> nat \<times> 'x" where
  "serviceCmd L args x =
     (case args of action # name # _ \<Rightarrow> exitStatus (controlService L action name x) | _ \<Rightarrow> (2, x))"

definition namedCmd :: "'x service_lib \<Rightarrow> string \<Rightarrow> string list \<Rightarrow> 'x \<Rightarrow> nat \<times> 'x" where
  "namedCmd L action args x =
     (case args of name # _ \<Rightarrow> exitStatus (controlService L action name x) | [] \<Rightarrow> exitStatus (checkServiceName args, x))"

definition restartSvc :: "'x service_lib \<Rightarrow> string \<Rightarrow> 'x \<Rightarrow> unit result \<times> 'x" where
  "restartSvc L name = controlService L ''restart'' name"

section \<open>All services\<close>

text \<open>
  The statistics of the two namespaces, system first: the errors are dropped, what came with them is
  kept. \<open>sa_stats\<close> is \<^verbatim>\<open>StatsApps\<close> of the platform of the mode, made with a nil store.
\<close>

record ('x, 'c, 's, 'i) all_env =
  sa_logger :: "unit result"
  sa_defaults :: "'c result"
  sa_mode :: string
  sa_stats :: "'i \<Rightarrow> string \<Rightarrow> 'x \<Rightarrow> (app_stats list \<times> string option) \<times> 'x"
  sa_systemNs :: string
  sa_edgeNs :: string
  sa_rng :: "(string, instance_stats) gomap \<Rightarrow> (string, instance_stats) gomap"

definition allStats :: "('x, 'c, 's, 'i) all_env \<Rightarrow> 'i \<Rightarrow> 'x \<Rightarrow> app_stats list \<times> 'x" where
  "allStats A am x =
     (let ((sys, _), x) = sa_stats A am (sa_systemNs A) x;
          ((user, _), x) = sa_stats A am (sa_edgeNs A) x
      in (sys @ user, x))"

text \<open>The names of the instances that are children of the init process.\<close>

definition topLevel :: "((string, instance_stats) gomap \<Rightarrow> (string, instance_stats) gomap) \<Rightarrow> app_stats list \<Rightarrow> string list" where
  "topLevel rng stats =
     concat (map (\<lambda>a. map (is_name \<circ> snd) (filter (\<lambda>i. is_ppid (snd i) = 1)
       (rng (case as_instances a of Some m \<Rightarrow> m | None \<Rightarrow> [])))) stats)"

text \<open>The loop: an error is logged, and the last one is what the deferred function prints.\<close>

fun restartEach :: "'x service_lib \<Rightarrow> string list \<Rightarrow> unit result \<Rightarrow> 'x \<Rightarrow> unit result \<times> 'x" where
  "restartEach L [] err x = (err, x)"
| "restartEach L (n # ns) err x =
     (case restartSvc L n x of (Panic p, x) \<Rightarrow> (Panic p, x) | (r, x) \<Rightarrow> restartEach L ns r x)"

definition restartAll :: "('x, 'c, 's, 'i) all_env \<Rightarrow> 'x service_lib \<Rightarrow> ('c, 's, 'i) registry \<times> 'x \<Rightarrow>
    unit result \<times> (('c, 's, 'i) registry \<times> 'x)" where
  "restartAll A L w =
     sbind (sa_logger A, w) (\<lambda>_ w.
     sbind (sa_defaults A, w) (\<lambda>cfg (R, x).
     let (r, R) = NewAMI (sa_mode A) cfg None R
     in sbind (r, (R, x)) (\<lambda>am (R, x).
        let (stats, x) = allStats A am x; (r, x) = restartEach L (topLevel (sa_rng A) stats) (Ok ()) x
        in (r, (R, x)))))"

text \<open>The names that \<^verbatim>\<open>list\<close> prints.\<close>

definition listAll :: "('x, 'c, 's, 'i) all_env \<Rightarrow> ('c, 's, 'i) registry \<times> 'x \<Rightarrow>
    string list result \<times> (('c, 's, 'i) registry \<times> 'x)" where
  "listAll A w =
     sbind (sa_logger A, w) (\<lambda>_ w.
     sbind (sa_defaults A, w) (\<lambda>cfg (R, x).
     let (r, R) = NewAMI (sa_mode A) cfg None R
     in sbind (r, (R, x)) (\<lambda>am (R, x).
        let (stats, x) = allStats A am x in (Ok (topLevel (sa_rng A) stats), (R, x)))))"

section \<open>The program of a service\<close>

record command_line =
  cl_path :: string
  cl_args :: "string list"
  cl_dir :: string
  cl_env :: "string list"

definition programCommand :: "bool \<Rightarrow> (string \<Rightarrow> string result) \<Rightarrow> string list \<Rightarrow> prg_config \<Rightarrow> command_line result" where
  "programCommand windows lookPath environ cfg =
     rbind (lookPath (pc_exec cfg)) (\<lambda>full.
       let env = environ @ pc_env cfg
       in Ok (if windows \<and> contains full ''.py'' then \<lparr>cl_path = ''python'', cl_args = [full], cl_dir = [], cl_env = env\<rparr>
              else if windows \<and> contains full ''.js'' then \<lparr>cl_path = ''node'', cl_args = [full], cl_dir = [], cl_env = env\<rparr>
              else \<lparr>cl_path = full, cl_args = pc_args cfg, cl_dir = pc_dir cfg, cl_env = env\<rparr>))"

text \<open>
  The process of the service: whether its exit channel is closed, whether its child runs, and how it
  ended. Closing the channel a second time is a panic; otherwise the process exits with 0.
\<close>

datatype proc_end = Running | Exited nat | Crashed

record program_state =
  ps_exitClosed :: bool
  ps_child :: bool
  ps_end :: proc_end

definition program_Stop :: "program_state \<Rightarrow> program_state" where
  "program_Stop p =
     (if ps_end p \<noteq> Running then p
      else if ps_exitClosed p then p\<lparr>ps_end := Crashed\<rparr>
      else p\<lparr>ps_exitClosed := True, ps_child := False, ps_end := Exited 0\<rparr>)"

text \<open>The goroutine: the child runs to its end, however it ends, and the deferred \<^verbatim>\<open>Stop\<close> follows.\<close>

definition program_run :: "unit result \<Rightarrow> program_state \<Rightarrow> program_state" where
  "program_run r p = program_Stop (p\<lparr>ps_child := False\<rparr>)"

definition program_Start :: "bool \<Rightarrow> (string \<Rightarrow> string result) \<Rightarrow> string list \<Rightarrow> prg_config \<Rightarrow> program_state \<Rightarrow>
    command_line result \<times> program_state" where
  "program_Start windows lookPath environ cfg p =
     sbind (programCommand windows lookPath environ cfg, p) (\<lambda>c p. (Ok c, p\<lparr>ps_child := True\<rparr>))"

record run_lib =
  rn_chdir :: "string \<Rightarrow> unit result"
  rn_load :: "prg_config result"             \<comment> \<open>\<^verbatim>\<open>service.yml\<close> of the working directory\<close>
  rn_new :: "string \<times> string \<times> string \<Rightarrow> unit result"
  rn_service :: "unit result"

text \<open>Where the output goes: standard output or the rotated file.\<close>

definition program_log :: "prg_config \<Rightarrow> string option" where
  "program_log cfg = (if pc_logFile cfg \<noteq> [] then Some (pc_logFile cfg) else None)"

definition program_Run :: "run_lib \<Rightarrow> bool \<Rightarrow> string \<Rightarrow> (prg_config \<times> string option) result" where
  "program_Run L windows wd =
     rbind (if windows then rn_chdir L wd else Ok ()) (\<lambda>_.
     rbind (rn_load L) (\<lambda>cfg.
     rbind (rn_new L (pc_name cfg, pc_displayName cfg, pc_description cfg)) (\<lambda>_.
     rbind (rn_service L) (\<lambda>_. Ok (cfg, program_log cfg)))))"

definition programCmd :: "run_lib \<Rightarrow> bool \<Rightarrow> string list \<Rightarrow> (prg_config \<times> string option) result" where
  "programCmd L windows args =
     (if windows then case args of wd # _ \<Rightarrow> program_Run L True wd | [] \<Rightarrow> Panic ''index out of range''
      else program_Run L False [])"

section \<open>What the commands and the program do\<close>

lemma restartEach_all:
  assumes "\<And>n x p. fst (restartSvc L n x) \<noteq> Panic p"
  shows "snd (restartEach L ns err x) = fold (\<lambda>n x. snd (restartSvc L n x)) ns x"
proof (induction ns arbitrary: err x)
  case (Cons n ns)
  obtain r x' where r: "restartSvc L n x = (r, x')" by (rule prod.exhaust)
  have "r \<noteq> Panic p" for p using assms[of n x p] r by simp
  with r Cons show ?case by (cases r) auto
qed simp

text \<open>
  Restarting all services tries every one: each instance of the two namespaces whose process is a
  child of init is restarted, system services first, one after the other, whatever happens to those
  before it.
\<close>

theorem restart_all_tries_every:
  assumes "sa_logger A = Ok ()" and "sa_defaults A = Ok cfg" and "NewAMI (sa_mode A) cfg None R = (Ok am, R')"
    and "allStats A am x = (stats, x')" and "\<And>n y p. fst (restartSvc L n y) \<noteq> Panic p"
  shows "snd (restartAll A L (R, x)) =
    (R', fold (\<lambda>n y. snd (restartSvc L n y)) (topLevel (sa_rng A) stats) x')"
  using assms(1-4) restartEach_all[OF assms(5)] by (simp add: restartAll_def split_beta)

text \<open>A program that fails ends its service as one that succeeds: with status 0.\<close>

lemma program_ends_zero:
  "ps_end p = Running \<Longrightarrow> \<not> ps_exitClosed p \<Longrightarrow> program_run r p = \<lparr>ps_exitClosed = True, ps_child = False, ps_end = Exited 0\<rparr>"
  by (simp add: program_run_def program_Stop_def)

text \<open>On Windows a script is started without its arguments and outside its directory.\<close>

lemma windows_script_bare:
  "contains full ''.py'' \<Longrightarrow> lookPath (pc_exec cfg) = Ok full \<Longrightarrow>
   programCommand True lookPath environ cfg = Ok \<lparr>cl_path = ''python'', cl_args = [full], cl_dir = [], cl_env = environ @ pc_env cfg\<rparr>"
  by (simp add: programCommand_def Let_def)

text \<open>A file below a directory, by plain names.\<close>

lemma canonical_Joins:
  assumes "canonical d cs" and "plain ns" and "cs \<noteq> []" and "ns \<noteq> []"
  shows "Join (d # ns) = d @ ''/'' @ join ''/'' ns"
proof -
  have d: "d = slash # join ''/'' cs" "plain cs" using assms(1) by (simp_all add: canonical_def)
  have join2: "join ''/'' (xs @ ys) = join ''/'' xs @ ''/'' @ join ''/'' ys" if "xs \<noteq> []" "ys \<noteq> []" for xs ys :: "string list"
    using that
  proof (induction xs)
    case (Cons x xs)
    then show ?case by (cases "xs = []") (simp_all add: join_Cons)
  qed simp
  have p: "join ''/'' (d # ns) = slash # join ''/'' (cs @ ns)"
    using assms(3,4) by (simp add: join_Cons d(1) join2)
  have "plain (cs @ ns)" using d(2) assms(2) by (auto simp: plain_def)
  note comps = comps_render[OF this]
  have "Join (d # ns) = Clean (slash # join ''/'' (cs @ ns))"
    unfolding p[symmetric] using d(1) by (simp only: Join.simps) simp
  also have "\<dots> = slash # join ''/'' (cs @ ns)"
    using comps by (simp add: Clean_abs IsAbs_iff)
  finally show ?thesis using assms(3,4) by (simp add: d(1) join2)
qed

text \<open>
  The log of a program is found: the file a service instance of the native platform writes its
  output to is the one the platform reads for the name it reports of that instance, provided no
  part of the name contains a dot or a slash.
\<close>

theorem program_log_found:
  assumes "canonical (ne_log NE) cs" and "cs \<noteq> []" and "plain [ns, app_name app, app_version app]"
    and "slash \<notin> set (svc_name s @ i)"
    and "CHR ''.'' \<notin> set (ns @ app_name app @ app_version app @ svc_name s @ i)"
  shows "native_logPath NE (pc_name (programConfig NE ns app s i insDir exec env logger)) =
    Ok (the (program_log (programConfig NE ns app s i insDir exec env logger)))"
proof -
  have pl: "plain [ns, app_name app, app_version app, svc_name s @ ''-'' @ i @ ''.log'']"
    using assms(3,4) by (auto simp: plain_def)
  have logFile: "pc_logFile (programConfig NE ns app s i insDir exec env logger) =
      ne_log NE @ ''/'' @ join ''/'' [ns, app_name app, app_version app, svc_name s @ ''-'' @ i @ ''.log'']"
    using canonical_Joins[OF assms(1) pl assms(2)] by (simp add: programConfig_def)
  have "native_logPath NE (pc_name (programConfig NE ns app s i insDir exec env logger)) =
      Ok (ne_log NE @ ''/'' @ join ''/'' [ns, app_name app, app_version app, svc_name s @ ''-'' @ i @ ''.log''])"
    using assms(5)
    by (simp add: native_logPath_def programConfig_def genServiceInstanceName_def split_append_sep split_free)
  then show ?thesis using logFile by (simp add: program_log_def)
qed

section \<open>Witnesses\<close>

text \<open>A service manager that records what it restarts and fails for one service.\<close>

definition recorder :: "string list service_lib" where
  "recorder = \<lparr>sc_new = (\<lambda>_ _. Ok ()),
     sc_control = (\<lambda>action n x. (if n = ''bad'' then Err ''restart'' else Ok (), x @ [n]))\<rparr>"

definition instanceOf :: "string \<Rightarrow> int \<Rightarrow> string \<times> instance_stats" where
  "instanceOf n ppid = (n, zero_instance_stats\<lparr>is_name := n, is_ppid := ppid\<rparr>)"

definition two_spaces :: "(string list, unit, nat, nat) all_env" where
  "two_spaces = \<lparr>sa_logger = Ok (), sa_defaults = Ok (), sa_mode = ''native'',
     sa_stats = (\<lambda>_ ns x. (([zero_app_stats\<lparr>as_instances := Some (if ns = ''sys'' then [instanceOf ''bad'' 1, instanceOf ''kid'' 7]
       else [instanceOf ''app'' 1])\<rparr>], None), x)),
     sa_systemNs = ''sys'', sa_edgeNs = ''edge'', sa_rng = (\<lambda>m. m)\<rparr>"

theorem restart_all_tries_every_witness:
  "snd (restartAll two_spaces recorder (\<lparr>rg_news = [(''native'', \<lambda>_ _. Ok 5)], rg_impls = []\<rparr>, [])) =
     (\<lparr>rg_news = [(''native'', \<lambda>_ _. Ok 5)], rg_impls = [(''native'', 5)]\<rparr>, [''bad'', ''app''])"
proof -
  have np: "fst (restartSvc recorder n y) \<noteq> Panic p" for n y p
    by (simp add: restartSvc_def controlService_def recorder_def)
  have st: "allStats two_spaces 5 [] =
      ([zero_app_stats\<lparr>as_instances := Some [instanceOf ''bad'' 1, instanceOf ''kid'' 7]\<rparr>,
        zero_app_stats\<lparr>as_instances := Some [instanceOf ''app'' 1]\<rparr>], [])"
    by (simp add: allStats_def two_spaces_def)
  have "fold (\<lambda>n y. snd (restartSvc recorder n y)) (topLevel (sa_rng two_spaces)
      [zero_app_stats\<lparr>as_instances := Some [instanceOf ''bad'' 1, instanceOf ''kid'' 7]\<rparr>,
       zero_app_stats\<lparr>as_instances := Some [instanceOf ''app'' 1]\<rparr>]) [] = [''bad'', ''app'']"
    by (simp add: topLevel_def two_spaces_def instanceOf_def restartSvc_def controlService_def recorder_def)
  with restart_all_tries_every[OF _ _ _ st np, where R = "\<lparr>rg_news = [(''native'', \<lambda>_ _. Ok 5)], rg_impls = []\<rparr>" and cfg = "()"]
  show ?thesis by (simp add: NewAMI_def two_spaces_def)
qed

theorem program_log_found_witness:
  "native_logPath plain_env ''ns.shop.1.web.1'' =
     Ok (the (program_log (programConfig plain_env ''ns'' (zero_application\<lparr>app_name := ''shop'', app_version := ''1''\<rparr>)
       (zero_service\<lparr>svc_name := ''web''\<rparr>) ''1'' ''/run'' ''/bin/web'' [] [])))"
proof -
  have "canonical (ne_log plain_env) [''log'']" "[''log''] \<noteq> []"
    by (simp_all add: canonical_def plain_def plain_env_def)
  from program_log_found[OF this, of "''ns''" "zero_application\<lparr>app_name := ''shop'', app_version := ''1''\<rparr>"
      "zero_service\<lparr>svc_name := ''web''\<rparr>" "''1''" "''/run''" "''/bin/web''" "[]" "[]"]
  show ?thesis by (simp add: plain_def programConfig_def genServiceInstanceName_def)
qed

text \<open>The log of an application with a dot in its name is not found, although it is written.\<close>

lemma dotted_log_lost: "native_logPath plain_env ''ns.my.shop.1.web.1'' = Err ''log path error''"
  by code_simp

end
