(* ===== verification/Engine_Converge.thy ===== *)
theory Engine_Converge
  imports System
begin

text \<open>
  What a round of the engine (\<^verbatim>\<open>engine/engine.go\<close>) asks of the platform: the stored applications sit
  under their own names and versions, and a round that ends without an error has made exactly the
  calls the plan demands, one deletion per application that is reported and not desired, one
  application of each desired version that is not reported. The platform is an arbitrary one whose
  calls are logged; what it makes of an accepted call is the matter of the theories Kube and Native.
\<close>

section \<open>Applications sit under their own keys\<close>

definition ownKey :: "env \<Rightarrow> string \<Rightarrow> application \<Rightarrow> bool" where
  "ownKey E k app \<longleftrightarrow> k \<noteq> [] \<and> k = app_key E (app_name app) (app_version app) \<and> CHR ''-'' \<notin> set (app_version app)"

definition filed :: "env \<Rightarrow> 's store_ops \<Rightarrow> 's \<Rightarrow> bool" where
  "filed E S s \<longleftrightarrow> (\<forall>k app. b_get (st_app S) s k = Ok app \<longrightarrow> ownKey E k app)"

lemma same_keys: "sync_makeKey = MakeKey"
  by (intro ext) (simp add: MakeKey_def sync_makeKey_def)

lemma mput_member: "kv \<in> set (mput k v m) \<Longrightarrow> kv = (k, v) \<or> kv \<in> set m"
  by (induction m) (auto split: if_splits)

text \<open>The cloud numbers versions: no application it delivers has a dash in its version.\<close>

definition plain_versions :: "'n link_ops \<Rightarrow> bool" where
  "plain_versions lk \<longleftrightarrow> (\<forall>c rs r app. lk_values lk c = Ok rs \<longrightarrow> r \<in> set rs \<longrightarrow> rv_app r = Some app \<longrightarrow>
     CHR ''-'' \<notin> set (app_version app))"

text \<open>Then the key tells which application is read.\<close>

lemma filed_lookup:
  assumes "filed E S s" and "b_get (st_app S) s (app_key E n v) = Ok app" and "CHR ''-'' \<notin> set v"
  shows "app_name app = n \<and> app_version app = v"
proof -
  from assms(1,2) have "ownKey E (app_key E n v) app" by (simp add: filed_def)
  then have k: "app_key E n v = app_key E (app_name app) (app_version app)" "app_key E n v \<noteq> []"
    "CHR ''-'' \<notin> set (app_version app)" unfolding ownKey_def by blast+
  from utils_key.mk_inj[OF k(1,2) assms(3) k(3)] show ?thesis by simp
qed

lemma storeApplication_filed:
  assumes "store_ok S" and "filed E S s" and "CHR ''-'' \<notin> set (app_version app)"
  shows "filed E S (snd (storeApplication E S app s))"
proof -
  define key where "key = app_key E (app_name app) (app_version app)"
  have "ownKey E k x" if "key \<noteq> []" "b_get (st_app S) (snd (b_upsert (st_app S) key app s)) k = Ok x" for k x
  proof (cases "k = key")
    case False
    with that(2) assms(1,2) show ?thesis by (simp add: store_ok_def bucket_upsert_other filed_def)
  next
    case True
    obtain r t where u: "b_upsert (st_app S) key app s = (r, t)" by (rule prod.exhaust)
    from assms(1) have b: "bucket_ok (st_app S)" by (simp add: store_ok_def)
    show ?thesis
    proof (cases "r = Ok ()")
      case True
      with u b bucket_upsert_get[of "st_app S"] that \<open>k = key\<close> assms(3) show ?thesis
        by (simp add: ownKey_def key_def)
    next
      case False
      with u b have "t = s" unfolding bucket_ok_def by blast
      with u that(2) assms(2) show ?thesis by (simp add: filed_def)
    qed
  qed
  with assms(2) show ?thesis
    by (simp add: storeApplication_def Let_def same_keys key_def[symmetric] filed_def)
qed

lemma processApp_filed:
  assumes "store_ok S" and "filed E S (ss_store st)" and "CHR ''-'' \<notin> set (app_version app)"
  shows "filed E S (ss_store (snd (processApp E osys dl S path configs secrets app st)))"
  unfolding processApp_def
proof (rule sbind_inv[where I = "\<lambda>st. filed E S (ss_store st)"])
  show "filed E S (ss_store (snd (processVolumes E osys dl S path configs secrets (app_volumes app) st)))"
    using assms(2) by (simp add: filed_def processVolumes_app[OF assms(1)])
qed (simp add: onStore_state storeApplication_filed assms(1,3))

text \<open>The applications a synchronisation has taken are the ones of the answer.\<close>

lemma takeApp_only:
  assumes "rfor takeApp rs a0 = Ok a" and "(n, app) \<in> set (av_apps a)"
  shows "(n, app) \<in> set (av_apps a0) \<or> (\<exists>r \<in> set rs. rv_app r = Some app)"
  using assms
proof (induction rs arbitrary: a0)
  case (Cons r rs)
  then obtain a1 where a1: "takeApp r a0 = Ok a1" "rfor takeApp rs a1 = Ok a" by (auto simp: rbind_Ok_iff)
  then obtain x where x: "rv_app r = Some x" "av_apps a1 = mput (app_name x) x (av_apps a0)"
    by (auto simp: takeApp_def split: option.splits)
  from Cons.IH[OF a1(2) Cons.prems(2)] x show ?case
    by (auto dest: mput_member)
qed simp

lemma SyncResource_filed:
  fixes st :: "('s, 'n) sync_state"
  assumes "store_ok S" and "plain_versions lk" and "range_ok rngA" and "filed E S (ss_store st)"
  shows "filed E S (ss_store (snd (SyncResource E osys dl lk S path rngI rngA info st)))"
proof -
  note bind = sbind_inv[where I = "\<lambda>st. filed E S (ss_store st)"]
  have plain: "CHR ''-'' \<notin> set (app_version app)"
    if "onNet (syncResourceValues E lk infos) s0 = (Ok rs, s1)" "rfor takeApp rs \<lparr>av_apps = [], av_refs = ([], [])\<rparr> = Ok a"
      "(m, app) \<in> set (rngA (av_apps a))" for infos rs a m app and s0 s1 :: "('s, 'n) sync_state"
  proof -
    from that(3) assms(3) have "(m, app) \<in> set (av_apps a)" by (simp add: range_ok_set)
    from takeApp_only[OF that(2) this] obtain r where r: "r \<in> set rs" "rv_app r = Some app" by auto
    from that(1) have "rs = [] \<or> (\<exists>c. lk_values lk c = Ok rs)"
      by (auto simp: onNet_def syncResourceValues_def Let_def sbind_Ok_iff split: prod.splits if_splits)
    with r assms(2) show ?thesis unfolding plain_versions_def by auto
  qed
  show ?thesis unfolding SyncResource_def
    by (intro bind sfor_inv[where I = "\<lambda>st. filed E S (ss_store st)"] processApp_filed[OF assms(1)])
      (use assms(4) plain in auto)
qed

definition files_apps :: "('s, 'd, 'n, 'a) engine_params \<Rightarrow> bool" where
  "files_apps P \<longleftrightarrow> store_ok (en_ops (ep_store P)) \<and> custom_apart (ep_store P) \<and> plain_versions (ep_link P) \<and> range_ok (ep_rngA P)"

interpretation filed_apps: system_invariant "files_apps P" P "\<lambda>s d. filed (ep_env P) (en_ops (ep_store P)) s" for P
proof (unfold_locales, goal_cases)
  case (1 y d info)
  then show ?case by (simp add: files_apps_def SyncResource_filed)
next
  case (2 s d info cns)
  then have "custom_apart (ep_store P)" by (simp add: files_apps_def)
  with 2(2) show ?case unfolding filed_def by (simp only: recordCustom_apart)
next
  case (4 s d k)
  then have "bucket_frame (st_cfg (en_ops (ep_store P))) (st_app (en_ops (ep_store P)))"
    by (simp add: files_apps_def store_ok_def)
  with 4(2) show ?case by (simp add: filed_def bucket_frame_def)
qed simp_all

text \<open>
  C6. The store is in order over any run of the program: if no application the cloud delivers has a dash
  in its version (\<open>plain_versions\<close>) and every application of the store sits under its own name and
  version, so it does after any rounds, requests, cleanings and messages of the cloud, and a lookup by
  name and a version without a dash gives the application of that name and version.
\<close>

theorem apps_stay_filed:
  assumes "files_apps P" and "(system_step P)\<^sup>*\<^sup>* st st'" and "filed (ep_env P) (en_ops (ep_store P)) (storeOf st)"
  shows "filed (ep_env P) (en_ops (ep_store P)) (storeOf st') \<and>
    (\<forall>n v app. CHR ''-'' \<notin> set v \<longrightarrow> b_get (st_app (en_ops (ep_store P))) (storeOf st') (app_key (ep_env P) n v) = Ok app \<longrightarrow>
       app_name app = n \<and> app_version app = v)"
proof -
  have f: "filed (ep_env P) (en_ops (ep_store P)) (storeOf st')"
    using filed_apps.system_steps_hold[OF assms(2,1)] assms(3) by (simp add: holdsFor_def)
  show ?thesis
  proof (intro conjI f allI impI)
    fix n v app
    assume "CHR ''-'' \<notin> set v" and "b_get (st_app (en_ops (ep_store P))) (storeOf st') (app_key (ep_env P) n v) = Ok app"
    from filed_lookup[OF f this(2,1)] show "app_name app = n" "app_version app = v" by simp_all
  qed
qed

section \<open>The calls of the platform\<close>

text \<open>A call that changes the platform: the namespace, the application and whether it was accepted.\<close>

datatype call = ApplyCall string string string bool | DeleteCall string string bool

fun callName :: "call \<Rightarrow> string" where
  "callName (ApplyCall ns n v ok) = n"
| "callName (DeleteCall ns n ok) = n"

text \<open>A platform whose calls are written down beside its state.\<close>

definition logged :: "('a \<Rightarrow> unit result \<times> 'a) \<Rightarrow> (bool \<Rightarrow> call) \<Rightarrow> 'a \<times> call list \<Rightarrow> unit result \<times> ('a \<times> call list)" where
  "logged f c w = (let (r, a) = f (fst w) in (r, (a, snd w @ [c (r = Ok ())])))"

definition loggedAmi :: "'a ami_ops \<Rightarrow> ('a \<times> call list) ami_ops" where
  "loggedAmi A = \<lparr>am_nodeInfo = am_nodeInfo A \<circ> fst, am_nodeStats = am_nodeStats A \<circ> fst, am_modeInfo = am_modeInfo A \<circ> fst,
     am_stats = (\<lambda>ns w. am_stats A ns (fst w)),
     am_apply = (\<lambda>ns app cfgs secs. logged (am_apply A ns app cfgs secs) (ApplyCall ns (app_name app) (app_version app))),
     am_delete = (\<lambda>ns i. logged (am_delete A ns i) (DeleteCall ns (ai_name i))),
     am_log = (\<lambda>ns s c t n w. am_log A ns s c t n (fst w))\<rparr>"

text \<open>The log of the calls made so far, and those on one application.\<close>

abbreviation callsOf :: "('s, 'd, 'n, 'a \<times> call list) engine_state \<Rightarrow> call list" where
  "callsOf st \<equiv> snd (es_ami st)"

definition callsOn :: "string \<Rightarrow> call list \<Rightarrow> call list" where
  "callsOn n calls = filter (\<lambda>c. callName c = n) calls"

lemma callsOn_simps [simp]:
  "callsOn n [] = []" "callsOn n (xs @ ys) = callsOn n xs @ callsOn n ys"
  "callsOn n (c # cs) = (if callName c = n then c # callsOn n cs else callsOn n cs)"
  by (simp_all add: callsOn_def)

text \<open>One call for each entry of a list with distinct names is one call on each of the names.\<close>

lemma callsOn_deletes:
  assumes "distinct (map (\<lambda>kv. ai_name (snd kv)) xs)"
  shows "callsOn n (map (\<lambda>kv. DeleteCall ns (ai_name (snd kv)) ok) xs) =
    (if n \<in> (\<lambda>kv. ai_name (snd kv)) ` set xs then [DeleteCall ns n ok] else [])"
  using assms
proof (induction xs)
  case (Cons kv xs)
  then show ?case by auto
qed simp

lemma callsOn_all: "\<forall>c \<in> set cs. callName c = n \<Longrightarrow> callsOn m cs = (if m = n then cs else [])"
  by (induction cs) auto

section \<open>Applying one application\<close>

lemma prepareFor_same:
  assumes "prepareFor P app cfgs st = (Ok app', st')"
  shows "app_name app' = app_name app \<and> app_version app' = app_version app"
proof -
  obtain r x fs where p: "PrepareApp (ep_env P) (ep_os P) (ep_hostPath P) (ep_objectPath P) (Some app) cfgs
      (ss_fs (es_sync st)) = (r, (x, fs))" by (metis prod.exhaust)
  then have "\<exists>a. x = Some a \<and> app_name a = app_name app \<and> app_version a = app_version app"
    by (auto simp: PrepareApp_def Let_def split: prod.splits)
  with assms p show ?thesis by (auto simp: prepareFor_def Let_def rbind_Ok_iff)
qed

lemma withCert_same:
  assumes "withCert P app secs = Ok (app', secs')"
  shows "app_name app' = app_name app \<and> app_version app' = app_version app"
  using assms by (auto simp: withCert_def injectCert_def rbind_Ok_iff split: option.splits if_splits)

lemma sync_filed:
  assumes "files_apps P" and "filed (ep_env P) (en_ops (ep_store P)) (storeOf st)"
  shows "filed (ep_env P) (en_ops (ep_store P)) (ss_store (snd (SyncResource (ep_env P) (ep_os P) (ep_dl P) (ep_link P)
    (en_ops (ep_store P)) (ep_download P) (ep_rngI P) (ep_rngA P) info (es_sync st))))"
  using assms by (simp add: files_apps_def SyncResource_filed)

text \<open>
  What applying one application asks of the platform: one call that is accepted when it succeeds, and
  at most one that is refused when it does not.
\<close>

definition applyMade :: "string \<Rightarrow> app_info \<Rightarrow> unit result \<Rightarrow> call list \<Rightarrow> call list \<Rightarrow> bool" where
  "applyMade ns info r before after \<longleftrightarrow>
     (if r = Ok () then after = before @ [ApplyCall ns (ai_name info) (ai_version info) True]
      else after = before \<or> after = before @ [ApplyCall ns (ai_name info) (ai_version info) False])"

lemma prepared_same:
  assumes "filed E S s" and "b_get (st_app S) s (app_key E (ai_name info) (ai_version info)) = Ok app"
    and "CHR ''-'' \<notin> set (ai_version info)"
    and "prepareFor P app cfgs s2 = (Ok app', s3)" and "withCert P app' secs = Ok as"
  shows "app_name (fst as) = ai_name info \<and> app_version (fst as) = ai_version info"
  using filed_lookup[OF assms(1-3)] prepareFor_same[OF assms(4)] withCert_same[of P app' secs "fst as" "snd as"] assms(5)
  by simp

text \<open>A sequence that ends early where an invariant holds.\<close>

lemma sbind_ends:
  assumes "I (snd m)" and "\<And>r s. I s \<Longrightarrow> \<not> is_ok r \<Longrightarrow> Q (r, s)" and "\<And>x s. m = (Ok x, s) \<Longrightarrow> I s \<Longrightarrow> Q (k x s)"
  shows "Q (sbind m k)"
  using assms by (cases m; cases "fst m") auto

lemma applyApp_calls:
  fixes st :: "('s, 'd, 'n, 'a \<times> call list) engine_state"
  assumes "ep_ami P = loggedAmi A" and "files_apps P" and "filed (ep_env P) (en_ops (ep_store P)) (storeOf st)"
    and "CHR ''-'' \<notin> set (ai_version info)"
  shows "applyMade ns info (fst (applyApp P ns info st)) (callsOf st) (callsOf (snd (applyApp P ns info st)))"
proof -
  define I where "I s \<longleftrightarrow> callsOf s = callsOf st" for s :: "('s, 'd, 'n, 'a \<times> call list) engine_state"
  define Q where "Q p \<longleftrightarrow> applyMade ns info (fst p) (callsOf st) (callsOf (snd p))"
    for p :: "unit result \<times> ('s, 'd, 'n, 'a \<times> call list) engine_state"
  have sync: "filed (ep_env P) (en_ops (ep_store P)) (storeOf s1)"
    if "onSync (SyncResource (ep_env P) (ep_os P) (ep_dl P) (ep_link P) (en_ops (ep_store P)) (ep_download P)
      (ep_rngI P) (ep_rngA P) info) st = (r, s1)" for r s1
    using sync_filed[OF assms(2,3), of info] that by (auto simp: onSync_def split: prod.splits)
  have call: "I s \<Longrightarrow> app_name app = ai_name info \<and> app_version app = ai_version info \<Longrightarrow>
      Q (onAmi (am_apply (ep_ami P) ns app cfgs secs) s)" for s app cfgs secs
    by (simp add: I_def Q_def assms(1) applyMade_def loggedAmi_def logged_def onAmi_def split: prod.split)
  have fail: "I s \<Longrightarrow> \<not> is_ok r \<Longrightarrow> Q (r, s)" for r s
    by (auto simp: I_def Q_def applyMade_def)
  have "Q (applyApp P ns info st)"
    unfolding applyApp_def Let_def
  proof (rule sbind_ends[where I = I and Q = Q, OF _ fail])
    show "I (snd (onSync (SyncResource (ep_env P) (ep_os P) (ep_dl P) (ep_link P) (en_ops (ep_store P)) (ep_download P)
      (ep_rngI P) (ep_rngA P) info) st))" by (simp add: I_def)
  next
    fix x1 s1
    assume s1: "onSync (SyncResource (ep_env P) (ep_os P) (ep_dl P) (ep_link P) (en_ops (ep_store P)) (ep_download P)
      (ep_rngI P) (ep_rngA P) info) st = (Ok x1, s1)" and "I s1"
    note same = prepared_same[OF sync[OF s1] _ assms(4)]
    from \<open>I s1\<close> show "Q (sbind (b_get (st_app (en_ops (ep_store P))) (storeOf s1)
        (app_key (ep_env P) (ai_name info) (ai_version info)), s1) (\<lambda>app st.
      sbind (case customNsOf (ep_env P) app of
               None \<Rightarrow> (Ok (), st)
             | Some cns \<Rightarrow> onSync (onStore (recordCustom (ep_store P) info cns)) st) (\<lambda>_ st.
      sbind (rfor (loadVolume (ep_env P) (en_ops (ep_store P)) (storeOf st)) (app_volumes app) ([], []), st) (\<lambda>cs st.
      sbind (prepareFor P app (fst cs) st) (\<lambda>app st.
      sbind (withCert P app (snd cs), st) (\<lambda>as st.
      onAmi (am_apply (ep_ami P) ns (fst as) (fst cs) (snd as)) st))))))"
      by (intro sbind_ends[where I = I and Q = Q, OF _ fail] call)
        (auto simp: I_def dest: same split: option.split)
  qed
  then show ?thesis by (simp add: Q_def)
qed

section \<open>Deleting and applying the lists of a round\<close>

text \<open>A list of a plan: every entry sits under its own name, once.\<close>

definition plan_list :: "(string, app_info) gomap \<Rightarrow> bool" where
  "plan_list m \<longleftrightarrow> gomap m \<and> (\<forall>kv \<in> set m. ai_name (snd kv) = fst kv)"

lemma plan_list_names: "plan_list m \<Longrightarrow> distinct (map (\<lambda>kv. ai_name (snd kv)) m) \<and> (\<lambda>kv. ai_name (snd kv)) ` set m = keys m"
  by (auto simp: plan_list_def gomap_def cong: map_cong image_cong)

lemma plan_list_range:
  assumes "range_ok rng" and "plan_list m"
  shows "plan_list (rng m)" and "set (rng m) = set m"
  using assms range_ok_gomap[OF assms(1), of m] range_ok_set[OF assms(1), of m] by (auto simp: plan_list_def)

lemma plan_list_mdels: "plan_list m \<Longrightarrow> plan_list (mdels ks m)"
proof -
  assume m: "plan_list m"
  then have g: "gomap (mdels ks m)" by (simp add: plan_list_def)
  have "kv \<in> set m" if "kv \<in> set (mdels ks m)" for kv
  proof -
    from that g have "mget (mdels ks m) (fst kv) = Some (snd kv)" by (simp add: gomap_mget_iff)
    then have "mget m (fst kv) = Some (snd kv)" by (simp add: map_simps split: if_splits)
    with m show ?thesis by (simp add: plan_list_def gomap_mget_iff)
  qed
  with m g show ?thesis by (simp add: plan_list_def)
qed

lemma gomap_scanReport_update: "gomap u \<Longrightarrow> gomap (snd (fold scanReport rs (dl, u)))"
proof (induction rs arbitrary: dl u)
  case (Cons r rs)
  then show ?case by (simp split: option.split)
qed simp

lemma plan_lists:
  "plan_list (fst (getDeleteAndUpdate ds rs))" "plan_list (snd (getDeleteAndUpdate ds rs))"
proof -
  have g: "gomap (fst (getDeleteAndUpdate ds rs))" "gomap (snd (getDeleteAndUpdate ds rs))"
    using gomap_delete_list gomap_scanReport_update[of "fold planDesire ds []" rs "[]"]
    by (simp_all add: getDeleteAndUpdate_def gomap_planDesire split_beta Let_def)
  have "mget (fst (getDeleteAndUpdate ds rs)) k = Some v \<Longrightarrow> ai_name v = k" for k v
    by (auto simp: delete_list_mget dest: last_info_name split: if_splits)
  with g(1) show "plan_list (fst (getDeleteAndUpdate ds rs))" by (auto simp: plan_list_def gomap_mget_iff[symmetric])
  have "mget (snd (getDeleteAndUpdate ds rs)) k = Some v \<Longrightarrow> ai_name v = k" for k v
    by (auto simp: update_list_mget dest: last_info_name split: option.splits if_splits)
  with g(2) show "plan_list (snd (getDeleteAndUpdate ds rs))" by (auto simp: plan_list_def gomap_mget_iff[symmetric])
qed

lemma deleteEach_calls:
  assumes "ep_ami P = loggedAmi A" and "sfor (\<lambda>kv. onAmi (am_delete (ep_ami P) ns (snd kv))) xs st = (Ok (), st')"
  shows "storeOf st' = storeOf st \<and> callsOf st' = callsOf st @ map (\<lambda>kv. DeleteCall ns (ai_name (snd kv)) True) xs"
  using assms(2)
proof (induction xs arbitrary: st)
  case (Cons kv xs)
  then obtain s1 where s1: "onAmi (am_delete (ep_ami P) ns (snd kv)) st = (Ok (), s1)"
    "sfor (\<lambda>kv. onAmi (am_delete (ep_ami P) ns (snd kv))) xs s1 = (Ok (), st')"
    unfolding sfor_Cons_Ok by (elim exE conjE)
  from s1(1) have "storeOf s1 = storeOf st \<and> callsOf s1 = callsOf st @ [DeleteCall ns (ai_name (snd kv)) True]"
    by (auto simp: assms(1) onAmi_def loggedAmi_def logged_def split: prod.splits)
  with Cons.IH[OF s1(2)] show ?case by simp
qed simp

lemma deleteApps_calls:
  assumes "ep_ami P = loggedAmi A" and "range_ok (ep_rngU P)" and "plan_list del"
    and "deleteApps P ns del st = (Ok (), st')"
  shows "storeOf st' = storeOf st \<and> (\<exists>calls. callsOf st' = callsOf st @ calls \<and>
    (\<forall>n. callsOn n calls = (if n \<in> keys del then [DeleteCall ns n True] else [])))"
  using deleteEach_calls[OF assms(1) assms(4)[unfolded deleteApps_def]] callsOn_deletes[of "ep_rngU P del"]
    plan_list_range[OF assms(2,3)] plan_list_names[OF assms(3)] plan_list_names[OF plan_list_range(1)[OF assms(2,3)]] by simp

text \<open>An application that could not be applied: its statistics end with the error.\<close>

definition applyFailed :: "('s, 'd, 'n, 'a) engine_params \<Rightarrow> string \<Rightarrow> app_info \<Rightarrow> stats_map \<Rightarrow> bool" where
  "applyFailed P ns info stats \<longleftrightarrow>
     (\<exists>st e s c. fst (applyApp P ns info st) = Err e \<and> mget stats (ai_name info) = Some s \<and> as_cause s = c @ e)"

text \<open>What an attempt leaves, by name: the state of the platform and what is said of it.\<close>

lemma applyOne_Ok:
  assumes "applyOne P ns info w = (Ok (), w')"
  shows "snd w' = snd (applyApp P ns info (snd w)) \<and>
    (case fst (applyApp P ns info (snd w)) of
       Ok _ \<Rightarrow> fst w' = fst w
     | Err e \<Rightarrow> \<exists>s. fst w' = mput (ai_name info) (s\<lparr>as_cause := as_cause s @ e\<rparr>) (fst w) \<and>
         (\<forall>x. mget (fst w) (ai_name info) = Some x \<longrightarrow> s = x)
     | Panic _ \<Rightarrow> False)"
  using assms by (cases "applyApp P ns info (snd w)"; cases "fst (applyApp P ns info (snd w))")
    (auto simp: applyOne_def Let_def)

lemma applyOne_explained:
  assumes "applyOne P ns info w = (Ok (), w')" and "explained (fst w) n"
  shows "explained (fst w') n"
  using applyOne_Ok[OF assms(1)] assms(2) by (auto simp: explained_def map_simps split: result.splits) blast+

text \<open>What applying one entry leaves: the call was accepted, or the statistics end with the error.\<close>

definition applyLeft :: "('s, 'd, 'n, 'a) engine_params \<Rightarrow> string \<Rightarrow> app_info \<Rightarrow> stats_map \<Rightarrow> call list \<Rightarrow> bool" where
  "applyLeft P ns info stats calls \<longleftrightarrow>
     calls = [ApplyCall ns (ai_name info) (ai_version info) True] \<or>
     applyFailed P ns info stats \<and> (calls = [] \<or> calls = [ApplyCall ns (ai_name info) (ai_version info) False])"

lemma applyLeft_names: "applyLeft P ns info stats calls \<Longrightarrow> \<forall>c \<in> set calls. callName c = ai_name info"
  by (auto simp: applyLeft_def)

lemma applyLeft_stats:
  "mget stats' (ai_name info) = mget stats (ai_name info) \<Longrightarrow> applyLeft P ns info stats' calls = applyLeft P ns info stats calls"
  by (simp add: applyLeft_def applyFailed_def)

lemma applyOne_calls:
  assumes "ep_ami P = loggedAmi A" and "files_apps P" and "filed (ep_env P) (en_ops (ep_store P)) (storeOf (snd w))"
    and "CHR ''-'' \<notin> set (ai_version info)" and "applyOne P ns info w = (Ok (), w')"
  shows "filed (ep_env P) (en_ops (ep_store P)) (storeOf (snd w'))"
    and "\<exists>calls. callsOf (snd w') = callsOf (snd w) @ calls \<and> applyLeft P ns info (fst w') calls"
    and "n \<noteq> ai_name info \<Longrightarrow> mget (fst w') n = mget (fst w) n"
proof -
  note one = applyOne_Ok[OF assms(5)]
  show "filed (ep_env P) (en_ops (ep_store P)) (storeOf (snd w'))"
    using filed_apps.applyApp_holds[OF assms(2), of "snd w" ns info] assms(3) one by (simp add: holdsFor_def)
  obtain r st where a: "applyApp P ns info (snd w) = (r, st)" by (rule prod.exhaust)
  note made = applyApp_calls[OF assms(1-4), of ns, unfolded a fst_conv snd_conv]
  show "\<exists>calls. callsOf (snd w') = callsOf (snd w) @ calls \<and> applyLeft P ns info (fst w') calls"
  proof (cases r)
    case (Ok u)
    with a one made show ?thesis by (simp add: applyMade_def applyLeft_def)
  next
    case (Err e)
    with a one have "applyFailed P ns info (fst w')"
      unfolding applyFailed_def by (intro exI[of _ "snd w"] exI[of _ e]) (auto simp: map_simps)
    with Err a one made show ?thesis by (auto simp: applyMade_def applyLeft_def)
  next
    case (Panic p)
    with a one show ?thesis by simp
  qed
  show "mget (fst w') n = mget (fst w) n" if "n \<noteq> ai_name info"
    using that one by (auto simp: map_simps split: result.splits)
qed

text \<open>The list one by one, in any order.\<close>

lemma applyEach_calls:
  assumes "ep_ami P = loggedAmi A" and "files_apps P" and "filed (ep_env P) (en_ops (ep_store P)) (storeOf (snd w))"
    and "\<forall>kv \<in> set xs. CHR ''-'' \<notin> set (ai_version (snd kv))" and "distinct (map (\<lambda>kv. ai_name (snd kv)) xs)"
    and "sfor (\<lambda>kv. applyOne P ns (snd kv)) xs w = (Ok (), w')"
  shows "\<exists>calls. callsOf (snd w') = callsOf (snd w) @ calls \<and>
    (\<forall>kv \<in> set xs. applyLeft P ns (snd kv) (fst w') (callsOn (ai_name (snd kv)) calls)) \<and>
    (\<forall>n. n \<notin> (\<lambda>kv. ai_name (snd kv)) ` set xs \<longrightarrow> callsOn n calls = [] \<and> mget (fst w') n = mget (fst w) n) \<and>
    (\<forall>n. explained (fst w) n \<longrightarrow> explained (fst w') n)"
  using assms(3-6)
proof (induction xs arbitrary: w)
  case (Cons kv xs)
  then obtain w1 where w1: "applyOne P ns (snd kv) w = (Ok (), w1)" "sfor (\<lambda>kv. applyOne P ns (snd kv)) xs w1 = (Ok (), w')"
    unfolding sfor_Cons_Ok by (elim exE conjE)
  from Cons.prems(2) have v: "CHR ''-'' \<notin> set (ai_version (snd kv))" by simp
  note one = applyOne_calls[OF assms(1,2) Cons.prems(1) v w1(1)]
  from one(2) obtain c1 where c1: "callsOf (snd w1) = callsOf (snd w) @ c1" "applyLeft P ns (snd kv) (fst w1) c1" by blast
  note on1 = callsOn_all[OF applyLeft_names[OF c1(2)]]
  from Cons.prems(2,3) have "\<forall>kv \<in> set xs. CHR ''-'' \<notin> set (ai_version (snd kv))" "distinct (map (\<lambda>kv. ai_name (snd kv)) xs)"
    and fresh: "ai_name (snd kv) \<notin> (\<lambda>kv. ai_name (snd kv)) ` set xs" by auto
  from Cons.IH[OF one(1) this(1,2) w1(2)] obtain c2 where
    c2: "callsOf (snd w') = callsOf (snd w1) @ c2"
      "\<forall>kv \<in> set xs. applyLeft P ns (snd kv) (fst w') (callsOn (ai_name (snd kv)) c2)"
      "\<forall>n. n \<notin> (\<lambda>kv. ai_name (snd kv)) ` set xs \<longrightarrow> callsOn n c2 = [] \<and> mget (fst w') n = mget (fst w1) n"
      "\<forall>n. explained (fst w1) n \<longrightarrow> explained (fst w') n" by (elim exE conjE)
  have "applyLeft P ns (snd kv) (fst w') (callsOn (ai_name (snd kv)) (c1 @ c2))"
    using c2(3) fresh c1(2) applyLeft_stats[of "fst w'" "snd kv" "fst w1" P ns c1] by (simp add: on1)
  moreover have "applyLeft P ns (snd x) (fst w') (callsOn (ai_name (snd x)) (c1 @ c2))" if "x \<in> set xs" for x
  proof -
    from that fresh have "ai_name (snd x) \<noteq> ai_name (snd kv)" by (auto simp: image_iff)
    with c2(2) that show ?thesis by (simp add: on1)
  qed
  moreover have "callsOn n (c1 @ c2) = [] \<and> mget (fst w') n = mget (fst w) n"
    if "n \<notin> (\<lambda>kv. ai_name (snd kv)) ` set (kv # xs)" for n
    using that c2(3) one(3)[of n] by (simp add: on1)
  moreover have "explained (fst w') n" if "explained (fst w) n" for n
    using applyOne_explained[OF w1(1) that] c2(4) by blast
  ultimately show ?case using c1(1) c2(1) by (intro exI[of _ "c1 @ c2"]) simp
qed simp

section \<open>A whole round\<close>

lemma syncApps_state: "syncApps P dapps st = (r, st') \<Longrightarrow> storeOf st' = storeOf st \<and> es_ami st' = es_ami st"
  by (auto simp: syncApps_def onSync_def onNet_def split: prod.splits)

lemma reportStats_state:
  "reportAppStatsIfNeed P isSys c stats st = (r, st') \<Longrightarrow> storeOf st' = storeOf st \<and> es_ami st' = es_ami st"
proof (cases "stats = []")
  case False
  assume "reportAppStatsIfNeed P isSys c stats st = (r, st')"
  moreover obtain r1 s1 where n: "reportNode P (reportOf P isSys c (map named (ep_rngS P stats))) st = (r1, s1)"
    by (rule prod.exhaust)
  ultimately have "st' = s1" using False by (cases r1) (auto simp: reportAppStatsIfNeed_def)
  with n show ?thesis by (auto simp: reportNode_def onDb_def split: prod.splits)
qed (simp add: reportAppStatsIfNeed_def)

text \<open>What \<open>checkMultiAppPort\<close> leaves of the update list.\<close>

lemma check_update:
  assumes "checkMultiAppPort rng infos apps stats update = Ok (apps', stats', update')"
  shows "\<exists>ks. update' = mdels ks update \<and> (\<forall>n. mget update n \<noteq> None \<longrightarrow> n \<in> set ks \<longrightarrow> explained stats' n)"
proof -
  from assms obtain ks where u: "update' = mdels ks update"
    by (auto simp: checkMultiAppPort_def rbind_Ok_iff)
  have "explained stats' n" if "mget update n \<noteq> None" "n \<in> set ks" for n
    by (rule dropped_explained[OF assms that(1)]) (simp add: u that(2) map_simps)
  with u show ?thesis by blast
qed

text \<open>
  The steps of a round that deletes: the platform and the store are touched by the deletions and the
  applications only, and the round ends with the report of the statistics they left.
\<close>

lemma carryOut_Ok:
  assumes "carryOut P isSys True ns c ds rs st = (Ok (), st')"
  obtains apps sa apps' stats0 upd s1 s2 stats w where
    "syncApps P ds st = (Ok apps, sa)"
    "checkMultiAppPort (ep_rngP P) ds apps (fold (\<lambda>s. mput (as_name s) s) (co_appStats c) [])
       (snd (getDeleteAndUpdate ds rs)) = Ok (apps', stats0, upd)"
    "storeOf s1 = storeOf st" "es_ami s1 = es_ami st"
    "deleteApps P ns (fst (getDeleteAndUpdate ds rs)) s1 = (Ok (), s2)"
    "applyApps P ns upd (stats0, s2) = (Ok (), (stats, w))"
    "reportAppStatsIfNeed P isSys c stats w = (Ok (), st')"
proof -
  obtain del update where p: "getDeleteAndUpdate ds rs = (del, update)" by (rule prod.exhaust)
  define stats1 where "stats1 = fold (\<lambda>s. mput (as_name s) s) (co_appStats c) []"
  note run = assms[unfolded carryOut_def p Let_def prod.case if_True stats1_def[symmetric]]
  from run[unfolded sbind_Ok_iff[of "syncApps P ds st"]] obtain apps sa where
      sync: "syncApps P ds st = (Ok apps, sa)"
    and run: "sbind (checkMultiAppPort (ep_rngP P) ds apps stats1 update, sa) (\<lambda>(_, stats, update) st.
         sbind (reportAppStatsIfNeed P isSys c stats st) (\<lambda>_ st.
         sbind (deleteApps P ns del st) (\<lambda>_ st.
         case applyApps P ns update (stats, st) of
           (Ok _, (stats, st)) \<Rightarrow> reportAppStatsIfNeed P isSys c stats st
         | (Err e, (_, st)) \<Rightarrow> (Err e, st)
         | (Panic p, (_, st)) \<Rightarrow> (Panic p, st)))) = (Ok (), st')" by (elim exE conjE)
  from run[unfolded sbind_Ok_iff[of "(checkMultiAppPort (ep_rngP P) ds apps stats1 update, sa)"]]
  obtain apps' stats0 update' where
      check: "checkMultiAppPort (ep_rngP P) ds apps stats1 update = Ok (apps', stats0, update')"
    and run: "sbind (reportAppStatsIfNeed P isSys c stats0 sa) (\<lambda>_ st.
         sbind (deleteApps P ns del st) (\<lambda>_ st.
         case applyApps P ns update' (stats0, st) of
           (Ok _, (stats, st)) \<Rightarrow> reportAppStatsIfNeed P isSys c stats st
         | (Err e, (_, st)) \<Rightarrow> (Err e, st)
         | (Panic p, (_, st)) \<Rightarrow> (Panic p, st))) = (Ok (), st')" by auto
  from run[unfolded sbind_Ok_iff] obtain sc s2 where
      rep: "reportAppStatsIfNeed P isSys c stats0 sa = (Ok (), sc)"
    and del: "deleteApps P ns del sc = (Ok (), s2)"
    and fin: "(case applyApps P ns update' (stats0, s2) of
           (Ok _, (stats, st)) \<Rightarrow> reportAppStatsIfNeed P isSys c stats st
         | (Err e, (_, st)) \<Rightarrow> (Err e, st) | (Panic p, (_, st)) \<Rightarrow> (Panic p, st)) = (Ok (), st')"
    by (elim exE conjE) simp
  obtain r stats w where a: "applyApps P ns update' (stats0, s2) = (r, (stats, w))" by (metis prod.exhaust)
  with fin have fin': "r = Ok ()" "reportAppStatsIfNeed P isSys c stats w = (Ok (), st')" by (cases r; simp)+
  with that[of apps sa apps' stats0 update' sc s2 stats w] p sync check[unfolded stats1_def] syncApps_state[OF sync]
    reportStats_state[OF rep] del a show thesis by simp
qed

text \<open>
  The check of the host ports takes an application out of the update list of a round; what it decides by
  is the theorem \<open>host_ports_exclusive\<close>.
\<close>

definition portDropped :: "('s, 'd, 'n, 'a) engine_params \<Rightarrow> ('s, 'd, 'n, 'a) engine_state \<Rightarrow> collected \<Rightarrow>
    app_info list \<Rightarrow> app_info list \<Rightarrow> string \<Rightarrow> bool" where
  "portDropped P st c ds rs n \<longleftrightarrow>
     (\<exists>apps apps' stats upd. fst (syncApps P ds st) = Ok apps \<and>
        checkMultiAppPort (ep_rngP P) ds apps (fold (\<lambda>s. mput (as_name s) s) (co_appStats c) [])
          (snd (getDeleteAndUpdate ds rs)) = Ok (apps', stats, upd) \<and> mget upd n = None)"

lemma syncApps_same: "es_sync st = es_sync st' \<Longrightarrow> fst (syncApps P ds st) = fst (syncApps P ds st')"
  by (simp add: syncApps_def onSync_def Let_def split: prod.split)

text \<open>
  What a round is to ask of the platform for an application. What is desired and reported in its version is
  left alone. What is desired and not reported is dropped when it contends for a host port, and the
  statistics say so; otherwise it is applied once, in the desired version, and accepted, or the statistics
  end with the error. What is reported and not desired is deleted once, and nothing else is called.
\<close>

definition settled :: "('s, 'd, 'n, 'a) engine_params \<Rightarrow> ('s, 'd, 'n, 'a) engine_state \<Rightarrow> string \<Rightarrow> collected \<Rightarrow>
    app_info list \<Rightarrow> app_info list \<Rightarrow> stats_map \<Rightarrow> call list \<Rightarrow> string \<Rightarrow> bool" where
  "settled P st ns c ds rs stats calls n \<longleftrightarrow>
     (case last_info ds n of
        Some d \<Rightarrow>
          if \<exists>r \<in> set rs. ai_name r = n \<and> ai_version r = ai_version d then callsOn n calls = []
          else if portDropped P st c ds rs n then callsOn n calls = [] \<and> explained stats n
          else applyLeft P ns d stats (callsOn n calls)
      | None \<Rightarrow> callsOn n calls = (if n \<in> ai_name ` set rs then [DeleteCall ns n True] else []))"

lemma carryOut_settles:
  assumes "ep_ami P = loggedAmi A" and "files_apps P" and "range_ok (ep_rngU P)"
    and "filed (ep_env P) (en_ops (ep_store P)) (storeOf st)" and "\<forall>d \<in> set ds. CHR ''-'' \<notin> set (ai_version d)"
    and "carryOut P isSys True ns c ds rs st = (Ok (), st')"
  shows "\<exists>calls stats w. callsOf st' = callsOf st @ calls \<and> reportAppStatsIfNeed P isSys c stats w = (Ok (), st') \<and>
    (\<forall>n. settled P st ns c ds rs stats calls n)"
proof -
  obtain apps sa apps' stats0 up s1 s2 stats w where
      sync: "syncApps P ds st = (Ok apps, sa)"
    and check: "checkMultiAppPort (ep_rngP P) ds apps (fold (\<lambda>s. mput (as_name s) s) (co_appStats c) [])
       (snd (getDeleteAndUpdate ds rs)) = Ok (apps', stats0, up)"
    and s1: "storeOf s1 = storeOf st" "es_ami s1 = es_ami st"
    and del: "deleteApps P ns (fst (getDeleteAndUpdate ds rs)) s1 = (Ok (), s2)"
    and app: "applyApps P ns up (stats0, s2) = (Ok (), (stats, w))"
    and rep: "reportAppStatsIfNeed P isSys c stats w = (Ok (), st')" by (rule carryOut_Ok[OF assms(6)]) (rule that)
  have drop: "portDropped P st c ds rs n \<longleftrightarrow> mget up n = None" for n
    using sync check by (auto simp: portDropped_def)
  obtain ks where ks: "up = mdels ks (snd (getDeleteAndUpdate ds rs))" using check_update[OF check] by blast
  have up: "plan_list up" by (simp add: ks plan_list_mdels plan_lists)
  define wanted where "wanted n = (case last_info ds n of None \<Rightarrow> None
      | Some d \<Rightarrow> if \<exists>r \<in> set rs. ai_name r = n \<and> ai_version r = ai_version d then None else Some d)" for n
  have plan: "mget (snd (getDeleteAndUpdate ds rs)) n = wanted n" for n by (simp add: wanted_def plan_simps)
  have in_up: "mget up n = Some d \<Longrightarrow> wanted n = Some d" for n d
    by (simp add: ks map_simps plan split: if_splits)
  have in_del: "n \<in> keys (fst (getDeleteAndUpdate ds rs)) \<longleftrightarrow> n \<in> ai_name ` set rs - ai_name ` set ds" for n
    using mget_None_iff[of "fst (getDeleteAndUpdate ds rs)" n] last_info_None[of rs n] by (simp add: plan_simps split: if_splits)
  from deleteApps_calls[OF assms(1,3) plan_lists(1) del] s1 obtain c1 where s2: "storeOf s2 = storeOf st"
    "callsOf s2 = callsOf st @ c1"
    and c1: "\<And>n. callsOn n c1 = (if n \<in> ai_name ` set rs - ai_name ` set ds then [DeleteCall ns n True] else [])"
    unfolding in_del by auto
  have dashes: "\<forall>kv \<in> set (ep_rngU P up). CHR ''-'' \<notin> set (ai_version (snd kv))"
  proof
    fix kv assume "kv \<in> set (ep_rngU P up)"
    then have "mget up (fst kv) = Some (snd kv)" using plan_list_range[OF assms(3) up] up by (simp add: plan_list_def gomap_mget_iff)
    from in_up[OF this] have "snd kv \<in> set ds" by (auto simp: wanted_def dest: last_info_name split: if_splits option.splits)
    with assms(5) show "CHR ''-'' \<notin> set (ai_version (snd kv))" by blast
  qed
  have names: "distinct (map (\<lambda>kv. ai_name (snd kv)) (ep_rngU P up))" "(\<lambda>kv. ai_name (snd kv)) ` set (ep_rngU P up) = keys up"
    using plan_list_names[OF plan_list_range(1)[OF assms(3) up]] plan_list_names[OF up] plan_list_range(2)[OF assms(3) up] by auto
  have "filed (ep_env P) (en_ops (ep_store P)) (storeOf (snd (stats0, s2)))" using s2(1) assms(4) by simp
  from applyEach_calls[OF assms(1,2) this dashes names(1), of ns "(stats, w)", unfolded names(2) fst_conv snd_conv,
      OF app[unfolded applyApps_def]]
  obtain c2 where c2: "callsOf w = callsOf s2 @ c2"
      "\<forall>kv \<in> set (ep_rngU P up). applyLeft P ns (snd kv) stats (callsOn (ai_name (snd kv)) c2)"
      "\<forall>n. n \<notin> keys up \<longrightarrow> callsOn n c2 = [] \<and> mget stats n = mget stats0 n"
      "\<forall>n. explained stats0 n \<longrightarrow> explained stats n" by (elim exE conjE)
  have "settled P st ns c ds rs stats (c1 @ c2) n" for n
  proof (cases "last_info ds n")
    case None
    then have "mget up n = None" "n \<notin> ai_name ` set ds"
      using in_up[of n] last_info_None[of ds n] by (cases "mget up n"; simp add: wanted_def)+
    with c2(3) c1[of n] None show ?thesis by (simp add: settled_def mget_None_iff[symmetric])
  next
    case (Some d)
    then have "n \<in> ai_name ` set ds" by (metis last_info_None option.distinct(1))
    then have none: "callsOn n (c1 @ c2) = callsOn n c2" using c1[of n] by simp
    show ?thesis
    proof (cases "mget up n")
      case None
      then have "callsOn n c2 = []" using c2(3) by (simp add: mget_None_iff[symmetric])
      moreover have "explained stats n" if "\<not> (\<exists>r \<in> set rs. ai_name r = n \<and> ai_version r = ai_version d)"
      proof -
        from that Some have "mget (snd (getDeleteAndUpdate ds rs)) n \<noteq> None" by (auto simp: plan wanted_def)
        from dropped_explained[OF check this None] c2(4) show ?thesis by blast
      qed
      ultimately show ?thesis using Some none None by (simp add: settled_def drop)
    next
      case (Some d')
      with in_up[OF Some] \<open>last_info ds n = Some d\<close> have d: "d' = d"
        and rs: "\<not> (\<exists>r \<in> set rs. ai_name r = n \<and> ai_version r = ai_version d)"
        by (auto simp: wanted_def split: if_splits)
      from Some up have "(n, d') \<in> set (ep_rngU P up)" "ai_name d' = n"
        using plan_list_range[OF assms(3) up] by (auto simp: plan_list_def gomap_mget_iff)
      with c2(2) d have "applyLeft P ns d stats (callsOn n c2)" by fastforce
      with \<open>last_info ds n = Some d\<close> rs none Some show ?thesis by (auto simp: settled_def drop)
    qed
  qed
  moreover have "callsOf st' = callsOf st @ (c1 @ c2)" using reportStats_state[OF rep] c2(1) s2(2) by simp
  ultimately show ?thesis using rep by blast
qed

lemma serviceFilter_subset: "set (serviceFilter E xs) \<subseteq> set xs"
  by (auto simp: serviceFilter_def plan_simps dest: likeApp_member split: if_splits)

text \<open>
  When \<open>reportAndApply\<close> with deletion ends without an error and has read a delta, the calls it has made
  are those the delta and the reported applications of this process demand.
\<close>

lemma round_settles:
  assumes "ep_ami P = loggedAmi A" and "files_apps P" and "range_ok (ep_rngU P)"
    and "filed (ep_env P) (en_ops (ep_store P)) (storeOf st)"
    and "ns = (if isSys then e_systemNs (ep_env P) else e_edgeNs (ep_env P))" and "collect P ns (desire isSys) st = Ok c"
    and "reportNode P (reportOf P isSys c (co_appStats c)) st = (Ok delta, st1)" and "ep_deltaApps P isSys delta = Some dapps"
    and "\<forall>d \<in> set dapps. CHR ''-'' \<notin> set (ai_version d)"
    and "reportAndApply P isSys True desire st = (Ok (), st')"
  shows "\<exists>calls stats w. callsOf st' = callsOf st @ calls \<and> reportAppStatsIfNeed P isSys c stats w = (Ok (), st') \<and>
    (\<forall>n. settled P st ns c (serviceFilter (ep_env P) dapps) (serviceFilter (ep_env P) (co_apps c)) stats calls n)"
proof -
  from assms(7) have st1: "storeOf st1 = storeOf st" "es_ami st1 = es_ami st" "es_sync st1 = es_sync st"
    by (auto simp: reportNode_def onDb_def split: prod.splits)
  have run: "carryOut P isSys True ns c (serviceFilter (ep_env P) dapps) (serviceFilter (ep_env P) (co_apps c)) st1 = (Ok (), st')"
    using assms(10)[unfolded reportAndApply_def Let_def assms(5)[symmetric]] assms(6-8) by simp
  have "\<exists>calls stats w. callsOf st' = callsOf st1 @ calls \<and> reportAppStatsIfNeed P isSys c stats w = (Ok (), st') \<and>
      (\<forall>n. settled P st1 ns c (serviceFilter (ep_env P) dapps) (serviceFilter (ep_env P) (co_apps c)) stats calls n)"
    by (rule carryOut_settles[OF assms(1-3) _ _ run]) (use assms(4,9) st1 serviceFilter_subset[of "ep_env P" dapps] in auto)
  moreover have "settled P st1 ns c xs ys = settled P st ns c xs ys" for xs ys
  proof -
    have "portDropped P st1 c xs ys = portDropped P st c xs ys"
      using syncApps_same[of st1 st P xs] st1(3) by (simp add: portDropped_def fun_eq_iff)
    then show ?thesis by (intro ext) (simp only: settled_def)
  qed
  ultimately show ?thesis unfolding st1(2) by simp
qed

section \<open>A platform and a round on it\<close>

text \<open>A platform that keeps the version each application runs in.\<close>

definition versions_ami :: "(string, string) gomap ami_ops" where
  "versions_ami = \<lparr>am_nodeInfo = (\<lambda>_. Ok JNull), am_nodeStats = (\<lambda>_. Ok JNull), am_modeInfo = (\<lambda>_. Ok JNull),
     am_stats = (\<lambda>_ a. (map (\<lambda>kv. zero_app_stats\<lparr>as_name := fst kv, as_version := snd kv\<rparr>) a, Ok ())),
     am_apply = (\<lambda>_ app _ _ a. (Ok (), mput (app_name app) (app_version app) a)),
     am_delete = (\<lambda>_ i a. (Ok (), mdel (ai_name i) a)),
     am_log = (\<lambda>_ _ _ _ _ _. Ok [])\<rparr>"

text \<open>The engine on it, with a document that is merged by \<open>f\<close>, compared by \<open>g\<close> and read and set by \<open>e\<close> and \<open>d\<close>.\<close>

definition mem_codec :: "(doc \<Rightarrow> doc \<Rightarrow> doc) \<Rightarrow> (doc option \<Rightarrow> doc option \<Rightarrow> doc) \<Rightarrow> spec_ops" where
  "mem_codec f g = unary_codec\<lparr>so_merge := \<lambda>m r. Ok (f m r), so_diff := \<lambda>d r. Ok (g d r)\<rparr>"

definition versions_params :: "(doc \<Rightarrow> doc \<Rightarrow> doc) \<Rightarrow> (doc option \<Rightarrow> doc option \<Rightarrow> doc) \<Rightarrow>
    (bool \<Rightarrow> json \<Rightarrow> json \<Rightarrow> json \<Rightarrow> app_info list \<Rightarrow> app_stats list \<Rightarrow> doc) \<Rightarrow> (bool \<Rightarrow> doc \<Rightarrow> app_info list option) \<Rightarrow>
    (mem_store, string option, unit, (string, string) gomap \<times> call list) engine_params" where
  "versions_params f g e d = (params_on (loggedAmi versions_ami))\<lparr>ep_spec := mem_codec f g, ep_encode := e, ep_deltaApps := d\<rparr>"

lemma versions_params_simps:
  "ep_env (versions_params f g e d) = sample_env" "ep_ami (versions_params f g e d) = loggedAmi versions_ami"
  "ep_rngU (versions_params f g e d) = rev" "en_ops (ep_store (versions_params f g e d)) = mem_ops"
  "ep_bolt (versions_params f g e d) = mem_bolt" "ep_spec (versions_params f g e d) = mem_codec f g"
  "ep_deltaApps (versions_params f g e d) = d" "ep_encode (versions_params f g e d) = e"
  by (simp_all add: versions_params_def params_on_simps)

lemma versions_same:
  "applyApp (versions_params f g e d) = applyApp (params_on (loggedAmi versions_ami))"
  "syncApps (versions_params f g e d) = syncApps (params_on (loggedAmi versions_ami))"
  by (simp_all add: versions_params_def applyApp_def prepareFor_def withCert_def syncApps_def fun_eq_iff cong: option.case_cong if_cong)

lemma params_files: "files_apps (params_on A)"
  by (auto simp: files_apps_def params_on_def mem_ops_ok custom_apart_def range_ok_rev plain_versions_def sync_link_def
      sync_app_parts split: payload.splits list.splits if_splits)

lemma versions_files: "files_apps (versions_params f g e d)"
  using params_files[of "loggedAmi versions_ami"] by (simp add: files_apps_def versions_params_def)

theorem apps_stay_filed_witness:
  "filed sample_env mem_ops (storeOf run_end)"
proof -
  have own: "ownKey sample_env ''application-a-1'' sync_app"
    by (simp add: ownKey_def sync_app_parts utils_key.mk_total sample_env_def)
  have "filed (ep_env sample_params) (en_ops (ep_store sample_params)) (storeOf run_start)"
    by (auto simp: filed_def sample_params_simps run_start_def sync_end_def mem_simps own split: if_splits)
  with apps_stay_filed[OF _ run] params_files[of list_ami] show ?thesis
    by (simp add: sample_params_def[symmetric] sample_params_simps)
qed

lemma versions_report:
  assumes "es_db st = stored n"
  shows "\<exists>n' delta. reportNode (versions_params f g e d) r st = (Ok delta, st\<lparr>es_db := stored n'\<rparr>)"
proof -
  let ?L = "mem_codec f g"
  obtain m where m: "newReport ?L r False n = Ok m"
    by (cases "nd_report n") (auto simp: newReport_def mem_codec_def)
  have "readNode mem_bolt ?L (stored n) = Ok n"
    using mem_get[of n] by (simp add: node_Get_def readNode_def mem_codec_def cong: option.case_cong if_cong)
  moreover have "writeNode mem_bolt ?L m (stored n) = (Ok (g (nd_desire m) (nd_report m)), stored m)"
    by (simp add: writeNode_def mem_bolt_def stored_def mem_codec_def) (simp add: unary_codec_def)
  ultimately have "node_Report mem_bolt ?L r False (stored n) = (Ok (g (nd_desire m) (nd_report m)), stored m)"
    using m by (simp add: node_Report_def boltUpdate_def) (simp add: mem_bolt_def)
  with assms show ?thesis by (auto simp: reportNode_def onDb_def versions_params_simps)
qed

definition round_start :: "node_doc \<Rightarrow> (mem_store, string option, unit, (string, string) gomap \<times> call list) engine_state" where
  "round_start m = \<lparr>es_sync = sync_start, es_db = stored m, es_ami = ([(''b'', ''2'')], [])\<rparr>"

lemma versions_stats:
  assumes "es_db st = stored n"
  shows "\<exists>n'. reportAppStatsIfNeed (versions_params f g e d) isSys c stats st = (Ok (), st\<lparr>es_db := stored n'\<rparr>)"
proof (cases "stats = []")
  case True
  with assms show ?thesis by (intro exI[of _ n]) (simp add: reportAppStatsIfNeed_def)
next
  case False
  let ?P = "versions_params f g e d"
  obtain n' delta where "reportNode ?P (reportOf ?P isSys c (map named (ep_rngS ?P stats))) st =
      (Ok delta, st\<lparr>es_db := stored n'\<rparr>)" using versions_report[OF assms] by blast
  with False show ?thesis by (intro exI[of _ n']) (simp add: reportAppStatsIfNeed_def)
qed

lemma round_synced: "syncApps (params_on A) [\<lparr>ai_name = ''a'', ai_version = ''1''\<rparr>] st = (Ok [(''a'', sync_app)], st)"
  if "es_sync st = sync_start"
  using that by (simp add: syncApps_def onSync_def onNet_def SyncApps_def params_on_simps sync_values_app addApp_def sync_value_def
      sync_app_parts)

lemma round_checked: "checkMultiAppPort rev infos [(''a'', sync_app)] stats update = Ok ([(''a'', sync_app)], stats, update)"
  if "infos = [\<lparr>ai_name = ''a'', ai_version = ''1''\<rparr>]"
  using that by (simp add: checkMultiAppPort_def scanApps_def scanApp_def usesHostPort_def sync_app_def zero_application_def
      resolveGroups_def mdels_def)

lemma round_plan: "getDeleteAndUpdate [\<lparr>ai_name = ''a'', ai_version = ''1''\<rparr>] [\<lparr>ai_name = ''b'', ai_version = ''2''\<rparr>] =
    ([(''b'', \<lparr>ai_name = ''b'', ai_version = ''2''\<rparr>)], [(''a'', \<lparr>ai_name = ''a'', ai_version = ''1''\<rparr>)])"
  by (simp add: getDeleteAndUpdate_def planDesire_def keepDesired_def)

text \<open>A round that finds \<open>b\<close> running and reads \<open>a\<close> as desired.\<close>

lemma round_collected:
  "\<exists>c. collect (versions_params f g e d) (e_edgeNs sample_env) None (round_start m) = Ok c \<and>
     co_apps c = [\<lparr>ai_name = ''b'', ai_version = ''2''\<rparr>]"
  by (simp add: collect_def versions_params_simps versions_ami_def loggedAmi_def round_start_def orLogged_def)

lemma round_done:
  assumes "collect (versions_params f g e d) (e_edgeNs sample_env) None (round_start m) = Ok c"
    and "co_apps c = [\<lparr>ai_name = ''b'', ai_version = ''2''\<rparr>]"
    and "\<And>delta st1. reportNode (versions_params f g e d) (reportOf (versions_params f g e d) False c (co_appStats c))
      (round_start m) = (Ok delta, st1) \<Longrightarrow> d False delta = Some [\<lparr>ai_name = ''a'', ai_version = ''1''\<rparr>]"
  shows "\<exists>st. reportAndApply (versions_params f g e d) False True (\<lambda>_. None) (round_start m) = (Ok (), st)"
proof -
  let ?P = "versions_params f g e d" and ?ns = "e_edgeNs sample_env"
  define stats where "stats = fold (\<lambda>s. mput (as_name s) s) (co_appStats c) []"
  obtain n1 delta where one: "reportNode ?P (reportOf ?P False c (co_appStats c)) (round_start m) =
      (Ok delta, (round_start m)\<lparr>es_db := stored n1\<rparr>)"
    using versions_report[of "round_start m" m f g e d "reportOf ?P False c (co_appStats c)"] by (auto simp: round_start_def)
  note dl = assms(3)[OF one]
  define st1 where "st1 = (round_start m)\<lparr>es_db := stored n1\<rparr>"
  obtain n2 where two: "reportAppStatsIfNeed ?P False c stats st1 = (Ok (), st1\<lparr>es_db := stored n2\<rparr>)"
    using versions_stats[of st1 n1 f g e d False c stats] by (auto simp: st1_def)
  define st2 where "st2 = st1\<lparr>es_db := stored n2\<rparr>"
  define lg where "lg = [DeleteCall ?ns ''b'' True]"
  have del: "deleteApps ?P ?ns [(''b'', \<lparr>ai_name = ''b'', ai_version = ''2''\<rparr>)] st2 = (Ok (), st2\<lparr>es_ami := ([], lg)\<rparr>)"
    by (simp add: deleteApps_def versions_params_simps onAmi_def versions_ami_def loggedAmi_def logged_def st2_def st1_def
        round_start_def lg_def)
  define up where "up = ([(''a'', ''1'')], lg @ [ApplyCall ?ns ''a'' ''1'' True])"
  define st3 where "st3 = st2\<lparr>es_ami := ([], lg), es_sync := sync_end\<rparr>\<lparr>es_ami := up\<rparr>"
  have "applyApp ?P ?ns \<lparr>ai_name = ''a'', ai_version = ''1''\<rparr> (st2\<lparr>es_ami := ([], lg)\<rparr>) = (Ok (), st3)"
    using sample_applied[of "st2\<lparr>es_ami := ([], lg)\<rparr>" "loggedAmi versions_ami" ?ns up]
    by (simp add: versions_same st2_def st1_def round_start_def versions_ami_def loggedAmi_def logged_def sync_app_parts st3_def up_def)
  then have app: "applyApps ?P ?ns [(''a'', \<lparr>ai_name = ''a'', ai_version = ''1''\<rparr>)] (stats, st2\<lparr>es_ami := ([], lg)\<rparr>) = (Ok (), (stats, st3))"
    by (simp add: applyApps_def applyOne_def versions_params_simps)
  obtain n3 where three: "reportAppStatsIfNeed ?P False c stats st3 = (Ok (), st3\<lparr>es_db := stored n3\<rparr>)"
    using versions_stats[of st3 n2 f g e d False c stats] by (auto simp: st3_def st2_def)
  have b: "serviceFilter sample_env [\<lparr>ai_name = ''b'', ai_version = ''2''\<rparr>] = [\<lparr>ai_name = ''b'', ai_version = ''2''\<rparr>]"
    by (simp add: serviceFilter_def sample_env_def filterAppNotLike_filter)
  have "es_sync st1 = sync_start" by (simp add: st1_def round_start_def)
  note sync = round_synced[OF this]
  have rng: "ep_rngP ?P = rev" by (simp add: versions_params_def params_on_simps)
  have "carryOut ?P False True ?ns c [\<lparr>ai_name = ''a'', ai_version = ''1''\<rparr>] [\<lparr>ai_name = ''b'', ai_version = ''2''\<rparr>] st1 =
      (Ok (), st3\<lparr>es_db := stored n3\<rparr>)"
    by (simp add: carryOut_def round_plan versions_same sync stats_def[symmetric] round_checked rng two st2_def[symmetric] del app three)
  with one show ?thesis
    by (simp add: reportAndApply_def versions_params_simps assms(1,2) dl sample_desired b st1_def[symmetric])
qed

lemma round_filed: "filed (ep_env (versions_params f g e d)) (en_ops (ep_store (versions_params f g e d))) (storeOf (round_start m))"
  by (simp add: filed_def versions_params_simps round_start_def sync_start_def mem_simps)

end
