(* ===== verification/Engine_Goal.thy ===== *)
theory Engine_Goal
  imports Engine_Converge
begin

text \<open>
  From the shadow document to the platform: what the desired entries of the node's document
  (\<^verbatim>\<open>node/node.go\<close>) list as applications is what a round of the engine (\<^verbatim>\<open>engine/engine.go\<close>) asks the
  platform to run, whatever the node did by itself since the cloud desired it. The codec of the document
  is known by the contract below.
\<close>

section \<open>What the codec promises\<close>

text \<open>
  \<open>wanted\<close> and \<open>reported\<close> read the application infos of the two halves of the document. The difference
  names the desired ones unless they are reported as such; a report sets the reported ones, merged or
  not; and they are not under the two keys that are replaced after merging.
\<close>

definition shadow_ok :: "('s, 'd, 'n, 'a) engine_params \<Rightarrow> (bool \<Rightarrow> doc \<Rightarrow> app_info list option) \<Rightarrow>
    (bool \<Rightarrow> doc \<Rightarrow> app_info list option) \<Rightarrow> bool" where
  "shadow_ok P wanted reported \<longleftrightarrow>
     (\<forall>d r delta isSys. so_diff (ep_spec P) d r = Ok delta \<longrightarrow>
        ep_deltaApps P isSys delta = (case wanted isSys (entries d) of None \<Rightarrow> None
          | Some ds \<Rightarrow> if reported isSys (entries r) = Some ds then None else Some ds)) \<and>
     (\<forall>isSys nod nstats md apps stats. reported isSys (ep_encode P isSys nod nstats md apps stats) = Some apps) \<and>
     (\<forall>m r m' isSys apps. so_merge (ep_spec P) m r = Ok m' \<longrightarrow> reported isSys r = Some apps \<longrightarrow>
        reported isSys m' = Some apps) \<and>
     (\<forall>isSys k x m. k \<in> {''node'', ''nodestats''} \<longrightarrow> reported isSys (mput k x m) = reported isSys m)"

lemma shadow_okD:
  assumes "shadow_ok P wanted reported"
  shows "so_diff (ep_spec P) d r = Ok delta \<Longrightarrow>
      ep_deltaApps P isSys delta = (case wanted isSys (entries d) of None \<Rightarrow> None
        | Some ds \<Rightarrow> if reported isSys (entries r) = Some ds then None else Some ds)"
    and "reported isSys (ep_encode P isSys nod nstats md apps stats) = Some apps"
    and "so_merge (ep_spec P) m u = Ok m' \<Longrightarrow> reported isSys u = Some apps \<Longrightarrow> reported isSys m' = Some apps"
    and "reported isSys (mput ''node'' x m) = reported isSys m"
    and "reported isSys (mput ''nodestats'' x m) = reported isSys m"
  using assms[unfolded shadow_ok_def, THEN conjunct1] assms[unfolded shadow_ok_def, THEN conjunct2, THEN conjunct1]
    assms[unfolded shadow_ok_def, THEN conjunct2, THEN conjunct2, THEN conjunct1]
    assms[unfolded shadow_ok_def, THEN conjunct2, THEN conjunct2, THEN conjunct2] by simp_all

lemma shadow_newReport:
  assumes "shadow_ok P wanted reported" and "newReport (ep_spec P) r False m = Ok m'" and "reported isSys r = Some apps"
  shows "nd_desire m' = nd_desire m \<and> reported isSys (entries (nd_report m')) = Some apps"
proof (cases "nd_report m = None")
  case True
  with assms(2,3) show ?thesis by (auto simp: newReport_def entries_def)
next
  case False
  with assms(2) obtain x where x: "so_merge (ep_spec P) (entries (nd_report m)) r = Ok x"
    "m' = m\<lparr>nd_report := Some (replaceKey ''nodestats'' r (replaceKey ''node'' r x))\<rparr>"
    by (cases "so_merge (ep_spec P) (entries (nd_report m)) r") (auto simp: newReport_def)
  with shadow_okD(3)[OF assms(1) x(1) assms(3)] shadow_okD(4,5)[OF assms(1)] show ?thesis
    by (simp add: entries_def replaceKey_def split: option.split)
qed

text \<open>The delta a round reads lists the applications the document desires, unless the report has them.\<close>

lemma reportNode_delta:
  assumes "shadow_ok P wanted reported" and "node_Get (ep_bolt P) (ep_spec P) (es_db st) = Ok m"
    and "reportNode P (reportOf P isSys c stats) st = (Ok delta, st1)"
  shows "ep_deltaApps P isSys delta = (case wanted isSys (entries (nd_desire m)) of None \<Rightarrow> None
    | Some ds \<Rightarrow> if co_apps c = ds then None else Some ds)"
proof -
  have enc: "reported isSys (reportOf P isSys c stats) = Some (co_apps c)"
    by (simp add: reportOf_def shadow_okD(2)[OF assms(1)])
  from assms(3) obtain d where "node_Report (ep_bolt P) (ep_spec P) (reportOf P isSys c stats) False (es_db st) = (Ok delta, d)"
    by (auto simp: reportNode_def onDb_def split: prod.splits)
  then obtain m' d1 d2 where m': "newReport (ep_spec P) (reportOf P isSys c stats) False m = Ok m'"
    and w: "writeNode (ep_bolt P) (ep_spec P) m' d1 = (Ok delta, d2)"
    using assms(2) by (auto simp: node_Report_def node_Get_def boltUpdate_def sbind_Ok_iff rbind_Ok_iff Let_def split: prod.splits)
  from w have "so_diff (ep_spec P) (nd_desire m') (nd_report m') = Ok delta"
    by (auto simp: writeNode_def sbind_Ok_iff)
  with shadow_okD(1)[OF assms(1) this, of isSys] shadow_newReport[OF assms(1) m' enc] show ?thesis
    by (auto split: option.split)
qed

section \<open>What the document desires is asked for\<close>

text \<open>If what is reported is what is desired, nothing needs to be called.\<close>

lemma settled_nothing: "settled P st ns c ds ds [] [] n"
proof (cases "last_info ds n")
  case None
  then show ?thesis using last_info_None[of ds n] by (simp add: settled_def)
next
  case (Some d)
  from last_info_name[OF Some] have "\<exists>r \<in> set ds. ai_name r = n \<and> ai_version r = ai_version d" by blast
  with Some show ?thesis by (simp add: settled_def)
qed

lemma goal_settles:
  assumes "ep_ami P = loggedAmi A" and "files_apps P" and "range_ok (ep_rngU P)" and "shadow_ok P wanted reported"
    and "bolt_ok (ep_bolt P)" and "codec_ok (ep_spec P)" and "filed (ep_env P) (en_ops (ep_store P)) (storeOf st0)"
    and "node_Get (ep_bolt P) (ep_spec P) (es_db st0) = Ok m" and "wanted isSys (entries (nd_desire m)) = Some ds"
    and "\<forall>d \<in> set ds. CHR ''-'' \<notin> set (ai_version d)"
    and "(local_step P)\<^sup>*\<^sup>* st0 st" and "reportAndApply P isSys True desire st = (Ok (), st')"
  shows "\<exists>ns c calls stats w. ns = (if isSys then e_systemNs (ep_env P) else e_edgeNs (ep_env P)) \<and>
    collect P ns (desire isSys) st = Ok c \<and> callsOf st' = callsOf st @ calls \<and>
    reportAppStatsIfNeed P isSys c stats w = (Ok (), st') \<and>
    (\<forall>n. settled P st ns c (serviceFilter (ep_env P) ds) (serviceFilter (ep_env P) (co_apps c)) stats calls n)"
proof -
  define ns where "ns = (if isSys then e_systemNs (ep_env P) else e_edgeNs (ep_env P))"
  have filed: "filed (ep_env P) (en_ops (ep_store P)) (storeOf st)"
    using filed_apps.local_steps_hold[OF assms(11,2)] assms(7) by (simp add: holdsFor_def)
  obtain m1 where m1: "node_Get (ep_bolt P) (ep_spec P) (es_db st) = Ok m1" "entries (nd_desire m1) = entries (nd_desire m)"
    using desired.local_steps_hold[OF assms(11)] assms(5,6,8) by (auto simp: holdsFor_def)
  note run = assms(12)[unfolded reportAndApply_def Let_def, folded ns_def]
  from run[unfolded sbind_Ok_iff] obtain c where c: "collect P ns (desire isSys) st = Ok c" by (elim exE conjE) simp
  from run[unfolded c sbind.simps] obtain delta st1 where
    rep: "reportNode P (reportOf P isSys c (co_appStats c)) st = (Ok delta, st1)"
    unfolding sbind_Ok_iff by (elim exE conjE)
  note delta = reportNode_delta[OF assms(4) m1(1) rep, unfolded m1(2) assms(9) option.case]
  have "\<exists>calls stats w. callsOf st' = callsOf st @ calls \<and> reportAppStatsIfNeed P isSys c stats w = (Ok (), st') \<and>
    (\<forall>n. settled P st ns c (serviceFilter (ep_env P) ds) (serviceFilter (ep_env P) (co_apps c)) stats calls n)"
  proof (cases "co_apps c = ds")
    case False
    with delta have d: "ep_deltaApps P isSys delta = Some ds" by simp
    show ?thesis by (rule round_settles[OF assms(1-3) filed ns_def c rep d assms(10,12)])
  next
    case True
    with delta run[unfolded c sbind.simps] rep have st': "st' = st1" by simp
    from rep have ami: "es_ami st1 = es_ami st" by (auto simp: reportNode_def onDb_def split: prod.splits)
    have "reportAppStatsIfNeed P isSys c [] st' = (Ok (), st')" by (simp add: reportAppStatsIfNeed_def)
    moreover have "callsOf st' = callsOf st @ []" by (simp add: st' ami)
    ultimately show ?thesis unfolding True using settled_nothing by blast
  qed
  with c show ?thesis unfolding ns_def by blast
qed

text \<open>
  C2. What is desired is asked for, and nothing else: if the node's document desires the applications
  \<open>ds\<close>, then after any rounds of the engine, requests and cleanings, whatever they did to the document,
  the next round of the engine that ends without an error has made these calls of the platform and no
  others. Each application of \<open>ds\<close> this process is in charge of and the platform did not report in the
  desired version was applied once in that version and accepted, or the statistics reported last end
  with the error of the attempt; one that the check of the host ports took out of the plan was not applied,
  and the statistics carry a cause; each application reported and not in \<open>ds\<close>
  was deleted once; and no call names any other application.
\<close>

theorem desire_reaches_platform:
  assumes "ep_ami P = loggedAmi A" and "files_apps P" and "range_ok (ep_rngU P)" and "shadow_ok P wanted reported"
    and "bolt_ok (ep_bolt P)" and "codec_ok (ep_spec P)" and "filed (ep_env P) (en_ops (ep_store P)) (storeOf st0)"
    and "node_Get (ep_bolt P) (ep_spec P) (es_db st0) = Ok m" and "wanted isSys (entries (nd_desire m)) = Some ds"
    and "\<forall>d \<in> set ds. CHR ''-'' \<notin> set (ai_version d)"
    and "(local_step P)\<^sup>*\<^sup>* st0 st" and "reportAndApply P isSys True desire st = (Ok (), st')"
  shows "\<exists>ns c calls stats w. ns = (if isSys then e_systemNs (ep_env P) else e_edgeNs (ep_env P)) \<and>
    collect P ns (desire isSys) st = Ok c \<and> callsOf st' = callsOf st @ calls \<and>
    reportAppStatsIfNeed P isSys c stats w = (Ok (), st') \<and>
    (\<forall>n. settled P st ns c (serviceFilter (ep_env P) ds) (serviceFilter (ep_env P) (co_apps c)) stats calls n)"
  using assms by (rule goal_settles)

text \<open>
  C1. What the cloud answers is asked of the platform: if a synchronous report round ends without an
  error and the answer desires the applications \<open>ds\<close>, then after any rounds of the engine, requests and
  cleanings the next round of the engine that ends without an error has made these calls of the platform
  and no others. Each application of \<open>ds\<close> this process is in charge of and the platform did not report in
  the answered version was applied once in that version and accepted, or the statistics reported last end
  with the error of the attempt; one that the check of the host ports took out of the plan was not applied,
  and the statistics carry a cause; each application reported and not in \<open>ds\<close>
  was deleted once; and no call names any other application. The versions are free of dashes.
\<close>

theorem cloud_reaches_platform:
  assumes "ep_ami P = loggedAmi A" and "files_apps P" and "range_ok (ep_rngU P)" and "shadow_ok P wanted reported"
    and "bolt_ok (ep_bolt P)" and "codec_ok (ep_spec P)" and "filed (ep_env P) (en_ops (ep_store P)) (storeOf st0)"
    and "\<not> lk_async (ep_link P)" and "node_Get (ep_bolt P) (ep_spec P) (es_db st0) = Ok shadow"
    and "sync_Report (ep_env P) (ep_link P) (nd_report shadow) (ss_net (es_sync st0)) = (Ok answer, n1)"
    and "wanted isSys answer = Some ds" and "answer \<noteq> []" and "\<forall>d \<in> set ds. CHR ''-'' \<notin> set (ai_version d)"
    and "onDbNet (reportAndDesire (ep_env P) (ep_bolt P) (ep_spec P) (ep_link P) notify) st0 = (Ok (), st1)"
    and "(local_step P)\<^sup>*\<^sup>* st1 st" and "reportAndApply P isSys True desire st = (Ok (), st')"
  shows "\<exists>ns c calls stats w. ns = (if isSys then e_systemNs (ep_env P) else e_edgeNs (ep_env P)) \<and>
    collect P ns (desire isSys) st = Ok c \<and> callsOf st' = callsOf st @ calls \<and>
    reportAppStatsIfNeed P isSys c stats w = (Ok (), st') \<and>
    (\<forall>n. settled P st ns c (serviceFilter (ep_env P) ds) (serviceFilter (ep_env P) (co_apps c)) stats calls n)"
proof -
  obtain d' n' where run: "reportAndDesire (ep_env P) (ep_bolt P) (ep_spec P) (ep_link P) notify (es_db st0, ss_net (es_sync st0)) =
      (Ok (), (d', n'))" and st1: "es_db st1 = d'" "storeOf st1 = storeOf st0"
    using assms(14) by (auto simp: onDbNet_def split: prod.splits)
  from report_round_desire[OF assms(5,6,8,9,10,12) run] obtain node where
    node: "node_Get (ep_bolt P) (ep_spec P) d' = Ok node" "entries (nd_desire node) = answer" by blast
  show ?thesis
    by (rule goal_settles[OF assms(1-6) _ node(1)[folded st1(1)] _ assms(13,15,16)])
      (simp_all add: st1(2) assms(7,11) node(2))
qed

section \<open>A codec and a round over it\<close>

text \<open>Application infos as a list of objects under \<open>apps\<close> and \<open>sysapps\<close>.\<close>

definition writeInfo :: "app_info \<Rightarrow> json" where
  "writeInfo i = JObj [(''name'', JStr (ai_name i)), (''version'', JStr (ai_version i))]"

fun readInfo :: "json \<Rightarrow> app_info option" where
  "readInfo (JObj [(k, JStr n), (k', JStr v)]) =
     (if k = ''name'' \<and> k' = ''version'' then Some \<lparr>ai_name = n, ai_version = v\<rparr> else None)"
| "readInfo _ = None"

fun readInfos :: "json list \<Rightarrow> app_info list option" where
  "readInfos [] = Some []"
| "readInfos (j # js) = (case readInfo j of None \<Rightarrow> None | Some i \<Rightarrow> map_option ((#) i) (readInfos js))"

definition infosIn :: "bool \<Rightarrow> doc \<Rightarrow> app_info list option" where
  "infosIn isSys d = (case mget d (if isSys then ''sysapps'' else ''apps'') of Some (JList js) \<Rightarrow> readInfos js | _ \<Rightarrow> None)"

definition writeInfos :: "bool \<Rightarrow> json \<Rightarrow> json \<Rightarrow> json \<Rightarrow> app_info list \<Rightarrow> app_stats list \<Rightarrow> doc" where
  "writeInfos isSys nod nstats md apps stats =
     [(''node'', nod), (''nodestats'', nstats), (''modeinfo'', md), (if isSys then ''sysapps'' else ''apps'', JList (map writeInfo apps))]"

text \<open>Values of the report win when merged, and the difference is what is desired and not reported as such.\<close>

definition putAll :: "doc \<Rightarrow> doc \<Rightarrow> doc" where
  "putAll m r = foldr (\<lambda>kv. mput (fst kv) (snd kv)) r m"

definition unreported :: "doc option \<Rightarrow> doc option \<Rightarrow> doc" where
  "unreported d r = filter (\<lambda>kv. mget (entries r) (fst kv) \<noteq> mget (entries d) (fst kv)) (entries d)"

lemma readInfo_write: "readInfo j = Some i \<longleftrightarrow> j = writeInfo i"
  by (cases j rule: readInfo.cases) (auto simp: writeInfo_def split: if_splits)

lemma readInfos_write: "readInfos js = Some is \<longleftrightarrow> js = map writeInfo is"
proof (induction js arbitrary: "is")
  case (Cons j js)
  show ?case
  proof (cases "readInfo j")
    case None
    then show ?thesis by (cases "is") (auto simp: readInfo_write[symmetric])
  next
    case (Some i)
    then show ?thesis by (cases "is") (auto simp: Cons.IH readInfo_write[symmetric])
  qed
qed auto

lemma putAll_mget: "mget (putAll m r) k = (case mget r k of None \<Rightarrow> mget m k | Some x \<Rightarrow> Some x)"
  by (induction r) (auto simp: putAll_def map_simps)

lemma unreported_mget: "mget (unreported d r) k = (if mget (entries r) k = mget (entries d) k then None else mget (entries d) k)"
proof -
  have "mget (filter (\<lambda>kv. p (fst kv)) m) k = (if p k then mget m k else None)" for p and m :: doc
    by (induction m) auto
  from this[of "\<lambda>k. mget (entries r) k \<noteq> mget (entries d) k" "entries d"] show ?thesis
    by (simp add: unreported_def)
qed

abbreviation json_params :: "(mem_store, string option, unit, (string, string) gomap \<times> call list) engine_params" where
  "json_params \<equiv> versions_params putAll unreported writeInfos infosIn"

lemma json_shadow_ok: "shadow_ok json_params infosIn infosIn"
proof -
  have infos: "infosIn isSys d = Some is \<longleftrightarrow> mget d (if isSys then ''sysapps'' else ''apps'') = Some (JList (map writeInfo is))" for isSys d "is"
    by (auto simp: infosIn_def readInfos_write split: option.splits json.splits)
  show ?thesis
    unfolding shadow_ok_def versions_params_simps
  proof (intro conjI allI impI)
    fix d r :: "doc option" and delta isSys
    assume "so_diff (mem_codec putAll unreported) d r = Ok delta"
    then have delta: "delta = unreported d r" by (simp add: mem_codec_def)
    show "infosIn isSys delta = (case infosIn isSys (entries d) of None \<Rightarrow> None
        | Some ds \<Rightarrow> if infosIn isSys (entries r) = Some ds then None else Some ds)"
    proof (cases "infosIn isSys (entries d)")
      case None
      then show ?thesis by (auto simp: delta infosIn_def unreported_mget split: option.splits)
    next
      case (Some ds)
      let ?k = "if isSys then ''sysapps'' else ''apps''"
      from Some have d: "mget (entries d) ?k = Some (JList (map writeInfo ds))" unfolding infos .
      have "infosIn isSys delta = (if mget (entries r) ?k = Some (JList (map writeInfo ds)) then None else Some ds)"
      proof (cases "mget (entries r) ?k = Some (JList (map writeInfo ds))")
        case True
        then have "mget delta ?k = None" unfolding delta unreported_mget d by simp
        with True show ?thesis by (simp add: infosIn_def)
      next
        case False
        then have "mget delta ?k = Some (JList (map writeInfo ds))" unfolding delta unreported_mget d by simp
        with False infos[of isSys delta ds] show ?thesis by simp
      qed
      with Some infos[of isSys "entries r" ds] show ?thesis by simp
    qed
  qed (auto simp: infos writeInfos_def mem_codec_def putAll_mget map_simps, auto simp: infosIn_def map_simps)
qed

text \<open>The cloud desires \<open>a\<close>, \<open>b\<close> runs.\<close>

definition goal_doc :: node_doc where
  "goal_doc = \<lparr>nd_name = ''n'', nd_desire = Some [(''apps'', JList [writeInfo \<lparr>ai_name = ''a'', ai_version = ''1''\<rparr>])], nd_report = None\<rparr>"

lemma json_get: "node_Get mem_bolt (mem_codec f g) (stored m) = Ok m"
  using mem_get[of m] by (simp add: node_Get_def readNode_def mem_codec_def cong: option.case_cong if_cong)

lemma json_codec_ok: "codec_ok (mem_codec f g)"
  using unary_codec_ok by (simp add: codec_ok_def mem_codec_def)

lemma goal_wanted: "infosIn False (entries (nd_desire goal_doc)) = Some [\<lparr>ai_name = ''a'', ai_version = ''1''\<rparr>]"
  by (simp add: goal_doc_def entries_def infosIn_def writeInfo_def)

text \<open>The round on it, and what the platform answered when it was asked.\<close>

lemma goal_round:
  "\<exists>c st. collect json_params (e_edgeNs sample_env) None (round_start goal_doc) = Ok c \<and>
     co_apps c = [\<lparr>ai_name = ''b'', ai_version = ''2''\<rparr>] \<and>
     reportAndApply json_params False True (\<lambda>_. None) (round_start goal_doc) = (Ok (), st)"
proof -
  have node: "node_Get (ep_bolt json_params) (ep_spec json_params) (es_db (round_start goal_doc)) = Ok goal_doc"
    by (simp add: versions_params_simps round_start_def json_get)
  obtain c where c: "collect json_params (e_edgeNs sample_env) None (round_start goal_doc) = Ok c"
    "co_apps c = [\<lparr>ai_name = ''b'', ai_version = ''2''\<rparr>]" using round_collected by blast
  have read: "infosIn False delta = Some [\<lparr>ai_name = ''a'', ai_version = ''1''\<rparr>]"
    if "reportNode json_params (reportOf json_params False c (co_appStats c)) (round_start goal_doc) = (Ok delta, st1)"
    for delta st1
    using reportNode_delta[OF json_shadow_ok node that] goal_wanted c(2) by (simp add: versions_params_simps)
  have "\<exists>st. reportAndApply json_params False True (\<lambda>_. None) (round_start goal_doc) = (Ok (), st)"
    by (rule round_done[OF c]) (rule read)
  with c show ?thesis by blast
qed

text \<open>\<open>b\<close> was reported and is not desired, \<open>a\<close> is desired and was not reported.\<close>

lemma settled_goal:
  assumes "settled P st ns c [\<lparr>ai_name = ''a'', ai_version = ''1''\<rparr>] [\<lparr>ai_name = ''b'', ai_version = ''2''\<rparr>] stats calls ''a''"
    and "settled P st ns c [\<lparr>ai_name = ''a'', ai_version = ''1''\<rparr>] [\<lparr>ai_name = ''b'', ai_version = ''2''\<rparr>] stats calls ''b''"
  shows "callsOn ''b'' calls = [DeleteCall ns ''b'' True] \<and>
    (applyLeft P ns \<lparr>ai_name = ''a'', ai_version = ''1''\<rparr> stats (callsOn ''a'' calls) \<or> explained stats ''a'')"
  using assms by (auto simp: settled_def split: if_splits)

theorem desire_reaches_platform_witness:
  "\<exists>st' calls stats. reportAndApply json_params False True (\<lambda>_. None) (round_start goal_doc) = (Ok (), st') \<and>
     callsOf st' = calls \<and> callsOn ''b'' calls = [DeleteCall (e_edgeNs sample_env) ''b'' True] \<and>
     (applyLeft json_params (e_edgeNs sample_env) \<lparr>ai_name = ''a'', ai_version = ''1''\<rparr> stats (callsOn ''a'' calls) \<or>
       explained stats ''a'')"
proof -
  let ?ds = "[\<lparr>ai_name = ''a'', ai_version = ''1''\<rparr>]"
  obtain c st where c: "collect json_params (e_edgeNs sample_env) None (round_start goal_doc) = Ok c"
      "co_apps c = [\<lparr>ai_name = ''b'', ai_version = ''2''\<rparr>]"
    and r: "reportAndApply json_params False True (\<lambda>_. None) (round_start goal_doc) = (Ok (), st)"
    using goal_round by blast
  have node: "node_Get (ep_bolt json_params) (ep_spec json_params) (es_db (round_start goal_doc)) = Ok goal_doc"
    by (simp add: versions_params_simps round_start_def json_get)
  have b: "serviceFilter sample_env [\<lparr>ai_name = ''b'', ai_version = ''2''\<rparr>] = [\<lparr>ai_name = ''b'', ai_version = ''2''\<rparr>]"
    by (simp add: serviceFilter_def sample_env_def filterAppNotLike_filter)
  have log: "callsOf (round_start goal_doc) = []" by (simp add: round_start_def)
  from desire_reaches_platform[of json_params versions_ami infosIn infosIn "round_start goal_doc" goal_doc False ?ds
      "round_start goal_doc" "\<lambda>_. None" st, OF _ versions_files _ json_shadow_ok _ _ round_filed node goal_wanted _ _ r]
  obtain calls stats where "callsOf st = calls"
    and "\<And>n. settled json_params (round_start goal_doc) (e_edgeNs sample_env) c ?ds [\<lparr>ai_name = ''b'', ai_version = ''2''\<rparr>] stats calls n"
    by (auto simp: versions_params_simps range_ok_rev sample_desired mem_bolt_ok json_codec_ok c b log)
  with r settled_goal show ?thesis by blast
qed

section \<open>A report round before it\<close>

text \<open>The cloud answers with \<open>a\<close> to a node that desires nothing.\<close>

definition cloud_answer :: doc where
  "cloud_answer = [(''apps'', JList [writeInfo \<lparr>ai_name = ''a'', ai_version = ''1''\<rparr>])]"

abbreviation cloud_params :: "(mem_store, string option, unit, (string, string) gomap \<times> call list) engine_params" where
  "cloud_params \<equiv> json_params\<lparr>ep_link := answer_link cloud_answer\<rparr>"

lemma answer_values: "syncResourceValues E (answer_link a) = syncResourceValues E sync_link"
  by (simp add: syncResourceValues_def answer_link_def fun_eq_iff)

lemma answer_sync:
  "SyncResource E osys dl (answer_link a) = SyncResource E osys dl sync_link"
  "SyncApps E (answer_link a) = SyncApps E sync_link"
  by (simp_all add: SyncResource_def SyncApps_def answer_values fun_eq_iff)

lemma cloud_same:
  "applyOne cloud_params = applyOne json_params" "syncApps cloud_params = syncApps json_params"
  "deleteApps cloud_params = deleteApps json_params" "collect cloud_params = collect json_params"
  "reportNode cloud_params = reportNode json_params" "reportOf cloud_params = reportOf json_params"
proof -
  have link: "ep_link json_params = sync_link" by (simp add: versions_params_def params_on_simps)
  have "applyApp cloud_params = applyApp json_params"
    by (simp add: applyApp_def answer_sync link prepareFor_def withCert_def fun_eq_iff Let_def cong: option.case_cong if_cong)
  then show "applyOne cloud_params = applyOne json_params" by (simp add: applyOne_def fun_eq_iff)
  show "syncApps cloud_params = syncApps json_params"
    "deleteApps cloud_params = deleteApps json_params" "collect cloud_params = collect json_params"
    "reportNode cloud_params = reportNode json_params" "reportOf cloud_params = reportOf json_params"
    by (simp_all add: answer_sync link syncApps_def deleteApps_def collect_def reportNode_def reportOf_def fun_eq_iff
        cong: option.case_cong if_cong)
qed

lemma cloud_round: "reportAndApply cloud_params = reportAndApply json_params"
proof -
  have rep: "reportAppStatsIfNeed cloud_params = reportAppStatsIfNeed json_params"
    by (intro ext) (simp add: reportAppStatsIfNeed_def cloud_same)
  have app: "applyApps cloud_params = applyApps json_params"
    by (intro ext) (simp add: applyApps_def cloud_same)
  have carry: "carryOut cloud_params = carryOut json_params"
    by (intro ext) (unfold carryOut_def cloud_same rep app, simp)
  show ?thesis
    by (intro ext) (unfold reportAndApply_def cloud_same carry, simp)
qed

definition blank_doc :: node_doc where
  "blank_doc = \<lparr>nd_name = ''n'', nd_desire = None, nd_report = None\<rparr>"

lemma json_desire: "node_Desire mem_bolt (mem_codec f g) r True (stored n) = (Ok (g (Some r) (nd_report n)), stored (n\<lparr>nd_desire := Some r\<rparr>))"
proof -
  have "readNode mem_bolt (mem_codec f g) (stored n) = Ok n" using json_get[of f g n] by (simp add: node_Get_def)
  moreover have "writeNode mem_bolt (mem_codec f g) m d = (Ok (g (nd_desire m) (nd_report m)), stored m)" for m d
    by (simp add: writeNode_def mem_bolt_def stored_def mem_codec_def) (simp add: unary_codec_def)
  ultimately show ?thesis by (simp add: node_Desire_def boltUpdate_def newDesire_def) (simp add: mem_bolt_def)
qed

lemma cloud_reported: "onDbNet (reportAndDesire sample_env mem_bolt (mem_codec putAll unreported) (answer_link cloud_answer) False)
    (round_start blank_doc) = (Ok (), round_start goal_doc)"
proof -
  have goal: "blank_doc\<lparr>nd_desire := Some cloud_answer\<rparr> = goal_doc" by (simp add: blank_doc_def goal_doc_def cloud_answer_def)
  have devs: "devicesOfDelta sample_env (unreported (Some cloud_answer) (nd_report blank_doc)) = None"
    by (simp add: devicesOfDelta_def unreported_mget entries_def blank_doc_def) (simp add: cloud_answer_def sample_env_def)
  have some: "cloud_answer \<noteq> []" by (simp add: cloud_answer_def)
  have "reportAndDesire sample_env mem_bolt (mem_codec putAll unreported) (answer_link cloud_answer) False (stored blank_doc, ()) =
      (Ok (), (stored goal_doc, ()))"
    by (simp add: reportAndDesire_def json_get answer_simps sync_Report_def nodeDesire_def json_desire goal sample_core
        devs some)
  then show ?thesis by (simp add: onDbNet_def round_start_def sync_start_def)
qed

theorem cloud_reaches_platform_witness:
  "\<exists>st' calls stats. reportAndApply cloud_params False True (\<lambda>_. None) (round_start goal_doc) = (Ok (), st') \<and>
     callsOf st' = calls \<and> callsOn ''b'' calls = [DeleteCall (e_edgeNs sample_env) ''b'' True] \<and>
     (applyLeft cloud_params (e_edgeNs sample_env) \<lparr>ai_name = ''a'', ai_version = ''1''\<rparr> stats (callsOn ''a'' calls) \<or>
       explained stats ''a'')"
proof -
  let ?ds = "[\<lparr>ai_name = ''a'', ai_version = ''1''\<rparr>]"
  obtain c st where c: "collect cloud_params (e_edgeNs sample_env) None (round_start goal_doc) = Ok c"
      "co_apps c = [\<lparr>ai_name = ''b'', ai_version = ''2''\<rparr>]"
    and r: "reportAndApply cloud_params False True (\<lambda>_. None) (round_start goal_doc) = (Ok (), st)"
    unfolding cloud_round cloud_same using goal_round by blast
  have files: "files_apps cloud_params"
    using versions_files[of putAll unreported writeInfos infosIn]
    by (auto simp: files_apps_def plain_versions_def answer_link_def versions_params_def params_on_simps)
  have shadow: "shadow_ok cloud_params infosIn infosIn" using json_shadow_ok by (simp add: shadow_ok_def)
  have wanted: "infosIn False cloud_answer = Some ?ds" "cloud_answer \<noteq> []"
    by (simp_all add: cloud_answer_def infosIn_def writeInfo_def)
  have ans: "sync_Report sample_env (answer_link cloud_answer) (nd_report blank_doc) () = (Ok cloud_answer, ())"
    by (simp add: sync_Report_def answer_simps)
  have b: "serviceFilter sample_env [\<lparr>ai_name = ''b'', ai_version = ''2''\<rparr>] = [\<lparr>ai_name = ''b'', ai_version = ''2''\<rparr>]"
    by (simp add: serviceFilter_def sample_env_def filterAppNotLike_filter)
  have log: "callsOf (round_start goal_doc) = []" and db: "es_db (round_start blank_doc) = stored blank_doc"
    by (simp_all add: round_start_def)
  from cloud_reaches_platform[of cloud_params versions_ami infosIn infosIn "round_start blank_doc" blank_doc cloud_answer "()"
      False ?ds False "round_start goal_doc" "round_start goal_doc" "\<lambda>_. None" st, OF _ files _ shadow _ _ _ _ _ _ wanted _ _ _ r]
  obtain calls stats where "callsOf st = calls"
    and "\<And>n. settled cloud_params (round_start goal_doc) (e_edgeNs sample_env) c ?ds [\<lparr>ai_name = ''b'', ai_version = ''2''\<rparr>] stats calls n"
    using round_filed[of putAll unreported writeInfos infosIn blank_doc] cloud_reported c
    by (auto simp: versions_params_simps range_ok_rev sample_desired mem_bolt_ok json_codec_ok answer_simps
        json_get ans b log db)
  with r settled_goal show ?thesis by blast
qed

end
