(* ===== verification/Prober_Net.thy ===== *)
theory Prober_Net
  imports Prober
begin

text \<open>
  What the probes of the native platform (\<^verbatim>\<open>ami/native/prober\<close>) put on the network: the requests of a
  probe, written down as they are made. A probe stays on the host it is configured with, however the
  process it probes redirects it, and ends.
\<close>

section \<open>Writing the requests down\<close>

definition traced :: "'n probe_net \<Rightarrow> (url list \<times> 'n) probe_net" where
  "traced N = \<lparr>pn_parse = pn_parse N, pn_request = pn_request N,
     pn_send = (\<lambda>t hs host timeout via u (us, n). let (r, n) = pn_send N t hs host timeout via u n in (r, (us @ [u], n))),
     pn_dial = (\<lambda>a timeout (us, n). let (r, n) = pn_dial N a timeout n in (r, (us, n))),
     pn_version = pn_version N\<rparr>"

lemma traced_simps:
  "pn_parse (traced N) = pn_parse N" "pn_request (traced N) = pn_request N" "pn_version (traced N) = pn_version N"
  by (simp_all add: traced_def)

lemma traced_send: "pn_send N t hs host timeout via u n = (r, n') \<Longrightarrow>
    pn_send (traced N) t hs host timeout via u (us, n) = (r, (us @ [u], n'))"
  by (simp add: traced_def)

text \<open>The requests of one call of the client: the result is the same, and they are few and to one host.\<close>

lemma clientDo_traced:
  assumes "clientDo N pr hs host timeout via u n = (r, n')" and "length via < 10"
    and "\<not> hp_followNonLocal pr" and "Hostname u = Hostname (hd (via @ [u]))"
  shows "\<exists>vs. clientDo (traced N) pr hs host timeout via u (us, n) = (r, (us @ vs, n')) \<and>
    length via + length vs \<le> 10 \<and> (\<forall>v \<in> set vs. Hostname v = Hostname u)"
  using assms
proof (induction N pr hs host timeout via u n arbitrary: us rule: clientDo.induct)
  case (1 N pr hs host timeout via u n)
  obtain q m where q: "pn_send N (hp_transport pr) hs host timeout via u n = (q, m)" by (rule prod.exhaust)
  note t = traced_send[OF q]
  show ?case
  proof (cases "\<exists>a v. q = Ok a \<and> hr_next a = Some (Ok v) \<and> redirectChecker (hp_followNonLocal pr) v (via @ [u]) = FollowRedirect")
    case False
    with 1(2) q t[of us] 1(3) show ?thesis
      by (intro exI[of _ "[u]"])
        (auto simp: clientDo.simps[of N] clientDo.simps[of "traced N"] split: result.splits option.splits redirect.splits)
  next
    case True
    then obtain a v where a: "q = Ok a" "hr_next a = Some (Ok v)"
      "redirectChecker (hp_followNonLocal pr) v (via @ [u]) = FollowRedirect" by blast
    have h: "hd ((via @ [u]) @ [v]) = hd (via @ [u])" by (simp add: hd_append)
    from redirectChecker_follow[OF a(3)] 1(4,5) have v: "length (via @ [u]) < 10" "Hostname v = Hostname (hd ((via @ [u]) @ [v]))"
      "Hostname v = Hostname u" unfolding h by simp_all
    from 1(2) q a have rest: "clientDo N pr hs host timeout (via @ [u]) v m = (r, n')"
      by (simp add: clientDo.simps[of N _ _ _ _ via])
    obtain vs where "clientDo (traced N) pr hs host timeout (via @ [u]) v (us @ [u], m) = (r, ((us @ [u]) @ vs, n'))"
      "length (via @ [u]) + length vs \<le> 10" "\<forall>w \<in> set vs. Hostname w = Hostname v"
      using 1(1)[OF q[symmetric] a(1,2) refl a(3) rest v(1) 1(4) v(2), of "us @ [u]"] by blast
    with t[of us] a v(3) show ?thesis
      by (intro exI[of _ "u # vs"]) (simp add: clientDo.simps[of "traced N" _ _ _ _ via])
  qed
qed

section \<open>The requests of a probe\<close>

text \<open>\<open>f'\<close> does what \<open>f\<close> does and writes down at most \<open>k\<close> requests, all of which are \<open>good\<close>.\<close>

definition writes :: "(url list \<times> 'n \<Rightarrow> 'r \<times> (url list \<times> 'n)) \<Rightarrow> ('n \<Rightarrow> 'r \<times> 'n) \<Rightarrow> nat \<Rightarrow> (url \<Rightarrow> bool) \<Rightarrow> bool" where
  "writes f' f k good \<longleftrightarrow>
     (\<forall>us n r n'. f n = (r, n') \<longrightarrow> (\<exists>vs. f' (us, n) = (r, (us @ vs, n')) \<and> length vs \<le> k \<and> (\<forall>v \<in> set vs. good v)))"

lemma writesI:
  assumes "\<And>us n r n'. f n = (r, n') \<Longrightarrow> \<exists>vs. f' (us, n) = (r, (us @ vs, n')) \<and> length vs \<le> k \<and> (\<forall>v \<in> set vs. good v)"
  shows "writes f' f k good"
  using assms unfolding writes_def by blast

lemma writesD:
  assumes "writes f' f k good" and "f n = (r, n')"
  obtains vs where "f' (us, n) = (r, (us @ vs, n'))" "length vs \<le> k" "\<forall>v \<in> set vs. good v"
  using assms unfolding writes_def by blast

lemma writes_none: "writes (\<lambda>(us, n). (r, (us, n))) (\<lambda>n. (r, n)) k good"
  by (auto simp: writes_def)

lemma httpProbe_writes:
  assumes "\<not> hp_followNonLocal pr"
  shows "writes (httpProbe (traced N) pr u hs timeout) (httpProbe N pr u hs timeout) 10 (\<lambda>v. Hostname v = Hostname u)"
proof (rule writesI)
  fix us n r n'
  assume run: "httpProbe N pr u hs timeout n = (r, n')"
  define pr' where "pr' = pr\<lparr>hp_transport := (hp_transport pr)\<lparr>ht_disableCompression := True\<rparr>\<rparr>"
  have nf: "\<not> hp_followNonLocal pr'" using assms by (simp add: pr'_def)
  let ?hs = "probeHeaders N hs"
  obtain a m where a: "clientDo N pr' ?hs (firstValue ?hs ''Host'') timeout [] u n = (a, m)" by (rule prod.exhaust)
  from clientDo_traced[OF a _ nf, of us] obtain vs where
    vs: "clientDo (traced N) pr' ?hs (firstValue ?hs ''Host'') timeout [] u (us, n) = (a, (us @ vs, m))"
      "length vs \<le> 10" "\<forall>v \<in> set vs. Hostname v = Hostname u" by auto
  have hs: "probeHeaders (traced N) hs = ?hs" by (simp add: probeHeaders_def traced_simps)
  show "\<exists>vs. httpProbe (traced N) pr u hs timeout (us, n) = (r, (us @ vs, n')) \<and> length vs \<le> 10 \<and>
      (\<forall>v \<in> set vs. Hostname v = Hostname u)"
  proof (cases "pn_request N u")
    case (Ok x)
    with run a vs show ?thesis
      by (intro exI[of _ vs])
        (auto simp: httpProbe_def DoHTTPProbe_def Let_def pr'_def[symmetric] hs traced_simps split: result.splits body_read.splits)
  qed (use run in \<open>auto simp: httpProbe_def DoHTTPProbe_def Let_def traced_simps intro!: exI[of _ "[]"]\<close>)
qed

lemma tryProbe_writes:
  assumes "writes f' f k good"
  shows "writes (tryProbe f' i) (tryProbe f i) (i * k) good"
proof (induction i)
  case (Suc i)
  show ?case
  proof (rule writesI)
    fix us n r n'
    assume run: "tryProbe f (Suc i) n = (r, n')"
    obtain q m where q: "f n = (q, m)" by (rule prod.exhaust)
    obtain vs where vs: "f' (us, n) = (q, (us @ vs, m))" "length vs \<le> k" "\<forall>v \<in> set vs. good v"
      using assms q by (rule writesD)
    show "\<exists>vs. tryProbe f' (Suc i) (us, n) = (r, (us @ vs, n')) \<and> length vs \<le> Suc i * k \<and> (\<forall>v \<in> set vs. good v)"
    proof (cases "\<exists>e. q = Err e \<and> i \<noteq> 0")
      case False
      with run q vs show ?thesis by (intro exI[of _ vs]) (cases q; auto)
    next
      case True
      then obtain e where e: "q = Err e" "i \<noteq> 0" by blast
      with run q have "tryProbe f i m = (r, n')" by simp
      obtain ws where "tryProbe f' i (us @ vs, m) = (r, ((us @ vs) @ ws, n'))" "length ws \<le> i * k" "\<forall>v \<in> set ws. good v"
        by (rule writesD[OF Suc.IH \<open>tryProbe f i m = (r, n')\<close>])
      with e vs show ?thesis by (intro exI[of _ "vs @ ws"]) auto
    qed
  qed
qed (auto simp: writes_def)

text \<open>The host of a probe, as its URL names it.\<close>

definition probedHost :: "http_get \<Rightarrow> string" where
  "probedHost h = (if hg_host h = [] then localhost else hg_host h)"

lemma splitPort_join:
  assumes "list_all (\<lambda>c. digitOf c \<noteq> None) d"
  shows "splitPort (h @ '':'' @ d) = h"
proof -
  have "digitOf (CHR '':'') = None" by (simp add: digitOf_def)
  with assms have c: "c \<in> set (rev d) \<Longrightarrow> c \<noteq> CHR '':''" for c by (auto simp: list_all_iff)
  have "dropWhile (\<lambda>c. c \<noteq> CHR '':'') (rev d @ CHR '':'' # rev h) = CHR '':'' # rev h"
    "takeWhile (\<lambda>c. c \<noteq> CHR '':'') (rev d @ CHR '':'' # rev h) = rev d"
    by (subst dropWhile_append2, erule c, simp, subst takeWhile_append2, erule c, simp)
  with assms show ?thesis by (simp add: splitPort_def list_all_iff)
qed

lemma dec_digits: "0 \<le> i \<Longrightarrow> list_all (\<lambda>c. digitOf c \<noteq> None) (dec i)"
  by (auto simp: dec_def list_all_iff dest!: dec_nat_digit simp: digitOf_digit)

text \<open>The host name of the URL of a probe is the host it was made for: \<open>Hostname\<close> undoes \<open>joinHostPort\<close>.\<close>

lemma Hostname_format:
  assumes "0 \<le> port" and "CHR '':'' \<in> set host \<or> hd host \<noteq> CHR ''[''"
  shows "Hostname (formatURL N scheme host port path) = host"
proof (cases "CHR '':'' \<in> set host")
  case True
  have "splitPort ((''['' @ host @ '']'') @ '':'' @ dec port) = ''['' @ host @ '']''"
    by (rule splitPort_join[OF dec_digits[OF assms(1)]])
  with True show ?thesis by (simp add: Hostname_def formatURL_def joinHostPort_def butlast_append)
next
  case False
  with assms(2) splitPort_join[OF dec_digits[OF assms(1)], of host] show ?thesis
    by (simp add: Hostname_def formatURL_def joinHostPort_def)
qed

text \<open>
  C17. A probe stays where it is pointed: however the answers redirect it and whatever errors the network
  gives, an HTTP probe with its repetitions makes at most thirty requests, every one of them to the host
  it is configured with (this node, if none is).
\<close>

theorem probe_stays_on_host:
  assumes "pb_httpGet p = Some h" and "0 \<le> portValue (hg_port h)"
    and "CHR '':'' \<in> set (probedHost h) \<or> hd (probedHost h) \<noteq> CHR ''[''"
    and "pb_probe N p n = (r, n')"
  shows "\<exists>us. pb_probe (traced N) p ([], n) = (r, (us, n')) \<and> length us \<le> 30 \<and> (\<forall>u \<in> set us. Hostname u = probedHost h)"
proof -
  have "writes (runProbe (traced N) p) (runProbe N p) 10 (\<lambda>u. Hostname u = probedHost h)"
  proof (cases "hg_port h = []")
    case True
    then show ?thesis using assms(1) by (auto simp: writes_def runProbe_def)
  next
    case False
    let ?u = "formatURL N (toLower (hg_scheme h)) (probedHost h) (portValue (hg_port h)) (hg_path h)"
    have "formatURL (traced N) = formatURL N" by (simp add: formatURL_def traced_simps fun_eq_iff)
    moreover have "\<not> hp_followNonLocal newProber" by (simp add: newProber_def NewHTTPProber_def NewWithTLSConfig_def)
    moreover have "Hostname ?u = probedHost h" using assms(2,3) by (rule Hostname_format)
    ultimately show ?thesis
      using False assms(1) httpProbe_writes[of newProber N ?u "buildHeader (hg_headers h)" "pb_timeoutSeconds p"]
      by (simp add: writes_def runProbe_def probedHost_def)
  qed
  from tryProbe_writes[OF this, of maxProbeRetries]
  have w: "writes (tryProbe (runProbe (traced N) p) maxProbeRetries) (tryProbe (runProbe N p) maxProbeRetries) 30
      (\<lambda>u. Hostname u = probedHost h)" by (simp add: maxProbeRetries_def)
  obtain q m where q: "tryProbe (runProbe N p) maxProbeRetries n = (q, m)" by (rule prod.exhaust)
  from w q obtain us where "tryProbe (runProbe (traced N) p) maxProbeRetries ([], n) = (q, ([] @ us, m))"
    "length us \<le> 30" "\<forall>u \<in> set us. Hostname u = probedHost h" by (rule writesD)
  with assms(4) q show ?thesis by (auto simp: pb_probe_def)
qed

text \<open>A process that redirects to another machine: the probe makes one request, to this node.\<close>

definition luring :: "unit probe_net" where
  "luring = refusing\<lparr>pn_send := \<lambda>_ _ _ _ _ u n. (Ok \<lparr>hr_answer = \<lparr>ha_code = 302, ha_body = BodyAll []\<rparr>,
     hr_next = Some (Ok (u\<lparr>url_host := ''example.com:80''\<rparr>))\<rparr>, n)\<rparr>"

theorem probe_stays_on_host_witness:
  "\<exists>us. pb_probe (traced luring) http_probe ([], ()) = (Ok ProbeSuccess, (us, ())) \<and> length us \<le> 30 \<and>
     (\<forall>u \<in> set us. Hostname u = ''127.0.0.1'')"
proof -
  have "probedHost \<lparr>hg_scheme = ''HTTP'', hg_host = [], hg_port = ''80'', hg_path = ''/'', hg_headers = []\<rparr> = ''127.0.0.1''"
    by (simp add: probedHost_def localhost_def)
  moreover have "pb_probe luring http_probe () = (Ok ProbeSuccess, ())"
    by code_simp
  moreover have "portValue ''80'' = 80" by code_simp
  ultimately show ?thesis
    using probe_stays_on_host[of http_probe "\<lparr>hg_scheme = ''HTTP'', hg_host = [], hg_port = ''80'', hg_path = ''/'', hg_headers = []\<rparr>"
        luring "()" "Ok ProbeSuccess" "()"]
    by (simp add: http_probe_def)
qed

end
