(* ===== verification/Config.thy ===== *)
theory Config
  imports Initz Kube
begin

text \<open>
  The configuration of the program (\<^verbatim>\<open>config/config.go\<close>, \<^verbatim>\<open>plugin/pubsub/config.go\<close>): the structs as
  records, the values their tags give to fields that are not set, and the checks their tags ask for.
  The structs of \<^verbatim>\<open>baetyl-go\<close> inside (certificates, HTTP servers and clients, loggers) are type
  parameters; their own defaults are that library's.
\<close>

section \<open>The structs\<close>

text \<open>Durations are nanoseconds.\<close>

definition seconds :: "int \<Rightarrow> int" where "seconds n = n * 1000000000"
definition minutes :: "int \<Rightarrow> int" where "minutes n = seconds (60 * n)"
definition hours :: "int \<Rightarrow> int" where "hours n = minutes (60 * n)"

record engine_config =
  ec_reportInterval :: int
  ec_cleanInterval :: int

record publish_config =
  pu_qos :: "8 word"
  pu_topic :: string

record event_config =
  ev_notify :: bool
  ev_publish :: publish_config

record kube_config =
  kc_outCluster :: bool
  kc_confPath :: string
  kc_logConfig :: log_config

record ports_range =
  pr_start :: int
  pr_end :: int

record native_config =
  na_portsRange :: ports_range

record ami_config =
  am_kube :: kube_config
  am_native :: native_config

record store_config =
  st_path :: string

record 'cli sync_config =
  sy_reportInterval :: int
  sy_downloadPath :: string
  sy_downloadClient :: 'cli

record batch_config =
  bc_name :: string
  bc_namespace :: string
  bc_securityType :: string
  bc_securityKey :: string
  bc_mode :: string

record server_config =
  se_listen :: string
  se_pages :: string

record collector_config =
  cl_fingerprints :: "fingerprint list"
  cl_attributes :: "attribute list"
  cl_nodeInfo :: "attribute list"
  cl_serial :: "attribute list"
  cl_server :: server_config

record 'cli active_config =
  ai_client :: 'cli
  ai_url :: string
  ai_interval :: int
  ai_collector :: collector_config

record 'cli init_config =
  in_batch :: batch_config
  in_active :: "'cli active_config"

record pki_config =
  pk_subDuration :: int
  pk_rootDuration :: int

record security_config =
  sc_kind :: string
  sc_pki :: pki_config

record ('cert, 'cli, 'srv, 'log) config =
  cf_node :: 'cert
  cf_engine :: engine_config
  cf_ami :: ami_config
  cf_sync :: "'cli sync_config"
  cf_store :: store_config
  cf_event :: event_config
  cf_init :: "'cli init_config"
  cf_security :: security_config
  cf_server :: 'srv
  cf_logger :: 'log
  cf_link :: string
  cf_pubsub :: string
  cf_mqttCert :: 'cert

record pubsub_config =
  ps_size :: int

section \<open>Defaults\<close>

text \<open>A field with a \<^verbatim>\<open>default\<close> tag takes it where it has its zero value.\<close>

definition orInt :: "int \<Rightarrow> int \<Rightarrow> int" where "orInt d x = (if x = 0 then d else x)"
definition orText :: "string \<Rightarrow> string \<Rightarrow> string" where "orText d x = (if x = [] then d else x)"

definition engineDefaults :: "engine_config \<Rightarrow> engine_config" where
  "engineDefaults c = c\<lparr>ec_reportInterval := orInt (seconds 10) (ec_reportInterval c),
     ec_cleanInterval := orInt (minutes 10) (ec_cleanInterval c)\<rparr>"

definition eventDefaults :: "event_config \<Rightarrow> event_config" where
  "eventDefaults c = c\<lparr>ev_publish := (ev_publish c)\<lparr>pu_topic := orText ''$baetyl/node/props'' (pu_topic (ev_publish c))\<rparr>\<rparr>"

definition portsDefaults :: "ports_range \<Rightarrow> ports_range" where
  "portsDefaults r = r\<lparr>pr_start := orInt 50200 (pr_start r), pr_end := orInt 51000 (pr_end r)\<rparr>"

definition amiDefaults :: "ami_config \<Rightarrow> ami_config" where
  "amiDefaults c = c\<lparr>am_native := (am_native c)\<lparr>na_portsRange := portsDefaults (na_portsRange (am_native c))\<rparr>\<rparr>"

definition storeDefaults :: "store_config \<Rightarrow> store_config" where
  "storeDefaults c = c\<lparr>st_path := orText ''var/lib/baetyl/store/core.db'' (st_path c)\<rparr>"

definition syncDefaults :: "'cli sync_config \<Rightarrow> 'cli sync_config" where
  "syncDefaults c = c\<lparr>sy_reportInterval := orInt (seconds 20) (sy_reportInterval c),
     sy_downloadPath := orText ''var/lib/baetyl/object'' (sy_downloadPath c)\<rparr>"

definition serverDefaults :: "server_config \<Rightarrow> server_config" where
  "serverDefaults c = c\<lparr>se_pages := orText ''etc/baetyl/pages'' (se_pages c)\<rparr>"

definition initDefaults :: "'cli init_config \<Rightarrow> 'cli init_config" where
  "initDefaults c =
     (let b = in_batch c; a = in_active c; co = ai_collector a
      in c\<lparr>in_batch := b\<lparr>bc_mode := orText ''kube'' (bc_mode b)\<rparr>,
           in_active := a\<lparr>ai_url := orText ''/v1/active'' (ai_url a), ai_interval := orInt (seconds 45) (ai_interval a),
             ai_collector := co\<lparr>cl_server := serverDefaults (cl_server co)\<rparr>\<rparr>\<rparr>)"

definition pkiDefaults :: "pki_config \<Rightarrow> pki_config" where
  "pkiDefaults c = c\<lparr>pk_subDuration := orInt (hours 175200) (pk_subDuration c),
     pk_rootDuration := orInt (hours 438000) (pk_rootDuration c)\<rparr>"

definition securityDefaults :: "security_config \<Rightarrow> security_config" where
  "securityDefaults c = c\<lparr>sc_kind := orText ''pki'' (sc_kind c), sc_pki := pkiDefaults (sc_pki c)\<rparr>"

definition configDefaults :: "('cert, 'cli, 'srv, 'log) config \<Rightarrow> ('cert, 'cli, 'srv, 'log) config" where
  "configDefaults c = c\<lparr>cf_engine := engineDefaults (cf_engine c), cf_ami := amiDefaults (cf_ami c),
     cf_sync := syncDefaults (cf_sync c), cf_store := storeDefaults (cf_store c), cf_event := eventDefaults (cf_event c),
     cf_init := initDefaults (cf_init c), cf_security := securityDefaults (cf_security c),
     cf_link := orText ''httplink'' (cf_link c), cf_pubsub := orText ''defaultpubsub'' (cf_pubsub c)\<rparr>"

definition pubsubDefaults :: "pubsub_config \<Rightarrow> pubsub_config" where
  "pubsubDefaults c = c\<lparr>ps_size := orInt 10 (ps_size c)\<rparr>"

text \<open>The default pubsub plugin is the library's, made for the configured size; \<open>loaded\<close> is what is read of the file.\<close>

definition NewPubsub :: "pubsub_config result \<Rightarrow> (int \<Rightarrow> 'p result) \<Rightarrow> 'p result" where
  "NewPubsub loaded new = rbind loaded (\<lambda>cfg. new (ps_size cfg))"

named_theorems config_defaults

lemmas [config_defaults] = engineDefaults_def eventDefaults_def portsDefaults_def amiDefaults_def storeDefaults_def
  syncDefaults_def serverDefaults_def initDefaults_def pkiDefaults_def securityDefaults_def configDefaults_def
  pubsubDefaults_def Let_def seconds_def minutes_def hours_def

lemma or_twice [simp]: "orInt d (orInt d x) = orInt d x" "orText u (orText u t) = orText u t"
  by (simp_all add: orInt_def orText_def)

lemma or_set: "x \<noteq> 0 \<Longrightarrow> orInt d x = x" "t \<noteq> [] \<Longrightarrow> orText u t = t"
  by (simp_all add: orInt_def orText_def)

text \<open>Filling in the defaults twice changes nothing more.\<close>

lemma configDefaults_twice: "configDefaults (configDefaults c) = configDefaults c"
  by (simp add: config_defaults)

section \<open>Checks\<close>

definition attributeValid :: "attribute \<Rightarrow> bool" where
  "attributeValid a \<longleftrightarrow> at_name a \<noteq> [] \<and> at_label a \<noteq> []"

definition publishValid :: "publish_config \<Rightarrow> bool" where
  "publishValid p \<longleftrightarrow> pu_qos p \<le> 1 \<and> pu_topic p \<noteq> []"

definition configValid :: "('cert, 'cli, 'srv, 'log) config \<Rightarrow> bool" where
  "configValid c \<longleftrightarrow> publishValid (ev_publish (cf_event c)) \<and>
     list_all attributeValid (cl_attributes (ai_collector (in_active (cf_init c)))) \<and>
     list_all attributeValid (cl_nodeInfo (ai_collector (in_active (cf_init c)))) \<and>
     list_all attributeValid (cl_serial (ai_collector (in_active (cf_init c))))"

text \<open>
  What the defaults give the loops and the certificate authority: every interval is positive, so that
  the tickers start, and fits the 64 bits of a duration; the ports of the native platform are a range;
  the certificates of applications end before the root does.
\<close>

definition intervals :: "('cert, 'cli, 'srv, 'log) config \<Rightarrow> int list" where
  "intervals c = [ec_reportInterval (cf_engine c), ec_cleanInterval (cf_engine c), sy_reportInterval (cf_sync c),
     ai_interval (in_active (cf_init c)), pk_subDuration (sc_pki (cf_security c)), pk_rootDuration (sc_pki (cf_security c))]"

lemma intervals_default: "list_all (\<lambda>d. d = 0) (intervals c) \<Longrightarrow>
    list_all (\<lambda>d. 0 < d \<and> d < 2 ^ 63) (intervals (configDefaults c))"
  by (simp add: intervals_def config_defaults orInt_def)

lemma ports_default: "pr_start (portsDefaults \<lparr>pr_start = 0, pr_end = 0\<rparr>) < pr_end (portsDefaults \<lparr>pr_start = 0, pr_end = 0\<rparr>)"
  by (simp add: config_defaults orInt_def)

lemma pki_default: "pk_subDuration (pkiDefaults \<lparr>pk_subDuration = 0, pk_rootDuration = 0\<rparr>) <
    pk_rootDuration (pkiDefaults \<lparr>pk_subDuration = 0, pk_rootDuration = 0\<rparr>)"
  by (simp add: config_defaults orInt_def)

end
