(* ===== verification/Spec2Isabelle.thy ===== *)
theory Spec2Isabelle
  imports Engine_Checks Engine_Clean Engine_Core Engine_Handler Native Kube Initz Security Link Eventx
    Ami_Registry System Cmd Native_Collect Startup Remote Session Lifecycle Node_Concurrent Services
    Engine_Goal Prober_Net Config
begin

text \<open>
  Verification library for baetyl (module \<^verbatim>\<open>github.com/baetyl/baetyl/v2\<close>), the edge side of an edge
  computing framework. An edge node keeps a shadow document of what it is and what the cloud wants
  it to be; the engine reconciles the two round by round, on Kubernetes or on the bare machine.

  \<^bold>\<open>The program and its theories\<close>

  \<^item> \<open>Prelude\<close>: results of Go calls (value, error, panic), sequencing of state-passing calls, loops
    with early return, Go maps as association lists with an explicit range order, decimal numbers.
  \<^item> \<open>Spec_Types\<close>: the structs exchanged (the part of \<^verbatim>\<open>baetyl-go/spec/v1\<close> the sources use) and the
    operations of the persistent store, which is an argument with the hypothesis \<open>store_ok\<close>.
  \<^item> \<open>Keys\<close>: \<^verbatim>\<open>utils.MakeKey\<close> and its copy in \<^verbatim>\<open>sync\<close>, both instances of the locale \<open>key_scheme\<close>.
  \<^item> \<open>Go_Path\<close>: \<^verbatim>\<open>path/filepath\<close> and the file system operations used, with confinement lemmas.
  \<^item> \<open>Engine_Plan\<close>, \<open>Engine_Collide\<close>, \<open>Engine_Checks\<close> (\<^verbatim>\<open>engine/utils.go\<close>, parts of \<^verbatim>\<open>engine/engine.go\<close>):
    what to delete and apply, which applications collide on services and host ports.
  \<^item> \<open>Engine_Clean\<close> (\<^verbatim>\<open>engine/clean.go\<close>): recycling of downloaded objects and cleaning of host paths.
  \<^item> \<open>Engine_Core\<close> (\<^verbatim>\<open>engine/engine.go\<close>): a whole round, applying one application, certificates, log
    requests. It uses the planning theories, the node document and the sync component; the platform
    is the record \<open>ami_ops\<close>.
  \<^item> \<open>Engine_Handler\<close> (\<^verbatim>\<open>engine/msg_handler.go\<close>, \<^verbatim>\<open>chain/\<close>): the commands of the cloud, their answers
    and the table of remote sessions.
  \<^item> \<open>Node\<close> (\<^verbatim>\<open>node/node.go\<close>): the shadow document and its transactions; \<open>Node_Concurrent\<close>: what happens
    when callers interleave their transactions.
  \<^item> \<open>Sync_Object\<close>, \<open>Sync\<close>, \<open>Sync_Report\<close> (\<^verbatim>\<open>sync/\<close>): downloads with their digests, preparation of host
    paths, fetching and storing of resources, the report rounds with the cloud.
  \<^item> \<open>Link\<close> (\<^verbatim>\<open>plugin/httplink\<close>): the link to the cloud over HTTP, a provider of the \<open>link_ops\<close> of \<open>Sync\<close>.
  \<^item> \<open>Eventx\<close> (\<^verbatim>\<open>eventx/handler.go\<close>): events to the MQTT broker, the consumer of what \<open>Sync_Report\<close>
    publishes.
  \<^item> \<open>Initz\<close> (\<^verbatim>\<open>initz/\<close>, \<^verbatim>\<open>utils/parse.go\<close>): the activation of a node, the activation server and the
    identity in the certificate.
  \<^item> \<open>Security\<close> (\<^verbatim>\<open>security/pki.go\<close>): the certificate authority of the node.
  \<^item> \<open>Ami_Registry\<close> (\<^verbatim>\<open>ami/ami.go\<close>): the platforms by mode.
  \<^item> \<open>Prober\<close> (\<^verbatim>\<open>ami/native/prober/\<close>): liveness probes, their workers and the manager; \<open>Prober_Net\<close>: the
    requests they make.
  \<^item> \<open>Native\<close> (\<^verbatim>\<open>ami/native/native.go\<close>, \<^verbatim>\<open>native_log.go\<close>): the platform that runs applications as
    system services.
  \<^item> \<open>Native_Collect\<close> (\<^verbatim>\<open>ami/native/native.go\<close>): what that platform tells of its node, and what it means
    for the activation.
  \<^item> \<open>Kube_Types\<close>, \<open>Kube_Pod\<close>, \<open>Kube_Apply\<close>, \<open>Kube_Collect\<close>, \<open>Kube_Helm\<close>, \<open>Kube_Yaml\<close>, \<open>Kube\<close>
    (\<^verbatim>\<open>ami/kube/\<close>): the Kubernetes platform. The objects and the API server as an argument; the objects
    made of an application; placing them and deleting them by label; what is reported; helm releases;
    yaml applications; and the platform's operations over these parts.
  \<^item> \<open>Remote\<close> (\<^verbatim>\<open>ami/ami.go\<close>, \<^verbatim>\<open>ami/kube/kube_exec.go\<close>, \<^verbatim>\<open>kube_rpc.go\<close>, \<^verbatim>\<open>native.go\<close>, \<^verbatim>\<open>native_log.go\<close>): shell,
    exec and websocket sessions, log streams and calls to applications, on both platforms.
  \<^item> \<open>Session\<close> (\<^verbatim>\<open>chain/debug.go\<close>, \<^verbatim>\<open>chain/view_logs.go\<close>): the goroutines of a session, as steps beside the
    commands of \<open>Engine_Handler\<close>.
  \<^item> \<open>Core_Server\<close> (\<^verbatim>\<open>core/core.go\<close>, \<^verbatim>\<open>utils/http.go\<close>): the HTTP routes over \<open>Node\<close> and \<open>Engine_Core\<close>.
  \<^item> \<open>System\<close>: these components together, their handlers as steps on one state (\<open>system_step\<close>), and what
    every run keeps.
  \<^item> \<open>Engine_Converge\<close>, \<open>Engine_Goal\<close>: the same state over any platform whose calls are logged
    (\<open>loggedAmi\<close>), against a contract of the codec of the document: what the document desires is what the
    platform is asked for. What a platform makes of an accepted call is the matter of \<open>Kube\<close> and \<open>Native\<close>.
  \<^item> \<open>Config\<close> (\<^verbatim>\<open>config/config.go\<close>, \<^verbatim>\<open>plugin/pubsub/\<close>): the configuration structs with their defaults.
  \<^item> \<open>Startup\<close> (\<^verbatim>\<open>core/core.go\<close>, \<^verbatim>\<open>initz/initialize.go\<close>, \<^verbatim>\<open>store/bolthold.go\<close>): the construction of the two
    services over \<open>Node\<close>, \<open>Ami_Registry\<close>, \<open>Security\<close>, \<open>Initz\<close> and the certificates of \<open>Engine_Core\<close>.
  \<^item> \<open>Lifecycle\<close> (\<^verbatim>\<open>Start\<close>, \<^verbatim>\<open>Close\<close>, \<^verbatim>\<open>reporting\<close>, \<^verbatim>\<open>receiving\<close>, \<^verbatim>\<open>cleaning\<close> of the components): the loops over
    their ticks, each of whose rounds is a step of \<open>System\<close>, and the goroutines as a set of running tasks,
    beside the sessions and probe workers their work starts; both services from start to end.
  \<^item> \<open>Cmd\<close> (\<^verbatim>\<open>cmd/apply.go\<close>, \<^verbatim>\<open>cmd/delete.go\<close>): applying and deleting from the command line.
  \<^item> \<open>Services\<close> (\<^verbatim>\<open>cmd/service.go\<close>, \<^verbatim>\<open>program/\<close>): the commands that control services, and the program each
    service of \<open>Native\<close> runs.

  \<^bold>\<open>How the code is translated\<close>

  A Go function with an error result returns \<open>Ok\<close>, \<open>Err\<close> with the constant part of the message, or
  \<open>Panic\<close>; a method that changes state takes the state last and returns it last, also on failure.
  Logging and stack traces are dropped. Code outside the repository (baetyl-go, the stores, the
  service library, Kubernetes, helm, HTTP, MQTT) is a record of functions passed to the definitions;
  what a theorem relies on is a named predicate on that record (\<open>store_ok\<close>, \<open>bolt_ok\<close>, \<open>codec_ok\<close>,
  \<open>cluster_ok\<close> and \<open>namespaces_apart\<close> for the API server, \<open>copier_ok\<close>, \<open>helm_ok\<close>, \<open>custom_ok\<close>,
  \<open>cert_store_ok\<close>, \<open>event_codec_ok\<close> and, for a whole round, \<open>shadow_ok\<close>), and the witnesses instantiate it with concrete functions. A range
  over a Go map goes through an order \<open>rng\<close> of which only \<open>range_ok\<close> is known. Failures of the operating
  system are chosen by \<open>os_env\<close>. Goroutines are steps of a relation (\<open>mg_reachable\<close>, \<open>session_step\<close>, \<open>working\<close>) or, in
  \<open>applyApps\<close>, run one after the other in an open order; the calls on the certificate authority and on
  the registry of platforms are steps of \<open>pki_step\<close>, in which a restart may change the identity of the node,
  and \<open>registry_step\<close>. A message is counted as published when it is handed to the bus, also when the bus
  refuses it, which the sources only log.

  \<^bold>\<open>What the lemmas show\<close>

  Planning: the lists of a round are exactly what the desire asks for, and nothing desired is deleted.
  Collisions: one application of each group wins, the others are explained. Cleaning and recycling:
  the records in use stay, under the conditions the theorems state, the rest goes. Node: updates are all or nothing, and round trips of the
  document. Sync: downloads are verified, stored versions are never replaced. Handler: commands are
  answered, with the exceptions the theorem names, and data reaches its session or the cloud was told. Sessions: both directions are relayed complete and in order,
  whatever is opened is closed, and the cloud is told when a session ends. Node transactions: reports and
  desires commute, an update of the properties does not commute with a report. Probes: workers follow the set of services, and a streak of
  failures restarts. Platforms: deleting and applying stay within their application, and statistics are
  exact. Kubernetes: pods are complete, selectors match templates, ports are published once. Activation
  and authority: what an activation installs, and that the authority of a node survives. Starting: what is
  in place once a service is constructed, and that it bears the identity it was activated with. Closing:
  no task of the components is left running, sessions and probe workers are. Services: restarting tries all, and a program logs where the platform reads. The whole: no
  run of the handlers loses what is stored, applications stay under their own keys, only the cloud changes
  what is desired, and a round that ends without an error has asked the platform for what is desired and for
  nothing else, or reports why not.

  \<^bold>\<open>Interfaces\<close>

  The locale \<open>key_scheme\<close> is the contract of the key functions, \<open>put_once\<close> that of the stores of
  applications, configurations and secrets, \<open>blaming\<close> that of the three collision checks, and \<open>placing\<close>
  that of the routines that put an object into the cluster. \<open>round_invariant\<close> is what a property of the
  store and the node document must be kept by for a round of the engine to keep it, and
  \<open>system_invariant\<close> extends it to all handlers. Each is interpreted on the model's own definitions.

  \<^bold>\<open>Bounds and fuel\<close>

  Integers are mathematical except where the width matters: log parameters are checked to fit an
  int64, process ids are cut to int32, and the replica counts, ports and job numbers handed to
  Kubernetes are words of 32 bits, the counters of the host words of 64. The walk over child processes has fuel for one level more than there
  are processes, enough for every table without cycles (\<open>children_end\<close>). The HTTP client of a probe follows redirects while
  its checker allows, ten requests at most. Every other loop is structural
  or has a measure.

  \<^bold>\<open>Not modelled\<close>

  The libraries the sources call (baetyl-go, the database, client-go, helm, ssh, HTTP, MQTT, the service
  library), which are arguments; statistics in floating point and the humanised byte counts in log
  lines; creation times and request rates; the registration of commands and flags, and the commands
  that print or only start one of the services; the mocks, which are generated. A pipe is what its
  reader gets, cut into reads of bounded size; that a reader and a writer of a pipe block each other
  is not modelled, nor are data races inside one call.
\<close>

end
